(* ===== verification/Prelude.thy ===== *)
theory Prelude
  imports Main
    "HOL-Library.AList"
    "HOL-Library.Multiset"
    "HOL-Library.Sublist"
    "HOL-Library.Char_ord"
    "HOL-Library.List_Lexorder"
    "HOL-Library.Product_Lexorder"
begin

text \<open>
  Shared ground of the development: the error values of the server, results and stateful
  procedures built from them, the pieces of the Go standard library the modelled code uses on
  strings, and generic lemmas on lists and association lists.

  A Go function that returns \<open>(T, error)\<close> becomes a function into \<open>('e, 'a) result\<close>; a
  method that also changes state becomes a \<open>proc\<close>, a function from the state to the result and
  the new state. A procedure keeps the state it has reached when it fails, as the Go code does;
  only a transaction rolls back.
\<close>

section \<open>Proof-automation collections\<close>

named_theorems go_simps \<open>unfoldings of results, procedures and Go library functions\<close>
named_theorems inv_intros \<open>preservation lemmas of component invariants\<close>

section \<open>Errors (internal/apperr)\<close>

text \<open>
  \<open>apperr.Error\<close> carries a stable code that clients branch on; the message may be reworded
  freely. Messages are therefore English glosses here, and every other Go error value
  (\<open>errors.New\<close>, \<open>fmt.Errorf\<close>, a driver error) is a \<open>PlainError\<close> with the wrapped cause.
\<close>

datatype err_code =
    CodeUnauthorized | CodeForbidden | CodeNotFound | CodeInvalidInput | CodeConflict | CodeInternal

datatype go_error =
    AppError err_code string "go_error option"
  | PlainError string "go_error option"

definition Unauthorized :: "string \<Rightarrow> go_error" where
  "Unauthorized m = AppError CodeUnauthorized m None"

definition Forbidden :: "string \<Rightarrow> go_error" where
  "Forbidden m = AppError CodeForbidden m None"

definition NotFound :: "string \<Rightarrow> go_error" where
  "NotFound m = AppError CodeNotFound m None"

definition InvalidInput :: "string \<Rightarrow> go_error" where
  "InvalidInput m = AppError CodeInvalidInput m None"

definition Conflict :: "string \<Rightarrow> go_error" where
  "Conflict m = AppError CodeConflict m None"

definition Errorf :: "string \<Rightarrow> go_error" where
  "Errorf m = PlainError m None"

text \<open>\<open>CodeOf\<close> walks the chain of wrapped errors to the first \<open>apperr.Error\<close>.\<close>

fun CodeOf :: "go_error \<Rightarrow> err_code" where
  "CodeOf (AppError c m e) = c"
| "CodeOf (PlainError m None) = CodeInternal"
| "CodeOf (PlainError m (Some e)) = CodeOf e"

lemma CodeOf_simps [simp]:
  "CodeOf (Unauthorized m) = CodeUnauthorized"
  "CodeOf (Forbidden m) = CodeForbidden"
  "CodeOf (NotFound m) = CodeNotFound"
  "CodeOf (InvalidInput m) = CodeInvalidInput"
  "CodeOf (Conflict m) = CodeConflict"
  "CodeOf (Errorf m) = CodeInternal"
  by (simp_all add: Unauthorized_def Forbidden_def NotFound_def InvalidInput_def Conflict_def
      Errorf_def)

section \<open>Results\<close>

type_synonym 'a result = "go_error + 'a"

abbreviation Err :: "go_error \<Rightarrow> 'a result" where
  "Err \<equiv> Inl"

abbreviation Ok :: "'a \<Rightarrow> 'a result" where
  "Ok \<equiv> Inr"

definition andThen :: "'a result \<Rightarrow> ('a \<Rightarrow> 'b result) \<Rightarrow> 'b result" where
  "andThen r f = (case r of Inl e \<Rightarrow> Inl e | Inr x \<Rightarrow> f x)"

lemma andThen_simps [simp, go_simps]:
  "andThen (Inl e) f = Inl e"
  "andThen (Inr x) f = f x"
  by (simp_all add: andThen_def)

lemma andThen_Inr_iff: "andThen r f = Inr y \<longleftrightarrow> (\<exists>x. r = Inr x \<and> f x = Inr y)"
  by (cases r) simp_all

lemma andThen_Inl_iff: "andThen r f = Inl e \<longleftrightarrow> r = Inl e \<or> (\<exists>x. r = Inr x \<and> f x = Inl e)"
  by (cases r) simp_all

lemma andThen_assoc: "andThen (andThen r f) g = andThen r (\<lambda>x. andThen (f x) g)"
  by (cases r) simp_all

section \<open>Stateful procedures\<close>

type_synonym ('s, 'a) proc = "'s \<Rightarrow> 'a result \<times> 's"

definition ret :: "'a \<Rightarrow> ('s, 'a) proc" where
  "ret x s = (Inr x, s)"

definition throw :: "go_error \<Rightarrow> ('s, 'a) proc" where
  "throw e s = (Inl e, s)"

definition bindP :: "('s, 'a) proc \<Rightarrow> ('a \<Rightarrow> ('s, 'b) proc) \<Rightarrow> ('s, 'b) proc" where
  "bindP m f s = (case m s of (Inl e, s') \<Rightarrow> (Inl e, s') | (Inr x, s') \<Rightarrow> f x s')"

definition liftR :: "'a result \<Rightarrow> ('s, 'a) proc" where
  "liftR r s = (r, s)"

definition guardP :: "bool \<Rightarrow> go_error \<Rightarrow> ('s, unit) proc" where
  "guardP b e s = (if b then (Inr (), s) else (Inl e, s))"

text \<open>\<open>tryP m h\<close> runs \<open>m\<close> and hands its result, error or not, to \<open>h\<close>: Go code that looks at
  \<open>err\<close> without returning it.\<close>

definition tryP :: "('s, 'a) proc \<Rightarrow> ('a result \<Rightarrow> ('s, 'b) proc) \<Rightarrow> ('s, 'b) proc" where
  "tryP m h s = (case m s of (r, s') \<Rightarrow> h r s')"

lemma proc_simps [simp, go_simps]:
  "ret x s = (Inr x, s)"
  "throw e s = (Inl e, s)"
  "liftR r s = (r, s)"
  "guardP True e s = (Inr (), s)"
  "guardP False e s = (Inl e, s)"
  by (simp_all add: ret_def throw_def liftR_def guardP_def)

lemma bindP_eq [go_simps]:
  "bindP m f s = (case m s of (Inl e, s') \<Rightarrow> (Inl e, s') | (Inr x, s') \<Rightarrow> f x s')"
  by (simp add: bindP_def)

lemma bindP_eval [simp]:
  "m s = (Inl e, s') \<Longrightarrow> bindP m f s = (Inl e, s')"
  "m s = (Inr x, s') \<Longrightarrow> bindP m f s = f x s'"
  by (simp_all add: bindP_def)

lemma bindP_InrE:
  assumes "bindP m f s = (Inr y, t)"
  obtains x s' where "m s = (Inr x, s')" "f x s' = (Inr y, t)"
  using assms by (auto simp: bindP_def split: prod.splits sum.splits)

lemma bindP_assoc: "bindP (bindP m f) g = bindP m (\<lambda>x. bindP (f x) g)"
  by (rule ext) (simp add: bindP_def split: prod.split sum.split)

lemma bindP_ret [simp]: "bindP m ret = m" "bindP (ret x) f = f x"
  by (rule ext, simp add: bindP_def split: prod.split sum.split)+

lemma guardP_Inr_iff: "guardP b e s = (Inr u, t) \<longleftrightarrow> b \<and> t = s"
  by (auto simp: guardP_def)

lemma bindP_guard_Inr:
  "bindP (guardP b e) f s = (Inr y, t) \<longleftrightarrow> b \<and> f () s = (Inr y, t)"
  by (cases b) (simp_all add: bindP_def)

lemma bindP_liftR_Inr:
  "bindP (liftR r) f s = (Inr y, t) \<longleftrightarrow> (\<exists>x. r = Inr x \<and> f x s = (Inr y, t))"
  by (cases r) (simp_all add: bindP_def)

lemmas proc_Inr = bindP_guard_Inr bindP_liftR_Inr guardP_Inr_iff

text \<open>A transaction (infra/mysql/tx_manager.go): the error of the body rolls the state back and is
  returned; success commits.\<close>

definition RunInTx :: "('s, 'a) proc \<Rightarrow> ('s, 'a) proc" where
  "RunInTx body s = (case body s of (Inl e, s') \<Rightarrow> (Inl e, s) | (Inr x, s') \<Rightarrow> (Inr x, s'))"

lemma RunInTx_Inl: "RunInTx body s = (Inl e, t) \<Longrightarrow> t = s"
  by (auto simp: RunInTx_def split: prod.splits sum.splits)

lemma RunInTx_Inr_iff: "RunInTx body s = (Inr x, t) \<longleftrightarrow> body s = (Inr x, t)"
  by (auto simp: RunInTx_def split: prod.splits sum.splits)

section \<open>Go strings\<close>

text \<open>A Go string is a sequence of bytes, and an Isabelle \<open>char\<close> is a byte, so \<open>length\<close> is Go's
  \<open>len\<close> and the order of HOL-Library.List_Lexorder is Go's \<open><\<close> on strings. Non-ASCII
  constants of the source are given by their UTF-8 bytes.\<close>

definition utf8 :: "nat list \<Rightarrow> string" where
  "utf8 ns = map char_of ns"

definition HasPrefix :: "string \<Rightarrow> string \<Rightarrow> bool" where
  "HasPrefix s p = (take (length p) s = p)"

definition TrimPrefix :: "string \<Rightarrow> string \<Rightarrow> string" where
  "TrimPrefix s p = (if HasPrefix s p then drop (length p) s else s)"

lemma HasPrefix_iff: "HasPrefix s p \<longleftrightarrow> (\<exists>t. s = p @ t)"
proof
  assume "HasPrefix s p"
  then have "s = p @ drop (length p) s"
    by (metis HasPrefix_def append_take_drop_id)
  then show "\<exists>t. s = p @ t" ..
qed (auto simp: HasPrefix_def)

lemma TrimPrefix_append [simp]: "TrimPrefix (p @ t) p = t"
  by (simp add: TrimPrefix_def HasPrefix_def)

text \<open>\<open>strings.Join\<close>.\<close>

fun Join :: "string \<Rightarrow> string list \<Rightarrow> string" where
  "Join sep [] = []"
| "Join sep [x] = x"
| "Join sep (x # y # ys) = x @ sep @ Join sep (y # ys)"

text \<open>\<open>strconv.Itoa\<close>: decimal digits, most significant first, with a leading minus sign.\<close>

fun digits_of :: "nat \<Rightarrow> string" where
  "digits_of n =
     (if n < 10 then [char_of (48 + n)]
      else digits_of (n div 10) @ [char_of (48 + n mod 10)])"

declare digits_of.simps [simp del]

definition Itoa :: "int \<Rightarrow> string" where
  "Itoa i = (if i < 0 then CHR ''-'' # digits_of (nat (- i)) else digits_of (nat i))"

text \<open>\<open>strings.SplitN(s, sep, 2)\<close> for a one-byte separator: the parts before and after its first
  occurrence, or the whole string alone.\<close>

fun split_first :: "char \<Rightarrow> string \<Rightarrow> (string \<times> string) option" where
  "split_first c [] = None"
| "split_first c (x # xs) =
     (if x = c then Some ([], xs)
      else (case split_first c xs of None \<Rightarrow> None | Some (a, b) \<Rightarrow> Some (x # a, b)))"

text \<open>\<open>strconv.Atoi\<close>: an optional sign, then at least one digit; \<open>None\<close> is the parse error. A value
  outside the 64-bit range is the range error, also \<open>None\<close>.\<close>

definition digit_val :: "char \<Rightarrow> nat option" where
  "digit_val c =
     (let n = of_char c in if 48 \<le> n \<and> n \<le> (57::nat) then Some (n - 48) else None)"

fun digits_val :: "nat \<Rightarrow> string \<Rightarrow> nat option" where
  "digits_val acc [] = Some acc"
| "digits_val acc (c # cs) =
     (case digit_val c of None \<Rightarrow> None | Some d \<Rightarrow> digits_val (10 * acc + d) cs)"

definition in_int64 :: "int \<Rightarrow> bool" where
  "in_int64 i \<longleftrightarrow> - (2 ^ 63) \<le> i \<and> i < 2 ^ 63"

definition Atoi :: "string \<Rightarrow> int option" where
  "Atoi s =
     (let (neg, ds) = (case s of
             [] \<Rightarrow> (False, [])
           | c # cs \<Rightarrow> if c = CHR ''-'' then (True, cs)
                       else if c = CHR ''+'' then (False, cs) else (False, s))
      in if ds = [] then None
         else (case digits_val 0 ds of
                 None \<Rightarrow> None
               | Some n \<Rightarrow>
                   (let i = (if neg then - int n else int n) in
                    if in_int64 i then Some i else None)))"

lemma digit_val_char_of: "d < 10 \<Longrightarrow> digit_val (char_of (48 + d)) = Some d"
  by (simp add: digit_val_def Let_def)

lemma digits_val_append:
  "digits_val acc (xs @ [c]) =
     (case digits_val acc xs of None \<Rightarrow> None
      | Some n \<Rightarrow> map_option (\<lambda>d. 10 * n + d) (digit_val c))"
  by (induction xs arbitrary: acc) (auto split: option.splits)

lemma digits_val_digits_of: "digits_val 0 (digits_of n) = Some n"
  by (induction n rule: digits_of.induct, subst digits_of.simps)
     (simp add: digits_val_append digit_val_char_of)

lemma digits_of_nonempty [simp]: "digits_of n \<noteq> []"
  by (subst digits_of.simps) simp

lemma set_digits_of: "c \<in> set (digits_of n) \<Longrightarrow> 48 \<le> (of_char c :: nat) \<and> (of_char c :: nat) \<le> 57"
  by (induction n rule: digits_of.induct, subst (asm) (2) digits_of.simps)
     (auto split: if_splits)

lemma digits_of_no_sign:
  "CHR ''-'' \<notin> set (digits_of n)" "CHR ''+'' \<notin> set (digits_of n)" "CHR '':'' \<notin> set (digits_of n)"
  using set_digits_of by fastforce+

lemma Atoi_Itoa: "in_int64 i \<Longrightarrow> Atoi (Itoa i) = Some i"
proof (cases "i < 0")
  case True
  assume "in_int64 i"
  with True show ?thesis
    by (simp add: Atoi_def Itoa_def digits_val_digits_of)
next
  case False
  assume "in_int64 i"
  obtain c cs where c: "digits_of (nat i) = c # cs"
    by (cases "digits_of (nat i)") auto
  then have "c \<noteq> CHR ''-''" "c \<noteq> CHR ''+''"
    using digits_of_no_sign [of "nat i"] by auto
  with c False \<open>in_int64 i\<close> digits_val_digits_of [of "nat i"] show ?thesis
    by (simp add: Atoi_def Itoa_def)
qed

lemma Itoa_inj: "Itoa i = Itoa j \<Longrightarrow> i = j"
proof -
  have hd_neq: "digits_of n \<noteq> CHR ''-'' # xs" for n xs
    using digits_of_no_sign(1) [of n] by auto
  have inj: "digits_of m = digits_of n \<Longrightarrow> m = n" for m n
    by (metis digits_val_digits_of option.inject)
  assume eq: "Itoa i = Itoa j"
  show "i = j"
  proof (cases "i < 0")
    case True
    with eq hd_neq have "j < 0" by (metis Itoa_def)
    with eq True have "digits_of (nat (- i)) = digits_of (nat (- j))" by (simp add: Itoa_def)
    with True \<open>j < 0\<close> show ?thesis using inj by fastforce
  next
    case False
    with eq hd_neq have "\<not> j < 0" by (metis Itoa_def)
    with eq False have "digits_of (nat i) = digits_of (nat j)" by (simp add: Itoa_def)
    with False \<open>\<not> j < 0\<close> show ?thesis using inj by fastforce
  qed
qed

lemma split_first_append:
  "c \<notin> set a \<Longrightarrow> split_first c (a @ c # b) = Some (a, b)"
  by (induction a) auto

lemma split_first_Some: "split_first c s = Some (a, b) \<Longrightarrow> s = a @ c # b \<and> c \<notin> set a"
  by (induction s arbitrary: a) (auto split: if_splits option.splits)

section \<open>Go maps as association lists\<close>

text \<open>A Go map whose keys are iterated (in sorted order) is an association list with distinct
  keys; \<open>append_at\<close> is \<open>m[k] = append(m[k], v)\<close>.\<close>

definition append_at :: "'k \<Rightarrow> 'v \<Rightarrow> ('k \<times> 'v list) list \<Rightarrow> ('k \<times> 'v list) list" where
  "append_at k v m = AList.map_default k [v] (\<lambda>vs. vs @ [v]) m"

definition group_by :: "('v \<Rightarrow> 'k) \<Rightarrow> 'v list \<Rightarrow> ('k \<times> 'v list) list" where
  "group_by key vs = foldl (\<lambda>m v. append_at (key v) v m) [] vs"

definition lookup_list :: "('k \<times> 'v list) list \<Rightarrow> 'k \<Rightarrow> 'v list" where
  "lookup_list m k = (case map_of m k of None \<Rightarrow> [] | Some vs \<Rightarrow> vs)"

lemma map_of_append_at:
  "map_of (append_at k v m) =
     (map_of m)(k \<mapsto> (case map_of m k of None \<Rightarrow> [v] | Some vs \<Rightarrow> vs @ [v]))"
  by (simp add: append_at_def map_of_map_default split: option.split)

lemma distinct_append_at: "distinct (map fst m) \<Longrightarrow> distinct (map fst (append_at k v m))"
  by (simp add: append_at_def distinct_map_default)

lemma lookup_list_append_at:
  "lookup_list (append_at k v m) k' = lookup_list m k' @ (if k = k' then [v] else [])"
  by (auto simp: lookup_list_def map_of_append_at split: option.splits)

lemma dom_append_at: "fst ` set (append_at k v m) = insert k (fst ` set m)"
  using arg_cong [OF map_of_append_at [of k v m], of dom]
  by (simp add: dom_map_of_conv_image_fst)

lemma group_by_snoc: "group_by key (vs @ [v]) = append_at (key v) v (group_by key vs)"
  by (simp add: group_by_def)

lemma distinct_group_by: "distinct (map fst (group_by key vs))"
  by (induction vs rule: rev_induct) (auto simp: group_by_snoc distinct_append_at group_by_def)

lemma lookup_group_by: "lookup_list (group_by key vs) k = filter (\<lambda>v. key v = k) vs"
proof (induction vs rule: rev_induct)
  case Nil
  show ?case by (simp add: group_by_def lookup_list_def)
next
  case (snoc v vs)
  then show ?case by (simp add: group_by_snoc lookup_list_append_at)
qed

lemma keys_group_by: "fst ` set (group_by key vs) = key ` set vs"
  by (induction vs rule: rev_induct) (auto simp: group_by_snoc dom_append_at group_by_def)

lemma map_of_group_by:
  "map_of (group_by key vs) k =
     (if k \<in> key ` set vs then Some (filter (\<lambda>v. key v = k) vs) else None)"
proof (cases "map_of (group_by key vs) k")
  case None
  then show ?thesis
    by (metis keys_group_by map_of_eq_None_iff)
next
  case (Some ws)
  moreover have "k \<in> key ` set vs"
    using Some by (metis keys_group_by map_of_eq_None_iff option.distinct(1))
  ultimately show ?thesis
    using lookup_group_by [of key vs k] by (simp add: lookup_list_def)
qed

section \<open>Grouped elements as a multiset\<close>

text \<open>Grouping keeps every element, and taking one group out takes exactly its elements.\<close>

definition grouped :: "('k \<times> 'v list) list \<Rightarrow> 'v multiset" where
  "grouped m = mset (concat (map snd m))"

lemma grouped_append_at: "grouped (append_at k v m) = add_mset v (grouped m)"
  by (induction m) (auto simp: grouped_def append_at_def)

lemma grouped_group_by [simp]: "grouped (group_by key vs) = mset vs"
  by (induction vs rule: rev_induct)
    (simp_all add: group_by_snoc grouped_append_at, simp add: group_by_def grouped_def)

lemma grouped_delete:
  "distinct (map fst m) \<Longrightarrow> grouped (AList.delete k m) + mset (lookup_list m k) = grouped m"
proof (induction m)
  case Nil
  then show ?case by (simp add: grouped_def lookup_list_def)
next
  case (Cons kv m)
  show ?case
  proof (cases "fst kv = k")
    case True
    with Cons.prems have "AList.delete k m = m"
      by (auto simp: AList.delete_eq image_iff intro!: filter_True)
    with True show ?thesis by (cases kv) (simp add: grouped_def lookup_list_def)
  next
    case False
    with Cons show ?thesis by (auto simp: grouped_def lookup_list_def ac_simps)
  qed
qed

lemma grouped_update:
  "distinct (map fst m) \<Longrightarrow>
     grouped (AList.update k vs m) + mset (lookup_list m k) = grouped m + mset vs"
proof (induction m)
  case Nil
  then show ?case by (simp add: grouped_def lookup_list_def)
next
  case (Cons kv m)
  then show ?case by (cases "fst kv = k") (auto simp: grouped_def lookup_list_def ac_simps)
qed

lemma lookup_list_update:
  "lookup_list (AList.update k vs m) k' = (if k' = k then vs else lookup_list m k')"
  by (simp add: lookup_list_def update_conv')

lemma grouped_lookups:
  "distinct (map fst m) \<Longrightarrow> (\<Sum>k\<leftarrow>map fst m. mset (lookup_list m k)) = grouped m"
proof -
  assume d: "distinct (map fst m)"
  have "map (\<lambda>kv. mset (lookup_list m (fst kv))) m = map (\<lambda>kv. mset (snd kv)) m"
    using d by (auto simp: lookup_list_def)
  then have "(\<Sum>kv\<leftarrow>m. mset (lookup_list m (fst kv))) = (\<Sum>kv\<leftarrow>m. mset (snd kv))"
    by (rule arg_cong)
  then show ?thesis
    by (simp add: grouped_def mset_concat o_def)
qed

lemma map_of_filter_distinct:
  assumes "distinct (map fst kvs)"
  shows "map_of (filter keep kvs) key = Option.bind (map_of kvs key) (\<lambda>val. if keep (key, val) then Some val else None)"
  using assms
  by (induction kvs) (auto split: bind_splits simp: map_of_eq_None_iff image_iff bind_eq_None_conv)

lemma distinct_map_fst_filter: "distinct (map fst xs) \<Longrightarrow> distinct (map fst (filter P xs))"
  by (induction xs) auto

lemma sum_list_mset_perm: "mset xs = mset ys \<Longrightarrow> sum_list (map f xs) = sum_list (map f ys)"
  for f :: "'a \<Rightarrow> 'b::comm_monoid_add"
  by (metis mset_map sum_mset_sum_list)

lemma distinct_image_subset_mset:
  assumes "mset xs \<subseteq># mset ys" and "distinct (map f ys)"
  shows "distinct (map f xs)"
proof -
  have "image_mset f (mset xs) \<subseteq># image_mset f (mset ys)"
    using assms(1) by (rule image_mset_subseteq_mono)
  then have "mset (map f xs) \<subseteq># mset (map f ys)" by simp
  then have le: "count (mset (map f xs)) a \<le> count (mset (map f ys)) a" for a
    by (rule mset_subset_eq_count)
  with assms(2) have "count (mset (map f xs)) a \<le> 1" for a
    by (metis distinct_count_atmost_1 le_trans le_numeral_extra(3) le_numeral_extra(4) zero_le_one)
  then show ?thesis
    unfolding distinct_count_atmost_1
    by (metis count_eq_zero_iff le_0_eq le_SucE One_nat_def set_mset_mset)
qed

end
