(* ===== verification/Authz.thy ===== *)
theory Authz
  imports Prelude
begin

text \<open>
  Who is calling: the claims of a verified access token, carried by the request context
  (internal/auth/context.go), and the checks every use case starts with (internal/authz).
\<close>

section \<open>Claims and context\<close>

record claims =
  cl_ID :: int
  cl_Role :: string
  cl_TokenType :: string
  cl_CredentialsVersion :: "int option"
  cl_ExpiresAt :: int

record request_ctx =
  ctx_claims :: "claims option"
  ctx_token :: "string option"

definition WithClaims :: "request_ctx \<Rightarrow> claims \<Rightarrow> request_ctx" where
  "WithClaims ctx c = ctx\<lparr>ctx_claims := Some c\<rparr>"

definition ClaimsFromContext :: "request_ctx \<Rightarrow> claims option" where
  "ClaimsFromContext ctx = ctx_claims ctx"

definition WithToken :: "request_ctx \<Rightarrow> string \<Rightarrow> request_ctx" where
  "WithToken ctx t = ctx\<lparr>ctx_token := Some t\<rparr>"

definition TokenFromContext :: "request_ctx \<Rightarrow> string option" where
  "TokenFromContext ctx = ctx_token ctx"

section \<open>Authorisation checks\<close>

definition IsAdminRole :: "string \<Rightarrow> bool" where
  "IsAdminRole role \<longleftrightarrow> role = ''admin'' \<or> role = ''administrator''"

definition RequireAuth :: "request_ctx \<Rightarrow> claims result" where
  "RequireAuth ctx =
     (case ClaimsFromContext ctx of
        None \<Rightarrow> Err (Unauthorized ''unauthorized'')
      | Some claims \<Rightarrow> Ok claims)"

definition RequireAdmin :: "request_ctx \<Rightarrow> claims result" where
  "RequireAdmin ctx =
     andThen (RequireAuth ctx) (\<lambda>claims.
       if \<not> IsAdminRole (cl_Role claims) then Err (Forbidden ''forbidden'') else Ok claims)"

definition RequireSelfOrAdmin :: "request_ctx \<Rightarrow> int \<Rightarrow> claims result" where
  "RequireSelfOrAdmin ctx targetUserID =
     andThen (RequireAuth ctx) (\<lambda>claims.
       if cl_ID claims \<noteq> targetUserID \<and> \<not> IsAdminRole (cl_Role claims)
       then Err (Forbidden ''forbidden'') else Ok claims)"

definition CallerID :: "request_ctx \<Rightarrow> int result" where
  "CallerID ctx = andThen (RequireAuth ctx) (\<lambda>claims. Ok (cl_ID claims))"

lemma ctx_simps [simp]:
  "ClaimsFromContext (WithClaims ctx c) = Some c"
  "TokenFromContext (WithToken ctx t) = Some t"
  "ClaimsFromContext (WithToken ctx t) = ClaimsFromContext ctx"
  "TokenFromContext (WithClaims ctx c) = TokenFromContext ctx"
  by (simp_all add: ClaimsFromContext_def WithClaims_def TokenFromContext_def WithToken_def)

lemma RequireAuth_Inr_iff: "RequireAuth ctx = Ok c \<longleftrightarrow> ClaimsFromContext ctx = Some c"
  by (simp add: RequireAuth_def split: option.split)

lemma RequireAdmin_Inr_iff:
  "RequireAdmin ctx = Ok c \<longleftrightarrow> ClaimsFromContext ctx = Some c \<and> IsAdminRole (cl_Role c)"
  by (auto simp: RequireAdmin_def andThen_Inr_iff RequireAuth_Inr_iff)

lemma RequireSelfOrAdmin_Inr_iff:
  "RequireSelfOrAdmin ctx t = Ok c \<longleftrightarrow>
     ClaimsFromContext ctx = Some c \<and> (cl_ID c = t \<or> IsAdminRole (cl_Role c))"
  by (auto simp: RequireSelfOrAdmin_def andThen_Inr_iff RequireAuth_Inr_iff)

lemma CallerID_Inr_iff:
  "CallerID ctx = Ok i \<longleftrightarrow> (\<exists>c. ClaimsFromContext ctx = Some c \<and> cl_ID c = i)"
  by (auto simp: CallerID_def andThen_Inr_iff RequireAuth_Inr_iff)

lemma authz_errors:
  "RequireAuth ctx = Err e \<Longrightarrow> CodeOf e = CodeUnauthorized"
  "RequireAdmin ctx = Err e \<Longrightarrow> CodeOf e = CodeUnauthorized \<or> CodeOf e = CodeForbidden"
  by (auto simp: RequireAuth_def RequireAdmin_def andThen_Inl_iff split: option.splits if_splits)

lemmas authz_iffs =
  RequireAuth_Inr_iff RequireAdmin_Inr_iff RequireSelfOrAdmin_Inr_iff CallerID_Inr_iff

end
