(* ===== verification/Course_Plan.thy ===== *)
theory Course_Plan
  imports Prelude
begin

text \<open>
  The planner of the syllabus synchronisation (usecase/course/sync_plan.go): a pure function
  from the courses of the database and the rows scraped from the syllabus to the list of things
  the synchronisation will do. Courses are compared in groups that share semester and course
  code; what the rules cannot decide goes to an administrator as a review.
\<close>

section \<open>Data\<close>

text \<open>\<open>model.SemesterFirst\<close>, \<open>SemesterSecond\<close>, \<open>SemesterFull\<close>: the UTF-8 bytes of the Japanese
  names of the first half, the second half and the full year.\<close>

definition SemesterFirst :: string where
  "SemesterFirst = utf8 [0xE5, 0x89, 0x8D, 0xE6, 0x9C, 0x9F]"

definition SemesterSecond :: string where
  "SemesterSecond = utf8 [0xE5, 0xBE, 0x8C, 0xE6, 0x9C, 0x9F]"

definition SemesterFull :: string where
  "SemesterFull = utf8 [0xE9, 0x80, 0x9A, 0xE5, 0xB9, 0xB4]"

text \<open>The full-width opening parenthesis that starts a campus suffix.\<close>

definition suffix_open :: string where
  "suffix_open = utf8 [0xEF, 0xBC, 0x88]"

record course =
  c_ID :: int
  c_RoomID :: int
  c_DayOfWeek :: string
  c_Period :: int
  c_TeacherName :: string
  c_CourseName :: string
  c_Year :: int
  c_Semester :: string
  c_DedupKey :: string
  c_Source :: string
  c_SourceRef :: string
  c_SourceName :: string
  c_DiscontinuedAt :: "int option"

definition IsDiscontinued :: "course \<Rightarrow> bool" where
  "IsDiscontinued c \<longleftrightarrow> c_DiscontinuedAt c \<noteq> None"

record scraped_course_input =
  i_DayOfWeek :: string
  i_Period :: int
  i_TeacherName :: string
  i_CourseName :: string
  i_Year :: int
  i_Semester :: string
  i_DedupKey :: string
  i_SourceRef :: string
  i_SourceName :: string
  i_Disambiguated :: bool

record course_fields =
  f_Semester :: string
  f_DayOfWeek :: string
  f_Period :: int
  f_CourseName :: string
  f_TeacherName :: string
  f_SourceRef :: string
  f_SourceName :: string
  f_DedupKey :: string

record fetch_completeness =
  SiteTotal :: int
  ListedRows :: int
  UnidentifiedRows :: int

record academic_term =
  t_Year :: int
  t_Semester :: string

datatype review_kind = CodeReused | CodeReissued | SlotAmbiguous | SemesterChanged

datatype review_status = Pending | Same | Different | Ignored | Applied

record course_snapshot =
  s_CourseID :: int
  s_SourceRef :: string
  s_Semester :: string
  s_DayOfWeek :: string
  s_Period :: int
  s_CourseName :: string
  s_TeacherName :: string

record sync_review =
  r_ID :: int
  r_Year :: int
  r_Kind :: review_kind
  r_Fingerprint :: string
  r_Status :: review_status
  r_Existing :: "course_snapshot list"
  r_Proposed :: "course_snapshot list"

text \<open>
  What the plan says about each entry. The code renders these as Japanese sentences; the model
  keeps their parts. \<open>DetailParts\<close> is the list that \<open>update\<close> joins with a slash, \<open>NoDetail\<close> the
  empty string.
\<close>

datatype detail_part =
    RestoredPart
  | SourceRefPart string string
  | SemesterPart string string
  | SlotPart string string
  | CourseNamePart string string
  | TeacherPart string string

datatype plan_detail =
    NoDetail
  | DetailParts "detail_part list"
  | NotReissuedDecision
  | OtherSemesterDecision
  | CodeReusedDecision
  | SlotsRecreatedDecision
  | NotListedAnymore

datatype review_message =
    ReissuedMessage string string
  | SemesterMessage string string string string string
  | ReusedMessage string string string string string
  | AmbiguousMessage string "string list" "string list"

datatype skip_reason =
    RowsMismatch int int nat
  | RowsUnidentified int nat
  | TooManyCandidates nat nat

record planned_update =
  u_Before :: course
  u_After :: course_fields
  u_Restore :: bool
  u_Silent :: bool
  u_SlotChanged :: bool
  u_Detail :: plan_detail

record planned_create =
  cr_Input :: scraped_course_input
  cr_Detail :: plan_detail

record planned_discontinue =
  d_Course :: course
  d_Retire :: bool
  d_Detail :: plan_detail

record planned_review =
  v_Kind :: review_kind
  v_Fingerprint :: string
  v_Message :: review_message
  v_Existing :: "course list"
  v_Proposed :: "scraped_course_input list"

record sync_plan =
  p_Creates :: "planned_create list"
  p_Updates :: "planned_update list"
  p_Discontinues :: "planned_discontinue list"
  p_Reviews :: "planned_review list"
  p_AppliedReviewIDs :: "int list"
  p_Unchanged :: nat
  p_DiscontinueSkippedReason :: "skip_reason option"

text \<open>The group key is the pair of semester and course code; \<open>sortedKeys\<close> orders it
  lexicographically, which is the order of HOL-Library.Product_Lexorder.\<close>

type_synonym group_key = "string \<times> string"

text \<open>The planner. The year, the current term and the administrators' decisions never change
  while planning; \<open>pl_hash\<close> is the hexadecimal SHA-256 of Go's \<open>crypto/sha256\<close>, kept as a
  parameter because the planner only compares its values.\<close>

record planner =
  pl_year :: int
  pl_current :: academic_term
  pl_decisions :: "string \<rightharpoonup> sync_review"
  pl_hash :: "string \<Rightarrow> string"
  pl_plan :: sync_plan
  pl_candidates :: "course list"
  pl_forced :: "planned_discontinue list"

section \<open>Small helpers of the planner\<close>

definition endedBefore :: "academic_term \<Rightarrow> course \<Rightarrow> bool" where
  "endedBefore t c =
     (if t_Year t = 0 then False
      else if c_Year c \<noteq> t_Year t then c_Year c < t_Year t
      else c_Semester c = SemesterFirst \<and> t_Semester t = SemesterSecond)"

definition key_String :: "group_key \<Rightarrow> string" where
  "key_String k = fst k @ '':'' @ snd k"

definition slotLabel :: "string \<Rightarrow> int \<Rightarrow> string" where
  "slotLabel day period = day @ Itoa period"

definition nameMatches :: "course \<Rightarrow> string \<Rightarrow> bool" where
  "nameMatches c sourceName =
     (if c_SourceName c \<noteq> [] then c_SourceName c = sourceName
      else c_CourseName c = sourceName \<or> HasPrefix (c_CourseName c) (sourceName @ suffix_open))"

definition nextCourseName :: "course \<Rightarrow> scraped_course_input \<Rightarrow> string" where
  "nextCourseName c inp =
     (if i_Disambiguated inp then i_CourseName inp
      else if nameMatches c (i_SourceName inp) then c_CourseName c
      else (let suffix = (if c_SourceName c \<noteq> [] \<and> HasPrefix (c_CourseName c) (c_SourceName c)
                          then TrimPrefix (c_CourseName c) (c_SourceName c) else [])
            in i_SourceName inp @ suffix))"

definition allEnded :: "planner \<Rightarrow> course list \<Rightarrow> bool" where
  "allEnded p cs = list_all (endedBefore (pl_current p)) cs"

definition hasActive :: "course list \<Rightarrow> bool" where
  "hasActive cs = list_ex (\<lambda>c. \<not> IsDiscontinued c) cs"

definition oldSlots :: "course list \<Rightarrow> string list" where
  "oldSlots cs = sort (map (\<lambda>c. slotLabel (c_DayOfWeek c) (c_Period c)) cs)"

definition newSlots :: "scraped_course_input list \<Rightarrow> string list" where
  "newSlots ins = sort (map (\<lambda>i. slotLabel (i_DayOfWeek i) (i_Period i)) ins)"

definition sortedKeys :: "(group_key \<times> 'v) list \<Rightarrow> group_key list" where
  "sortedKeys m = sort (map fst m)"

fun kind_string :: "review_kind \<Rightarrow> string" where
  "kind_string CodeReused = ''CODE_REUSED''"
| "kind_string CodeReissued = ''CODE_REISSUED''"
| "kind_string SlotAmbiguous = ''SLOT_AMBIGUOUS''"
| "kind_string SemesterChanged = ''SEMESTER_CHANGED''"

definition fingerprint ::
  "(string \<Rightarrow> string) \<Rightarrow> review_kind \<Rightarrow> int \<Rightarrow> string list \<Rightarrow> string" where
  "fingerprint h kind year parts =
     h (kind_string kind @ [CHR 0x00] @ Itoa year @ concat (map (\<lambda>part. CHR 0x00 # part) parts))"

definition decision_of :: "planner \<Rightarrow> string \<Rightarrow> sync_review option" where
  "decision_of p fp = pl_decisions p fp"

fun decisionStatus :: "sync_review option \<Rightarrow> review_status option" where
  "decisionStatus None = None"
| "decisionStatus (Some r) = Some (r_Status r)"

section \<open>Recording entries\<close>

definition upd_plan :: "(sync_plan \<Rightarrow> sync_plan) \<Rightarrow> planner \<Rightarrow> planner" where
  "upd_plan f p = p\<lparr>pl_plan := f (pl_plan p)\<rparr>"

definition applied :: "sync_review option \<Rightarrow> planner \<Rightarrow> planner" where
  "applied r p =
     (case r of None \<Rightarrow> p
      | Some rv \<Rightarrow> upd_plan (\<lambda>pl. pl\<lparr>p_AppliedReviewIDs := p_AppliedReviewIDs pl @ [r_ID rv]\<rparr>) p)"

definition createAll :: "scraped_course_input list \<Rightarrow> plan_detail \<Rightarrow> planner \<Rightarrow> planner" where
  "createAll news detail =
     upd_plan (\<lambda>pl. pl\<lparr>p_Creates := p_Creates pl @
       map (\<lambda>i. \<lparr>cr_Input = i, cr_Detail = detail\<rparr>) news\<rparr>)"

definition discontinueCandidate :: "course \<Rightarrow> planner \<Rightarrow> planner" where
  "discontinueCandidate c p =
     (if IsDiscontinued c then p else p\<lparr>pl_candidates := pl_candidates p @ [c]\<rparr>)"

definition add_review ::
  "review_kind \<Rightarrow> string \<Rightarrow> review_message \<Rightarrow> course list \<Rightarrow> scraped_course_input list
     \<Rightarrow> planner \<Rightarrow> planner" where
  "add_review kind fp message olds news =
     upd_plan (\<lambda>pl. pl\<lparr>p_Reviews := p_Reviews pl @
       [\<lparr>v_Kind = kind, v_Fingerprint = fp, v_Message = message, v_Existing = olds,
         v_Proposed = news\<rparr>]\<rparr>)"

definition force_all :: "course list \<Rightarrow> bool \<Rightarrow> plan_detail \<Rightarrow> planner \<Rightarrow> planner" where
  "force_all cs retire detail p =
     p\<lparr>pl_forced := pl_forced p @
        map (\<lambda>c. \<lparr>d_Course = c, d_Retire = retire, d_Detail = detail\<rparr>) cs\<rparr>"

section \<open>Updating one course\<close>

definition fields_after :: "academic_term \<Rightarrow> course \<Rightarrow> scraped_course_input \<Rightarrow> course_fields" where
  "fields_after current c inp =
     (let after = \<lparr>f_Semester = i_Semester inp, f_DayOfWeek = i_DayOfWeek inp,
                   f_Period = i_Period inp, f_CourseName = nextCourseName c inp,
                   f_TeacherName = i_TeacherName inp, f_SourceRef = i_SourceRef inp,
                   f_SourceName = i_SourceName inp, f_DedupKey = i_DedupKey inp\<rparr>
      in if endedBefore current c \<and>
            (c_Semester c \<noteq> f_Semester after \<or> c_DayOfWeek c \<noteq> f_DayOfWeek after \<or>
             c_Period c \<noteq> f_Period after)
         then after\<lparr>f_Semester := c_Semester c, f_DayOfWeek := c_DayOfWeek c,
                    f_Period := c_Period c, f_DedupKey := c_DedupKey c\<rparr>
         else after)"

definition slot_changed :: "course \<Rightarrow> course_fields \<Rightarrow> bool" where
  "slot_changed c after \<longleftrightarrow> c_DayOfWeek c \<noteq> f_DayOfWeek after \<or> c_Period c \<noteq> f_Period after"

definition change_details :: "course \<Rightarrow> course_fields \<Rightarrow> detail_part list" where
  "change_details c after =
     (if IsDiscontinued c then [RestoredPart] else []) @
     (if c_SourceRef c \<noteq> f_SourceRef after
      then [SourceRefPart (c_SourceRef c) (f_SourceRef after)] else []) @
     (if c_Semester c \<noteq> f_Semester after
      then [SemesterPart (c_Semester c) (f_Semester after)] else []) @
     (if slot_changed c after
      then [SlotPart (slotLabel (c_DayOfWeek c) (c_Period c))
                     (slotLabel (f_DayOfWeek after) (f_Period after))] else []) @
     (if c_CourseName c \<noteq> f_CourseName after
      then [CourseNamePart (c_CourseName c) (f_CourseName after)] else []) @
     (if c_TeacherName c \<noteq> f_TeacherName after
      then [TeacherPart (c_TeacherName c) (f_TeacherName after)] else [])"

definition update_course :: "course \<Rightarrow> scraped_course_input \<Rightarrow> planner \<Rightarrow> planner" where
  "update_course c inp p =
     (let after = fields_after (pl_current p) c inp;
          details = change_details c after;
          silent = (details = []);
          entry = \<lparr>u_Before = c, u_After = after, u_Restore = IsDiscontinued c,
                   u_Silent = silent, u_SlotChanged = slot_changed c after,
                   u_Detail = (if silent then NoDetail else DetailParts details)\<rparr>
      in if silent \<and> c_SourceName c = f_SourceName after \<and> c_DedupKey c = f_DedupKey after
         then upd_plan (\<lambda>pl. pl\<lparr>p_Unchanged := p_Unchanged pl + 1\<rparr>) p
         else upd_plan (\<lambda>pl. pl\<lparr>p_Updates := p_Updates pl @ [entry]\<rparr>)
                (if silent then upd_plan (\<lambda>pl. pl\<lparr>p_Unchanged := p_Unchanged pl + 1\<rparr>) p else p))"

section \<open>One group: the same semester and course code on both sides\<close>

text \<open>The exact slot matches: \<open>oldBySlot\<close> is the Go map from slot label to course, where a later
  course with the same label replaces an earlier one; a course is matched at most once.\<close>

definition oldBySlot :: "course list \<Rightarrow> string \<rightharpoonup> course" where
  "oldBySlot olds = foldl (\<lambda>m c. m(slotLabel (c_DayOfWeek c) (c_Period c) \<mapsto> c)) Map.empty olds"

fun match_slots ::
  "(string \<rightharpoonup> course) \<Rightarrow> scraped_course_input list \<Rightarrow> int list \<Rightarrow> planner
     \<Rightarrow> planner \<times> int list \<times> scraped_course_input list" where
  "match_slots bySlot [] matched p = (p, matched, [])"
| "match_slots bySlot (inp # news) matched p =
     (case bySlot (slotLabel (i_DayOfWeek inp) (i_Period inp)) of
        None \<Rightarrow>
          (case match_slots bySlot news matched p of
             (p', matched', leftover) \<Rightarrow> (p', matched', inp # leftover))
      | Some c \<Rightarrow>
          if c_ID c \<notin> set matched
          then match_slots bySlot news (c_ID c # matched) (update_course c inp p)
          else (case match_slots bySlot news matched p of
                  (p', matched', leftover) \<Rightarrow> (p', matched', inp # leftover)))"

definition plan_leftovers ::
  "group_key \<Rightarrow> course list \<Rightarrow> scraped_course_input list \<Rightarrow> planner \<Rightarrow> planner" where
  "plan_leftovers k leftoverOld leftoverNew p =
     (if leftoverOld = [] then createAll leftoverNew NoDetail p
      else if leftoverNew = [] then fold discontinueCandidate leftoverOld p
      else if length leftoverOld = 1 \<and> length leftoverNew = 1
      then update_course (hd leftoverOld) (hd leftoverNew) p
      else if allEnded p leftoverOld then p
      else
        (let fp = fingerprint (pl_hash p) SlotAmbiguous (pl_year p)
                    [key_String k, Join '','' (oldSlots leftoverOld),
                     Join '','' (newSlots leftoverNew)];
             decision = decision_of p fp
         in case decisionStatus decision of
              Some Different \<Rightarrow>
                applied decision (createAll leftoverNew SlotsRecreatedDecision
                  (force_all (filter (\<lambda>c. \<not> IsDiscontinued c) leftoverOld) False
                     SlotsRecreatedDecision p))
            | Some Ignored \<Rightarrow> p
            | _ \<Rightarrow> add_review SlotAmbiguous fp
                     (AmbiguousMessage (snd k) (oldSlots leftoverOld) (newSlots leftoverNew))
                     leftoverOld leftoverNew p))"

definition plan_slots ::
  "group_key \<Rightarrow> course list \<Rightarrow> scraped_course_input list \<Rightarrow> planner \<Rightarrow> planner" where
  "plan_slots k olds news p =
     (case match_slots (oldBySlot olds) news [] p of
        (p', matched, leftoverNew) \<Rightarrow>
          plan_leftovers k (filter (\<lambda>c. c_ID c \<notin> set matched) olds) leftoverNew p')"

definition planGroup ::
  "group_key \<Rightarrow> course list \<Rightarrow> scraped_course_input list \<Rightarrow> bool \<Rightarrow> planner \<Rightarrow> planner" where
  "planGroup k olds news skipReuseCheck p =
     (if \<not> skipReuseCheck \<and> \<not> nameMatches (hd olds) (i_SourceName (hd news)) \<and>
         c_TeacherName (hd olds) \<noteq> i_TeacherName (hd news)
      then
        (let fp = fingerprint (pl_hash p) CodeReused (pl_year p)
                    [key_String k, i_SourceName (hd news), i_TeacherName (hd news)];
             decision = decision_of p fp
         in case decisionStatus decision of
              Some Same \<Rightarrow> plan_slots k olds news (applied decision p)
            | Some Different \<Rightarrow>
                applied decision (createAll news CodeReusedDecision
                  (force_all olds True CodeReusedDecision p))
            | Some Ignored \<Rightarrow> p
            | _ \<Rightarrow> add_review CodeReused fp
                     (ReusedMessage (snd k) (c_CourseName (hd olds)) (c_TeacherName (hd olds))
                        (i_SourceName (hd news)) (i_TeacherName (hd news)))
                     olds news p)
      else plan_slots k olds news p)"

section \<open>Course codes that were issued anew\<close>

type_synonym old_groups = "(group_key \<times> course list) list"
type_synonym new_groups = "(group_key \<times> scraped_course_input list) list"

definition reissue_match :: "planner \<Rightarrow> course list \<Rightarrow> scraped_course_input \<Rightarrow> bool" where
  "reissue_match p olds inp \<longleftrightarrow>
     hasActive olds \<and> \<not> allEnded p olds \<and> c_TeacherName (hd olds) = i_TeacherName inp \<and>
     nameMatches (hd olds) (i_SourceName inp)"

definition candidatesOf :: "planner \<Rightarrow> new_groups \<Rightarrow> old_groups \<Rightarrow> group_key \<Rightarrow> group_key list" where
  "candidatesOf p newGroups gone nk =
     filter (\<lambda>ok. reissue_match p (lookup_list gone ok) (hd (lookup_list newGroups nk)))
       (sortedKeys gone)"

definition claimedBy ::
  "planner \<Rightarrow> group_key list \<Rightarrow> new_groups \<Rightarrow> old_groups \<Rightarrow> group_key \<Rightarrow> nat" where
  "claimedBy p newOnly newGroups gone ok =
     length (filter (\<lambda>nk. ok \<in> set (candidatesOf p newGroups gone nk)) newOnly)"

definition matchReissues ::
  "planner \<Rightarrow> group_key list \<Rightarrow> new_groups \<Rightarrow> old_groups \<Rightarrow> group_key \<rightharpoonup> group_key" where
  "matchReissues p newOnly newGroups gone nk =
     (if nk \<in> set newOnly
      then (case candidatesOf p newGroups gone nk of
              [ok] \<Rightarrow> if claimedBy p newOnly newGroups gone ok = 1 then Some ok else None
            | _ \<Rightarrow> None)
      else None)"

section \<open>Discontinuing\<close>

definition discontinueMaxRatioPercent :: nat where
  "discontinueMaxRatioPercent = 10"

definition discontinueGuard :: "nat \<Rightarrow> nat \<Rightarrow> fetch_completeness \<Rightarrow> skip_reason option" where
  "discontinueGuard candidates activeCount completeness =
     (if ListedRows completeness \<noteq> SiteTotal completeness
      then Some (RowsMismatch (ListedRows completeness) (SiteTotal completeness) candidates)
      else if UnidentifiedRows completeness > 0
      then Some (RowsUnidentified (UnidentifiedRows completeness) candidates)
      else if candidates * 100 > activeCount * discontinueMaxRatioPercent
      then Some (TooManyCandidates candidates activeCount)
      else None)"

definition decideDiscontinues :: "nat \<Rightarrow> fetch_completeness \<Rightarrow> planner \<Rightarrow> planner" where
  "decideDiscontinues activeCount completeness p0 =
     (let p = upd_plan (\<lambda>pl. pl\<lparr>p_Discontinues := p_Discontinues pl @ pl_forced p0\<rparr>) p0
      in if pl_candidates p = [] then p
         else
           (case discontinueGuard (length (pl_candidates p)) activeCount completeness of
              Some reason \<Rightarrow>
                upd_plan (\<lambda>pl. pl\<lparr>p_DiscontinueSkippedReason := Some reason\<rparr>) p
            | None \<Rightarrow>
                upd_plan (\<lambda>pl. pl\<lparr>p_Discontinues := p_Discontinues pl @
                  map (\<lambda>c. \<lparr>d_Course = c, d_Retire = False, d_Detail = NotListedAnymore\<rparr>)
                    (pl_candidates p)\<rparr>) p))"

section \<open>The whole plan\<close>

definition empty_plan :: sync_plan where
  "empty_plan = \<lparr>p_Creates = [], p_Updates = [], p_Discontinues = [], p_Reviews = [],
     p_AppliedReviewIDs = [], p_Unchanged = 0, p_DiscontinueSkippedReason = None\<rparr>"

definition new_planner ::
  "(string \<Rightarrow> string) \<Rightarrow> int \<Rightarrow> sync_review list \<Rightarrow> academic_term \<Rightarrow> planner" where
  "new_planner h year reviews current =
     \<lparr>pl_year = year, pl_current = current,
      pl_decisions = foldl (\<lambda>m r. m(r_Fingerprint r \<mapsto> r)) Map.empty reviews,
      pl_hash = h, pl_plan = empty_plan, pl_candidates = [], pl_forced = []\<rparr>"

definition syncable :: "course list \<Rightarrow> course list" where
  "syncable existing = filter (\<lambda>c. c_SourceRef c \<noteq> []) existing"

definition course_key :: "course \<Rightarrow> group_key" where
  "course_key c = (c_Semester c, c_SourceRef c)"

definition input_key :: "scraped_course_input \<Rightarrow> group_key" where
  "input_key i = (i_Semester i, i_SourceRef i)"

fun dedup_inputs :: "string list \<Rightarrow> scraped_course_input list \<Rightarrow> scraped_course_input list" where
  "dedup_inputs seen [] = []"
| "dedup_inputs seen (i # is) =
     (if i_DedupKey i \<in> set seen then dedup_inputs seen is
      else i # dedup_inputs (i_DedupKey i # seen) is)"

text \<open>Pass 1: groups on both sides.\<close>

fun plan_common ::
  "new_groups \<Rightarrow> group_key list \<Rightarrow> old_groups \<Rightarrow> planner \<Rightarrow> planner \<times> old_groups \<times> group_key list" where
  "plan_common newGroups [] oldGroups p = (p, oldGroups, [])"
| "plan_common newGroups (k # ks) oldGroups p =
     (case map_of oldGroups k of
        Some olds \<Rightarrow>
          plan_common newGroups ks (AList.delete k oldGroups)
            (planGroup k olds (lookup_list newGroups k) False p)
      | None \<Rightarrow>
          (case plan_common newGroups ks oldGroups p of
             (p', oldGroups', newOnly) \<Rightarrow> (p', oldGroups', k # newOnly)))"

text \<open>Pass 2: one group that only the syllabus has.\<close>

definition plan_new_group ::
  "new_groups \<Rightarrow> (group_key \<rightharpoonup> group_key) \<Rightarrow> group_key \<Rightarrow> planner \<times> old_groups
     \<Rightarrow> planner \<times> old_groups" where
  "plan_new_group newGroups reissue k st =
     (case st of (p, oldGroups) \<Rightarrow>
        (let news = lookup_list newGroups k in
         case reissue k of
           None \<Rightarrow> (createAll news NoDetail p, oldGroups)
         | Some oldKey \<Rightarrow>
             (let olds = lookup_list oldGroups oldKey;
                  sameCode = (snd oldKey = snd k);
                  kind = (if sameCode then SemesterChanged else CodeReissued);
                  message = (if sameCode
                    then SemesterMessage (snd k) (i_SourceName (hd news))
                           (i_TeacherName (hd news)) (fst oldKey) (fst k)
                    else ReissuedMessage (snd oldKey) (snd k));
                  differentDetail = (if sameCode then OtherSemesterDecision
                                     else NotReissuedDecision);
                  fp = fingerprint (pl_hash p) kind (pl_year p) [key_String oldKey, key_String k];
                  decision = decision_of p fp
              in case decisionStatus decision of
                   Some Same \<Rightarrow>
                     (applied decision (planGroup k olds news True p),
                      AList.delete oldKey oldGroups)
                 | Some Different \<Rightarrow>
                     (applied decision (createAll news differentDetail p), oldGroups)
                 | Some Ignored \<Rightarrow> (p, AList.delete oldKey oldGroups)
                 | _ \<Rightarrow> (add_review kind fp message olds news p,
                         AList.delete oldKey oldGroups))))"

text \<open>Pass 3: what is left of the old groups is no longer listed.\<close>

definition plan_gone :: "old_groups \<Rightarrow> planner \<Rightarrow> planner" where
  "plan_gone oldGroups p =
     fold (\<lambda>k. fold discontinueCandidate (lookup_list oldGroups k)) (sortedKeys oldGroups) p"

definition PlanCourseSync ::
  "(string \<Rightarrow> string) \<Rightarrow> int \<Rightarrow> course list \<Rightarrow> scraped_course_input list \<Rightarrow> sync_review list
     \<Rightarrow> fetch_completeness \<Rightarrow> academic_term \<Rightarrow> sync_plan" where
  "PlanCourseSync h year existing scraped reviews completeness current =
     (let p0 = new_planner h year reviews current;
          oldGroups = group_by course_key (syncable existing);
          activeCount = length (filter (\<lambda>c. \<not> IsDiscontinued c) (syncable existing));
          newGroups = group_by input_key (dedup_inputs [] scraped)
      in case plan_common newGroups (sortedKeys newGroups) oldGroups p0 of
           (p1, gone, newOnly) \<Rightarrow>
             (let reissue = matchReissues p1 newOnly newGroups gone;
                  st = fold (plan_new_group newGroups reissue) newOnly (p1, gone)
              in pl_plan (decideDiscontinues activeCount completeness
                   (plan_gone (snd st) (fst st)))))"

end
