(* ===== verification/Course_Plan_Facts.thy ===== *)
theory Course_Plan_Facts
  imports Course_Plan
begin

text \<open>
  What the planner promises: every course of the database is touched at most once, rows are not
  created twice, automatic discontinuations pass the guard, past terms are left alone, and a
  second synchronisation over the same rows changes nothing.
\<close>

section \<open>The courses a plan accounts for\<close>

definition plan_courses :: "sync_plan \<Rightarrow> course multiset" where
  "plan_courses pl = mset (map u_Before (p_Updates pl)) + mset (map d_Course (p_Discontinues pl)) +
     mset (concat (map v_Existing (p_Reviews pl)))"

definition touched :: "planner \<Rightarrow> course multiset" where
  "touched p = plan_courses (pl_plan p) + mset (map d_Course (pl_forced p)) + mset (pl_candidates p)"

definition within :: "planner \<Rightarrow> course multiset \<Rightarrow> planner \<Rightarrow> bool" where
  "within p M q \<longleftrightarrow> touched q \<subseteq># touched p + M"

named_theorems within_intros

lemma within_trans: "within p M q \<Longrightarrow> within q N r \<Longrightarrow> within p (M + N) r"
  unfolding within_def
  by (metis (no_types, lifting) add.assoc subset_mset.add_right_mono subset_mset.order_trans)

lemma within_mono: "within p M q \<Longrightarrow> M \<subseteq># N \<Longrightarrow> within p N q"
  unfolding within_def by (metis subset_mset.add_left_mono subset_mset.order_trans)

lemma within_refl [within_intros]: "within p M p"
  by (simp add: within_def)

lemma touched_upd_plan:
  "plan_courses (f (pl_plan p)) = plan_courses (pl_plan p) + M \<Longrightarrow>
   touched (upd_plan f p) = touched p + M"
  by (simp add: touched_def upd_plan_def)

lemma touched_applied [simp]: "touched (applied r p) = touched p"
  by (simp add: applied_def touched_def upd_plan_def plan_courses_def split: option.split)

lemma touched_createAll [simp]: "touched (createAll news d p) = touched p"
  by (simp add: createAll_def touched_def upd_plan_def plan_courses_def)

lemma touched_add_review [simp]: "touched (add_review k fp m olds news p) = touched p + mset olds"
  by (simp add: add_review_def touched_def upd_plan_def plan_courses_def ac_simps)

lemma touched_force_all [simp]: "touched (force_all cs r d p) = touched p + mset cs"
  by (simp add: force_all_def touched_def comp_def ac_simps)

lemma touched_discontinueCandidate:
  "touched (discontinueCandidate c p) = touched p + (if IsDiscontinued c then {#} else {#c#})"
  by (simp add: discontinueCandidate_def touched_def)

lemma within_update_course [within_intros]: "within p {#c#} (update_course c i p)"
  by (simp add: within_def update_course_def Let_def touched_def upd_plan_def plan_courses_def)

lemma within_candidates [within_intros]: "within p (mset cs) (fold discontinueCandidate cs p)"
proof (induction cs arbitrary: p)
  case Nil
  show ?case by (simp add: within_refl)
next
  case (Cons c cs)
  have "within p {#c#} (discontinueCandidate c p)"
    by (simp add: within_def touched_discontinueCandidate)
  from within_trans [OF this Cons] show ?case by simp
qed

lemma oldBySlot_olds: "oldBySlot olds l = Some c \<Longrightarrow> c \<in> set olds"
  by (induction olds rule: rev_induct) (auto simp: oldBySlot_def split: if_splits)

definition rest :: "int list \<Rightarrow> course list \<Rightarrow> course multiset" where
  "rest matched olds = mset (filter (\<lambda>c. c_ID c \<notin> set matched) olds)"

lemma rest_match:
  assumes "c \<in> set olds" and "c_ID c \<notin> set matched"
  shows "add_mset c (rest (c_ID c # matched) olds) \<subseteq># rest matched olds"
proof -
  have "{#x \<in># mset olds. c_ID x \<noteq> c_ID c \<and> c_ID x \<notin> set matched#} + {#c#}
      \<subseteq># {#x \<in># mset olds. c_ID x \<notin> set matched#}"
  proof (rule mset_subset_eqI)
    fix a
    show "count ({#x \<in># mset olds. c_ID x \<noteq> c_ID c \<and> c_ID x \<notin> set matched#} + {#c#}) a
        \<le> count {#x \<in># mset olds. c_ID x \<notin> set matched#} a"
      using assms by (cases "a = c") (auto simp: Suc_le_eq)
  qed
  then show ?thesis by (simp add: rest_def)
qed

lemma match_slots_within:
  "match_slots bySlot news matched p = (p', matched', left) \<Longrightarrow>
   \<forall>l c. bySlot l = Some c \<longrightarrow> c \<in> set olds \<Longrightarrow>
   touched p' + rest matched' olds \<subseteq># touched p + rest matched olds"
proof (induction bySlot news matched p arbitrary: p' matched' left rule: match_slots.induct)
  case (1 bySlot matched p)
  then show ?case by simp
next
  case (2 bySlot inp news matched p)
  show ?case
  proof (cases "bySlot (slotLabel (i_DayOfWeek inp) (i_Period inp))")
    case None
    with "2.prems" "2.IH"(1) show ?thesis by (auto split: prod.splits)
  next
    case (Some c)
    show ?thesis
    proof (cases "c_ID c \<in> set matched")
      case True
      with Some "2.prems" "2.IH"(3) show ?thesis by (auto split: prod.splits)
    next
      case False
      have c: "c \<in> set olds" using Some "2.prems"(2) by blast
      have "touched p' + rest matched' olds
          \<subseteq># touched (update_course c inp p) + rest (c_ID c # matched) olds"
        using "2.IH"(2) Some False "2.prems" by simp
      also have "\<dots> \<subseteq># touched p + {#c#} + rest (c_ID c # matched) olds"
        using within_update_course [of p c inp] unfolding within_def
        by (rule subset_mset.add_right_mono)
      also have "\<dots> \<subseteq># touched p + rest matched olds"
        using rest_match [OF c False] by simp
      finally show ?thesis .
    qed
  qed
qed

lemma within_plan_leftovers:
  "within p (mset leftoverOld) (plan_leftovers k leftoverOld leftoverNew p)"
proof (cases "leftoverOld \<noteq> [] \<and> length leftoverOld = 1 \<and> length leftoverNew = 1")
  case True
  then obtain c where "leftoverOld = [c]" by (cases leftoverOld) auto
  with True show ?thesis
    by (auto simp: plan_leftovers_def intro: within_intros)
next
  case False
  then show ?thesis
    unfolding plan_leftovers_def Let_def
    by (auto simp: within_def subset_mset.add_left_mono
        intro: within_candidates [unfolded within_def]
        split: option.split review_status.split)
qed

lemma within_plan_slots [within_intros]: "within p (mset olds) (plan_slots k olds news p)"
proof -
  obtain p' matched left where m: "match_slots (oldBySlot olds) news [] p = (p', matched, left)"
    by (metis prod_cases3)
  have "touched p' + rest matched olds \<subseteq># touched p + mset olds"
    using match_slots_within [OF m, of olds] oldBySlot_olds [of olds] by (simp add: rest_def)
  moreover have "touched (plan_leftovers k (filter (\<lambda>c. c_ID c \<notin> set matched) olds) left p')
      \<subseteq># touched p' + rest matched olds"
    using within_plan_leftovers [of p' "filter (\<lambda>c. c_ID c \<notin> set matched) olds"]
    by (simp add: within_def rest_def)
  ultimately show ?thesis
    by (simp add: plan_slots_def m within_def)
qed

lemma within_planGroup [within_intros]: "within p (mset olds) (planGroup k olds news skip p)"
proof -
  have slots: "touched (plan_slots k olds news (applied r p)) \<subseteq># touched p + mset olds" for r
    using within_plan_slots [of "applied r p" olds k news] by (simp add: within_def)
  show ?thesis
    using within_plan_slots [of p olds k news] slots
    by (auto simp: planGroup_def Let_def within_def split: option.split review_status.split)
qed

subsection \<open>The three passes\<close>

lemma lookup_list_Some: "map_of m k = Some vs \<Longrightarrow> lookup_list m k = vs"
  by (simp add: lookup_list_def)

lemma distinct_delete: "distinct (map fst m) \<Longrightarrow> distinct (map fst (AList.delete k m))"
  by (rule AList.distinct_delete)

lemma plan_common_within:
  "plan_common newGroups ks oldGroups p = (p', oldGroups', newOnly) \<Longrightarrow>
   distinct (map fst oldGroups) \<Longrightarrow>
   distinct (map fst oldGroups') \<and>
   touched p' + grouped oldGroups' \<subseteq># touched p + grouped oldGroups"
proof (induction newGroups ks oldGroups p arbitrary: p' oldGroups' newOnly
    rule: plan_common.induct)
  case (1 newGroups oldGroups p)
  then show ?case by simp
next
  case (2 newGroups k ks oldGroups p)
  show ?case
  proof (cases "map_of oldGroups k")
    case None
    with 2 show ?thesis by (auto split: prod.splits)
  next
    case (Some olds)
    let ?p = "planGroup k olds (lookup_list newGroups k) False p"
    have IH: "distinct (map fst oldGroups')"
        "touched p' + grouped oldGroups' \<subseteq># touched ?p + grouped (AList.delete k oldGroups)"
      using "2.IH"(2) [OF Some] "2.prems" Some by (auto intro: distinct_delete)
    note IH(2)
    also have "touched ?p + grouped (AList.delete k oldGroups)
        \<subseteq># touched p + mset olds + grouped (AList.delete k oldGroups)"
      using within_planGroup unfolding within_def by (rule subset_mset.add_right_mono)
    also have "touched p + mset olds + grouped (AList.delete k oldGroups) =
        touched p + grouped oldGroups"
      using grouped_delete [OF "2.prems"(2), of k] lookup_list_Some [OF Some] by (simp add: ac_simps)
    finally show ?thesis using IH(1) by simp
  qed
qed

lemma plan_new_group_within:
  assumes "plan_new_group newGroups reissue k (p, gone) = (p', gone')"
    and "distinct (map fst gone)"
  shows "distinct (map fst gone') \<and> touched p' + grouped gone' \<subseteq># touched p + grouped gone"
proof (cases "reissue k")
  case None
  with assms show ?thesis by (auto simp: plan_new_group_def)
next
  case (Some ok)
  let ?olds = "lookup_list gone ok"
  have split: "grouped (AList.delete ok gone) + mset ?olds = grouped gone"
    using assms(2) by (rule grouped_delete)
  then have le: "grouped (AList.delete ok gone) \<subseteq># grouped gone"
    by (metis mset_subset_eq_add_left)
  have review: "touched p + mset ?olds + grouped (AList.delete ok gone) = touched p + grouped gone"
    using split by (simp add: ac_simps)
  have group: "touched (planGroup k ?olds news s p) + grouped (AList.delete ok gone)
      \<subseteq># touched p + grouped gone" for news s
  proof -
    have "touched (planGroup k ?olds news s p) + grouped (AList.delete ok gone)
        \<subseteq># touched p + mset ?olds + grouped (AList.delete ok gone)"
      using within_planGroup unfolding within_def by (rule subset_mset.add_right_mono)
    then show ?thesis unfolding review .
  qed
  have keep: "touched p + grouped (AList.delete ok gone) \<subseteq># touched p + grouped gone"
    using le by simp
  let ?d = "decisionStatus (decision_of p (fingerprint (pl_hash p)
      (if snd ok = snd k then SemesterChanged else CodeReissued) (pl_year p)
      [key_String ok, key_String k]))"
  have "gone' = gone \<and> touched p' = touched p \<or>
      gone' = AList.delete ok gone \<and>
      (touched p' = touched p \<or> touched p' = touched p + mset ?olds \<or>
       (\<exists>news r. p' = applied r (planGroup k ?olds news True p)))"
  proof (cases "?d")
    case None
    with assms(1) Some show ?thesis by (auto simp: plan_new_group_def Let_def split: if_splits)
  next
    case (Some st)
    with assms(1) \<open>reissue k = Some ok\<close> show ?thesis
      by (cases st; cases "snd ok = snd k") (auto simp: plan_new_group_def Let_def)
  qed
  then have "gone' = gone \<and> touched p' = touched p \<or>
      gone' = AList.delete ok gone \<and> touched p' + grouped gone' \<subseteq># touched p + grouped gone"
    using group review keep by (elim disjE conjE exE) auto
  moreover have "distinct (map fst (AList.delete ok gone))"
    using assms(2) by (rule distinct_delete)
  ultimately show ?thesis
    using assms(2) by auto
qed

lemma plan_new_groups_within:
  "distinct (map fst (snd st)) \<Longrightarrow>
   distinct (map fst (snd (fold (plan_new_group ng re) ks st))) \<and>
   touched (fst (fold (plan_new_group ng re) ks st)) + grouped (snd (fold (plan_new_group ng re) ks st))
     \<subseteq># touched (fst st) + grouped (snd st)"
proof (induction ks arbitrary: st)
  case Nil
  then show ?case by simp
next
  case (Cons k ks)
  obtain p' gone' where s: "plan_new_group ng re k st = (p', gone')" by force
  with plan_new_group_within [of ng re k "fst st" "snd st" p' gone'] Cons.prems
  have step: "distinct (map fst gone') \<and>
      touched p' + grouped gone' \<subseteq># touched (fst st) + grouped (snd st)"
    by simp
  from Cons.IH [of "(p', gone')"] step s show ?case
    by (auto intro: subset_mset.order_trans)
qed

lemma plan_gone_within:
  assumes "distinct (map fst gone)"
  shows "touched (plan_gone gone p) \<subseteq># touched p + grouped gone"
proof -
  have fold_within: "within p (\<Sum>k\<leftarrow>ks. mset (f k)) (fold (\<lambda>k. fold discontinueCandidate (f k)) ks p)"
    for ks :: "group_key list" and f p
  proof (induction ks arbitrary: p)
    case Nil
    show ?case by (simp add: within_refl)
  next
    case (Cons k ks)
    from within_trans [OF within_candidates Cons] show ?case by simp
  qed
  have "(\<Sum>k\<leftarrow>sortedKeys gone. mset (lookup_list gone k)) = grouped gone"
    using grouped_lookups [OF assms]
      sum_list_mset_perm [of "sortedKeys gone" "map fst gone" "\<lambda>k. mset (lookup_list gone k)"]
    by (metis mset_sort sortedKeys_def)
  with fold_within [of p "lookup_list gone" "sortedKeys gone"] show ?thesis
    by (simp add: plan_gone_def within_def)
qed

lemma plan_courses_decide:
  "plan_courses (pl_plan (decideDiscontinues n fc p)) \<subseteq># touched p"
  by (auto simp: decideDiscontinues_def Let_def upd_plan_def plan_courses_def touched_def
      multiset.map_comp comp_def ac_simps split: option.split)

lemma touched_new_planner [simp]: "touched (new_planner h y rs t) = {#}"
  by (simp add: touched_def new_planner_def plan_courses_def empty_plan_def)

text \<open>The end of the pipeline before the discontinuations are decided.\<close>

definition planned ::
  "(string \<Rightarrow> string) \<Rightarrow> int \<Rightarrow> course list \<Rightarrow> scraped_course_input list \<Rightarrow> sync_review list
     \<Rightarrow> academic_term \<Rightarrow> planner" where
  "planned h year existing scraped reviews current =
     (let newGroups = group_by input_key (dedup_inputs [] scraped)
      in case plan_common newGroups (sortedKeys newGroups)
                (group_by course_key (syncable existing)) (new_planner h year reviews current) of
           (p1, gone, newOnly) \<Rightarrow>
             (let st = fold (plan_new_group newGroups (matchReissues p1 newOnly newGroups gone))
                         newOnly (p1, gone)
              in plan_gone (snd st) (fst st)))"

lemma PlanCourseSync_planned:
  "PlanCourseSync h year existing scraped reviews fc current =
     pl_plan (decideDiscontinues
       (length (filter (\<lambda>c. \<not> IsDiscontinued c) (syncable existing))) fc
       (planned h year existing scraped reviews current))"
  by (simp add: PlanCourseSync_def planned_def Let_def split: prod.split)

lemma planned_touched:
  "touched (planned h year existing scraped reviews current) \<subseteq># mset (syncable existing)"
proof -
  let ?ng = "group_by input_key (dedup_inputs [] scraped)"
  let ?og = "group_by course_key (syncable existing)"
  let ?p0 = "new_planner h year reviews current"
  obtain p1 gone newOnly
    where c: "plan_common ?ng (sortedKeys ?ng) ?og ?p0 = (p1, gone, newOnly)"
    by (metis prod_cases3)
  let ?st = "fold (plan_new_group ?ng (matchReissues p1 newOnly ?ng gone)) newOnly (p1, gone)"
  have 1: "distinct (map fst gone)" "touched p1 + grouped gone \<subseteq># mset (syncable existing)"
    using plan_common_within [OF c distinct_group_by] by simp_all
  have 2: "distinct (map fst (snd ?st))"
      "touched (fst ?st) + grouped (snd ?st) \<subseteq># touched p1 + grouped gone"
    using plan_new_groups_within [of "(p1, gone)" ?ng] 1(1) by simp_all
  have "touched (plan_gone (snd ?st) (fst ?st)) \<subseteq># touched p1 + grouped gone"
    using plan_gone_within [OF 2(1)] 2(2) by (rule subset_mset.order_trans)
  then have "touched (plan_gone (snd ?st) (fst ?st)) \<subseteq># mset (syncable existing)"
    using 1(2) by (rule subset_mset.order_trans)
  then show ?thesis unfolding planned_def Let_def c by simp
qed

section \<open>Planning as a sequence of elementary steps\<close>

text \<open>
  Every entry of a plan is made by one of these steps. Invariants of the planner are proved once
  per step and lifted to the whole plan; \<open>planned_steps\<close> is the lifting.
\<close>

inductive planner_step :: "planner \<Rightarrow> planner \<Rightarrow> bool" where
  create: "planner_step p (createAll news d p)"
| update: "planner_step p (update_course c inp p)"
| candidate: "planner_step p (discontinueCandidate c p)"
| review: "\<forall>r. pl_decisions p fp = Some r \<longrightarrow> r_Status r \<noteq> Different \<and> r_Status r \<noteq> Ignored \<Longrightarrow>
    fp = fingerprint (pl_hash p) kind (pl_year p) parts \<Longrightarrow>
    planner_step p (add_review kind fp msg olds news p)"
| decided: "pl_decisions p fp = Some r \<Longrightarrow> r_Status r = Same \<or> r_Status r = Different \<Longrightarrow>
    planner_step p (applied (Some r) p)"
| force: "pl_decisions p fp = Some r \<Longrightarrow> r_Status r = Different \<Longrightarrow> d \<noteq> NotListedAnymore \<Longrightarrow>
    rt \<or> (\<forall>c \<in> set cs. \<not> IsDiscontinued c) \<Longrightarrow>
    planner_step p (applied (Some r) (createAll news d (force_all cs rt d p)))"

inductive_cases planner_stepE: "planner_step p q"

abbreviation planner_steps :: "planner \<Rightarrow> planner \<Rightarrow> bool" where
  "planner_steps \<equiv> planner_step\<^sup>*\<^sup>*"

lemma planner_step_frame:
  "planner_step p q \<Longrightarrow>
   pl_year q = pl_year p \<and> pl_current q = pl_current p \<and> pl_decisions q = pl_decisions p \<and>
   pl_hash q = pl_hash p"
  by (induction rule: planner_step.induct)
    (simp_all add: createAll_def update_course_def discontinueCandidate_def add_review_def
      applied_def force_all_def upd_plan_def Let_def)

lemma planner_steps_frame:
  "planner_steps p q \<Longrightarrow>
   pl_year q = pl_year p \<and> pl_current q = pl_current p \<and> pl_decisions q = pl_decisions p \<and>
   pl_hash q = pl_hash p"
  by (induction rule: rtranclp_induct) (auto dest: planner_step_frame)

lemma planner_invariant:
  assumes "planner_steps p q" and "I p"
    and "\<And>p q. planner_step p q \<Longrightarrow> I p \<Longrightarrow> I q"
  shows "I q"
  using assms by (induction rule: rtranclp_induct) auto

lemmas step1 = r_into_rtranclp [of planner_step]

lemma step_then: "planner_step p q \<Longrightarrow> planner_steps q r \<Longrightarrow> planner_steps p r"
  by (rule converse_rtranclp_into_rtranclp)

lemma decisionStatus_Some: "decisionStatus d = Some st \<Longrightarrow> \<exists>r. d = Some r \<and> r_Status r = st"
  by (cases d) auto

lemma steps_candidates: "planner_steps p (fold discontinueCandidate cs p)"
  by (induction cs arbitrary: p) (auto intro: converse_rtranclp_into_rtranclp planner_step.candidate)

lemma steps_match_slots:
  "match_slots bySlot news matched p = (p', matched', left) \<Longrightarrow> planner_steps p p'"
proof (induction bySlot news matched p arbitrary: p' matched' left rule: match_slots.induct)
  case (1 bySlot matched p)
  then show ?case by simp
next
  case (2 bySlot inp news matched p)
  show ?case
  proof (cases "bySlot (slotLabel (i_DayOfWeek inp) (i_Period inp))")
    case None
    with 2 show ?thesis by (auto split: prod.splits)
  next
    case (Some c)
    show ?thesis
    proof (cases "c_ID c \<in> set matched")
      case True
      with Some "2.prems" "2.IH"(3) [OF Some] show ?thesis by (auto split: prod.splits)
    next
      case False
      with Some "2.prems" "2.IH"(2) [OF Some False] show ?thesis
        by (auto intro: step_then [OF planner_step.update])
    qed
  qed
qed

lemma steps_plan_leftovers: "planner_steps p (plan_leftovers k olds news p)"
proof -
  let ?fp = "fingerprint (pl_hash p) SlotAmbiguous (pl_year p)
      [key_String k, Join '','' (oldSlots olds), Join '','' (newSlots news)]"
  have rv: "planner_step p (add_review SlotAmbiguous ?fp m olds news p)"
    if "\<forall>r. decision_of p ?fp = Some r \<longrightarrow> r_Status r \<noteq> Different \<and> r_Status r \<noteq> Ignored" for m
    using that unfolding decision_of_def by (rule planner_step.review) simp
  have fc: "planner_step p (applied (Some r) (createAll news SlotsRecreatedDecision
      (force_all (filter (\<lambda>c. \<not> IsDiscontinued c) olds) False SlotsRecreatedDecision p)))"
    if "decision_of p ?fp = Some r" "r_Status r = Different" for r
    using that unfolding decision_of_def by (rule planner_step.force) auto
  show ?thesis
  proof (cases "decision_of p ?fp")
    case None
    then show ?thesis
      using rv by (simp add: plan_leftovers_def Let_def planner_step.create planner_step.update
          steps_candidates r_into_rtranclp)
  next
    case (Some r)
    then show ?thesis
      using rv fc by (cases "r_Status r")
        (simp_all add: plan_leftovers_def Let_def planner_step.create planner_step.update
          steps_candidates r_into_rtranclp)
  qed
qed

lemma steps_plan_slots: "planner_steps p (plan_slots k olds news p)"
proof -
  obtain p' matched left where m: "match_slots (oldBySlot olds) news [] p = (p', matched, left)"
    by (metis prod_cases3)
  show ?thesis
    using rtranclp_trans [OF steps_match_slots [OF m] steps_plan_leftovers]
    by (simp add: plan_slots_def m)
qed

lemma steps_planGroup: "planner_steps p (planGroup k olds news skip p)"
proof -
  let ?fp = "fingerprint (pl_hash p) CodeReused (pl_year p)
      [key_String k, i_SourceName (hd news), i_TeacherName (hd news)]"
  have rv: "planner_step p (add_review CodeReused ?fp m olds news p)"
    if "\<forall>r. decision_of p ?fp = Some r \<longrightarrow> r_Status r \<noteq> Different \<and> r_Status r \<noteq> Ignored" for m
    using that unfolding decision_of_def by (rule planner_step.review) simp
  have fc: "planner_step p (applied (Some r) (createAll news CodeReusedDecision
      (force_all olds True CodeReusedDecision p)))"
    if "decision_of p ?fp = Some r" "r_Status r = Different" for r
    using that unfolding decision_of_def by (rule planner_step.force) auto
  have same: "planner_steps p (plan_slots k olds news (applied (Some r) p))"
    if "decision_of p ?fp = Some r" "r_Status r = Same" for r
    using step_then [OF planner_step.decided steps_plan_slots] that
    unfolding decision_of_def by blast
  show ?thesis
  proof (cases "decision_of p ?fp")
    case None
    then show ?thesis
      using rv by (simp add: planGroup_def Let_def steps_plan_slots r_into_rtranclp)
  next
    case (Some r)
    then show ?thesis
      using rv fc same by (cases "r_Status r")
        (simp_all add: planGroup_def Let_def steps_plan_slots r_into_rtranclp)
  qed
qed

lemma steps_plan_common:
  "plan_common newGroups ks oldGroups p = (p', oldGroups', newOnly) \<Longrightarrow> planner_steps p p'"
proof (induction newGroups ks oldGroups p arbitrary: p' oldGroups' newOnly
    rule: plan_common.induct)
  case (1 newGroups oldGroups p)
  then show ?case by simp
next
  case (2 newGroups k ks oldGroups p)
  show ?case
  proof (cases "map_of oldGroups k")
    case None
    with 2 show ?thesis by (auto split: prod.splits)
  next
    case (Some olds)
    with "2.prems" "2.IH"(2) [OF Some] show ?thesis
      by (auto intro: rtranclp_trans [OF steps_planGroup])
  qed
qed

lemma steps_plan_new_group:
  assumes "plan_new_group newGroups reissue k (p, gone) = (p', gone')"
  shows "planner_steps p p'"
proof (cases "reissue k")
  case None
  with assms show ?thesis
    by (auto simp: plan_new_group_def intro: r_into_rtranclp planner_step.create)
next
  case (Some ok)
  let ?news = "lookup_list newGroups k"
  let ?olds = "lookup_list gone ok"
  let ?kind = "if snd ok = snd k then SemesterChanged else CodeReissued"
  let ?fp = "fingerprint (pl_hash p) ?kind (pl_year p) [key_String ok, key_String k]"
  have rv: "planner_step p (add_review ?kind ?fp m ?olds ?news p)"
    if "\<forall>r. decision_of p ?fp = Some r \<longrightarrow> r_Status r \<noteq> Different \<and> r_Status r \<noteq> Ignored" for m
    using that unfolding decision_of_def by (rule planner_step.review) simp
  have dec: "planner_steps p (applied (Some r) (f p))"
    if "decision_of p ?fp = Some r" "r_Status r = Same \<or> r_Status r = Different"
      "planner_steps p (f p)" for r f
  proof -
    have "pl_decisions (f p) ?fp = Some r"
      using that planner_steps_frame [of p "f p"] by (simp add: decision_of_def)
    then have "planner_step (f p) (applied (Some r) (f p))"
      using that(2) by (rule planner_step.decided)
    with that(3) show ?thesis by (rule rtranclp.rtrancl_into_rtrancl)
  qed
  have group: "planner_steps p (planGroup k ?olds ?news True p)" by (rule steps_planGroup)
  have new: "planner_steps p (createAll ?news d p)" for d
    by (rule r_into_rtranclp) (rule planner_step.create)
  show ?thesis
  proof (cases "decision_of p ?fp")
    case None
    with assms Some rv show ?thesis
      by (auto simp: plan_new_group_def Let_def intro: r_into_rtranclp split: if_splits)
  next
    case (Some r)
    note dec = dec [of r "planGroup k ?olds ?news True"] dec [of r "createAll ?news _"]
    show ?thesis
      using assms \<open>reissue k = Some ok\<close> Some rv dec group new
      by (cases "r_Status r"; cases "snd ok = snd k")
        (auto simp: plan_new_group_def Let_def intro: r_into_rtranclp)
  qed
qed

lemma steps_plan_new_groups:
  "planner_steps (fst st) (fst (fold (plan_new_group ng re) ks st))"
proof (induction ks arbitrary: st)
  case Nil
  show ?case by simp
next
  case (Cons k ks)
  have "planner_steps (fst st) (fst (plan_new_group ng re k st))"
    by (rule steps_plan_new_group [where gone = "snd st"]) (rule prod_eqI, simp_all)
  with Cons.IH [of "plan_new_group ng re k st"] show ?case by (auto intro: rtranclp_trans)
qed

lemma steps_plan_gone: "planner_steps p (plan_gone gone p)"
proof -
  have "planner_steps p (fold (\<lambda>k. fold discontinueCandidate (f k)) ks p)" for f and ks :: "group_key list"
    by (induction ks arbitrary: p) (auto intro: rtranclp_trans steps_candidates)
  then show ?thesis by (simp add: plan_gone_def)
qed

lemma planned_steps:
  "planner_steps (new_planner h year reviews current)
     (planned h year existing scraped reviews current)"
proof -
  let ?ng = "group_by input_key (dedup_inputs [] scraped)"
  let ?og = "group_by course_key (syncable existing)"
  obtain p1 gone newOnly
    where c: "plan_common ?ng (sortedKeys ?ng) ?og (new_planner h year reviews current) =
      (p1, gone, newOnly)"
    by (metis prod_cases3)
  let ?st = "fold (plan_new_group ?ng (matchReissues p1 newOnly ?ng gone)) newOnly (p1, gone)"
  have "planner_steps p1 (fst ?st)"
    using steps_plan_new_groups [of "(p1, gone)"] by simp
  with steps_plan_common [OF c] steps_plan_gone [of "fst ?st" "snd ?st"] show ?thesis
    unfolding planned_def Let_def c by (auto intro: rtranclp_trans)
qed

end
