(* ===== verification/Course_Plan_Rows.thy ===== *)
theory Course_Plan_Rows
  imports Course_Plan_Facts
begin

text \<open>
  The syllabus side of the accounting: every row of the syllabus (duplicates removed) ends as
  exactly one of a new course, an update or confirmation of an existing course, or a proposal of
  a review. A row is left out only where an administrator asked to leave the situation alone, or
  where the courses it would compete with ended before the current term.
\<close>

section \<open>Rows used and rows dropped\<close>

definition rows_used :: "sync_plan \<Rightarrow> scraped_course_input multiset" where
  "rows_used pl = mset (map cr_Input (p_Creates pl)) + mset (concat (map v_Proposed (p_Reviews pl)))"

definition rows_matched :: "sync_plan \<Rightarrow> nat" where
  "rows_matched pl = length (filter (\<lambda>u. \<not> u_Silent u) (p_Updates pl)) + p_Unchanged pl"

definition drops :: "planner \<Rightarrow> course set \<Rightarrow> bool" where
  "drops p C \<longleftrightarrow> (\<exists>fp r. pl_decisions p fp = Some r \<and> r_Status r = Ignored) \<or>
     (\<exists>c \<in> C. endedBefore (pl_current p) c)"

definition handles ::
  "course set \<Rightarrow> planner \<Rightarrow> scraped_course_input multiset \<Rightarrow> planner \<Rightarrow> bool" where
  "handles C p M q \<longleftrightarrow>
     (\<exists>N D. rows_used (pl_plan q) + N + D = rows_used (pl_plan p) + M \<and>
        rows_matched (pl_plan q) = rows_matched (pl_plan p) + size N \<and>
        (D \<noteq> {#} \<longrightarrow> drops p C)) \<and>
     pl_decisions q = pl_decisions p \<and> pl_current q = pl_current p"

lemma handlesI:
  assumes "rows_used (pl_plan q) + N + D = rows_used (pl_plan p) + M"
    and "rows_matched (pl_plan q) = rows_matched (pl_plan p) + size N"
    and "D \<noteq> {#} \<Longrightarrow> drops p C"
    and "pl_decisions q = pl_decisions p" and "pl_current q = pl_current p"
  shows "handles C p M q"
  unfolding handles_def using assms by blast

lemma handles_trans:
  assumes "handles C p M q" and "handles C q N r"
  shows "handles C p (M + N) r"
proof -
  obtain N1 D1 where 1: "rows_used (pl_plan q) + N1 + D1 = rows_used (pl_plan p) + M"
      "rows_matched (pl_plan q) = rows_matched (pl_plan p) + size N1" "D1 \<noteq> {#} \<longrightarrow> drops p C"
      "pl_decisions q = pl_decisions p" "pl_current q = pl_current p"
    using assms(1) unfolding handles_def by blast
  obtain N2 D2 where 2: "rows_used (pl_plan r) + N2 + D2 = rows_used (pl_plan q) + N"
      "rows_matched (pl_plan r) = rows_matched (pl_plan q) + size N2" "D2 \<noteq> {#} \<longrightarrow> drops q C"
      "pl_decisions r = pl_decisions q" "pl_current r = pl_current q"
    using assms(2) unfolding handles_def by blast
  have "rows_used (pl_plan r) + (N1 + N2) + (D1 + D2) = rows_used (pl_plan p) + (M + N)"
    using 1(1) 2(1) by (metis (no_types, lifting) add.assoc add.commute)
  moreover have "D1 + D2 \<noteq> {#} \<longrightarrow> drops p C"
    using 1 2 by (auto simp: drops_def)
  ultimately show ?thesis
    using 1 2 by (intro handlesI [of r "N1 + N2" "D1 + D2"]) simp_all
qed

lemma handles_refl [simp]: "handles C p {#} p"
  by (simp add: handles_def)

lemma handles_drop: "drops p C \<Longrightarrow> handles C p M p"
  by (auto simp: handles_def)

lemma handles_create [simp]: "handles C p (mset news) (createAll news d p)"
  by (auto simp: handles_def createAll_def upd_plan_def rows_used_def rows_matched_def
      multiset.map_comp comp_def)

lemma handles_review [simp]: "handles C p (mset news) (add_review k fp m olds news p)"
  by (auto simp: handles_def add_review_def upd_plan_def rows_used_def rows_matched_def)

lemma handles_update [simp]: "handles C p {#i#} (update_course c i p)"
proof -
  have "rows_used (pl_plan (update_course c i p)) = rows_used (pl_plan p)"
    by (simp add: update_course_def Let_def upd_plan_def rows_used_def)
  moreover have "rows_matched (pl_plan (update_course c i p)) = rows_matched (pl_plan p) + 1"
    by (simp add: update_course_def Let_def upd_plan_def rows_matched_def)
  moreover have "pl_decisions (update_course c i p) = pl_decisions p \<and>
      pl_current (update_course c i p) = pl_current p"
    using planner_step_frame [OF planner_step.update] by blast
  ultimately show ?thesis
    by (intro handlesI [of _ "{#i#}" "{#}"]) simp_all
qed

lemma same_rows [simp]:
  "rows_used (pl_plan (applied r p)) = rows_used (pl_plan p)"
  "rows_matched (pl_plan (applied r p)) = rows_matched (pl_plan p)"
  "rows_used (pl_plan (force_all cs rt d p)) = rows_used (pl_plan p)"
  "rows_matched (pl_plan (force_all cs rt d p)) = rows_matched (pl_plan p)"
  "pl_decisions (applied r p) = pl_decisions p" "pl_current (applied r p) = pl_current p"
  "pl_decisions (force_all cs rt d p) = pl_decisions p"
  "pl_current (force_all cs rt d p) = pl_current p"
  by (simp_all add: applied_def force_all_def upd_plan_def rows_used_def rows_matched_def
      split: option.split)

lemma handles_applied [simp]: "handles C p M (applied r q) \<longleftrightarrow> handles C p M q"
  by (simp add: handles_def)

lemma handles_from_applied [simp]: "handles C (applied r p) M q \<longleftrightarrow> handles C p M q"
  by (simp add: handles_def drops_def)

lemma handles_from_force [simp]: "handles C (force_all cs rt d p) M q \<longleftrightarrow> handles C p M q"
  by (simp add: handles_def drops_def)

lemma handles_candidates [simp]: "handles C p {#} (fold discontinueCandidate cs p)"
proof (induction cs arbitrary: p)
  case Nil
  show ?case by simp
next
  case (Cons c cs)
  have "handles C p {#} (discontinueCandidate c p)"
    by (simp add: handles_def discontinueCandidate_def)
  from handles_trans [OF this Cons] show ?case by simp
qed

section \<open>Rows through the passes\<close>

lemma match_slots_rows:
  "match_slots bySlot news matched p = (p', matched', left) \<Longrightarrow>
   \<exists>M. handles C p M p' \<and> M + mset left = mset news"
proof (induction bySlot news matched p arbitrary: p' matched' left rule: match_slots.induct)
  case (1 bySlot matched p)
  then show ?case by (auto intro!: exI [of _ "{#}"])
next
  case (2 bySlot inp news matched p)
  show ?case
  proof (cases "bySlot (slotLabel (i_DayOfWeek inp) (i_Period inp))")
    case None
    with 2 show ?thesis by (fastforce split: prod.splits)
  next
    case (Some c)
    show ?thesis
    proof (cases "c_ID c \<in> set matched")
      case True
      with Some "2.prems" "2.IH"(3) [OF Some] show ?thesis by (fastforce split: prod.splits)
    next
      case False
      with Some "2.prems" "2.IH"(2) [OF Some False] obtain M
        where M: "handles C (update_course c inp p) M p'" "M + mset left = mset news"
        by auto
      from handles_trans [OF handles_update M(1)] M(2) show ?thesis
        by (intro exI [of _ "{#inp#} + M"]) simp
    qed
  qed
qed

lemma plan_leftovers_rows:
  assumes "set olds \<subseteq> C"
  shows "handles C p (mset news) (plan_leftovers k olds news p)"
proof (cases "olds = [] \<or> news = [] \<or> length olds = 1 \<and> length news = 1")
  case True
  moreover have "handles C p (mset news) (update_course (hd olds) (hd news) p)"
    if "length news = 1"
    using that handles_update [of C p "hd news" "hd olds"] by (cases news) auto
  ultimately show ?thesis by (auto simp: plan_leftovers_def)
next
  case False
  show ?thesis
  proof (cases "allEnded p olds")
    case True
    with False assms have "drops p C"
      by (cases olds) (auto simp: drops_def allEnded_def)
    with False True show ?thesis by (auto simp: plan_leftovers_def handles_drop)
  next
    case no: False
    let ?fp = "fingerprint (pl_hash p) SlotAmbiguous (pl_year p)
        [key_String k, Join '','' (oldSlots olds), Join '','' (newSlots news)]"
    have "drops p C" if "decisionStatus (decision_of p ?fp) = Some Ignored"
      using decisionStatus_Some [OF that] by (auto simp: decision_of_def drops_def)
    moreover have "handles C p (mset news)
        (createAll news d (force_all (filter (\<lambda>c. \<not> IsDiscontinued c) olds) False d p))" for d
      using handles_create
        [of C "force_all (filter (\<lambda>c. \<not> IsDiscontinued c) olds) False d p" news d]
      unfolding handles_from_force .
    ultimately show ?thesis
      using False no
      by (auto simp: plan_leftovers_def Let_def handles_drop
          split: option.split review_status.split)
  qed
qed

lemma plan_slots_rows:
  assumes "set olds \<subseteq> C"
  shows "handles C p (mset news) (plan_slots k olds news p)"
proof -
  obtain p' matched left where m: "match_slots (oldBySlot olds) news [] p = (p', matched, left)"
    by (metis prod_cases3)
  obtain M where M: "handles C p M p'" "M + mset left = mset news"
    using match_slots_rows [OF m] by blast
  have "handles C p' (mset left)
      (plan_leftovers k (filter (\<lambda>c. c_ID c \<notin> set matched) olds) left p')"
    using assms by (intro plan_leftovers_rows) auto
  from handles_trans [OF M(1) this] M(2) show ?thesis by (simp add: plan_slots_def m)
qed

lemma planGroup_rows:
  assumes "set olds \<subseteq> C"
  shows "handles C p (mset news) (planGroup k olds news skip p)"
proof -
  let ?fp = "fingerprint (pl_hash p) CodeReused (pl_year p)
      [key_String k, i_SourceName (hd news), i_TeacherName (hd news)]"
  have "drops p C" if "decisionStatus (decision_of p ?fp) = Some Ignored"
    using decisionStatus_Some [OF that] by (auto simp: decision_of_def drops_def)
  moreover have "handles C p (mset news) (createAll news d (force_all olds True d p))" for d
    using handles_create [of C "force_all olds True d p" news d] unfolding handles_from_force .
  moreover have "handles C p (mset news) (plan_slots k olds news (applied r p))" for r
    using plan_slots_rows [OF assms, of "applied r p"] by simp
  ultimately show ?thesis
    using plan_slots_rows [OF assms]
    by (simp add: planGroup_def Let_def handles_drop split: option.split review_status.split)
qed

definition rows_of :: "new_groups \<Rightarrow> group_key list \<Rightarrow> scraped_course_input multiset" where
  "rows_of ng ks = (\<Sum>k\<leftarrow>ks. mset (lookup_list ng k))"

lemma rows_of_simps [simp]:
  "rows_of ng [] = {#}" "rows_of ng (k # ks) = mset (lookup_list ng k) + rows_of ng ks"
  by (simp_all add: rows_of_def)

lemma grouped_member: "map_of m k = Some vs \<Longrightarrow> set vs \<subseteq> set_mset (grouped m)"
  by (auto simp: grouped_def dest!: map_of_SomeD)

lemma grouped_delete_subset: "set_mset (grouped (AList.delete k m)) \<subseteq> set_mset (grouped m)"
  by (auto simp: grouped_def AList.delete_eq)

lemma plan_common_rows:
  "plan_common ng ks og p = (p', og', newOnly) \<Longrightarrow> set_mset (grouped og) \<subseteq> C \<Longrightarrow>
   set_mset (grouped og') \<subseteq> C \<and> set newOnly \<subseteq> set ks \<and>
   (\<exists>M. handles C p M p' \<and> M + rows_of ng newOnly = rows_of ng ks)"
proof (induction ng ks og p arbitrary: p' og' newOnly rule: plan_common.induct)
  case (1 ng og p)
  then show ?case by (auto intro!: exI [of _ "{#}"])
next
  case (2 ng k ks og p)
  show ?case
  proof (cases "map_of og k")
    case None
    with 2 show ?thesis by (fastforce split: prod.splits)
  next
    case (Some olds)
    let ?p = "planGroup k olds (lookup_list ng k) False p"
    have sub: "set_mset (grouped (AList.delete k og)) \<subseteq> C"
      using "2.prems"(2) grouped_delete_subset by fastforce
    from "2.IH"(2) [OF Some _ sub] "2.prems" Some obtain M
      where M: "handles C ?p M p'" "M + rows_of ng newOnly = rows_of ng ks"
        and sets: "set_mset (grouped og') \<subseteq> C" "set newOnly \<subseteq> set ks"
      by auto
    have "handles C p (mset (lookup_list ng k)) ?p"
      using grouped_member [OF Some] "2.prems"(2) by (intro planGroup_rows) auto
    from handles_trans [OF this M(1)] M(2) sets show ?thesis
      by (auto intro!: exI [of _ "mset (lookup_list ng k) + M"])
  qed
qed

lemma plan_new_group_rows:
  assumes "plan_new_group ng reissue k (p, gone) = (p', gone')" and "set_mset (grouped gone) \<subseteq> C"
  shows "handles C p (mset (lookup_list ng k)) p' \<and> set_mset (grouped gone') \<subseteq> C"
proof (cases "reissue k")
  case None
  with assms show ?thesis by (auto simp: plan_new_group_def)
next
  case (Some ok)
  let ?kind = "if snd ok = snd k then SemesterChanged else CodeReissued"
  let ?fp = "fingerprint (pl_hash p) ?kind (pl_year p) [key_String ok, key_String k]"
  have olds: "set (lookup_list gone ok) \<subseteq> C"
    using grouped_member [of gone ok] assms(2)
    by (cases "map_of gone ok") (force simp: lookup_list_def)+
  have del: "set_mset (grouped (AList.delete ok gone)) \<subseteq> C"
    using assms(2) grouped_delete_subset by fastforce
  have group: "handles C p (mset (lookup_list ng k))
      (planGroup k (lookup_list gone ok) (lookup_list ng k) True p)"
    using olds by (rule planGroup_rows)
  show ?thesis
  proof (cases "decision_of p ?fp")
    case None
    with assms Some del show ?thesis by (auto simp: plan_new_group_def Let_def split: if_splits)
  next
    case (Some r)
    then have "drops p C" if "r_Status r = Ignored"
      using that by (auto simp: decision_of_def drops_def)
    with assms \<open>reissue k = Some ok\<close> Some del group show ?thesis
      by (cases "r_Status r"; cases "snd ok = snd k")
        (auto simp: plan_new_group_def Let_def handles_drop)
  qed
qed

lemma plan_new_groups_rows:
  "set_mset (grouped (snd st)) \<subseteq> C \<Longrightarrow>
   handles C (fst st) (rows_of ng ks) (fst (fold (plan_new_group ng re) ks st))"
proof (induction ks arbitrary: st)
  case Nil
  show ?case by simp
next
  case (Cons k ks)
  obtain p' gone' where s: "plan_new_group ng re k st = (p', gone')" by force
  have "handles C (fst st) (mset (lookup_list ng k)) p' \<and> set_mset (grouped gone') \<subseteq> C"
    using plan_new_group_rows [of ng re k "fst st" "snd st"] s Cons.prems by simp
  with handles_trans [of C "fst st" "mset (lookup_list ng k)" p'] Cons.IH [of "(p', gone')"] s
  show ?case by simp
qed

lemma plan_gone_rows: "handles C p {#} (plan_gone gone p)"
proof -
  have "handles C p {#} (fold (\<lambda>k. fold discontinueCandidate (f k)) ks p)"
    for f and ks :: "group_key list"
  proof (induction ks arbitrary: p)
    case Nil
    show ?case by simp
  next
    case (Cons k ks)
    from handles_trans [OF handles_candidates Cons] show ?case by simp
  qed
  then show ?thesis by (simp add: plan_gone_def)
qed

lemma rows_of_sortedKeys: "distinct (map fst ng) \<Longrightarrow> rows_of ng (sortedKeys ng) = grouped ng"
proof -
  assume d: "distinct (map fst ng)"
  have "mset (sortedKeys ng) = mset (map fst ng)" by (simp add: sortedKeys_def)
  from sum_list_mset_perm [OF this] grouped_lookups [OF d] show ?thesis
    unfolding rows_of_def by (rule trans)
qed

lemma planned_rows:
  "handles (set existing) (new_planner h year reviews current) (mset (dedup_inputs [] scraped))
     (planned h year existing scraped reviews current)"
proof -
  let ?C = "set existing"
  let ?ng = "group_by input_key (dedup_inputs [] scraped)"
  let ?og = "group_by course_key (syncable existing)"
  let ?p0 = "new_planner h year reviews current"
  obtain p1 gone newOnly
    where c: "plan_common ?ng (sortedKeys ?ng) ?og ?p0 = (p1, gone, newOnly)"
    by (metis prod_cases3)
  let ?st = "fold (plan_new_group ?ng (matchReissues p1 newOnly ?ng gone)) newOnly (p1, gone)"
  have "set_mset (grouped ?og) \<subseteq> ?C" by (auto simp: syncable_def)
  from plan_common_rows [OF c this] obtain M
    where g: "set_mset (grouped gone) \<subseteq> ?C" and M: "handles ?C ?p0 M p1"
      "M + rows_of ?ng newOnly = rows_of ?ng (sortedKeys ?ng)"
    by blast
  have "handles ?C p1 (rows_of ?ng newOnly) (fst ?st)"
    using plan_new_groups_rows [of "(p1, gone)" ?C] g by simp
  from handles_trans [OF handles_trans [OF M(1) this] plan_gone_rows [of ?C _ "snd ?st"]]
  have "handles ?C ?p0 (rows_of ?ng (sortedKeys ?ng)) (plan_gone (snd ?st) (fst ?st))"
    using M(2) by simp
  moreover have "rows_of ?ng (sortedKeys ?ng) = mset (dedup_inputs [] scraped)"
    using rows_of_sortedKeys [OF distinct_group_by] by simp
  ultimately show ?thesis unfolding planned_def Let_def c by simp
qed

lemma rows_decide [simp]:
  "rows_used (pl_plan (decideDiscontinues n fc p)) = rows_used (pl_plan p)"
  "rows_matched (pl_plan (decideDiscontinues n fc p)) = rows_matched (pl_plan p)"
  by (simp_all add: decideDiscontinues_def Let_def upd_plan_def rows_used_def rows_matched_def
      split: option.split)

lemma new_planner_rows [simp]:
  "rows_used (pl_plan (new_planner h y rs t)) = {#}"
  "rows_matched (pl_plan (new_planner h y rs t)) = 0"
  "pl_current (new_planner h y rs t) = t"
  by (simp_all add: new_planner_def empty_plan_def rows_used_def rows_matched_def)

lemma decisions_new_planner:
  "pl_decisions (new_planner h y rs t) fp = Some r \<Longrightarrow> r \<in> set rs \<and> r_Fingerprint r = fp"
proof -
  have "foldl (\<lambda>m r. m(r_Fingerprint r \<mapsto> r)) Map.empty rs fp = Some r \<Longrightarrow>
      r \<in> set rs \<and> r_Fingerprint r = fp"
    by (induction rs rule: rev_induct) (auto split: if_splits)
  then show "pl_decisions (new_planner h y rs t) fp = Some r \<Longrightarrow> r \<in> set rs \<and> r_Fingerprint r = fp"
    by (simp add: new_planner_def)
qed

end
