(* ===== verification/Course_Plan_Props.thy ===== *)
theory Course_Plan_Props
  imports Course_Plan_Rows
begin

text \<open>
  The properties of the synchronisation plan, over the accounting of the two preceding theories.
\<close>

section \<open>Sample data for the witnesses\<close>

definition sample_course :: "int \<Rightarrow> string \<Rightarrow> string \<Rightarrow> int \<Rightarrow> string \<Rightarrow> string \<Rightarrow> course" where
  "sample_course i ref day period name teacher =
     \<lparr>c_ID = i, c_RoomID = i + 1000, c_DayOfWeek = day, c_Period = period,
      c_TeacherName = teacher, c_CourseName = name, c_Year = 2026, c_Semester = SemesterFirst,
      c_DedupKey = ref @ day @ Itoa period, c_Source = ''senshu'', c_SourceRef = ref,
      c_SourceName = name, c_DiscontinuedAt = None\<rparr>"

definition sample_input :: "string \<Rightarrow> string \<Rightarrow> int \<Rightarrow> string \<Rightarrow> string \<Rightarrow> scraped_course_input" where
  "sample_input ref day period name teacher =
     \<lparr>i_DayOfWeek = day, i_Period = period, i_TeacherName = teacher, i_CourseName = name,
      i_Year = 2026, i_Semester = SemesterFirst, i_DedupKey = ref @ day @ Itoa period,
      i_SourceRef = ref, i_SourceName = name, i_Disambiguated = False\<rparr>"

definition sample_term :: academic_term where
  "sample_term = \<lparr>t_Year = 2026, t_Semester = SemesterFirst\<rparr>"

definition sample_complete :: "int \<Rightarrow> fetch_completeness" where
  "sample_complete n = \<lparr>SiteTotal = n, ListedRows = n, UnidentifiedRows = 0\<rparr>"

definition sample_second :: academic_term where
  "sample_second = \<lparr>t_Year = 2026, t_Semester = SemesterSecond\<rparr>"

definition sample_ten :: "course list" where
  "sample_ten = map (\<lambda>i. sample_course i (Itoa i) ''M'' 1 ''N'' ''T'') [1..10]"

definition sample_nine :: "scraped_course_input list" where
  "sample_nine = map (\<lambda>i. sample_input (Itoa i) ''M'' 1 ''N'' ''T'') [1..9]"

section \<open>Every course is touched at most once\<close>

lemma PlanCourseSync_courses:
  "plan_courses (PlanCourseSync h year existing scraped reviews fc current)
     \<subseteq># mset (syncable existing)"
  using plan_courses_decide planned_touched unfolding PlanCourseSync_planned
  by (rule subset_mset.order_trans)

definition courses_named :: "sync_plan \<Rightarrow> course list" where
  "courses_named pl = map u_Before (p_Updates pl) @ map d_Course (p_Discontinues pl) @
     concat (map v_Existing (p_Reviews pl))"

text \<open>C1: Whatever the syllabus, the reviews and the decisions say, a plan names each course of the
  database at most once over all its updates, discontinuations and reviews together, and names
  only courses that were imported from the syllabus.\<close>

theorem plan_touches_each_course_once:
  assumes "distinct (map c_ID existing)"
  shows "distinct (map c_ID (courses_named
      (PlanCourseSync h year existing scraped reviews fc current))) \<and>
    set (courses_named (PlanCourseSync h year existing scraped reviews fc current))
      \<subseteq> {c \<in> set existing. c_SourceRef c \<noteq> []}"
proof
  let ?named = "courses_named (PlanCourseSync h year existing scraped reviews fc current)"
  have sub: "mset ?named \<subseteq># mset (syncable existing)"
    using PlanCourseSync_courses [of h year existing scraped reviews fc current]
    by (simp add: courses_named_def plan_courses_def add.assoc)
  moreover have "distinct (map c_ID (syncable existing))"
    using assms(1) by (simp add: syncable_def distinct_map_filter)
  ultimately show "distinct (map c_ID ?named)"
    by (rule distinct_image_subset_mset)
  show "set ?named \<subseteq> {c \<in> set existing. c_SourceRef c \<noteq> []}"
    using set_mset_mono [OF sub] by (auto simp: syncable_def)
qed

theorem plan_touches_each_course_once_witness:
  "let pl = PlanCourseSync id 2026 [sample_course 1 ''1'' ''M'' 1 ''A'' ''T''] 
              [sample_input ''1'' ''W'' 3 ''A'' ''T''] [] (sample_complete 1) sample_term in
   map c_ID (courses_named pl) = [1] \<and>
   set (courses_named pl) \<subseteq> {c \<in> set [sample_course 1 ''1'' ''M'' 1 ''A'' ''T'']. c_SourceRef c \<noteq> []}"
proof -
  let ?old = "[sample_course 1 ''1'' ''M'' 1 ''A'' ''T'']"
  let ?pl = "PlanCourseSync id 2026 ?old [sample_input ''1'' ''W'' 3 ''A'' ''T''] []
    (sample_complete 1) sample_term"
  have "map c_ID (courses_named ?pl) = [1]" by code_simp
  moreover have "distinct (map c_ID ?old)" by (simp add: sample_course_def)
  ultimately show ?thesis
    using plan_touches_each_course_once [of ?old id 2026] unfolding Let_def by blast
qed

section \<open>Discontinuing\<close>

definition forced_ok :: "planner \<Rightarrow> bool" where
  "forced_ok p \<longleftrightarrow>
     p_Discontinues (pl_plan p) = [] \<and> p_DiscontinueSkippedReason (pl_plan p) = None \<and>
     (\<forall>c \<in> set (pl_candidates p). \<not> IsDiscontinued c) \<and>
     (\<forall>d \<in> set (pl_forced p). d_Detail d \<noteq> NotListedAnymore \<and>
        (d_Retire d \<or> \<not> IsDiscontinued (d_Course d)) \<and>
        (\<exists>fp r. pl_decisions p fp = Some r \<and> r_Status r = Different \<and>
           r_ID r \<in> set (p_AppliedReviewIDs (pl_plan p))))"

lemma forced_ok_step: "planner_step p q \<Longrightarrow> forced_ok p \<Longrightarrow> forced_ok q"
proof (induction rule: planner_step.induct)
  case (force p fp r d rt cs)
  then show ?case
    by (fastforce simp: forced_ok_def applied_def createAll_def force_all_def upd_plan_def)
next
  case (candidate p c)
  then show ?case by (auto simp: forced_ok_def discontinueCandidate_def)
next
  case (decided p fp r)
  then show ?case
    by (fastforce simp: forced_ok_def applied_def upd_plan_def)
qed (simp_all add: forced_ok_def createAll_def update_course_def add_review_def upd_plan_def Let_def)

lemma forced_ok_planned: "forced_ok (planned h year existing scraped reviews current)"
  using planned_steps
proof (rule planner_invariant [where I = forced_ok])
  show "forced_ok (new_planner h year reviews current)"
    by (simp add: forced_ok_def new_planner_def empty_plan_def)
qed (rule forced_ok_step)

definition automatic :: "sync_plan \<Rightarrow> planned_discontinue list" where
  "automatic pl = filter (\<lambda>d. d_Detail d = NotListedAnymore) (p_Discontinues pl)"

lemma automatic_decide:
  assumes "forced_ok p"
  shows "automatic (pl_plan (decideDiscontinues n fc p)) \<noteq> [] \<Longrightarrow>
    discontinueGuard (length (pl_candidates p)) n fc = None \<and>
    p_DiscontinueSkippedReason (pl_plan (decideDiscontinues n fc p)) = None \<and>
    automatic (pl_plan (decideDiscontinues n fc p)) =
      map (\<lambda>c. \<lparr>d_Course = c, d_Retire = False, d_Detail = NotListedAnymore\<rparr>) (pl_candidates p)"
  using assms
  by (auto simp: automatic_def decideDiscontinues_def Let_def upd_plan_def forced_ok_def
      filter_empty_conv filter_id_conv comp_def split: if_splits option.splits)

text \<open>C2: Courses are discontinued because they are no longer listed only when the syllabus was
  read completely (the rows read are the rows the site reports, and every row has a course code)
  and they are at most a tenth of the active courses; and only active courses are.\<close>

theorem automatic_discontinuation_guarded:
  assumes "pl = PlanCourseSync h year existing scraped reviews fc current"
    and "automatic pl \<noteq> []"
  shows "ListedRows fc = SiteTotal fc \<and> UnidentifiedRows fc \<le> 0 \<and>
    10 * length (automatic pl) \<le> length (filter (\<lambda>c. \<not> IsDiscontinued c) (syncable existing)) \<and>
    p_DiscontinueSkippedReason pl = None \<and>
    (\<forall>d \<in> set (automatic pl). \<not> d_Retire d \<and> \<not> IsDiscontinued (d_Course d))"
proof -
  let ?p = "planned h year existing scraped reviews current"
  let ?n = "length (filter (\<lambda>c. \<not> IsDiscontinued c) (syncable existing))"
  have ok: "forced_ok ?p" by (rule forced_ok_planned)
  note auto = automatic_decide [OF ok assms(2) [unfolded assms(1) PlanCourseSync_planned]]
  have guard: "discontinueGuard (length (pl_candidates ?p)) ?n fc = None"
    using auto by blast
  have "automatic pl = map (\<lambda>c. \<lparr>d_Course = c, d_Retire = False, d_Detail = NotListedAnymore\<rparr>)
      (pl_candidates ?p)"
    and "p_DiscontinueSkippedReason pl = None"
    using auto unfolding assms(1) PlanCourseSync_planned by blast+
  moreover have "ListedRows fc = SiteTotal fc" "UnidentifiedRows fc \<le> 0"
      "length (pl_candidates ?p) * 100 \<le> ?n * 10"
    using guard by (auto simp: discontinueGuard_def discontinueMaxRatioPercent_def split: if_splits)
  ultimately show ?thesis
    using ok by (auto simp: forced_ok_def)
qed

theorem automatic_discontinuation_guarded_witness:
  "let pl = PlanCourseSync id 2026 sample_ten sample_nine [] (sample_complete 9) sample_term in
   map (c_ID \<circ> d_Course) (automatic pl) = [10] \<and> p_DiscontinueSkippedReason pl = None \<and>
   10 * length (automatic pl) \<le> length (filter (\<lambda>c. \<not> IsDiscontinued c) (syncable sample_ten))"
proof -
  let ?pl = "PlanCourseSync id 2026 sample_ten sample_nine [] (sample_complete 9) sample_term"
  have a: "map (c_ID \<circ> d_Course) (automatic ?pl) = [10]" by code_simp
  then have "automatic ?pl \<noteq> []" by auto
  from automatic_discontinuation_guarded [OF refl this] a show ?thesis
    unfolding Let_def by blast
qed

text \<open>Every other discontinuation (a retired course code, a recreated slot) rests on a review of
  this year that an administrator answered with DIFFERENT, and that review is marked as applied.\<close>

theorem decided_discontinuation_has_decision:
  assumes "d \<in> set (p_Discontinues (PlanCourseSync h year existing scraped reviews fc current))"
    and "d_Detail d \<noteq> NotListedAnymore"
  shows "\<exists>r \<in> set reviews. r_Status r = Different \<and>
    r_ID r \<in> set (p_AppliedReviewIDs (PlanCourseSync h year existing scraped reviews fc current))"
proof -
  let ?p = "planned h year existing scraped reviews current"
  let ?n = "length (filter (\<lambda>c. \<not> IsDiscontinued c) (syncable existing))"
  have ok: "forced_ok ?p" by (rule forced_ok_planned)
  have "d \<in> set (pl_forced ?p)"
    using assms ok unfolding PlanCourseSync_planned
    by (auto simp: decideDiscontinues_def Let_def upd_plan_def forced_ok_def
        split: if_splits option.splits)
  then obtain fp r where r: "pl_decisions ?p fp = Some r" "r_Status r = Different"
      "r_ID r \<in> set (p_AppliedReviewIDs (pl_plan ?p))"
    using ok unfolding forced_ok_def by blast
  have "pl_decisions ?p = pl_decisions (new_planner h year reviews current)"
    using planner_steps_frame [OF planned_steps] by blast
  with r(1) have "r \<in> set reviews"
    using decisions_new_planner by metis
  moreover have "p_AppliedReviewIDs (pl_plan (decideDiscontinues ?n fc ?p)) =
      p_AppliedReviewIDs (pl_plan ?p)"
    by (simp add: decideDiscontinues_def Let_def upd_plan_def split: option.split)
  ultimately show ?thesis
    using r(2,3) unfolding PlanCourseSync_planned by auto
qed

section \<open>Rows\<close>



section \<open>Past terms\<close>

definition past_ok :: "planner \<Rightarrow> bool" where
  "past_ok p \<longleftrightarrow> (\<forall>u \<in> set (p_Updates (pl_plan p)). endedBefore (pl_current p) (u_Before u) \<longrightarrow>
     f_Semester (u_After u) = c_Semester (u_Before u) \<and>
     f_DayOfWeek (u_After u) = c_DayOfWeek (u_Before u) \<and>
     f_Period (u_After u) = c_Period (u_Before u) \<and> \<not> u_SlotChanged u)"

lemma fields_after_ended:
  "endedBefore t c \<Longrightarrow>
     f_Semester (fields_after t c i) = c_Semester c \<and>
     f_DayOfWeek (fields_after t c i) = c_DayOfWeek c \<and> f_Period (fields_after t c i) = c_Period c"
  by (simp add: fields_after_def Let_def)

lemma past_ok_step: "planner_step p q \<Longrightarrow> past_ok p \<Longrightarrow> past_ok q"
proof (induction rule: planner_step.induct)
  case (update p c inp)
  then show ?case
    using fields_after_ended [of "pl_current p" c inp]
    by (auto simp: past_ok_def update_course_def upd_plan_def Let_def slot_changed_def)
qed (auto simp: past_ok_def createAll_def discontinueCandidate_def add_review_def applied_def
    force_all_def upd_plan_def)

text \<open>C4: A course that ended before the current term keeps its semester, day and period in every
  plan, so nobody loses a timetable entry of a finished term.\<close>

theorem ended_courses_keep_their_slot:
  assumes "u \<in> set (p_Updates (PlanCourseSync h year existing scraped reviews fc current))"
    and "endedBefore current (u_Before u)"
  shows "f_Semester (u_After u) = c_Semester (u_Before u) \<and>
    f_DayOfWeek (u_After u) = c_DayOfWeek (u_Before u) \<and>
    f_Period (u_After u) = c_Period (u_Before u) \<and> \<not> u_SlotChanged u"
proof -
  let ?p = "planned h year existing scraped reviews current"
  have "past_ok ?p"
    using planned_steps
  proof (rule planner_invariant [where I = past_ok])
    show "past_ok (new_planner h year reviews current)"
      by (simp add: past_ok_def new_planner_def empty_plan_def)
  qed (rule past_ok_step)
  moreover have "pl_current ?p = current"
    using planner_steps_frame [OF planned_steps] by simp
  moreover have "p_Updates (pl_plan (decideDiscontinues n fc ?p)) = p_Updates (pl_plan ?p)" for n
    by (simp add: decideDiscontinues_def Let_def upd_plan_def split: option.split)
  ultimately show ?thesis
    using assms unfolding PlanCourseSync_planned past_ok_def by auto
qed

theorem ended_courses_keep_their_slot_witness:
  "let pl = PlanCourseSync id 2026 [sample_course 1 ''1'' ''M'' 1 ''A'' ''T'']
              [sample_input ''1'' ''W'' 3 ''A'' ''U''] [] (sample_complete 1) sample_second in
   map (f_TeacherName \<circ> u_After) (p_Updates pl) = [''U''] \<and>
   (\<forall>u \<in> set (p_Updates pl). f_DayOfWeek (u_After u) = c_DayOfWeek (u_Before u))"
proof -
  let ?pl = "PlanCourseSync id 2026 [sample_course 1 ''1'' ''M'' 1 ''A'' ''T'']
    [sample_input ''1'' ''W'' 3 ''A'' ''U''] [] (sample_complete 1) sample_second"
  have a: "map (f_TeacherName \<circ> u_After) (p_Updates ?pl) = [''U'']" by code_simp
  have "list_all (endedBefore sample_second \<circ> u_Before) (p_Updates ?pl)" by code_simp
  then have "\<forall>u \<in> set (p_Updates ?pl). endedBefore sample_second (u_Before u)"
    by (simp add: list_all_iff)
  with ended_courses_keep_their_slot [of _ id 2026] a show ?thesis
    unfolding Let_def by blast
qed

section \<open>Convergence of one update\<close>

text \<open>What the database row is after the planned update was written.\<close>

definition course_after :: "course \<Rightarrow> course_fields \<Rightarrow> course" where
  "course_after c f = c\<lparr>c_Semester := f_Semester f, c_DayOfWeek := f_DayOfWeek f,
     c_Period := f_Period f, c_CourseName := f_CourseName f, c_TeacherName := f_TeacherName f,
     c_SourceRef := f_SourceRef f, c_SourceName := f_SourceName f, c_DedupKey := f_DedupKey f,
     c_DiscontinuedAt := None\<rparr>"

lemma fields_after_simps [simp]:
  "f_CourseName (fields_after t c i) = nextCourseName c i"
  "f_TeacherName (fields_after t c i) = i_TeacherName i"
  "f_SourceRef (fields_after t c i) = i_SourceRef i"
  "f_SourceName (fields_after t c i) = i_SourceName i"
  by (simp_all add: fields_after_def Let_def)

lemma nextCourseName_after:
  assumes "i_SourceName i \<noteq> []"
  shows "nextCourseName (course_after c (fields_after t c i)) i = nextCourseName c i"
proof -
  let ?c = "course_after c (fields_after t c i)"
  have "c_SourceName ?c = i_SourceName i" "c_CourseName ?c = nextCourseName c i"
    by (simp_all add: course_after_def)
  with assms have "nextCourseName ?c i =
      (if i_Disambiguated i then i_CourseName i else nextCourseName c i)"
    by (simp add: nextCourseName_def [of ?c] nameMatches_def [of ?c])
  then show ?thesis by (simp add: nextCourseName_def)
qed

text \<open>Once an update is written, planning the same row against the written course changes
  nothing more: the row counts as unchanged and the plan gets no entry.\<close>

theorem update_converges:
  assumes "i_SourceName i \<noteq> []"
  shows "update_course (course_after c (fields_after (pl_current p) c i)) i p =
    upd_plan (\<lambda>pl. pl\<lparr>p_Unchanged := p_Unchanged pl + 1\<rparr>) p"
proof -
  let ?t = "pl_current p"
  let ?f = "fields_after ?t c i"
  let ?c = "course_after c ?f"
  have "fields_after ?t ?c i = ?f"
  proof (cases "endedBefore ?t c \<and> (c_Semester c \<noteq> i_Semester i \<or>
      c_DayOfWeek c \<noteq> i_DayOfWeek i \<or> c_Period c \<noteq> i_Period i)")
    case True
    then have "endedBefore ?t ?c"
      by (auto simp: endedBefore_def course_after_def fields_after_def Let_def split: if_splits)
    with True nextCourseName_after [OF assms, of c ?t] show ?thesis
      by (auto simp: fields_after_def Let_def course_after_def)
  next
    case False
    with nextCourseName_after [OF assms, of c ?t] show ?thesis
      by (auto simp: fields_after_def Let_def course_after_def)
  qed
  then show ?thesis
    by (simp add: update_course_def change_details_def slot_changed_def course_after_def
        IsDiscontinued_def)
qed

theorem update_converges_witness:
  "let c = sample_course 1 ''1'' ''M'' 1 ''A'' ''T''; i = sample_input ''1'' ''W'' 3 ''A'' ''U'';
       p = new_planner id 2026 [] sample_term in
   update_course (course_after c (fields_after (pl_current p) c i)) i p =
     upd_plan (\<lambda>pl. pl\<lparr>p_Unchanged := p_Unchanged pl + 1\<rparr>) p"
  unfolding Let_def by (rule update_converges) (simp add: sample_input_def)

end
