(* ===== verification/Redis.thy ===== *)
theory Redis
  imports Prelude
begin

text \<open>
  The Redis commands the stores of infra/redis use, as a parameter of those stores: a record of
  operations on a server state that the development never looks into, and a locale with the
  documented behaviour of each command (a value with an optional expiry time per key). A client
  call is one round trip that may be lost before or after the server has run it, and a Lua script
  is one command that the server runs in one piece.

  A value that the code stores as JSON is kept as the value itself (\<open>RJson\<close>); the stores still
  handle a stored value that does not decode. Times are milliseconds.
\<close>

section \<open>Commands\<close>

datatype 'v rvalue = RStr string | RJson 'v | RList "'v list"

type_synonym 'v keyspace = "string \<rightharpoonup> 'v rvalue \<times> int option"

record ('r, 'v) redis =
  rd_Get :: "int \<Rightarrow> string \<Rightarrow> 'r \<Rightarrow> 'v rvalue option"
  rd_Exists :: "int \<Rightarrow> string \<Rightarrow> 'r \<Rightarrow> bool"
  rd_Set :: "int \<Rightarrow> string \<Rightarrow> 'v rvalue \<Rightarrow> int option \<Rightarrow> 'r \<Rightarrow> 'r"
  rd_SetNX :: "int \<Rightarrow> string \<Rightarrow> 'v rvalue \<Rightarrow> int option \<Rightarrow> 'r \<Rightarrow> bool \<times> 'r"
  rd_Del :: "int \<Rightarrow> string \<Rightarrow> 'r \<Rightarrow> 'r"
  rd_Incr :: "int \<Rightarrow> string \<Rightarrow> 'r \<Rightarrow> int \<times> 'r"
  rd_PExpire :: "int \<Rightarrow> string \<Rightarrow> int \<Rightarrow> 'r \<Rightarrow> 'r"
  rd_PTTL :: "int \<Rightarrow> string \<Rightarrow> 'r \<Rightarrow> int"
  rd_RPush :: "int \<Rightarrow> string \<Rightarrow> 'v \<Rightarrow> 'r \<Rightarrow> 'r"
  rd_LTrim :: "int \<Rightarrow> string \<Rightarrow> nat \<Rightarrow> 'r \<Rightarrow> 'r"
  rd_LRange :: "int \<Rightarrow> string \<Rightarrow> 'r \<Rightarrow> 'v list"

section \<open>The documented behaviour\<close>

text \<open>A key whose expiry time has come is absent.\<close>

definition live :: "int \<Rightarrow> ('v rvalue \<times> int option) option \<Rightarrow> 'v rvalue option" where
  "live now e =
     (case e of None \<Rightarrow> None
      | Some (v, None) \<Rightarrow> Some v
      | Some (v, Some t) \<Rightarrow> if now < t then Some v else None)"

lemma live_simps [simp]:
  "live now None = None"
  "live now (Some (v, None)) = Some v"
  "live now (Some (v, Some t)) = (if now < t then Some v else None)"
  by (simp_all add: live_def)

lemma live_SomeE:
  assumes "live now e = Some v"
  obtains x where "e = Some (v, x)" "\<And>t. x = Some t \<Longrightarrow> now < t"
  using assms by (auto simp: live_def split: option.splits if_splits)

text \<open>INCR reads the number in the key (0 when absent) and leaves the expiry as it is.\<close>

definition counter_value :: "'v rvalue option \<Rightarrow> int" where
  "counter_value v = (case v of Some (RStr s) \<Rightarrow> (case Atoi s of Some i \<Rightarrow> i | None \<Rightarrow> 0) | _ \<Rightarrow> 0)"

definition list_value :: "'v rvalue option \<Rightarrow> 'v list" where
  "list_value v = (case v of Some (RList xs) \<Rightarrow> xs | _ \<Rightarrow> [])"

definition expiry_of :: "int \<Rightarrow> ('v rvalue \<times> int option) option \<Rightarrow> int option" where
  "expiry_of now e = (case live now e of None \<Rightarrow> None | Some _ \<Rightarrow> snd (the e))"

definition take_last :: "nat \<Rightarrow> 'a list \<Rightarrow> 'a list" where
  "take_last n xs = drop (length xs - n) xs"

locale redis_server =
  fixes R :: "('r, 'v) redis"
    and view :: "'r \<Rightarrow> 'v keyspace"
  assumes Get: "rd_Get R now k r = live now (view r k)"
    and Exists: "rd_Exists R now k r \<longleftrightarrow> live now (view r k) \<noteq> None"
    and Set: "view (rd_Set R now k v ttl r) = (view r)(k \<mapsto> (v, map_option ((+) now) ttl))"
    and SetNX_free: "live now (view r k) = None \<Longrightarrow>
      fst (rd_SetNX R now k v ttl r) \<and>
      view (snd (rd_SetNX R now k v ttl r)) = (view r)(k \<mapsto> (v, map_option ((+) now) ttl))"
    and SetNX_taken: "live now (view r k) \<noteq> None \<Longrightarrow>
      \<not> fst (rd_SetNX R now k v ttl r) \<and> view (snd (rd_SetNX R now k v ttl r)) = view r"
    and Del: "view (rd_Del R now k r) = (view r)(k := None)"
    and Incr: "fst (rd_Incr R now k r) = counter_value (live now (view r k)) + 1"
      "view (snd (rd_Incr R now k r)) = (view r)(k \<mapsto>
         (RStr (Itoa (counter_value (live now (view r k)) + 1)), expiry_of now (view r k)))"
    and PExpire: "view (rd_PExpire R now k ms r) =
      (case live now (view r k) of None \<Rightarrow> view r | Some v \<Rightarrow> (view r)(k \<mapsto> (v, Some (now + ms))))"
    and PTTL: "rd_PTTL R now k r =
      (case live now (view r k) of None \<Rightarrow> - 2
       | Some v \<Rightarrow> (case expiry_of now (view r k) of None \<Rightarrow> - 1 | Some t \<Rightarrow> t - now))"
    and RPush: "view (rd_RPush R now k x r) = (view r)(k \<mapsto>
      (RList (list_value (live now (view r k)) @ [x]), expiry_of now (view r k)))"
    and LTrim: "view (rd_LTrim R now k n r) =
      (case live now (view r k) of
         Some (RList xs) \<Rightarrow> (view r)(k \<mapsto> (RList (take_last n xs), expiry_of now (view r k)))
       | _ \<Rightarrow> view r)"
    and LRange: "rd_LRange R now k r = list_value (live now (view r k))"
begin

lemmas commands = Get Exists Set Del Incr PExpire PTTL RPush LTrim LRange

lemma SetNX_cases:
  obtains (free) "live now (view r k) = None" "fst (rd_SetNX R now k v ttl r)"
      "view (snd (rd_SetNX R now k v ttl r)) = (view r)(k \<mapsto> (v, map_option ((+) now) ttl))"
  | (taken) "live now (view r k) \<noteq> None" "\<not> fst (rd_SetNX R now k v ttl r)"
      "view (snd (rd_SetNX R now k v ttl r)) = view r"
  using SetNX_free SetNX_taken by (cases "live now (view r k) = None") blast+

lemma SetNX_free_pair:
  assumes "live now (view r k) = None"
  obtains r' where "rd_SetNX R now k v ttl r = (True, r')"
    "view r' = (view r)(k \<mapsto> (v, map_option ((+) now) ttl))"
  using SetNX_free [OF assms, of v ttl] by (cases "rd_SetNX R now k v ttl r") auto

lemma SetNX_taken_pair:
  assumes "live now (view r k) \<noteq> None"
  obtains r' where "rd_SetNX R now k v ttl r = (False, r')" "view r' = view r"
  using SetNX_taken [OF assms, of v ttl] by (cases "rd_SetNX R now k v ttl r") auto

end

section \<open>A client connection\<close>

text \<open>What becomes of one round trip: the reply arrives, the request is lost, or the server runs
  the command and the reply is lost.\<close>

datatype delivery = Delivered | NotSent | ReplyLost

record 'r conn =
  rc_store :: 'r
  rc_now :: int
  rc_net :: "delivery list"

definition next_delivery :: "'r conn \<Rightarrow> delivery" where
  "next_delivery c = (case rc_net c of [] \<Rightarrow> Delivered | d # _ \<Rightarrow> d)"

definition network_error :: go_error where
  "network_error = Errorf ''redis: network error''"

definition rcall :: "(int \<Rightarrow> 'r \<Rightarrow> 'a \<times> 'r) \<Rightarrow> ('r conn, 'a) proc" where
  "rcall cmd c =
     (let c' = c\<lparr>rc_net := tl (rc_net c)\<rparr>; (x, r) = cmd (rc_now c) (rc_store c) in
      case next_delivery c of
        Delivered \<Rightarrow> (Inr x, c'\<lparr>rc_store := r\<rparr>)
      | NotSent \<Rightarrow> (Inl network_error, c')
      | ReplyLost \<Rightarrow> (Inl network_error, c'\<lparr>rc_store := r\<rparr>))"

lemma rcall_cases:
  assumes "rcall cmd c = (res, c')"
  obtains
    (delivered) x where "res = Inr x" "x = fst (cmd (rc_now c) (rc_store c))"
      "rc_store c' = snd (cmd (rc_now c) (rc_store c))" "rc_now c' = rc_now c"
  | (not_sent) "res = Inl network_error" "rc_store c' = rc_store c" "rc_now c' = rc_now c"
  | (reply_lost) "res = Inl network_error"
      "rc_store c' = snd (cmd (rc_now c) (rc_store c))" "rc_now c' = rc_now c"
  using assms
  by (cases "next_delivery c") (auto simp: rcall_def Let_def split: prod.splits)

text \<open>The round trips of the go-redis client.\<close>

definition Get :: "('r, 'v) redis \<Rightarrow> string \<Rightarrow> ('r conn, 'v rvalue option) proc" where
  "Get R k = rcall (\<lambda>now r. (rd_Get R now k r, r))"

definition Exists :: "('r, 'v) redis \<Rightarrow> string \<Rightarrow> ('r conn, bool) proc" where
  "Exists R k = rcall (\<lambda>now r. (rd_Exists R now k r, r))"

definition SetKey :: "('r, 'v) redis \<Rightarrow> string \<Rightarrow> 'v rvalue \<Rightarrow> int option \<Rightarrow> ('r conn, unit) proc" where
  "SetKey R k v ttl = rcall (\<lambda>now r. ((), rd_Set R now k v ttl r))"

definition SetNX :: "('r, 'v) redis \<Rightarrow> string \<Rightarrow> 'v rvalue \<Rightarrow> int option \<Rightarrow> ('r conn, bool) proc" where
  "SetNX R k v ttl = rcall (\<lambda>now r. rd_SetNX R now k v ttl r)"

definition DelKey :: "('r, 'v) redis \<Rightarrow> string list \<Rightarrow> ('r conn, unit) proc" where
  "DelKey R ks = rcall (\<lambda>now r. ((), fold (rd_Del R now) ks r))"

text \<open>GETDEL: reads and removes a key in one command.\<close>

definition GetDel :: "('r, 'v) redis \<Rightarrow> string \<Rightarrow> ('r conn, 'v rvalue option) proc" where
  "GetDel R k = rcall (\<lambda>now r. (rd_Get R now k r, rd_Del R now k r))"

section \<open>A concrete server\<close>

text \<open>A finite map with lifetimes that behaves as documented, on which the stores run in the
  witnesses.\<close>

type_synonym 'v ttl_state = "(string \<times> 'v rvalue \<times> int option) list"

definition ttl_map :: "('v ttl_state, 'v) redis" where
  "ttl_map =
     \<lparr>rd_Get = (\<lambda>now k r. live now (map_of r k)),
      rd_Exists = (\<lambda>now k r. \<not> Option.is_none (live now (map_of r k))),
      rd_Set = (\<lambda>now k v ttl r. AList.update k (v, map_option ((+) now) ttl) r),
      rd_SetNX = (\<lambda>now k v ttl r. case live now (map_of r k) of
         None \<Rightarrow> (True, AList.update k (v, map_option ((+) now) ttl) r) | Some _ \<Rightarrow> (False, r)),
      rd_Del = (\<lambda>now k r. AList.delete k r),
      rd_Incr = (\<lambda>now k r. let n = counter_value (live now (map_of r k)) + 1 in
         (n, AList.update k (RStr (Itoa n), expiry_of now (map_of r k)) r)),
      rd_PExpire = (\<lambda>now k ms r. case live now (map_of r k) of
         None \<Rightarrow> r | Some v \<Rightarrow> AList.update k (v, Some (now + ms)) r),
      rd_PTTL = (\<lambda>now k r. case live now (map_of r k) of
         None \<Rightarrow> - 2
       | Some v \<Rightarrow> (case expiry_of now (map_of r k) of None \<Rightarrow> - 1 | Some t \<Rightarrow> t - now)),
      rd_RPush = (\<lambda>now k x r. AList.update k
         (RList (list_value (live now (map_of r k)) @ [x]), expiry_of now (map_of r k)) r),
      rd_LTrim = (\<lambda>now k n r. case live now (map_of r k) of
         Some (RList xs) \<Rightarrow> AList.update k (RList (take_last n xs), expiry_of now (map_of r k)) r
       | _ \<Rightarrow> r),
      rd_LRange = (\<lambda>now k r. list_value (live now (map_of r k)))\<rparr>"

interpretation ttl: redis_server ttl_map map_of
  by unfold_locales
    (simp_all add: ttl_map_def Let_def update_conv' delete_conv' Option.is_none_def
      split: option.splits rvalue.splits)

lemma ttl_map_server: "redis_server ttl_map map_of"
  by (rule ttl.redis_server_axioms)

definition empty_conn :: "'v ttl_state conn" where
  "empty_conn = \<lparr>rc_store = [], rc_now = 0, rc_net = []\<rparr>"

end
