(* ===== verification/Import_Store.thy ===== *)
theory Import_Store
  imports Redis
begin

text \<open>
  Where the status of the course import lives: the \<open>Store\<close> interface of internal/courseimport as a
  record of operations with a locale of its contract, the in-process \<open>MemoryStore\<close>, and the
  Redis store of infra/redis with its Lua scripts. The contract is stated once and both stores
  are interpretations of it.
\<close>

section \<open>Status\<close>

datatype import_state = StateIdle | StateRunning | StateSucceeded | StateFailed

record import_status =
  is_State :: import_state
  is_Year :: int
  is_Imported :: int
  is_Skipped :: int
  is_ErrorMessage :: string
  is_StartedAt :: "int option"
  is_FinishedAt :: "int option"
  is_Processed :: int
  is_Total :: int
  is_DryRun :: bool
  is_RunID :: int

text \<open>Go's zero value with the state set.\<close>

definition status_of :: "import_state \<Rightarrow> import_status" where
  "status_of st =
     \<lparr>is_State = st, is_Year = 0, is_Imported = 0, is_Skipped = 0, is_ErrorMessage = [],
      is_StartedAt = None, is_FinishedAt = None, is_Processed = 0, is_Total = 0,
      is_DryRun = False, is_RunID = 0\<rparr>"

section \<open>The interface\<close>

text \<open>The first argument of \<open>st_TryStart\<close> is the fresh identifier (\<open>uuid.NewString\<close>) the call
  draws; the memory store counts instead.\<close>

record 's import_store =
  st_TryStart :: "string \<Rightarrow> import_status \<Rightarrow> ('s, string \<times> bool) proc"
  st_Update :: "string \<Rightarrow> import_status \<Rightarrow> ('s, unit) proc"
  st_Heartbeat :: "string \<Rightarrow> ('s, bool) proc"
  st_Finish :: "string \<Rightarrow> import_status \<Rightarrow> ('s, unit) proc"
  st_Load :: "('s, import_status) proc"

section \<open>MemoryStore\<close>

record memory_store =
  ms_status :: import_status
  ms_running :: bool
  ms_token :: string
  ms_runs :: nat

definition NewMemoryStore :: memory_store where
  "NewMemoryStore =
     \<lparr>ms_status = status_of StateIdle, ms_running = False, ms_token = [], ms_runs = 0\<rparr>"

definition ms_holds :: "memory_store \<Rightarrow> string \<Rightarrow> bool" where
  "ms_holds s token \<longleftrightarrow> ms_running s \<and> token \<noteq> [] \<and> token = ms_token s"

definition memory_token :: "nat \<Rightarrow> string" where
  "memory_token n = ''memory-'' @ Itoa (int n)"

definition ms_TryStart :: "string \<Rightarrow> import_status \<Rightarrow> (memory_store, string \<times> bool) proc" where
  "ms_TryStart uuid status s =
     (if ms_running s then (Inr ([], False), s)
      else (let token = memory_token (ms_runs s + 1) in
            (Inr (token, True),
             s\<lparr>ms_runs := ms_runs s + 1, ms_token := token, ms_running := True,
               ms_status := status\<rparr>)))"

definition ms_Update :: "string \<Rightarrow> import_status \<Rightarrow> (memory_store, unit) proc" where
  "ms_Update token status s =
     (if \<not> ms_holds s token then (Inr (), s) else (Inr (), s\<lparr>ms_status := status\<rparr>))"

definition ms_Heartbeat :: "string \<Rightarrow> (memory_store, bool) proc" where
  "ms_Heartbeat token s = (Inr (ms_holds s token), s)"

definition ms_Finish :: "string \<Rightarrow> import_status \<Rightarrow> (memory_store, unit) proc" where
  "ms_Finish token status s =
     (if \<not> ms_holds s token then (Inr (), s)
      else (Inr (), s\<lparr>ms_running := False, ms_token := [], ms_status := status\<rparr>))"

definition ms_Load :: "(memory_store, import_status) proc" where
  "ms_Load s = (Inr (ms_status s), s)"

definition MemoryStore :: "memory_store import_store" where
  "MemoryStore =
     \<lparr>st_TryStart = ms_TryStart, st_Update = ms_Update, st_Heartbeat = ms_Heartbeat,
      st_Finish = ms_Finish, st_Load = ms_Load\<rparr>"

section \<open>CourseImportStore (Redis)\<close>

definition courseImportLockTTL :: int where
  "courseImportLockTTL = 15 * 60 * 1000"

definition courseImportStatusKey :: string where
  "courseImportStatusKey = ''courseimport:status''"

definition courseImportLockKey :: string where
  "courseImportLockKey = ''courseimport:running''"

lemma import_keys_distinct [simp]:
  "courseImportStatusKey \<noteq> courseImportLockKey" "courseImportLockKey \<noteq> courseImportStatusKey"
  by (simp_all add: courseImportStatusKey_def courseImportLockKey_def)

type_synonym 'r import_redis = "('r, import_status) redis"

text \<open>The Lua scripts: each runs as one command.\<close>

definition courseImportUpdateScript ::
  "'r import_redis \<Rightarrow> string \<Rightarrow> int \<Rightarrow> import_status \<Rightarrow> int \<Rightarrow> 'r \<Rightarrow> bool \<times> 'r" where
  "courseImportUpdateScript R token ttl status now r =
     (if rd_Get R now courseImportLockKey r \<noteq> Some (RStr token) then (False, r)
      else (True, rd_Set R now courseImportStatusKey (RJson status) None
                    (rd_PExpire R now courseImportLockKey ttl r)))"

definition courseImportHeartbeatScript ::
  "'r import_redis \<Rightarrow> string \<Rightarrow> int \<Rightarrow> int \<Rightarrow> 'r \<Rightarrow> bool \<times> 'r" where
  "courseImportHeartbeatScript R token ttl now r =
     (if rd_Get R now courseImportLockKey r \<noteq> Some (RStr token) then (False, r)
      else (True, rd_PExpire R now courseImportLockKey ttl r))"

definition courseImportFinishScript ::
  "'r import_redis \<Rightarrow> string \<Rightarrow> import_status \<Rightarrow> int \<Rightarrow> 'r \<Rightarrow> bool \<times> 'r" where
  "courseImportFinishScript R token status now r =
     (if rd_Get R now courseImportLockKey r \<noteq> Some (RStr token) then (False, r)
      else (True, rd_Del R now courseImportLockKey
                    (rd_Set R now courseImportStatusKey (RJson status) None r)))"

definition releaseScript :: "'r import_redis \<Rightarrow> string \<Rightarrow> int \<Rightarrow> 'r \<Rightarrow> bool \<times> 'r" where
  "releaseScript R token now r =
     (if rd_Get R now courseImportLockKey r = Some (RStr token)
      then (True, rd_Del R now courseImportLockKey r) else (False, r))"

definition ci_save :: "'r import_redis \<Rightarrow> import_status \<Rightarrow> ('r conn, unit) proc" where
  "ci_save R status = SetKey R courseImportStatusKey (RJson status) None"

definition ci_release :: "'r import_redis \<Rightarrow> string \<Rightarrow> ('r conn, bool) proc" where
  "ci_release R token = rcall (releaseScript R token)"

definition ci_TryStart ::
  "'r import_redis \<Rightarrow> string \<Rightarrow> string \<Rightarrow> import_status \<Rightarrow> ('r conn, string \<times> bool) proc" where
  "ci_TryStart R owner uuid status =
     (let token = owner @ '':'' @ uuid in
      bindP (SetNX R courseImportLockKey (RStr token) (Some courseImportLockTTL)) (\<lambda>ok.
        if \<not> ok then ret ([], False)
        else tryP (ci_save R status) (\<lambda>r. case r of
               Inl err \<Rightarrow> tryP (ci_release R token) (\<lambda>_. throw err)
             | Inr _ \<Rightarrow> ret (token, True))))"

definition ci_Update :: "'r import_redis \<Rightarrow> string \<Rightarrow> import_status \<Rightarrow> ('r conn, unit) proc" where
  "ci_Update R token status =
     bindP (rcall (courseImportUpdateScript R token courseImportLockTTL status)) (\<lambda>held. ret ())"

definition ci_Heartbeat :: "'r import_redis \<Rightarrow> string \<Rightarrow> ('r conn, bool) proc" where
  "ci_Heartbeat R token = rcall (courseImportHeartbeatScript R token courseImportLockTTL)"

definition ci_Finish :: "'r import_redis \<Rightarrow> string \<Rightarrow> import_status \<Rightarrow> ('r conn, unit) proc" where
  "ci_Finish R token status =
     bindP (rcall (courseImportFinishScript R token status)) (\<lambda>held. ret ())"

definition ci_Load :: "'r import_redis \<Rightarrow> ('r conn, import_status) proc" where
  "ci_Load R =
     bindP (Get R courseImportStatusKey) (\<lambda>raw. case raw of
       None \<Rightarrow> ret (status_of StateIdle)
     | Some (RJson status) \<Rightarrow>
         (if is_State status = StateRunning
          then bindP (Exists R courseImportLockKey) (\<lambda>exists.
                 ret (if \<not> exists
                      then status\<lparr>is_State := StateFailed,
                             is_ErrorMessage := ''the server running the import has stopped''\<rparr>
                      else status))
          else ret status)
     | Some _ \<Rightarrow> throw (Errorf ''failed to parse the course import status''))"

definition CourseImportStore :: "'r import_redis \<Rightarrow> string \<Rightarrow> 'r conn import_store" where
  "CourseImportStore R owner =
     \<lparr>st_TryStart = ci_TryStart R owner, st_Update = ci_Update R, st_Heartbeat = ci_Heartbeat R,
      st_Finish = ci_Finish R, st_Load = ci_Load R\<rparr>"

section \<open>Traces of store operations\<close>

text \<open>Any number of servers call the store one operation at a time; between two operations the
  environment moves (time passes, the network changes).\<close>

datatype import_op =
    TryStartOp string string import_status
  | UpdateOp string import_status
  | HeartbeatOp string
  | FinishOp string import_status
  | LoadOp

datatype import_reply =
    Started string | Refused | Beat bool | Written | Loaded import_status | CallFailed

definition exec_op :: "(string \<Rightarrow> 's import_store) \<Rightarrow> import_op \<Rightarrow> 's \<Rightarrow> import_reply \<times> 's" where
  "exec_op S op s = (case op of
     TryStartOp owner uuid st \<Rightarrow> (case st_TryStart (S owner) uuid st s of
         (Inr (tok, ok), t) \<Rightarrow> (if ok then Started tok else Refused, t)
       | (Inl e, t) \<Rightarrow> (CallFailed, t))
   | UpdateOp tok st \<Rightarrow> (case st_Update (S []) tok st s of
         (Inr _, t) \<Rightarrow> (Written, t) | (Inl e, t) \<Rightarrow> (CallFailed, t))
   | HeartbeatOp tok \<Rightarrow> (case st_Heartbeat (S []) tok s of
         (Inr b, t) \<Rightarrow> (Beat b, t) | (Inl e, t) \<Rightarrow> (CallFailed, t))
   | FinishOp tok st \<Rightarrow> (case st_Finish (S []) tok st s of
         (Inr _, t) \<Rightarrow> (Written, t) | (Inl e, t) \<Rightarrow> (CallFailed, t))
   | LoadOp \<Rightarrow> (case st_Load (S []) s of
         (Inr st, t) \<Rightarrow> (Loaded st, t) | (Inl e, t) \<Rightarrow> (CallFailed, t)))"

fun run_ops ::
  "(string \<Rightarrow> 's import_store) \<Rightarrow> ('e \<Rightarrow> 's \<Rightarrow> 's) \<Rightarrow> ('e \<times> import_op) list \<Rightarrow> 's
     \<Rightarrow> import_reply list \<times> 's" where
  "run_ops S env [] s = ([], s)"
| "run_ops S env ((e, op) # ops) s =
     (case exec_op S op (env e s) of
        (r, t) \<Rightarrow> (case run_ops S env ops t of (rs, u) \<Rightarrow> (r # rs, u)))"

lemma run_ops_Cons [simp]:
  "snd (run_ops S env ((e, op) # ops) s) = snd (run_ops S env ops (snd (exec_op S op (env e s))))"
  "fst (run_ops S env ((e, op) # ops) s) =
     fst (exec_op S op (env e s)) # fst (run_ops S env ops (snd (exec_op S op (env e s))))"
  by (simp_all split: prod.split)

declare run_ops.simps(2) [simp del]

text \<open>Writes of one run: the operations that carry its token.\<close>

fun op_token :: "import_op \<Rightarrow> string option" where
  "op_token (UpdateOp tok _) = Some tok"
| "op_token (HeartbeatOp tok) = Some tok"
| "op_token (FinishOp tok _) = Some tok"
| "op_token _ = None"

section \<open>The contract\<close>

text \<open>\<open>holder\<close> is the token that holds the running mark, \<open>recorded\<close> the status on record. A token
  that is \<open>issued\<close> cannot be given out again by an operation that is \<open>fresh\<close> for it.\<close>

locale import_store_contract =
  fixes S :: "string \<Rightarrow> 's import_store"
    and env :: "'e \<Rightarrow> 's \<Rightarrow> 's"
    and inv :: "'s \<Rightarrow> bool"
    and holder :: "'s \<Rightarrow> string option"
    and recorded :: "'s \<Rightarrow> import_status option"
    and issued :: "'s \<Rightarrow> string \<Rightarrow> bool"
    and fresh :: "import_op \<Rightarrow> string \<Rightarrow> bool"
  assumes env_inv: "inv s \<Longrightarrow> inv (env e s)"
    and env_holder: "inv s \<Longrightarrow> holder (env e s) = holder s \<or> holder (env e s) = None"
    and env_recorded: "inv s \<Longrightarrow> recorded (env e s) = recorded s"
    and env_issued: "issued s tok \<Longrightarrow> issued (env e s) tok"
    and op_inv: "inv s \<Longrightarrow> inv (snd (exec_op S op s))"
    and op_issued: "inv s \<Longrightarrow> issued s tok \<Longrightarrow> issued (snd (exec_op S op s)) tok"
    and not_reissued: "inv s \<Longrightarrow> issued s tok \<Longrightarrow> fresh op tok \<Longrightarrow> holder s \<noteq> Some tok \<Longrightarrow>
      holder (snd (exec_op S op s)) \<noteq> Some tok"
    and granted: "inv s \<Longrightarrow> exec_op S (TryStartOp owner uuid st) s = (Started tok, t) \<Longrightarrow>
      holder s = None \<and> holder t = Some tok \<and> recorded t = Some st"
    and held_refuses: "inv s \<Longrightarrow> holder s \<noteq> None \<Longrightarrow>
      holder (snd (exec_op S (TryStartOp owner uuid st) s)) = holder s \<and>
      recorded (snd (exec_op S (TryStartOp owner uuid st) s)) = recorded s"
    and stale: "inv s \<Longrightarrow> op_token op = Some tok \<Longrightarrow> holder s \<noteq> Some tok \<Longrightarrow>
      holder (snd (exec_op S op s)) = holder s \<and> recorded (snd (exec_op S op s)) = recorded s"
    and update_held: "inv s \<Longrightarrow> holder s = Some tok \<Longrightarrow>
      holder (snd (exec_op S (UpdateOp tok st) s)) = Some tok \<and>
      (fst (exec_op S (UpdateOp tok st) s) = Written \<longrightarrow>
         recorded (snd (exec_op S (UpdateOp tok st) s)) = Some st)"
    and beat: "inv s \<Longrightarrow> exec_op S (HeartbeatOp tok) s = (r, t) \<Longrightarrow>
      holder t = holder s \<and> recorded t = recorded s \<and>
      (\<forall>b. r = Beat b \<longrightarrow> b = (holder s = Some tok))"
    and finish_held: "inv s \<Longrightarrow> holder s = Some tok \<Longrightarrow>
      exec_op S (FinishOp tok st) s = (Written, t) \<Longrightarrow> holder t = None \<and> recorded t = Some st"
    and load: "inv s \<Longrightarrow> exec_op S LoadOp s = (r, t) \<Longrightarrow>
      holder t = holder s \<and> recorded t = recorded s"
begin

text \<open>While a run holds the mark, no start is granted.\<close>

lemma refused_while_held:
  "inv s \<Longrightarrow> holder s \<noteq> None \<Longrightarrow> fst (exec_op S op s) \<noteq> Started tok"
proof (cases op)
  case (TryStartOp owner uuid st)
  assume "inv s" "holder s \<noteq> None"
  with TryStartOp granted [of s owner uuid st tok] show ?thesis by (metis prod.collapse)
qed (auto simp: exec_op_def split: prod.splits sum.splits)

text \<open>Only the finish of the holder itself takes the mark away.\<close>

lemma kept_by_op:
  assumes "inv s" "holder s = Some tok" "\<And>st. op \<noteq> FinishOp tok st"
  shows "holder (snd (exec_op S op s)) = Some tok"
proof (cases op)
  case (TryStartOp owner uuid st)
  with assms held_refuses show ?thesis by simp
next
  case (UpdateOp tok' st)
  with assms update_held stale [of s op tok'] show ?thesis by (cases "tok' = tok") auto
next
  case (HeartbeatOp tok')
  with assms beat show ?thesis by (metis prod.collapse)
next
  case (FinishOp tok' st)
  with assms have "tok' \<noteq> tok" by blast
  with FinishOp assms stale [of s op tok'] show ?thesis by simp
next
  case LoadOp
  with assms load show ?thesis by (metis prod.collapse)
qed

text \<open>A run that lost the mark is fenced off: whatever happens afterwards, it does not hold the
  mark again, so its late reports and its result change nothing.\<close>

lemma fenced:
  assumes "inv s" "issued s tok" "holder s \<noteq> Some tok" "\<forall>(e, op) \<in> set ops. fresh op tok"
  shows "holder (snd (run_ops S env ops s)) \<noteq> Some tok \<and> inv (snd (run_ops S env ops s))"
  using assms
proof (induction ops arbitrary: s)
  case (Cons eop ops)
  obtain e op where eop [simp]: "eop = (e, op)" by (cases eop)
  let ?s = "env e s"
  have inv: "inv ?s" and iss: "issued ?s tok" and not: "holder ?s \<noteq> Some tok"
    using Cons env_inv env_issued env_holder [of s e] by auto
  have "fresh op tok" using Cons by simp
  then have "holder (snd (exec_op S op ?s)) \<noteq> Some tok"
    by (rule not_reissued [OF inv iss _ not])
  with Cons.IH [of "snd (exec_op S op ?s)"] Cons.prems(4) show ?case
    using op_inv [OF inv] op_issued [OF inv iss] by simp
qed simp

lemma fenced_write:
  assumes "inv s" "issued s tok" "holder s \<noteq> Some tok" "\<forall>(e, op) \<in> set ops. fresh op tok"
    and "op_token op = Some tok"
  shows "recorded (snd (exec_op S op (snd (run_ops S env ops s)))) =
    recorded (snd (run_ops S env ops s))"
  using fenced [OF assms(1-4)] stale assms(5) by blast

end

text \<open>A store without a clock: nothing but the holder's finish ends a run.\<close>

locale eternal_store = import_store_contract +
  assumes env_keeps: "inv s \<Longrightarrow> holder (env e s) = holder s"
begin

lemma no_second_start:
  assumes "inv s" "holder s = Some tok" "\<forall>(e, op) \<in> set ops. \<forall>st. op \<noteq> FinishOp tok st"
  shows "holder (snd (run_ops S env ops s)) = Some tok \<and>
    (\<forall>r \<in> set (fst (run_ops S env ops s)). \<forall>tok'. r \<noteq> Started tok')"
  using assms
proof (induction ops arbitrary: s)
  case (Cons eop ops)
  obtain e op where eop [simp]: "eop = (e, op)" by (cases eop)
  have "inv (env e s)" "holder (env e s) = Some tok"
    using Cons env_inv env_keeps by simp_all
  moreover from this Cons have "holder (snd (exec_op S op (env e s))) = Some tok"
    by (intro kept_by_op) auto
  moreover have "fst (exec_op S op (env e s)) \<noteq> Started tok'" for tok'
    using calculation(1,2) by (simp add: refused_while_held)
  ultimately show ?case
    using Cons.IH [of "snd (exec_op S op (env e s))"] Cons.prems(3) op_inv by simp
qed simp

end

text \<open>A store whose mark has a lifetime that the holder keeps extending.\<close>

locale lease_store = import_store_contract +
  fixes clock :: "'a \<Rightarrow> int"
    and lease :: "'a \<Rightarrow> int"
  assumes env_clock: "clock s \<le> clock (env e s)"
    and op_clock: "clock (snd (exec_op S op s)) = clock s"
    and env_lease: "inv s \<Longrightarrow> holder s = Some tok \<Longrightarrow> clock (env e s) < lease s \<Longrightarrow>
      holder (env e s) = Some tok \<and> lease (env e s) = lease s"
    and op_lease: "inv s \<Longrightarrow> holder s = Some tok \<Longrightarrow> \<forall>st. op \<noteq> FinishOp tok st \<Longrightarrow>
      lease s \<le> lease (snd (exec_op S op s))"
begin

lemma clock_mono: "clock s \<le> clock (snd (run_ops S env ops s))"
proof (induction ops arbitrary: s)
  case (Cons eop ops)
  obtain e op where eop [simp]: "eop = (e, op)" by (cases eop)
  have "clock s \<le> clock (env e s)" by (rule env_clock)
  also have "\<dots> \<le> clock (snd (run_ops S env ops (snd (exec_op S op (env e s)))))"
    using Cons.IH [of "snd (exec_op S op (env e s))"] by (simp add: op_clock)
  finally show ?case by simp
qed simp

lemma no_second_start_in_lease:
  assumes "inv s" "holder s = Some tok" "\<forall>(e, op) \<in> set ops. \<forall>st. op \<noteq> FinishOp tok st"
    and "clock (snd (run_ops S env ops s)) < lease s"
  shows "holder (snd (run_ops S env ops s)) = Some tok \<and>
    (\<forall>r \<in> set (fst (run_ops S env ops s)). \<forall>tok'. r \<noteq> Started tok')"
  using assms
proof (induction ops arbitrary: s)
  case (Cons eop ops)
  obtain e op where eop [simp]: "eop = (e, op)" by (cases eop)
  let ?s = "env e s" let ?t = "snd (exec_op S op ?s)"
  have "clock ?s \<le> clock (snd (run_ops S env ops ?t))"
    using clock_mono [of ?t ops] op_clock [of op ?s] by simp
  with Cons.prems(4) have "clock ?s < lease s" by simp
  with Cons have s: "inv ?s" "holder ?s = Some tok" "lease ?s = lease s"
    using env_inv env_lease by auto
  have nf: "\<forall>st. op \<noteq> FinishOp tok st" using Cons.prems(3) by simp
  have "inv ?t" "holder ?t = Some tok" "lease s \<le> lease ?t"
    using s nf op_inv kept_by_op op_lease by (auto simp: s(3) [symmetric])
  moreover have "fst (exec_op S op ?s) \<noteq> Started tok'" for tok'
    using s by (simp add: refused_while_held)
  moreover have "clock (snd (run_ops S env ops ?t)) < lease s"
    using Cons.prems(4) by simp
  ultimately show ?case
    using Cons.IH [of ?t] Cons.prems(3) by simp
qed simp

end

end
