(* ===== verification/Import_Store_Props.thy ===== *)
theory Import_Store_Props
  imports Import_Store
begin

text \<open>
  Both stores of the import status keep the contract of \<open>Import_Store\<close>: the memory store as an
  \<open>eternal_store\<close>, the Redis store as a \<open>lease_store\<close> whose lease is the expiry time of the lock
  key. The properties are what the contract then gives.
\<close>

section \<open>MemoryStore\<close>

abbreviation memory_handle :: "string \<Rightarrow> memory_store import_store" where
  "memory_handle \<equiv> \<lambda>owner. MemoryStore"

abbreviation memory_env :: "unit \<Rightarrow> memory_store \<Rightarrow> memory_store" where
  "memory_env \<equiv> \<lambda>_ s. s"

definition memory_inv :: "memory_store \<Rightarrow> bool" where
  "memory_inv s \<longleftrightarrow> (ms_running s \<longrightarrow> ms_token s = memory_token (ms_runs s))"

definition memory_holder :: "memory_store \<Rightarrow> string option" where
  "memory_holder s = (if ms_running s then Some (ms_token s) else None)"

definition memory_issued :: "memory_store \<Rightarrow> string \<Rightarrow> bool" where
  "memory_issued s tok \<longleftrightarrow> (\<exists>n \<le> ms_runs s. tok = memory_token n)"

lemma memory_token_inj: "memory_token m = memory_token n \<Longrightarrow> m = n"
  using Itoa_inj by (fastforce simp: memory_token_def)

lemma memory_token_nonempty [simp]: "memory_token n \<noteq> []" "[] \<noteq> memory_token n"
  by (simp_all add: memory_token_def)

lemmas memory_ops = exec_op_def MemoryStore_def ms_TryStart_def ms_Update_def ms_Heartbeat_def
  ms_Finish_def ms_Load_def ms_holds_def Let_def

interpretation mem: eternal_store memory_handle memory_env memory_inv memory_holder
  "\<lambda>s. Some (ms_status s)" memory_issued "\<lambda>op tok. True"
proof unfold_locales
  fix s op tok
  assume "memory_inv s" "memory_issued s tok" "memory_holder s \<noteq> Some tok"
  then show "memory_holder (snd (exec_op memory_handle op s)) \<noteq> Some tok"
    using memory_token_inj
    by (auto simp: memory_ops memory_inv_def memory_holder_def memory_issued_def
        split: import_op.splits dest!: memory_token_inj)
qed (auto simp: memory_ops memory_inv_def memory_holder_def memory_issued_def
      split: import_op.splits if_splits intro: le_SucI)

section \<open>CourseImportStore\<close>

definition redis_env :: "int \<times> delivery list \<Rightarrow> 'r conn \<Rightarrow> 'r conn" where
  "redis_env e c = c\<lparr>rc_now := rc_now c + max 0 (fst e), rc_net := snd e\<rparr>"

abbreviation import_lock ::
  "('r \<Rightarrow> import_status keyspace) \<Rightarrow> 'r conn \<Rightarrow> (import_status rvalue \<times> int option) option" where
  "import_lock view c \<equiv> view (rc_store c) courseImportLockKey"

definition ci_holder :: "('r \<Rightarrow> import_status keyspace) \<Rightarrow> 'r conn \<Rightarrow> string option" where
  "ci_holder view c =
     (case live (rc_now c) (import_lock view c) of Some (RStr tok) \<Rightarrow> Some tok | _ \<Rightarrow> None)"

definition ci_recorded :: "('r \<Rightarrow> import_status keyspace) \<Rightarrow> 'r conn \<Rightarrow> import_status option" where
  "ci_recorded view c =
     (case view (rc_store c) courseImportStatusKey of Some (RJson st, _) \<Rightarrow> Some st | _ \<Rightarrow> None)"

definition ci_lease :: "('r \<Rightarrow> import_status keyspace) \<Rightarrow> 'r conn \<Rightarrow> int" where
  "ci_lease view c = (case import_lock view c of Some (_, Some t) \<Rightarrow> t | _ \<Rightarrow> 0)"

definition lock_ok :: "int \<Rightarrow> (import_status rvalue \<times> int option) option \<Rightarrow> bool" where
  "lock_ok now e = (case e of Some (RStr tok, Some t) \<Rightarrow> t \<le> now + courseImportLockTTL
     | None \<Rightarrow> True | _ \<Rightarrow> False)"

definition status_ok :: "(import_status rvalue \<times> int option) option \<Rightarrow> bool" where
  "status_ok e = (case e of Some (RJson st, None) \<Rightarrow> True | None \<Rightarrow> True | _ \<Rightarrow> False)"

lemma entry_ok_simps [simp]:
  "lock_ok now None" "status_ok None" "status_ok (Some (RJson st, None))"
  "lock_ok now (Some (RStr tok, Some t)) \<longleftrightarrow> t \<le> now + courseImportLockTTL"
  by (simp_all add: lock_ok_def status_ok_def)

definition ci_inv :: "('r \<Rightarrow> import_status keyspace) \<Rightarrow> 'r conn \<Rightarrow> bool" where
  "ci_inv view c \<longleftrightarrow> lock_ok (rc_now c) (import_lock view c) \<and>
     status_ok (view (rc_store c) courseImportStatusKey)"

lemma lock_okE:
  assumes "lock_ok now e"
  obtains "e = None" | tok t where "e = Some (RStr tok, Some t)" "t \<le> now + courseImportLockTTL"
proof (cases e)
  case (Some vx)
  obtain v x where "vx = (v, x)" by fastforce
  with Some assms that(2) show ?thesis
    by (cases v; cases x) (simp_all add: lock_ok_def)
qed (use that in blast)

text \<open>A start whose fresh identifier makes another token.\<close>

fun ci_fresh :: "import_op \<Rightarrow> string \<Rightarrow> bool" where
  "ci_fresh (TryStartOp owner uuid _) tok \<longleftrightarrow> owner @ '':'' @ uuid \<noteq> tok"
| "ci_fresh _ tok \<longleftrightarrow> True"

lemmas ci_defs = ci_holder_def ci_recorded_def ci_lease_def ci_inv_def
lemmas ci_ops = exec_op_def CourseImportStore_def ci_TryStart_def ci_Update_def ci_Heartbeat_def
  ci_Finish_def ci_Load_def ci_save_def ci_release_def Get_def Exists_def SetKey_def SetNX_def
  bindP_def tryP_def Let_def
lemmas ci_scripts = courseImportUpdateScript_def courseImportHeartbeatScript_def
  courseImportFinishScript_def releaseScript_def

locale import_redis = redis_server R view
  for R :: "('r, import_status) redis" and view :: "'r \<Rightarrow> import_status keyspace"
begin

text \<open>What one operation does to the two keys, whatever the network does.\<close>

abbreviation keys :: "'r conn \<Rightarrow> import_status keyspace" where
  "keys c \<equiv> view (rc_store c)"

lemma holder_lock:
  "ci_inv view c \<Longrightarrow> (live (rc_now c) (import_lock view c) = Some (RStr tok)) = (ci_holder view c = Some tok)"
  unfolding ci_inv_def ci_holder_def by (elim conjE lock_okE) auto

lemma Update_effect:
  assumes "ci_inv view c" "exec_op (CourseImportStore R) (UpdateOp tok st) c = (r, t)"
  shows "rc_now t = rc_now c \<and>
    (keys t = keys c \<and> (r = Written \<longrightarrow> ci_holder view c \<noteq> Some tok) \<or>
     ci_holder view c = Some tok \<and>
     keys t = (keys c)(courseImportLockKey \<mapsto> (RStr tok, Some (rc_now c + courseImportLockTTL)),
                       courseImportStatusKey \<mapsto> (RJson st, None)))"
  using assms holder_lock [OF assms(1), of tok]
  by (cases "next_delivery c"; cases "ci_holder view c = Some tok")
    (auto simp: ci_ops ci_scripts rcall_def commands)

lemma Heartbeat_effect:
  assumes "ci_inv view c" "exec_op (CourseImportStore R) (HeartbeatOp tok) c = (r, t)"
  shows "rc_now t = rc_now c \<and> (\<forall>b. r = Beat b \<longrightarrow> b = (ci_holder view c = Some tok)) \<and>
    (keys t = keys c \<or>
     ci_holder view c = Some tok \<and>
     keys t = (keys c)(courseImportLockKey \<mapsto> (RStr tok, Some (rc_now c + courseImportLockTTL))))"
  using assms holder_lock [OF assms(1), of tok]
  by (cases "next_delivery c"; cases "ci_holder view c = Some tok")
    (auto simp: ci_ops ci_scripts rcall_def commands)

lemma Finish_effect:
  assumes "ci_inv view c" "exec_op (CourseImportStore R) (FinishOp tok st) c = (r, t)"
  shows "rc_now t = rc_now c \<and>
    (keys t = keys c \<and> (r = Written \<longrightarrow> ci_holder view c \<noteq> Some tok) \<or>
     ci_holder view c = Some tok \<and>
     keys t = (keys c)(courseImportLockKey := None, courseImportStatusKey \<mapsto> (RJson st, None)))"
  using assms holder_lock [OF assms(1), of tok]
  by (cases "next_delivery c"; cases "ci_holder view c = Some tok")
    (auto simp: ci_ops ci_scripts rcall_def commands fun_upd_twist)

lemma Load_effect:
  assumes "ci_inv view c" "exec_op (CourseImportStore R) LoadOp c = (r, t)"
  shows "rc_now t = rc_now c \<and> keys t = keys c"
  using assms
  by (auto simp: ci_ops rcall_def split: option.splits rvalue.splits delivery.splits if_splits)

lemma TryStart_held:
  assumes "live (rc_now c) (import_lock view c) \<noteq> None"
    and "exec_op (CourseImportStore R) (TryStartOp owner uuid st) c = (r, t)"
  shows "rc_now t = rc_now c \<and> keys t = keys c \<and> (\<forall>tok. r \<noteq> Started tok)"
proof -
  obtain r' where "rd_SetNX R (rc_now c) courseImportLockKey (RStr (owner @ '':'' @ uuid))
      (Some courseImportLockTTL) (rc_store c) = (False, r')" "view r' = keys c"
    by (rule SetNX_taken_pair [OF assms(1)])
  with assms(2) show ?thesis
    by (cases "next_delivery c") (auto simp: ci_ops rcall_def)
qed

lemma TryStart_free:
  assumes "live (rc_now c) (import_lock view c) = None"
    and "exec_op (CourseImportStore R) (TryStartOp owner uuid st) c = (r, t)"
  shows "rc_now t = rc_now c \<and>
    keys t courseImportLockKey \<in> {import_lock view c, None,
      Some (RStr (owner @ '':'' @ uuid), Some (rc_now c + courseImportLockTTL))} \<and>
    keys t courseImportStatusKey \<in> {keys c courseImportStatusKey, Some (RJson st, None)} \<and>
    (\<forall>tok. r = Started tok \<longrightarrow> tok = owner @ '':'' @ uuid \<and>
       keys t courseImportLockKey = Some (RStr tok, Some (rc_now c + courseImportLockTTL)) \<and>
       keys t courseImportStatusKey = Some (RJson st, None))"
proof -
  let ?tok = "owner @ '':'' @ uuid"
  let ?lock = "Some (RStr ?tok, Some (rc_now c + courseImportLockTTL))"
  obtain r' where nx: "rd_SetNX R (rc_now c) courseImportLockKey (RStr ?tok)
      (Some courseImportLockTTL) (rc_store c) = (True, r')"
    and keys': "view r' = (keys c)(courseImportLockKey := ?lock)"
    using SetNX_free_pair [OF assms(1), of "RStr ?tok" "Some courseImportLockTTL"] by auto
  define c1 where "c1 = c\<lparr>rc_net := tl (rc_net c), rc_store := r'\<rparr>"
  show ?thesis
  proof (cases "next_delivery c")
    case Delivered
    with nx have "SetNX R courseImportLockKey (RStr ?tok) (Some courseImportLockTTL) c = (Inr True, c1)"
      by (simp add: SetNX_def rcall_def c1_def)
    then have "ci_TryStart R owner uuid st c = tryP (ci_save R st) (\<lambda>r. case r of
        Inl err \<Rightarrow> tryP (ci_release R ?tok) (\<lambda>_. throw err) | Inr _ \<Rightarrow> ret (?tok, True)) c1"
      by (simp only: ci_TryStart_def Let_def bindP_def prod.case sum.case not_True_eq_False if_False)
    with assms(2) have *: "(case tryP (ci_save R st) (\<lambda>r. case r of
               Inl err \<Rightarrow> tryP (ci_release R ?tok) (\<lambda>_. throw err)
             | Inr _ \<Rightarrow> ret (?tok, True)) c1 of
         (Inr (tok, ok), t) \<Rightarrow> (if ok then Started tok else Refused, t)
       | (Inl e, t) \<Rightarrow> (CallFailed, t)) = (r, t)"
      by (simp add: exec_op_def CourseImportStore_def)
    obtain r1 c2 where save: "ci_save R st c1 = (r1, c2)" by fastforce
    have c1: "rc_now c1 = rc_now c" "keys c1 = (keys c)(courseImportLockKey := ?lock)"
      by (simp_all add: c1_def keys')
    show ?thesis
    proof (cases r1)
      case (Inr u)
      with save have "rc_now c2 = rc_now c" "keys c2 = (keys c)(courseImportLockKey := ?lock,
          courseImportStatusKey \<mapsto> (RJson st, None))"
        by (auto simp: ci_save_def SetKey_def elim!: rcall_cases simp: Set c1 network_error_def)
      with * save Inr show ?thesis by (auto simp: tryP_def)
    next
      case (Inl e)
      from save have 2: "rc_now c2 = rc_now c" "keys c2 = keys c1 \<or>
          keys c2 = (keys c1)(courseImportStatusKey \<mapsto> (RJson st, None))"
        by (auto simp: ci_save_def SetKey_def elim!: rcall_cases simp: Set c1)
      obtain r2 c3 where rel: "ci_release R ?tok c2 = (r2, c3)" by fastforce
      have "rc_now c3 = rc_now c2 \<and>
          (keys c3 = keys c2 \<or> keys c3 = (keys c2)(courseImportLockKey := None))"
        using rel by (auto simp: ci_release_def releaseScript_def Del elim!: rcall_cases)
      moreover have "r = CallFailed" "t = c3"
        using * save Inl rel by (auto simp: tryP_def)
      ultimately show ?thesis
        using 2 c1 by auto
    qed
  next
    case NotSent
    with assms(2) show ?thesis by (auto simp: ci_ops rcall_def)
  next
    case ReplyLost
    with nx assms(2) have "rc_now t = rc_now c" "r = CallFailed"
        "keys t = (keys c)(courseImportLockKey := ?lock)"
      by (auto simp: ci_ops rcall_def keys')
    then show ?thesis by simp
  qed
qed

text \<open>The laws of the contract.\<close>

lemma not_live_holder: "live (rc_now c) (import_lock view c) = None \<Longrightarrow> ci_holder view c = None"
  by (simp add: ci_holder_def)

lemma live_holder:
  "ci_inv view c \<Longrightarrow> live (rc_now c) (import_lock view c) \<noteq> None \<Longrightarrow> ci_holder view c \<noteq> None"
  unfolding ci_inv_def ci_holder_def by (elim conjE lock_okE) (auto split: if_splits)

lemma ci_op_inv: "ci_inv view c \<Longrightarrow> ci_inv view (snd (exec_op (CourseImportStore R) op c))"
proof -
  assume inv: "ci_inv view c"
  obtain r t where rt: "exec_op (CourseImportStore R) op c = (r, t)" by fastforce
  have "ci_inv view t"
  proof (cases op)
    case (TryStartOp owner uuid st)
    show ?thesis
    proof (cases "live (rc_now c) (import_lock view c) = None")
      case True
      from TryStart_free [OF this, of owner uuid st r t] rt TryStartOp inv show ?thesis
        by (auto simp: ci_inv_def)
    next
      case False
      from TryStart_held [OF this, of owner uuid st r t] rt TryStartOp inv show ?thesis
        by (simp add: ci_inv_def)
    qed
  next
    case (UpdateOp tok st)
    with Update_effect [OF inv, of tok st r t] rt inv show ?thesis by (auto simp: ci_inv_def)
  next
    case (HeartbeatOp tok)
    with Heartbeat_effect [OF inv, of tok r t] rt inv show ?thesis by (auto simp: ci_inv_def)
  next
    case (FinishOp tok st)
    with Finish_effect [OF inv, of tok st r t] rt inv show ?thesis by (auto simp: ci_inv_def)
  next
    case LoadOp
    with Load_effect [OF inv, of r t] rt inv show ?thesis by (simp add: ci_inv_def)
  qed
  with rt show ?thesis by simp
qed

lemma ci_op_clock: "rc_now (snd (exec_op (CourseImportStore R) op c)) = rc_now c"
  by (cases op) (auto simp: exec_op_def CourseImportStore_def ci_Update_def ci_Heartbeat_def
      ci_Finish_def ci_Load_def ci_TryStart_def ci_save_def ci_release_def Get_def Exists_def
      SetKey_def SetNX_def bindP_def tryP_def Let_def rcall_def
      split: prod.splits sum.splits delivery.splits option.splits rvalue.splits)

lemma ci_granted:
  assumes "ci_inv view c"
    and "exec_op (CourseImportStore R) (TryStartOp owner uuid st) c = (Started tok, t)"
  shows "ci_holder view c = None \<and> ci_holder view t = Some tok \<and> ci_recorded view t = Some st"
proof (cases "live (rc_now c) (import_lock view c) = None")
  case True
  from TryStart_free [OF this assms(2)] not_live_holder [OF True] show ?thesis
    by (auto simp: ci_holder_def ci_recorded_def courseImportLockTTL_def)
qed (use TryStart_held [OF _ assms(2)] in simp)

lemma ci_held_refuses:
  assumes "ci_inv view c" "ci_holder view c \<noteq> None"
  shows "ci_holder view (snd (exec_op (CourseImportStore R) (TryStartOp owner uuid st) c)) =
      ci_holder view c \<and>
    ci_recorded view (snd (exec_op (CourseImportStore R) (TryStartOp owner uuid st) c)) =
      ci_recorded view c"
proof -
  obtain r t where rt: "exec_op (CourseImportStore R) (TryStartOp owner uuid st) c = (r, t)"
    by fastforce
  from assms(2) have "live (rc_now c) (import_lock view c) \<noteq> None"
    by (auto simp: ci_holder_def split: option.splits)
  from TryStart_held [OF this rt] rt show ?thesis by (simp add: ci_holder_def ci_recorded_def)
qed

lemma ci_stale:
  assumes "ci_inv view c" "op_token op = Some tok" "ci_holder view c \<noteq> Some tok"
  shows "ci_holder view (snd (exec_op (CourseImportStore R) op c)) = ci_holder view c \<and>
    ci_recorded view (snd (exec_op (CourseImportStore R) op c)) = ci_recorded view c"
proof -
  obtain r t where rt: "exec_op (CourseImportStore R) op c = (r, t)" by fastforce
  have "rc_now t = rc_now c \<and> keys t = keys c"
    using assms rt Update_effect [OF assms(1), of tok _ r t] Heartbeat_effect [OF assms(1), of tok r t]
      Finish_effect [OF assms(1), of tok _ r t]
    by (cases op) auto
  with rt show ?thesis by (simp add: ci_holder_def ci_recorded_def)
qed

end

sublocale import_redis \<subseteq> store: lease_store "CourseImportStore R" redis_env "ci_inv view"
  "ci_holder view" "ci_recorded view" "\<lambda>c tok. True" ci_fresh rc_now "ci_lease view"
proof unfold_locales
  fix c :: "'r conn" and op tok
  assume inv: "ci_inv view c" and fresh: "ci_fresh op tok" and no: "ci_holder view c \<noteq> Some tok"
  obtain r t where rt: "exec_op (CourseImportStore R) op c = (r, t)" by fastforce
  have "ci_holder view t \<noteq> Some tok"
  proof (cases op)
    case (TryStartOp owner uuid st)
    show ?thesis
    proof (cases "live (rc_now c) (import_lock view c) = None")
      case True
      from TryStart_free [OF this rt [unfolded TryStartOp]] fresh TryStartOp no True
      show ?thesis by (auto simp: ci_holder_def courseImportLockTTL_def)
    next
      case False
      from TryStart_held [OF this rt [unfolded TryStartOp]] no show ?thesis
        by (simp add: ci_holder_def)
    qed
  next
    case (UpdateOp tok' st)
    with Update_effect [OF inv, of tok' st r t] rt no show ?thesis
      by (auto simp: ci_holder_def courseImportLockTTL_def)
  next
    case (HeartbeatOp tok')
    with Heartbeat_effect [OF inv, of tok' r t] rt no show ?thesis
      by (auto simp: ci_holder_def courseImportLockTTL_def)
  next
    case (FinishOp tok' st)
    with Finish_effect [OF inv, of tok' st r t] rt no show ?thesis
      by (auto simp: ci_holder_def courseImportLockTTL_def)
  next
    case LoadOp
    with Load_effect [OF inv, of r t] rt no show ?thesis by (simp add: ci_holder_def)
  qed
  with rt show "ci_holder view (snd (exec_op (CourseImportStore R) op c)) \<noteq> Some tok" by simp
next
  fix c :: "'r conn" and tok st
  assume a: "ci_inv view c" "ci_holder view c = Some tok"
  obtain r t where rt: "exec_op (CourseImportStore R) (UpdateOp tok st) c = (r, t)" by fastforce
  from Update_effect [OF a(1) rt] a rt
  show "ci_holder view (snd (exec_op (CourseImportStore R) (UpdateOp tok st) c)) = Some tok \<and>
      (fst (exec_op (CourseImportStore R) (UpdateOp tok st) c) = Written \<longrightarrow>
       ci_recorded view (snd (exec_op (CourseImportStore R) (UpdateOp tok st) c)) = Some st)"
    by (auto simp: ci_holder_def ci_recorded_def courseImportLockTTL_def)
next
  fix c t :: "'r conn" and tok r
  assume a: "ci_inv view c" "exec_op (CourseImportStore R) (HeartbeatOp tok) c = (r, t)"
  from Heartbeat_effect [OF a] show "ci_holder view t = ci_holder view c \<and>
      ci_recorded view t = ci_recorded view c \<and> (\<forall>b. r = Beat b \<longrightarrow> b = (ci_holder view c = Some tok))"
    by (auto simp: ci_holder_def ci_recorded_def courseImportLockTTL_def)
next
  fix c t :: "'r conn" and tok st
  assume a: "ci_inv view c" "ci_holder view c = Some tok"
    "exec_op (CourseImportStore R) (FinishOp tok st) c = (Written, t)"
  from Finish_effect [OF a(1,3)] a(2) show "ci_holder view t = None \<and> ci_recorded view t = Some st"
    by (auto simp: ci_holder_def ci_recorded_def)
next
  fix c t :: "'r conn" and r
  assume a: "ci_inv view c" "exec_op (CourseImportStore R) LoadOp c = (r, t)"
  from Load_effect [OF a] show "ci_holder view t = ci_holder view c \<and>
      ci_recorded view t = ci_recorded view c"
    by (simp add: ci_holder_def ci_recorded_def)
next
  fix c :: "'r conn" and op tok
  assume a: "ci_inv view c" "ci_holder view c = Some tok" "\<forall>st. op \<noteq> FinishOp tok st"
  obtain r t where rt: "exec_op (CourseImportStore R) op c = (r, t)" by fastforce
  have le: "ci_lease view c \<le> rc_now c + courseImportLockTTL"
    using a(1,2) unfolding ci_inv_def ci_holder_def ci_lease_def by (elim conjE lock_okE) auto
  have "ci_lease view c \<le> ci_lease view t"
  proof (cases op)
    case (TryStartOp owner uuid st)
    have "live (rc_now c) (import_lock view c) \<noteq> None"
      using a(2) by (auto simp: ci_holder_def split: option.splits)
    from TryStart_held [OF this rt [unfolded TryStartOp]] show ?thesis by (simp add: ci_lease_def)
  next
    case (UpdateOp tok' st)
    with Update_effect [OF a(1), of tok' st r t] rt le show ?thesis by (auto simp: ci_lease_def)
  next
    case (HeartbeatOp tok')
    with Heartbeat_effect [OF a(1), of tok' r t] rt le show ?thesis by (auto simp: ci_lease_def)
  next
    case (FinishOp tok' st)
    with Finish_effect [OF a(1), of tok' st r t] rt a(2,3) show ?thesis by (auto simp: ci_lease_def)
  next
    case LoadOp
    with Load_effect [OF a(1), of r t] rt show ?thesis by (simp add: ci_lease_def)
  qed
  with rt show "ci_lease view c \<le> ci_lease view (snd (exec_op (CourseImportStore R) op c))" by simp
next
  fix c :: "'r conn" and e tok
  assume "ci_inv view c" "ci_holder view c = Some tok" "rc_now (redis_env e c) < ci_lease view c"
  then show "ci_holder view (redis_env e c) = Some tok \<and>
      ci_lease view (redis_env e c) = ci_lease view c"
    unfolding ci_inv_def ci_holder_def ci_lease_def redis_env_def
    by (elim conjE lock_okE) (auto split: if_splits)
qed (auto intro: ci_op_inv ci_granted [THEN conjunct1] ci_granted [THEN conjunct2, THEN conjunct1]
      ci_granted [THEN conjunct2, THEN conjunct2] ci_op_clock
      simp: ci_held_refuses ci_stale ci_op_inv ci_op_clock,
    auto simp: ci_defs redis_env_def elim!: lock_okE split: if_splits)

context import_redis
begin

lemma exclusive:
  assumes "ci_inv view c"
    and "exec_op (CourseImportStore R) op c = (r, t)"
    and "(\<exists>owner uuid st. op = TryStartOp owner uuid st) \<and> r = Started tok \<or>
      op = HeartbeatOp tok \<and> r = Beat True"
    and "\<forall>(e, op) \<in> set ops. \<forall>st. op \<noteq> FinishOp tok st"
    and "rc_now (snd (run_ops (CourseImportStore R) redis_env ops t)) < rc_now c + courseImportLockTTL"
  shows "ci_holder view (snd (run_ops (CourseImportStore R) redis_env ops t)) = Some tok \<and>
    (\<forall>r \<in> set (fst (run_ops (CourseImportStore R) redis_env ops t)). \<forall>tok'. r \<noteq> Started tok')"
proof (rule store.no_second_start_in_lease [OF _ _ assms(4)])
  show "ci_inv view t"
    using ci_op_inv [OF assms(1), of op] assms(2) by simp
  have lock: "import_lock view t = Some (RStr tok, Some (rc_now c + courseImportLockTTL)) \<and>
      rc_now t = rc_now c"
    using assms(3)
  proof
    assume "(\<exists>owner uuid st. op = TryStartOp owner uuid st) \<and> r = Started tok"
    then obtain owner uuid st where op: "op = TryStartOp owner uuid st" and r: "r = Started tok"
      by blast
    then have free: "live (rc_now c) (import_lock view c) = None"
      using TryStart_held [OF _ assms(2) [unfolded op]] by blast
    from TryStart_free [OF this assms(2) [unfolded op]] r show ?thesis by blast
  next
    assume beat: "op = HeartbeatOp tok \<and> r = Beat True"
    then show ?thesis
      using assms(2) holder_lock [OF assms(1), of tok]
      by (cases "next_delivery c"; cases "ci_holder view c = Some tok")
        (auto simp: ci_ops ci_scripts rcall_def commands)
  qed
  then show "ci_holder view t = Some tok"
    by (simp add: ci_holder_def courseImportLockTTL_def)
  from lock assms(5) show "rc_now (snd (run_ops (CourseImportStore R) redis_env ops t)) < ci_lease view t"
    by (simp add: ci_lease_def)
qed

lemma stale_fenced:
  assumes "ci_inv view c" and "ci_holder view c \<noteq> Some tok"
    and "\<forall>(e, op) \<in> set ops. ci_fresh op tok" and "op_token op = Some tok"
  shows "ci_recorded view (snd (exec_op (CourseImportStore R) op
      (snd (run_ops (CourseImportStore R) redis_env ops c)))) =
    ci_recorded view (snd (run_ops (CourseImportStore R) redis_env ops c))"
  by (rule store.fenced_write [OF assms(1) TrueI assms(2-4)])

lemma running_has_lock:
  assumes "ci_inv view c" and "exec_op (CourseImportStore R) LoadOp c = (Loaded st, t)"
  shows "if is_State st = StateRunning
    then ci_holder view c \<noteq> None \<and> ci_recorded view c = Some st
    else ci_recorded view c = None \<and> st = status_of StateIdle \<or>
      ci_recorded view c = Some st \<or>
      (\<exists>st'. ci_recorded view c = Some st' \<and> is_State st' = StateRunning \<and>
         ci_holder view c = None \<and> is_State st = StateFailed)"
proof -
  have "status_ok (keys c courseImportStatusKey)" using assms(1) by (simp add: ci_inv_def)
  then consider "keys c courseImportStatusKey = None"
    | st' where "keys c courseImportStatusKey = Some (RJson st', None)"
    by (auto simp: status_ok_def split: option.splits rvalue.splits)
  then show ?thesis
  proof cases
    case 1
    with assms(2) show ?thesis
      by (auto simp: ci_ops rcall_def commands ci_recorded_def status_of_def
          split: delivery.splits)
  next
    case (2 st')
    have exists: "live (rc_now c) (import_lock view c) = None \<longleftrightarrow> ci_holder view c = None"
      using live_holder [OF assms(1)] not_live_holder by blast
    show ?thesis
    proof (cases "is_State st' = StateRunning")
      case False
      with 2 assms(2) show ?thesis
        by (auto simp: ci_ops rcall_def commands ci_recorded_def split: delivery.splits)
    next
      case True
      with 2 assms(2) exists show ?thesis
        by (auto simp: ci_ops rcall_def commands ci_recorded_def split: delivery.splits if_splits)
    qed
  qed
qed

end

lemma import_redis_ttl: "import_redis ttl_map map_of"
  unfolding import_redis_def by (rule ttl_map_server)

interpretation import_ttl: import_redis ttl_map map_of
  by (rule import_redis_ttl)

section \<open>Properties\<close>

lemma memory_trace_inv:
  "memory_inv s \<Longrightarrow> memory_inv (snd (run_ops memory_handle memory_env ops s))"
  by (induction ops arbitrary: s) (auto simp: mem.op_inv)

text \<open>C7: On the memory store, while a run holds the mark no other start is granted, whatever
  operations other callers make, until the run itself reports its end.\<close>

theorem memory_import_exclusive:
  assumes "s = snd (run_ops memory_handle memory_env before NewMemoryStore)"
    and "ms_running s"
    and "\<forall>(e, op) \<in> set ops. \<forall>st. op \<noteq> FinishOp (ms_token s) st"
  shows "ms_running (snd (run_ops memory_handle memory_env ops s)) \<and>
    (\<forall>r \<in> set (fst (run_ops memory_handle memory_env ops s)). \<forall>tok. r \<noteq> Started tok)"
proof -
  have "memory_inv s"
    unfolding assms(1) by (rule memory_trace_inv) (simp add: memory_inv_def NewMemoryStore_def)
  moreover have "memory_holder s = Some (ms_token s)"
    using assms(2) by (simp add: memory_holder_def)
  ultimately show ?thesis
    using mem.no_second_start [of s "ms_token s" ops] assms(3)
    by (auto simp: memory_holder_def split: if_splits)
qed

definition sample_run :: import_status where
  "sample_run = (status_of StateRunning)\<lparr>is_Year := 2026\<rparr>"

theorem memory_import_exclusive_witness:
  "fst (run_ops memory_handle memory_env
      [((), TryStartOp [] [] sample_run), ((), TryStartOp [] [] sample_run)] NewMemoryStore) =
     [Started ''memory-1'', Refused] \<and>
   list_all (\<lambda>r. \<forall>tok. r \<noteq> Started tok) (fst (run_ops memory_handle memory_env
      [((), TryStartOp [] [] sample_run), ((), FinishOp ''memory-2'' sample_run)]
      (snd (run_ops memory_handle memory_env [((), TryStartOp [] [] sample_run)] NewMemoryStore))))"
proof -
  let ?s = "snd (run_ops memory_handle memory_env [((), TryStartOp [] [] sample_run)] NewMemoryStore)"
  let ?ops = "[((), TryStartOp [] [] sample_run), ((), FinishOp ''memory-2'' sample_run)]"
  have "ms_running ?s" by code_simp
  moreover have tok: "ms_token ?s = ''memory-1''" by code_simp
  then have "\<forall>(e, op) \<in> set ?ops. \<forall>st. op \<noteq> FinishOp (ms_token ?s) st"
    unfolding tok by simp
  ultimately have "list_all (\<lambda>r. \<forall>tok. r \<noteq> Started tok) (fst (run_ops memory_handle memory_env ?ops ?s))"
    using memory_import_exclusive [OF refl] unfolding list_all_iff by blast
  moreover have "fst (run_ops memory_handle memory_env
      [((), TryStartOp [] [] sample_run), ((), TryStartOp [] [] sample_run)] NewMemoryStore) =
     [Started ''memory-1'', Refused]" by code_simp
  ultimately show ?thesis by blast
qed

text \<open>C5: On Redis, once a start is granted or a heartbeat has succeeded, no other server gets a
  start within the lock's lifetime from that moment, whatever the servers do and whatever round
  trips are lost, unless the run itself reports its end.\<close>

theorem redis_import_exclusive:
  assumes "import_redis R view" and "ci_inv view c"
    and "exec_op (CourseImportStore R) op c = (r, t)"
    and "(\<exists>owner uuid st. op = TryStartOp owner uuid st) \<and> r = Started tok \<or>
      op = HeartbeatOp tok \<and> r = Beat True"
    and "\<forall>(e, op) \<in> set ops. \<forall>st. op \<noteq> FinishOp tok st"
    and "rc_now (snd (run_ops (CourseImportStore R) redis_env ops t)) < rc_now c + courseImportLockTTL"
  shows "ci_holder view (snd (run_ops (CourseImportStore R) redis_env ops t)) = Some tok \<and>
    (\<forall>r \<in> set (fst (run_ops (CourseImportStore R) redis_env ops t)). \<forall>tok'. r \<noteq> Started tok')"
  using import_redis.exclusive [OF assms] .

text \<open>C6: A run that has lost the lock (it expired and another server may have started) writes
  nothing any more: its late progress reports and its result leave the status on record alone.\<close>

theorem redis_stale_run_fenced:
  assumes "import_redis R view" and "ci_inv view c" and "ci_holder view c \<noteq> Some tok"
    and "\<forall>(e, op) \<in> set ops. ci_fresh op tok" and "op_token op = Some tok"
  shows "ci_recorded view (snd (exec_op (CourseImportStore R) op
      (snd (run_ops (CourseImportStore R) redis_env ops c)))) =
    ci_recorded view (snd (run_ops (CourseImportStore R) redis_env ops c))"
  using import_redis.stale_fenced [OF assms] .

text \<open>The status that is shown as running always belongs to a run whose lock is alive; when the
  server that ran the import has died, the status is shown as failed.\<close>

theorem redis_running_has_lock:
  assumes "import_redis R view" and "ci_inv view c"
    and "exec_op (CourseImportStore R) LoadOp c = (Loaded st, t)"
  shows "if is_State st = StateRunning
    then ci_holder view c \<noteq> None \<and> ci_recorded view c = Some st
    else ci_recorded view c = None \<and> st = status_of StateIdle \<or>
      ci_recorded view c = Some st \<or>
      (\<exists>st'. ci_recorded view c = Some st' \<and> is_State st' = StateRunning \<and>
         ci_holder view c = None \<and> is_State st = StateFailed)"
  using import_redis.running_has_lock [OF assms] .

text \<open>A server \<open>n1\<close> starts a run on a Redis that answers; time and lost replies come from the trace.\<close>

definition sample_lock :: "import_status ttl_state conn" where
  "sample_lock = snd (exec_op (CourseImportStore ttl_map) (TryStartOp ''n1'' ''u1'' sample_run) empty_conn)"

lemma sample_lock_facts:
  "exec_op (CourseImportStore ttl_map) (TryStartOp ''n1'' ''u1'' sample_run) empty_conn =
     (Started ''n1:u1'', sample_lock)"
  "ci_inv map_of (empty_conn :: import_status ttl_state conn)"
proof -
  have "fst (exec_op (CourseImportStore ttl_map) (TryStartOp ''n1'' ''u1'' sample_run) empty_conn) =
     Started ''n1:u1''" by code_simp
  then show "exec_op (CourseImportStore ttl_map) (TryStartOp ''n1'' ''u1'' sample_run) empty_conn =
     (Started ''n1:u1'', sample_lock)"
    by (metis prod.collapse sample_lock_def)
  show "ci_inv map_of (empty_conn :: import_status ttl_state conn)"
    by (simp add: ci_inv_def empty_conn_def)
qed

theorem redis_import_exclusive_witness:
  "let ops = [((600000, []), TryStartOp ''n2'' ''u2'' sample_run),
              ((200000, [ReplyLost]), HeartbeatOp ''n2:u2'')] in
   ci_holder map_of (snd (run_ops (CourseImportStore ttl_map) redis_env ops sample_lock)) =
     Some ''n1:u1'' \<and>
   fst (run_ops (CourseImportStore ttl_map) redis_env ops sample_lock) = [Refused, CallFailed]"
proof -
  let ?ops = "[((600000, []), TryStartOp ''n2'' ''u2'' sample_run),
              ((200000, [ReplyLost]), HeartbeatOp ''n2:u2'')]"
  have now: "rc_now (snd (run_ops (CourseImportStore ttl_map) redis_env ?ops sample_lock))
      < rc_now (empty_conn :: import_status ttl_state conn) + courseImportLockTTL" by code_simp
  have nofin: "\<forall>(e, op) \<in> set ?ops. \<forall>st. op \<noteq> FinishOp ''n1:u1'' st" by simp
  have started: "(\<exists>owner uuid st. TryStartOp ''n1'' ''u1'' sample_run = TryStartOp owner uuid st) \<and>
      Started ''n1:u1'' = Started ''n1:u1'' \<or>
      TryStartOp ''n1'' ''u1'' sample_run = HeartbeatOp ''n1:u1'' \<and> Started ''n1:u1'' = Beat True"
    by simp
  have "fst (run_ops (CourseImportStore ttl_map) redis_env ?ops sample_lock) = [Refused, CallFailed]"
    by code_simp
  with redis_import_exclusive [OF import_redis_ttl sample_lock_facts(2,1) started nofin now]
  show ?thesis unfolding Let_def by blast
qed

theorem redis_stale_run_fenced_witness:
  "let ops = [((900000, []), TryStartOp ''n2'' ''u2'' sample_run)];
       c = snd (run_ops (CourseImportStore ttl_map) redis_env ops sample_lock) in
   ci_holder map_of c = Some ''n2:u2'' \<and>
   ci_recorded map_of (snd (exec_op (CourseImportStore ttl_map)
     (FinishOp ''n1:u1'' (status_of StateFailed)) c)) = ci_recorded map_of c"
proof -
  let ?c = "snd (run_ops (CourseImportStore ttl_map) redis_env
    [((900000, []), TryStartOp ''n2'' ''u2'' sample_run)] sample_lock)"
  have holder: "ci_holder map_of ?c = Some ''n2:u2''" by code_simp
  have "ci_inv map_of sample_lock"
    using import_redis.ci_op_inv [OF import_redis_ttl sample_lock_facts(2)]
    by (simp add: sample_lock_def)
  then have inv: "ci_inv map_of ?c"
    using import_ttl.ci_op_inv import_ttl.store.env_inv by simp
  have "ci_recorded map_of (snd (exec_op (CourseImportStore ttl_map)
      (FinishOp ''n1:u1'' (status_of StateFailed))
      (snd (run_ops (CourseImportStore ttl_map) redis_env [] ?c)))) =
      ci_recorded map_of (snd (run_ops (CourseImportStore ttl_map) redis_env [] ?c))"
    by (rule redis_stale_run_fenced [OF import_redis_ttl inv, where tok = "''n1:u1''"])
      (simp_all add: holder del: run_ops_Cons)
  with holder show ?thesis unfolding Let_def by simp
qed

theorem redis_running_has_lock_witness:
  "fst (exec_op (CourseImportStore ttl_map) LoadOp sample_lock) = Loaded sample_run \<and>
   ci_holder map_of sample_lock \<noteq> None"
proof -
  have a: "fst (exec_op (CourseImportStore ttl_map) LoadOp sample_lock) = Loaded sample_run"
    by code_simp
  have run: "is_State sample_run = StateRunning" by code_simp
  have "ci_inv map_of sample_lock"
    using import_redis.ci_op_inv [OF import_redis_ttl sample_lock_facts(2)]
    by (simp add: sample_lock_def)
  moreover have "exec_op (CourseImportStore ttl_map) LoadOp sample_lock =
      (Loaded sample_run, snd (exec_op (CourseImportStore ttl_map) LoadOp sample_lock))"
    using a by (metis prod.collapse)
  ultimately show ?thesis
    using redis_running_has_lock [OF import_redis_ttl] run a by (metis (full_types))
qed

end
