(* ===== verification/Import_Tracker.thy ===== *)
theory Import_Tracker
  imports Import_Store_Props
begin

text \<open>
  The tracker of the course import (internal/courseimport/tracker.go). \<open>StartRun\<close>, the progress
  reports, the heartbeat, the watchdog and the end of a run are goroutines of the code; each
  critical section (a span under the mutex, one call of the store) is a definition here, and
  \<open>tracker_step\<close> interleaves them in any order.
\<close>

section \<open>State\<close>

definition progressStallTimeout :: int where
  "progressStallTimeout = 10 * 60 * 1000"

record import_outcome =
  oc_Imported :: int
  oc_Skipped :: int
  oc_RunID :: int

record tracker =
  tk_status :: import_status
  tk_runToken :: string
  tk_stopping :: bool

definition NewTracker :: tracker where
  "NewTracker = \<lparr>tk_status = status_of StateIdle, tk_runToken = [], tk_stopping = False\<rparr>"

text \<open>The variables of one background goroutine of \<open>StartRun\<close>: its channels as flags, and the
  time at which the watchdog was last reset.\<close>

record import_run =
  rn_token :: string
  rn_year :: int
  rn_dryRun :: bool
  rn_cancelled :: bool
  rn_stalled :: bool
  rn_progressAt :: int

section \<open>The critical sections\<close>

definition Tracker_Shutdown :: "tracker \<Rightarrow> tracker" where
  "Tracker_Shutdown t = t\<lparr>tk_stopping := True\<rparr>"

definition Tracker_Get :: "'s import_store \<Rightarrow> tracker \<Rightarrow> 's \<Rightarrow> import_status \<times> 's" where
  "Tracker_Get S t s = (case st_Load S s of
     (Inl err, s') \<Rightarrow> (tk_status t, s') | (Inr status, s') \<Rightarrow> (status, s'))"

text \<open>\<open>setProgress\<close>: under the mutex, and then in the store.\<close>

definition setProgress :: "string \<Rightarrow> int \<Rightarrow> int \<Rightarrow> tracker \<Rightarrow> (tracker \<times> import_status) option" where
  "setProgress token processed all t =
     (if is_State (tk_status t) \<noteq> StateRunning \<or> tk_runToken t \<noteq> token then None
      else (let snapshot = (tk_status t)\<lparr>is_Processed := processed, is_Total := all\<rparr> in
            Some (t\<lparr>tk_status := snapshot\<rparr>, snapshot)))"

text \<open>\<open>StartRun\<close> until the store has granted the run, and the part that publishes it.\<close>

definition StartRun :: "'s import_store \<Rightarrow> string \<Rightarrow> int \<Rightarrow> int \<Rightarrow> bool \<Rightarrow> tracker
    \<Rightarrow> ('s, string \<times> import_status) proc" where
  "StartRun S uuid now year dryRun t s =
     (if tk_stopping t then (Inl (Conflict ''the server is stopping''), s)
      else (let snapshot = (status_of StateRunning)\<lparr>is_Year := year, is_StartedAt := Some now,
                              is_DryRun := dryRun\<rparr> in
            case st_TryStart S uuid snapshot s of
              (Inl err, s') \<Rightarrow> (Inl (Conflict ''the import status could not be checked''), s')
            | (Inr (token, acquired), s') \<Rightarrow>
                (if \<not> acquired then (Inl (Conflict ''an import is already running''), s')
                 else (Inr (token, snapshot), s'))))"

definition publishRun :: "string \<Rightarrow> import_status \<Rightarrow> tracker \<Rightarrow> tracker" where
  "publishRun token snapshot t = t\<lparr>tk_status := snapshot, tk_runToken := token\<rparr>"

definition newRun :: "string \<Rightarrow> import_status \<Rightarrow> int \<Rightarrow> import_run" where
  "newRun token snapshot now =
     \<lparr>rn_token = token, rn_year = is_Year snapshot, rn_dryRun = is_DryRun snapshot,
      rn_cancelled = False, rn_stalled = False, rn_progressAt = now\<rparr>"

text \<open>The heartbeat goroutine: silent once the run is judged stalled, keeps going when the store
  cannot tell, cancels the run when the mark is someone else's.\<close>

definition heartbeatTick :: "'s import_store \<Rightarrow> import_run \<Rightarrow> 's \<Rightarrow> import_run \<times> 's" where
  "heartbeatTick S run s =
     (if rn_stalled run then (run, s)
      else (case st_Heartbeat S (rn_token run) s of
              (Inl err, s') \<Rightarrow> (run, s')
            | (Inr held, s') \<Rightarrow> (if held then (run, s') else (run\<lparr>rn_cancelled := True\<rparr>, s'))))"

definition watchdogTick :: "int \<Rightarrow> import_run \<Rightarrow> import_run" where
  "watchdogTick now run =
     (if now - rn_progressAt run \<ge> progressStallTimeout then run\<lparr>rn_stalled := True\<rparr> else run)"

definition stalledCancel :: "import_run \<Rightarrow> import_run" where
  "stalledCancel run = (if rn_stalled run then run\<lparr>rn_cancelled := True\<rparr> else run)"

text \<open>What the goroutine makes of the return value of \<open>run\<close>.\<close>

definition runResult :: "import_run \<Rightarrow> bool \<Rightarrow> string + import_outcome \<Rightarrow> string + import_outcome" where
  "runResult run stopping res =
     (let err = (case res of
            Inr oc \<Rightarrow> if rn_cancelled run \<or> stopping then Inl ''context canceled'' else Inr oc
          | Inl e \<Rightarrow> Inl e)
      in if rn_stalled run
         then (case err of
                 Inl e \<Rightarrow> Inl (''no progress for 10m0s; aborted (last error: '' @ e @ '')'')
               | Inr oc \<Rightarrow> Inl ''no progress for 10m0s; aborted'')
         else err)"

definition endRun ::
  "int \<Rightarrow> import_run \<Rightarrow> string + import_outcome \<Rightarrow> tracker \<Rightarrow> (tracker \<times> import_status) option" where
  "endRun now run res t =
     (let startedAt = is_StartedAt (tk_status t) in
      if tk_runToken t \<noteq> rn_token run then None
      else (let final = (case runResult run (tk_stopping t) res of
                  Inl err \<Rightarrow> (status_of StateFailed)\<lparr>is_Year := rn_year run,
                     is_ErrorMessage := err, is_StartedAt := startedAt,
                     is_FinishedAt := Some now, is_DryRun := rn_dryRun run\<rparr>
                | Inr oc \<Rightarrow> (status_of StateSucceeded)\<lparr>is_Year := rn_year run,
                     is_Imported := oc_Imported oc, is_Skipped := oc_Skipped oc,
                     is_StartedAt := startedAt, is_FinishedAt := Some now,
                     is_DryRun := rn_dryRun run, is_RunID := oc_RunID oc\<rparr>)
            in Some (t\<lparr>tk_status := final, tk_runToken := []\<rparr>, final)))"

definition finishRun :: "'s import_store \<Rightarrow> string \<Rightarrow> import_status \<Rightarrow> 's \<Rightarrow> 's" where
  "finishRun S token final s = snd (st_Finish S token final s)"

definition recordProgress :: "'s import_store \<Rightarrow> string \<Rightarrow> import_status \<Rightarrow> 's \<Rightarrow> 's" where
  "recordProgress S token snapshot s = snd (st_Update S token snapshot s)"

section \<open>Interleavings\<close>

text \<open>Where a run stands: granted by the store but not yet published, running, or ended with its
  result not yet written. A progress report of a running run may be on its way to the store.\<close>

datatype run_phase =
    Granted string import_status
  | Running import_run "import_status option"
  | Ending string import_status

fun phase_token :: "run_phase \<Rightarrow> string" where
  "phase_token (Granted token _) = token"
| "phase_token (Running run _) = rn_token run"
| "phase_token (Ending token _) = token"

record 's import_system =
  sy_tracker :: tracker
  sy_store :: 's
  sy_now :: int
  sy_runs :: "run_phase list"

inductive tracker_step ::
  "'s import_store \<Rightarrow> 's import_system \<Rightarrow> 's import_system \<Rightarrow> bool" for S where
  start: "StartRun S uuid (sy_now y) year dryRun (sy_tracker y) (sy_store y) = (Inr (tok, snap), s') \<Longrightarrow>
    tracker_step S y (y\<lparr>sy_store := s', sy_runs := sy_runs y @ [Granted tok snap]\<rparr>)"
| refused: "StartRun S uuid (sy_now y) year dryRun (sy_tracker y) (sy_store y) = (Inl err, s') \<Longrightarrow>
    tracker_step S y (y\<lparr>sy_store := s'\<rparr>)"
| publish: "sy_runs y = a @ Granted tok snap # b \<Longrightarrow>
    tracker_step S y (y\<lparr>sy_tracker := publishRun tok snap (sy_tracker y),
      sy_runs := a @ Running (newRun tok snap (sy_now y)) None # b\<rparr>)"
| report: "sy_runs y = a @ Running run None # b \<Longrightarrow>
    setProgress (rn_token run) n m (sy_tracker y) = Some (t', snap) \<Longrightarrow>
    tracker_step S y (y\<lparr>sy_tracker := t',
      sy_runs := a @ Running (run\<lparr>rn_progressAt := sy_now y\<rparr>) (Some snap) # b\<rparr>)"
| stray: "sy_runs y = a @ Running run None # b \<Longrightarrow>
    setProgress (rn_token run) n m (sy_tracker y) = None \<Longrightarrow>
    tracker_step S y (y\<lparr>sy_runs := a @ Running (run\<lparr>rn_progressAt := sy_now y\<rparr>) None # b\<rparr>)"
| progress: "sy_runs y = a @ Running run (Some snap) # b \<Longrightarrow>
    tracker_step S y (y\<lparr>sy_store := recordProgress S (rn_token run) snap (sy_store y),
      sy_runs := a @ Running run None # b\<rparr>)"
| heartbeat: "sy_runs y = a @ Running run p # b \<Longrightarrow>
    heartbeatTick S run (sy_store y) = (run', s') \<Longrightarrow>
    tracker_step S y (y\<lparr>sy_store := s', sy_runs := a @ Running run' p # b\<rparr>)"
| watchdog: "sy_runs y = a @ Running run p # b \<Longrightarrow>
    tracker_step S y (y\<lparr>sy_runs := a @ Running (watchdogTick (sy_now y) run) p # b\<rparr>)"
| cancel: "sy_runs y = a @ Running run p # b \<Longrightarrow>
    tracker_step S y (y\<lparr>sy_runs := a @ Running (stalledCancel run) p # b\<rparr>)"
| ended: "sy_runs y = a @ Running run None # b \<Longrightarrow>
    endRun (sy_now y) run res (sy_tracker y) = Some (t', final) \<Longrightarrow>
    tracker_step S y (y\<lparr>sy_tracker := t', sy_runs := a @ Ending (rn_token run) final # b\<rparr>)"
| superseded: "sy_runs y = a @ Running run None # b \<Longrightarrow>
    endRun (sy_now y) run res (sy_tracker y) = None \<Longrightarrow>
    tracker_step S y (y\<lparr>sy_runs := a @ b\<rparr>)"
| finish: "sy_runs y = a @ Ending tok final # b \<Longrightarrow>
    tracker_step S y (y\<lparr>sy_store := finishRun S tok final (sy_store y), sy_runs := a @ b\<rparr>)"
| stop: "tracker_step S y (y\<lparr>sy_tracker := Tracker_Shutdown (sy_tracker y)\<rparr>)"
| clock: "0 \<le> d \<Longrightarrow> tracker_step S y (y\<lparr>sy_now := sy_now y + d\<rparr>)"

definition initial_system :: "'s \<Rightarrow> int \<Rightarrow> 's import_system" where
  "initial_system s now = \<lparr>sy_tracker = NewTracker, sy_store = s, sy_now = now, sy_runs = []\<rparr>"

abbreviation tracker_reachable :: "'s import_store \<Rightarrow> 's \<Rightarrow> 's import_system \<Rightarrow> bool" where
  "tracker_reachable S s y \<equiv> \<exists>now. (tracker_step S)\<^sup>*\<^sup>* (initial_system s now) y"

inductive_cases tracker_stepE: "tracker_step S y z"

section \<open>One server with its memory store\<close>

text \<open>At most one run is alive, it holds the mark of the store, and the tracker and the store agree
  on the status except while that run has a write under way.\<close>

fun run_ok :: "tracker \<Rightarrow> memory_store \<Rightarrow> run_phase list \<Rightarrow> bool" where
  "run_ok t s [] \<longleftrightarrow>
     \<not> ms_running s \<and> tk_status t = ms_status s \<and> tk_runToken t = [] \<and>
     is_State (tk_status t) \<noteq> StateRunning"
| "run_ok t s [Granted tok snap] \<longleftrightarrow>
     ms_running s \<and> ms_token s = tok \<and> tok \<noteq> [] \<and> ms_status s = snap \<and>
     is_State snap = StateRunning \<and> tk_runToken t = [] \<and> is_State (tk_status t) \<noteq> StateRunning"
| "run_ok t s [Running run p] \<longleftrightarrow>
     ms_running s \<and> ms_token s = rn_token run \<and> rn_token run \<noteq> [] \<and> tk_runToken t = rn_token run \<and>
     is_State (tk_status t) = StateRunning \<and>
     (case p of None \<Rightarrow> tk_status t = ms_status s | Some snap \<Rightarrow> tk_status t = snap)"
| "run_ok t s [Ending tok final] \<longleftrightarrow>
     ms_running s \<and> ms_token s = tok \<and> tok \<noteq> [] \<and> tk_status t = final \<and> tk_runToken t = [] \<and>
     is_State final \<in> {StateSucceeded, StateFailed}"
| "run_ok t s _ \<longleftrightarrow> False"

lemma run_ok_split:
  "run_ok t s rs \<Longrightarrow> rs = a @ x # b \<Longrightarrow> a = [] \<and> b = []"
  by (cases "(t, s, rs)" rule: run_ok.cases) (auto simp: append_eq_Cons_conv)

lemma endRun_final:
  "endRun now run res t = Some (t', final) \<Longrightarrow>
     tk_runToken t = rn_token run \<and> t' = t\<lparr>tk_status := final, tk_runToken := []\<rparr> \<and>
     is_State final \<in> {StateSucceeded, StateFailed}"
  by (auto simp: endRun_def Let_def status_of_def split: if_splits sum.splits)

lemma run_tick_token [simp]:
  "rn_token (watchdogTick now run) = rn_token run" "rn_token (stalledCancel run) = rn_token run"
  by (simp_all add: watchdogTick_def stalledCancel_def)

lemmas memory_defs = MemoryStore_def ms_TryStart_def ms_Update_def ms_Heartbeat_def ms_Finish_def
  ms_holds_def Let_def

lemma run_ok_step:
  "tracker_step MemoryStore y z \<Longrightarrow> run_ok (sy_tracker y) (sy_store y) (sy_runs y) \<Longrightarrow>
   run_ok (sy_tracker z) (sy_store z) (sy_runs z)"
proof (induction rule: tracker_step.induct)
  case (start uuid y year dryRun tok snap s')
  then have "\<not> ms_running (sy_store y)" "ms_running s'" "ms_token s' = tok" "tok \<noteq> []"
      "ms_status s' = snap" "is_State snap = StateRunning"
    by (auto simp: StartRun_def memory_defs status_of_def split: if_splits)
  moreover from this(1) start(2) have "sy_runs y = []"
    by (cases "(sy_tracker y, sy_store y, sy_runs y)" rule: run_ok.cases) auto
  ultimately show ?case using start(2) by auto
next
  case (refused uuid y year dryRun err s')
  then show ?case by (auto simp: StartRun_def memory_defs split: if_splits)
next
  case (publish y a tok snap b)
  with run_ok_split [OF publish(2,1)] show ?case by (simp add: publishRun_def newRun_def)
next
  case (report y a run b n m t' snap)
  with run_ok_split [OF report(3,1)] show ?case
    by (auto simp: setProgress_def Let_def split: if_splits)
next
  case (stray y a run b n m)
  with run_ok_split [OF stray(3,1)] show ?case by auto
next
  case (progress y a run snap b)
  with run_ok_split [OF progress(2,1)] show ?case by (auto simp: recordProgress_def memory_defs)
next
  case (heartbeat y a run p b run' s')
  with run_ok_split [OF heartbeat(3,1)] show ?case
    by (auto simp: heartbeatTick_def memory_defs split: if_splits)
next
  case (watchdog y a run p b)
  with run_ok_split [OF watchdog(2,1)] show ?case by simp
next
  case (cancel y a run p b)
  with run_ok_split [OF cancel(2,1)] show ?case by simp
next
  case (ended y a run b res t' final)
  with run_ok_split [OF ended(3,1)] endRun_final [OF ended(2)] show ?case by simp
next
  case (superseded y a run b res)
  with run_ok_split [OF superseded(3,1)] have "tk_runToken (sy_tracker y) = rn_token run" by simp
  with superseded(2) show ?case by (simp add: endRun_def Let_def)
next
  case (finish y a tok final b)
  with run_ok_split [OF finish(2,1)] show ?case by (auto simp: finishRun_def memory_defs)
next
  case (stop y)
  then show ?case
    by (cases "(sy_tracker y, sy_store y, sy_runs y)" rule: run_ok.cases)
      (auto simp: Tracker_Shutdown_def split: option.splits)
qed simp

lemma run_ok_reachable:
  "(tracker_step MemoryStore)\<^sup>*\<^sup>* (initial_system NewMemoryStore now) y \<Longrightarrow>
   run_ok (sy_tracker y) (sy_store y) (sy_runs y)"
proof (induction rule: rtranclp_induct)
  case base
  show ?case
    by (simp add: initial_system_def NewTracker_def NewMemoryStore_def status_of_def)
next
  case (step y z)
  then show ?case by (blast intro: run_ok_step)
qed



text \<open>A run that the tracker has replaced by a newer one, and a run that has ended, change
  nothing any more: a late progress report is dropped and its result is not published.\<close>

theorem superseded_run_is_silent:
  assumes "tk_runToken t \<noteq> rn_token run"
  shows "setProgress (rn_token run) n m t = None \<and> endRun now run res t = None"
  using assms by (simp add: setProgress_def endRun_def)

definition sample_import_run :: import_run where
  "sample_import_run = newRun ''memory-1'' sample_run 0"

theorem superseded_run_is_silent_witness:
  "setProgress ''memory-1'' 3 10 (publishRun ''memory-2'' sample_run NewTracker) = None \<and>
   endRun 9 sample_import_run (Inl ''timeout'') (publishRun ''memory-2'' sample_run NewTracker) = None"
  using superseded_run_is_silent [of "publishRun ''memory-2'' sample_run NewTracker" sample_import_run]
  by (simp add: publishRun_def sample_import_run_def newRun_def)

text \<open>A run succeeds exactly when its work returned a result and it was neither cancelled nor
  judged stalled nor stopped by a shutdown; in every other case the final status is FAILED, and
  either way the run is over for the tracker.\<close>

theorem endRun_state:
  assumes "endRun now run res t = Some (t', final)"
  shows "(is_State final = StateSucceeded \<longleftrightarrow>
      \<not> rn_cancelled run \<and> \<not> rn_stalled run \<and> \<not> tk_stopping t \<and> (\<exists>oc. res = Inr oc)) \<and>
    (is_State final \<noteq> StateSucceeded \<longrightarrow> is_State final = StateFailed) \<and>
    (rn_stalled run \<longrightarrow> HasPrefix (is_ErrorMessage final) ''no progress for 10m0s; aborted'') \<and>
    is_FinishedAt final = Some now \<and> is_StartedAt final = is_StartedAt (tk_status t) \<and>
    tk_runToken t' = [] \<and> tk_status t' = final"
  using assms
  by (auto simp: HasPrefix_def endRun_def runResult_def Let_def status_of_def split: if_splits sum.splits)

theorem endRun_state_witness:
  "let t = publishRun ''memory-1'' sample_run NewTracker;
       run = watchdogTick 600000 sample_import_run
     in \<exists>t' final. endRun 600001 run (Inr \<lparr>oc_Imported = 1, oc_Skipped = 0, oc_RunID = 4\<rparr>) t =
          Some (t', final) \<and> is_State final = StateFailed \<and>
        HasPrefix (is_ErrorMessage final) ''no progress for 10m0s; aborted''"
proof -
  let ?t = "publishRun ''memory-1'' sample_run NewTracker"
  let ?run = "watchdogTick 600000 sample_import_run"
  let ?oc = "\<lparr>oc_Imported = 1, oc_Skipped = 0, oc_RunID = 4\<rparr>"
  have tok: "rn_token ?run = tk_runToken ?t" and st: "rn_stalled ?run"
    by (simp_all add: watchdogTick_def sample_import_run_def newRun_def progressStallTimeout_def
        publishRun_def)
  then obtain t' final where e: "endRun 600001 ?run (Inr ?oc) ?t = Some (t', final)"
    by (auto simp: endRun_def Let_def)
  from endRun_state [OF this] st e show ?thesis unfolding Let_def by blast
qed

end
