(* ===== verification/Tokens.thy ===== *)
theory Tokens
  imports Authz Redis
begin

text \<open>
  Tokens (internal/auth/jwt.go, validate.go, revalidate.go): issuing and validating the signed
  tokens, checking a token against the revocation list and the account, and watching a long-lived
  connection. The JWT library is a parameter (\<open>jwt_lib\<close>); repositories are records of the
  methods of the Go interfaces.
\<close>

section \<open>The world of a request\<close>

text \<open>A database behind the repositories and the connection to Redis, whose clock is the clock of
  the server.\<close>

record ('d, 'r) world =
  w_db :: 'd
  w_redis :: "'r conn"

definition onDb :: "('d, 'a) proc \<Rightarrow> (('d, 'r) world, 'a) proc" where
  "onDb p w = (case p (w_db w) of (x, d) \<Rightarrow> (x, w\<lparr>w_db := d\<rparr>))"

definition onRedis :: "('r conn, 'a) proc \<Rightarrow> (('d, 'r) world, 'a) proc" where
  "onRedis p w = (case p (w_redis w) of (x, c) \<Rightarrow> (x, w\<lparr>w_redis := c\<rparr>))"

definition world_now :: "('d, 'r) world \<Rightarrow> int" where
  "world_now w = rc_now (w_redis w)"

lemma on_frame:
  "onDb p w = (x, v) \<Longrightarrow> w_redis v = w_redis w"
  "onRedis q w = (y, v) \<Longrightarrow> w_db v = w_db w"
  by (auto simp: onDb_def onRedis_def split: prod.splits)

section \<open>Signing and parsing\<close>

record signed_claims = claims +
  sc_IssuedAt :: int
  sc_Issuer :: string
  sc_Audience :: "string list"
  sc_JTI :: string

record jwt_env =
  JWT_SECRET :: string
  JWT_ISSUER :: string
  JWT_AUDIENCE :: string
  JWT_EXPIRATION_MINUTES :: string
  JWT_REFRESH_EXPIRATION_MINUTES :: string

text \<open>\<open>jl_Sign\<close> is \<open>SignedString\<close> with HS256, \<open>jl_Parse\<close> is \<open>ParseWithClaims\<close> with the key function
  and the issuer and audience options (\<open>None\<close> when the option is not given) at a given time.\<close>

record jwt_lib =
  jl_Sign :: "string \<Rightarrow> signed_claims \<Rightarrow> string result"
  jl_Parse :: "string \<Rightarrow> string option \<Rightarrow> string option \<Rightarrow> int \<Rightarrow> string \<Rightarrow> claims result"

definition tokenExpirationMinutes :: "string \<Rightarrow> int \<Rightarrow> int" where
  "tokenExpirationMinutes envExp defaultMinutes =
     (if envExp \<noteq> [] then
        (case Atoi envExp of Some parsed \<Rightarrow> if 0 < parsed then parsed else defaultMinutes
         | None \<Rightarrow> defaultMinutes)
      else defaultMinutes)"

text \<open>Times of claims are in seconds, \<open>now\<close> is in milliseconds; \<open>nonce\<close> is the random JWT ID.\<close>

definition generateTokenWithType ::
  "jwt_lib \<Rightarrow> jwt_env \<Rightarrow> string \<Rightarrow> int \<Rightarrow> int \<Rightarrow> string \<Rightarrow> string \<Rightarrow> int \<Rightarrow> int option \<Rightarrow> string result" where
  "generateTokenWithType J env nonce now i role tokenType expirationMinutes credentialsVersion =
     (if JWT_SECRET env = [] then Err (Errorf ''JWT_SECRET environment variable must be set'')
      else jl_Sign J (JWT_SECRET env)
        \<lparr>cl_ID = i, cl_Role = role, cl_TokenType = tokenType,
         cl_CredentialsVersion = credentialsVersion,
         cl_ExpiresAt = (now + expirationMinutes * 60000) div 1000,
         sc_IssuedAt = now div 1000, sc_Issuer = JWT_ISSUER env,
         sc_Audience = (if JWT_AUDIENCE env = [] then [] else [JWT_AUDIENCE env]),
         sc_JTI = nonce\<rparr>)"

definition ValidateToken :: "jwt_lib \<Rightarrow> jwt_env \<Rightarrow> int \<Rightarrow> string \<Rightarrow> claims result" where
  "ValidateToken J env now tokenString =
     (if JWT_SECRET env = [] then Err (Errorf ''JWT_SECRET environment variable must be set'')
      else jl_Parse J (JWT_SECRET env)
             (if JWT_ISSUER env = [] then None else Some (JWT_ISSUER env))
             (if JWT_AUDIENCE env = [] then None else Some (JWT_AUDIENCE env)) now tokenString)"

definition validateTokenWithType :: "jwt_lib \<Rightarrow> jwt_env \<Rightarrow> int \<Rightarrow> string \<Rightarrow> string \<Rightarrow> claims result" where
  "validateTokenWithType J env now tokenString expectedType =
     andThen (ValidateToken J env now tokenString) (\<lambda>claims.
       let actualType = (if cl_TokenType claims = [] then ''access'' else cl_TokenType claims) in
       if actualType \<noteq> expectedType then Err (Errorf ''invalid token type'') else Ok claims)"

definition GenerateAccessToken ::
  "jwt_lib \<Rightarrow> jwt_env \<Rightarrow> string \<Rightarrow> int \<Rightarrow> int \<Rightarrow> string \<Rightarrow> string result" where
  "GenerateAccessToken J env nonce now i role =
     generateTokenWithType J env nonce now i role ''access''
       (tokenExpirationMinutes (JWT_EXPIRATION_MINUTES env) 60) None"

definition GenerateRefreshToken ::
  "jwt_lib \<Rightarrow> jwt_env \<Rightarrow> string \<Rightarrow> int \<Rightarrow> int \<Rightarrow> string \<Rightarrow> string result" where
  "GenerateRefreshToken J env nonce now i role =
     generateTokenWithType J env nonce now i role ''refresh''
       (tokenExpirationMinutes (JWT_REFRESH_EXPIRATION_MINUTES env) (60 * 24 * 30)) None"

definition GenerateUserAccessToken ::
  "jwt_lib \<Rightarrow> jwt_env \<Rightarrow> string \<Rightarrow> int \<Rightarrow> int \<Rightarrow> string \<Rightarrow> int \<Rightarrow> string result" where
  "GenerateUserAccessToken J env nonce now i role version =
     generateTokenWithType J env nonce now i role ''access''
       (tokenExpirationMinutes (JWT_EXPIRATION_MINUTES env) 60) (Some version)"

definition GenerateUserRefreshToken ::
  "jwt_lib \<Rightarrow> jwt_env \<Rightarrow> string \<Rightarrow> int \<Rightarrow> int \<Rightarrow> string \<Rightarrow> int \<Rightarrow> string result" where
  "GenerateUserRefreshToken J env nonce now i role version =
     generateTokenWithType J env nonce now i role ''refresh''
       (tokenExpirationMinutes (JWT_REFRESH_EXPIRATION_MINUTES env) (60 * 24 * 30)) (Some version)"

definition ValidateAccessToken :: "jwt_lib \<Rightarrow> jwt_env \<Rightarrow> int \<Rightarrow> string \<Rightarrow> claims result" where
  "ValidateAccessToken J env now tokenString = validateTokenWithType J env now tokenString ''access''"

definition ValidateRefreshToken :: "jwt_lib \<Rightarrow> jwt_env \<Rightarrow> int \<Rightarrow> string \<Rightarrow> claims result" where
  "ValidateRefreshToken J env now tokenString = validateTokenWithType J env now tokenString ''refresh''"

text \<open>What the JWT library documents: a signed token parses back to its claims under the same key,
  with the issuer and the audience it was signed with, exactly until it expires.\<close>

locale jwt_library =
  fixes J :: jwt_lib
  assumes parse_sign: "jl_Sign J key c = Ok tok \<Longrightarrow> now < cl_ExpiresAt c * 1000 \<Longrightarrow>
      iss = None \<or> iss = Some (sc_Issuer c) \<Longrightarrow>
      aud = None \<or> (\<exists>a \<in> set (sc_Audience c). aud = Some a) \<Longrightarrow>
      jl_Parse J key iss aud now tok = Ok (claims.truncate c)"
    and parse_unexpired: "jl_Parse J key iss aud now tok = Ok claims \<Longrightarrow>
      now < cl_ExpiresAt claims * 1000"
begin

lemma validate_unexpired: "ValidateToken J env now tok = Ok c \<Longrightarrow> now < cl_ExpiresAt c * 1000"
  by (auto simp: ValidateToken_def split: if_splits dest: parse_unexpired)

lemma validate_generated:
  assumes "generateTokenWithType J env nonce now i role ty minutes version = Ok tok"
    and "later < (now + minutes * 60000) div 1000 * 1000"
  shows "ValidateToken J env later tok =
    Ok \<lparr>cl_ID = i, cl_Role = role, cl_TokenType = ty, cl_CredentialsVersion = version,
        cl_ExpiresAt = (now + minutes * 60000) div 1000\<rparr>"
proof -
  from assms(1) have key: "JWT_SECRET env \<noteq> []"
    and sign: "jl_Sign J (JWT_SECRET env)
      \<lparr>cl_ID = i, cl_Role = role, cl_TokenType = ty, cl_CredentialsVersion = version,
       cl_ExpiresAt = (now + minutes * 60000) div 1000, sc_IssuedAt = now div 1000,
       sc_Issuer = JWT_ISSUER env,
       sc_Audience = (if JWT_AUDIENCE env = [] then [] else [JWT_AUDIENCE env]),
       sc_JTI = nonce\<rparr> = Ok tok"
    by (auto simp: generateTokenWithType_def split: if_splits)
  from parse_sign [OF sign, of later] assms(2) key show ?thesis
    by (simp add: ValidateToken_def claims.truncate_def)
qed

end

text \<open>A library that behaves so: the fields of the claims, each with its length in front, under the
  key. It has no cryptography; the properties below do not speak of forged tokens.\<close>

fun enc_fields :: "string list \<Rightarrow> string" where
  "enc_fields [] = []"
| "enc_fields (f # fs) = digits_of (length f) @ CHR '':'' # f @ enc_fields fs"

fun dec_fields :: "nat \<Rightarrow> string \<Rightarrow> string list option" where
  "dec_fields 0 s = (if s = [] then Some [] else None)"
| "dec_fields (Suc n) s =
     (case split_first (CHR '':'') s of
        None \<Rightarrow> None
      | Some (len, rest) \<Rightarrow>
          (case digits_val 0 len of
             None \<Rightarrow> None
           | Some k \<Rightarrow> if length rest < k then None
                       else map_option ((#) (take k rest)) (dec_fields n (drop k rest))))"

lemma dec_enc: "n = length fs \<Longrightarrow> dec_fields n (enc_fields fs) = Some fs"
proof (induction fs arbitrary: n)
  case (Cons f fs)
  then show ?case
    by (cases n) (simp_all add: split_first_append digits_of_no_sign(3) digits_val_digits_of)
qed simp

definition read_int :: "string \<Rightarrow> int option" where
  "read_int s = (case s of
     CHR ''-'' # ds \<Rightarrow> map_option (\<lambda>n. - int n) (digits_val 0 ds)
   | _ \<Rightarrow> map_option int (digits_val 0 s))"

lemma read_Itoa [simp]: "read_int (Itoa i) = Some i"
proof (cases "i < 0")
  case True
  then show ?thesis by (simp add: read_int_def Itoa_def digits_val_digits_of)
next
  case False
  obtain c cs where c: "digits_of (nat i) = c # cs"
    by (cases "digits_of (nat i)") auto
  then have "c \<noteq> CHR ''-''"
    using digits_of_no_sign(1) [of "nat i"] by auto
  then have "read_int (c # cs) = map_option int (digits_val 0 (c # cs))"
    by (auto simp: read_int_def split: char.splits bool.splits)
  with c False digits_val_digits_of [of "nat i"] show ?thesis
    by (simp add: Itoa_def)
qed

definition claim_fields :: "string \<Rightarrow> signed_claims \<Rightarrow> string list" where
  "claim_fields key c =
     [key, Itoa (cl_ID c), cl_Role c, cl_TokenType c,
      (case cl_CredentialsVersion c of None \<Rightarrow> [] | Some v \<Rightarrow> Itoa v), Itoa (cl_ExpiresAt c),
      Itoa (sc_IssuedAt c), sc_Issuer c, sc_JTI c] @ sc_Audience c"

definition plain_sign :: "string \<Rightarrow> signed_claims \<Rightarrow> string result" where
  "plain_sign key c =
     Ok (digits_of (length (claim_fields key c)) @ CHR '':'' # enc_fields (claim_fields key c))"

definition plain_fields :: "string \<Rightarrow> string list option" where
  "plain_fields tok =
     Option.bind (split_first (CHR '':'') tok) (\<lambda>(n, body).
       Option.bind (digits_val 0 n) (\<lambda>n. dec_fields n body))"

definition plain_parse ::
  "string \<Rightarrow> string option \<Rightarrow> string option \<Rightarrow> int \<Rightarrow> string \<Rightarrow> claims result" where
  "plain_parse key iss aud now tok =
     (case plain_fields tok of
        Some (k # i # role # ty # v # e # iat # is # jti # auds) \<Rightarrow>
          (case (read_int i, read_int e) of
             (Some i, Some e) \<Rightarrow>
               if k = key \<and> now < e * 1000 \<and> (iss = None \<or> iss = Some is) \<and>
                  (aud = None \<or> the aud \<in> set auds)
               then Ok \<lparr>cl_ID = i, cl_Role = role, cl_TokenType = ty,
                       cl_CredentialsVersion = (if v = [] then None else read_int v),
                       cl_ExpiresAt = e\<rparr>
               else Err (Errorf ''token is invalid'')
           | _ \<Rightarrow> Err (Errorf ''token is malformed''))
      | _ \<Rightarrow> Err (Errorf ''token is malformed''))"

definition plain_jwt :: jwt_lib where
  "plain_jwt = \<lparr>jl_Sign = plain_sign, jl_Parse = plain_parse\<rparr>"

lemma plain_fields_sign: "plain_sign key c = Ok tok \<Longrightarrow> plain_fields tok = Some (claim_fields key c)"
  by (auto simp: plain_sign_def plain_fields_def split_first_append digits_of_no_sign(3)
      digits_val_digits_of dec_enc)

interpretation plain_jwt: jwt_library plain_jwt
proof unfold_locales
  fix key c tok iss aud and now :: int
  assume a: "jl_Sign plain_jwt key c = Ok tok" "now < cl_ExpiresAt c * 1000"
    "iss = None \<or> iss = Some (sc_Issuer c)" "aud = None \<or> (\<exists>a \<in> set (sc_Audience c). aud = Some a)"
  then have "plain_fields tok = Some (claim_fields key c)"
    by (simp add: plain_jwt_def plain_fields_sign)
  moreover have "Itoa v \<noteq> []" for v by (simp add: Itoa_def)
  ultimately show "jl_Parse plain_jwt key iss aud now tok = Ok (claims.truncate c)"
    using a by (auto simp: plain_jwt_def plain_parse_def claim_fields_def claims.truncate_def
        split: option.split)
next
  fix key iss aud now tok c
  assume "jl_Parse plain_jwt key iss aud now tok = Ok c"
  then show "now < cl_ExpiresAt c * 1000"
    by (auto simp: plain_jwt_def plain_parse_def split: option.splits list.splits if_splits)
qed

section \<open>Verification against the current state\<close>

datatype user_status = StatusActive | StatusFrozen | StatusDeactivated | StatusDeleted

record user =
  us_ID :: int
  us_AccountID :: string
  us_Name :: string
  us_Role :: string
  us_Status :: user_status

record 's revoked_token_repo =
  rv_RevokeToken :: "string \<Rightarrow> int \<Rightarrow> ('s, unit) proc"
  rv_IsRevoked :: "string \<Rightarrow> ('s, bool) proc"
  rv_ConsumeToken :: "string \<Rightarrow> int \<Rightarrow> ('s, bool) proc"

record 's account_verifier =
  av_GetUserByID :: "int \<Rightarrow> ('s, user option) proc"
  av_GetCredentialsVersionByID :: "int \<Rightarrow> ('s, int) proc"
  av_AdministratorExists :: "int \<Rightarrow> ('s, bool) proc"

definition ErrVerificationUnavailable :: go_error where
  "ErrVerificationUnavailable = Errorf ''verification unavailable''"

definition unavailable :: "string \<Rightarrow> go_error" where
  "unavailable m = PlainError m (Some ErrVerificationUnavailable)"

definition isUnavailable :: "go_error \<Rightarrow> bool" where
  "isUnavailable e = (case e of PlainError m (Some e') \<Rightarrow> e' = ErrVerificationUnavailable
     | _ \<Rightarrow> e = ErrVerificationUnavailable)"

definition or_unavailable :: "string \<Rightarrow> ('s, 'a) proc \<Rightarrow> ('a \<Rightarrow> ('s, 'b) proc) \<Rightarrow> ('s, 'b) proc" where
  "or_unavailable m p f = tryP p (\<lambda>r. case r of Inl e \<Rightarrow> throw (unavailable m) | Inr x \<Rightarrow> f x)"

definition ValidateAndVerifyToken ::
  "jwt_lib \<Rightarrow> jwt_env \<Rightarrow> 's revoked_token_repo \<Rightarrow> 's account_verifier \<Rightarrow> int \<Rightarrow> string \<Rightarrow> ('s, claims) proc" where
  "ValidateAndVerifyToken J env revokedRepo accounts now tokenStr =
     (case ValidateAccessToken J env now tokenStr of
        Inl e \<Rightarrow> throw (Errorf ''invalid token'')
      | Inr claims \<Rightarrow>
          or_unavailable ''failed to verify token'' (rv_IsRevoked revokedRepo tokenStr) (\<lambda>revoked.
            if revoked then throw (Errorf ''token has been revoked'')
            else if cl_Role claims = ''administrator'' then
              or_unavailable ''failed to verify administrator''
                (av_AdministratorExists accounts (cl_ID claims)) (\<lambda>found.
                  if \<not> found then throw (Errorf ''administrator not found'') else ret claims)
            else
              or_unavailable ''failed to verify user'' (av_GetUserByID accounts (cl_ID claims)) (\<lambda>u.
                case u of
                  None \<Rightarrow> throw (Errorf ''user not found'')
                | Some u \<Rightarrow>
                    if us_Status u = StatusFrozen then throw (Errorf ''account is frozen'')
                    else or_unavailable ''failed to verify token''
                           (av_GetCredentialsVersionByID accounts (cl_ID claims)) (\<lambda>version.
                             if cl_CredentialsVersion claims \<noteq> Some version
                             then throw (Errorf ''token has been revoked'') else ret claims))))"

section \<open>Watching a connection\<close>

definition maxUnavailableChecks :: nat where
  "maxUnavailableChecks = 10"

text \<open>The loop of \<open>WatchSession\<close> over the results of the periodic checks; the result is the error
  the connection was closed with, if it was.\<close>

fun watch_loop :: "nat \<Rightarrow> unit result list \<Rightarrow> go_error option" where
  "watch_loop n [] = None"
| "watch_loop n (Inr _ # checks) = watch_loop 0 checks"
| "watch_loop n (Inl e # checks) =
     (if isUnavailable e \<and> n + 1 < maxUnavailableChecks then watch_loop (n + 1) checks else Some e)"

definition WatchSession :: "unit result list \<Rightarrow> go_error option" where
  "WatchSession checks = watch_loop 0 checks"

section \<open>Properties\<close>

text \<open>A verdict other than "could not be checked".\<close>

definition rejects :: "unit result \<Rightarrow> bool" where
  "rejects r = (case r of Inl e \<Rightarrow> \<not> isUnavailable e | Inr _ \<Rightarrow> False)"

definition outage :: "unit result \<Rightarrow> bool" where
  "outage r = (case r of Inl e \<Rightarrow> isUnavailable e | Inr _ \<Rightarrow> False)"

lemma verdict_simps [simp]:
  "rejects (Inr u) = False" "rejects (Inl e) = (\<not> isUnavailable e)"
  "outage (Inr u) = False" "outage (Inl e) = isUnavailable e"
  by (simp_all add: rejects_def outage_def)

definition outages_up_to :: "unit result list \<Rightarrow> nat \<Rightarrow> nat" where
  "outages_up_to checks k = length (takeWhile outage (rev (take (Suc k) checks)))"

definition closes_at :: "unit result list \<Rightarrow> nat \<Rightarrow> bool" where
  "closes_at checks k \<longleftrightarrow>
     rejects (checks ! k) \<or> maxUnavailableChecks \<le> outages_up_to checks k"

lemma closes_at_append:
  "closes_at (pre @ r # checks) (length pre) \<longleftrightarrow>
     rejects r \<or> (outage r \<and> maxUnavailableChecks \<le> Suc (length (takeWhile outage (rev pre))))"
  by (auto simp: closes_at_def outages_up_to_def maxUnavailableChecks_def)

lemma watch_loop_spec:
  assumes "n = length (takeWhile outage (rev pre))" and "\<forall>j < length pre. \<not> closes_at (pre @ checks) j"
  shows "watch_loop n checks = Some e \<longleftrightarrow>
    (\<exists>k < length (pre @ checks). closes_at (pre @ checks) k \<and> (pre @ checks) ! k = Inl e \<and>
       (\<forall>j < k. \<not> closes_at (pre @ checks) j))"
  using assms
proof (induction n checks arbitrary: pre rule: watch_loop.induct)
  case (1 n)
  then show ?case by auto
next
  case (2 n u checks)
  have no: "\<not> closes_at (pre @ Inr u # checks) (length pre)"
    by (simp add: closes_at_append)
  have "\<forall>j < length (pre @ [Inr u]). \<not> closes_at ((pre @ [Inr u]) @ checks) j"
    using 2(3) no by (auto simp: less_Suc_eq)
  from 2(1) [OF _ this] show ?case by simp
next
  case (3 n err checks)
  show ?case
  proof (cases "isUnavailable err \<and> n + 1 < maxUnavailableChecks")
    case True
    have no: "\<not> closes_at (pre @ Inl err # checks) (length pre)"
      using True 3(2) by (simp add: closes_at_append)
    have "\<forall>j < length (pre @ [Inl err]). \<not> closes_at ((pre @ [Inl err]) @ checks) j"
      using 3(3) no by (auto simp: less_Suc_eq)
    from 3(1) [OF True _ this] True 3(2) show ?thesis by simp
  next
    case False
    then have yes: "closes_at (pre @ Inl err # checks) (length pre)"
      using 3(2) by (auto simp: closes_at_append)
    have "k = length pre" if "closes_at (pre @ Inl err # checks) k"
        "\<forall>j < k. \<not> closes_at (pre @ Inl err # checks) j" for k
      using that yes 3(3) by (metis linorder_neqE_nat)
    moreover have "(pre @ Inl err # checks) ! length pre = Inl err" by simp
    moreover have "length pre < length (pre @ Inl err # checks)" by simp
    ultimately have "(\<exists>k < length (pre @ Inl err # checks). closes_at (pre @ Inl err # checks) k \<and>
        (pre @ Inl err # checks) ! k = Inl e \<and>
        (\<forall>j < k. \<not> closes_at (pre @ Inl err # checks) j)) \<longleftrightarrow> err = e"
      using yes 3(3) by (metis sum.inject(1))
    with False show ?thesis by auto
  qed
qed

text \<open>C9: A long-lived connection is closed at the first check that rejects the token, or at the
  tenth check in a row that could not be made, and not before; the reason is that check's error.\<close>

theorem session_closed_exactly:
  "WatchSession checks = Some e \<longleftrightarrow>
     (\<exists>k < length checks. closes_at checks k \<and> checks ! k = Inl e \<and> (\<forall>j < k. \<not> closes_at checks j))"
  using watch_loop_spec [of 0 "[]" checks e] by (simp add: WatchSession_def)

theorem session_closed_exactly_witness:
  "let checks = [Inl ErrVerificationUnavailable, Inr (), Inl (Unauthorized ''frozen'')]
   in WatchSession checks = Some (Unauthorized ''frozen'') \<and>
      (\<exists>k < 3. closes_at checks k \<and> checks ! k = Inl (Unauthorized ''frozen'') \<and>
        (\<forall>j < k. \<not> closes_at checks j))"
proof -
  let ?checks = "[Inl ErrVerificationUnavailable, Inr (), Inl (Unauthorized ''frozen'')]"
  have "WatchSession ?checks = Some (Unauthorized ''frozen'')" by code_simp
  moreover from this session_closed_exactly [of ?checks "Unauthorized ''frozen''"]
  have "\<exists>k < 3. closes_at ?checks k \<and> ?checks ! k = Inl (Unauthorized ''frozen'') \<and>
      (\<forall>j < k. \<not> closes_at ?checks j)"
    by (simp add: numeral_3_eq_3)
  ultimately show ?thesis unfolding Let_def by blast
qed

lemma or_unavailable_Inr:
  "or_unavailable m p f s = (Inr y, t) \<Longrightarrow> \<exists>x s'. p s = (Inr x, s') \<and> f x s' = (Inr y, t)"
  by (auto simp: or_unavailable_def tryP_def split: prod.splits sum.splits)

lemma ValidateAndVerifyToken_Inr:
  assumes "ValidateAndVerifyToken J env revokedRepo accounts now tok s = (Inr claims, t)"
  shows "ValidateToken J env now tok = Ok claims \<and> cl_TokenType claims \<in> {[], ''access''} \<and>
    (\<exists>s1. rv_IsRevoked revokedRepo tok s = (Inr False, s1) \<and>
      (if cl_Role claims = ''administrator''
       then av_AdministratorExists accounts (cl_ID claims) s1 = (Inr True, t)
       else (\<exists>u s2 v. av_GetUserByID accounts (cl_ID claims) s1 = (Inr (Some u), s2) \<and>
               us_Status u \<noteq> StatusFrozen \<and>
               av_GetCredentialsVersionByID accounts (cl_ID claims) s2 = (Inr v, t) \<and>
               cl_CredentialsVersion claims = Some v)))"
proof -
  obtain c where c: "ValidateAccessToken J env now tok = Ok c"
    using assms by (auto simp: ValidateAndVerifyToken_def split: sum.splits)
  then have tok: "ValidateToken J env now tok = Ok c" "cl_TokenType c \<in> {[], ''access''}"
    by (auto simp: ValidateAccessToken_def validateTokenWithType_def andThen_Inr_iff Let_def
        split: if_splits)
  from assms c obtain s1 where s1: "rv_IsRevoked revokedRepo tok s = (Inr False, s1)"
    and rest: "(if cl_Role c = ''administrator'' then
        or_unavailable ''failed to verify administrator''
          (av_AdministratorExists accounts (cl_ID c)) (\<lambda>found.
            if \<not> found then throw (Errorf ''administrator not found'') else ret c)
      else
        or_unavailable ''failed to verify user'' (av_GetUserByID accounts (cl_ID c)) (\<lambda>u.
          case u of
            None \<Rightarrow> throw (Errorf ''user not found'')
          | Some u \<Rightarrow>
              if us_Status u = StatusFrozen then throw (Errorf ''account is frozen'')
              else or_unavailable ''failed to verify token''
                     (av_GetCredentialsVersionByID accounts (cl_ID c)) (\<lambda>version.
                       if cl_CredentialsVersion c \<noteq> Some version
                       then throw (Errorf ''token has been revoked'') else ret c))) s1 = (Inr claims, t)"
    unfolding ValidateAndVerifyToken_def
    by (auto dest!: or_unavailable_Inr split: if_splits)
  show ?thesis
  proof (cases "cl_Role c = ''administrator''")
    case True
    with rest s1 tok show ?thesis
      by (auto dest!: or_unavailable_Inr split: if_splits)
  next
    case False
    with rest obtain u s2 where "av_GetUserByID accounts (cl_ID c) s1 = (Inr u, s2)"
      and "(case u of
            None \<Rightarrow> throw (Errorf ''user not found'')
          | Some u \<Rightarrow>
              if us_Status u = StatusFrozen then throw (Errorf ''account is frozen'')
              else or_unavailable ''failed to verify token''
                     (av_GetCredentialsVersionByID accounts (cl_ID c)) (\<lambda>version.
                       if cl_CredentialsVersion c \<noteq> Some version
                       then throw (Errorf ''token has been revoked'') else ret c)) s2 = (Inr claims, t)"
      by (auto dest!: or_unavailable_Inr)
    with False s1 tok show ?thesis
      by (auto dest!: or_unavailable_Inr split: option.splits if_splits)
  qed
qed

text \<open>C10: A token is accepted only if its signature and lifetime are valid, it is an access token, it
  was not revoked when the list was read, and its account stands: the administrator exists, or the
  user exists, is not frozen and has the credentials version the token was issued for.\<close>

theorem verified_token_is_valid:
  assumes "ValidateAndVerifyToken J env revokedRepo accounts now tok s = (Inr claims, t)"
  shows "ValidateToken J env now tok = Ok claims \<and> cl_TokenType claims \<in> {[], ''access''} \<and>
    (\<exists>s1. rv_IsRevoked revokedRepo tok s = (Inr False, s1) \<and>
      (if cl_Role claims = ''administrator''
       then av_AdministratorExists accounts (cl_ID claims) s1 = (Inr True, t)
       else (\<exists>u s2 v. av_GetUserByID accounts (cl_ID claims) s1 = (Inr (Some u), s2) \<and>
               us_Status u \<noteq> StatusFrozen \<and>
               av_GetCredentialsVersionByID accounts (cl_ID claims) s2 = (Inr v, t) \<and>
               cl_CredentialsVersion claims = Some v)))"
  using ValidateAndVerifyToken_Inr [OF assms] .

definition sample_user :: "int \<Rightarrow> user_status \<Rightarrow> user" where
  "sample_user i st = \<lparr>us_ID = i, us_AccountID = ''a'', us_Name = ''A'', us_Role = ''user'', us_Status = st\<rparr>"

definition sample_claims :: claims where
  "sample_claims = \<lparr>cl_ID = 1, cl_Role = ''user'', cl_TokenType = ''access'',
     cl_CredentialsVersion = Some 3, cl_ExpiresAt = 60\<rparr>"

definition sample_env :: jwt_env where
  "sample_env = \<lparr>JWT_SECRET = ''key'', JWT_ISSUER = [], JWT_AUDIENCE = [],
     JWT_EXPIRATION_MINUTES = ''1'', JWT_REFRESH_EXPIRATION_MINUTES = ''1''\<rparr>"

definition sample_accounts :: "unit account_verifier" where
  "sample_accounts =
     \<lparr>av_GetUserByID = (\<lambda>i s. (Inr (if i = 1 then Some (sample_user 1 StatusActive) else None), s)),
      av_GetCredentialsVersionByID = (\<lambda>i s. (Inr 3, s)),
      av_AdministratorExists = (\<lambda>i s. (Inr False, s))\<rparr>"

definition sample_revoked :: "unit revoked_token_repo" where
  "sample_revoked =
     \<lparr>rv_RevokeToken = (\<lambda>tok e s. (Inr (), s)), rv_IsRevoked = (\<lambda>tok s. (Inr (tok = ''t0''), s)),
      rv_ConsumeToken = (\<lambda>tok e s. (Inr True, s))\<rparr>"

definition sample_token :: string where
  "sample_token = (case generateTokenWithType plain_jwt sample_env ''j'' 0 1 ''user'' ''access'' 1 (Some 3) of
     Inr tok \<Rightarrow> tok | Inl e \<Rightarrow> [])"

theorem verified_token_is_valid_witness:
  "fst (ValidateAndVerifyToken plain_jwt sample_env sample_revoked sample_accounts 5 sample_token ()) =
     Inr sample_claims \<and>
   ValidateToken plain_jwt sample_env 5 sample_token = Ok sample_claims"
proof -
  have a: "ValidateAndVerifyToken plain_jwt sample_env sample_revoked sample_accounts 5 sample_token () =
      (Inr sample_claims, ())"
    by code_simp
  from verified_token_is_valid [OF a] a show ?thesis by simp
qed

end
