(* ===== verification/Auth_Store.thy ===== *)
theory Auth_Store
  imports Tokens
begin

text \<open>
  The Redis repositories behind authentication: the revocation list
  (infra/redis/revoked_token_repository.go), the login attempts (login_attempt_repository.go), the
  registration codes (email_otp_repository.go) and the password-reset codes
  (password_reset_repository.go), with their Lua scripts.
\<close>

section \<open>Revocation list\<close>

definition revokedKey :: "string \<Rightarrow> string" where
  "revokedKey token = ''revoked:'' @ token"

text \<open>\<open>expiresAt\<close> is in seconds, as in the claims.\<close>

definition rt_RevokeToken :: "('r, 'v) redis \<Rightarrow> string \<Rightarrow> int \<Rightarrow> ('r conn, unit) proc" where
  "rt_RevokeToken R token expiresAt c =
     (let ttl = expiresAt * 1000 - rc_now c in
      if ttl \<le> 0 then (Inr (), c) else SetKey R (revokedKey token) (RStr ''1'') (Some ttl) c)"

definition rt_IsRevoked :: "('r, 'v) redis \<Rightarrow> string \<Rightarrow> ('r conn, bool) proc" where
  "rt_IsRevoked R token = Exists R (revokedKey token)"

definition rt_ConsumeToken :: "('r, 'v) redis \<Rightarrow> string \<Rightarrow> int \<Rightarrow> ('r conn, bool) proc" where
  "rt_ConsumeToken R token expiresAt c =
     (let ttl = expiresAt * 1000 - rc_now c in
      if ttl \<le> 0 then (Inr False, c) else SetNX R (revokedKey token) (RStr ''1'') (Some ttl) c)"

definition RedisRevokedTokenRepository :: "('r, 'v) redis \<Rightarrow> 'r conn revoked_token_repo" where
  "RedisRevokedTokenRepository R =
     \<lparr>rv_RevokeToken = rt_RevokeToken R, rv_IsRevoked = rt_IsRevoked R,
      rv_ConsumeToken = rt_ConsumeToken R\<rparr>"

section \<open>E-mail keys\<close>

text \<open>\<open>strings.ToLower(strings.TrimSpace(email))\<close> on ASCII, which is what an address that
  \<open>ValidateUserEmail\<close> accepts consists of.\<close>

definition lower_char :: "char \<Rightarrow> char" where
  "lower_char c = (let n = (of_char c :: nat) in if 65 \<le> n \<and> n \<le> 90 then char_of (n + 32) else c)"

definition ToLower :: "string \<Rightarrow> string" where
  "ToLower s = map lower_char s"

definition is_space :: "char \<Rightarrow> bool" where
  "is_space c \<longleftrightarrow> (let n = (of_char c :: nat) in n = 32 \<or> (9 \<le> n \<and> n \<le> 13))"

definition TrimSpace :: "string \<Rightarrow> string" where
  "TrimSpace s = rev (dropWhile is_space (rev (dropWhile is_space s)))"

section \<open>Login attempts\<close>

definition loginFailureKey :: "string \<Rightarrow> string" where
  "loginFailureKey key = ''login:fail:'' @ key"

definition loginLockKey :: "string \<Rightarrow> string" where
  "loginLockKey key = ''login:lock:'' @ key"

definition loginKnownKey :: "string \<Rightarrow> string \<Rightarrow> string" where
  "loginKnownKey key ip = ''login:known:'' @ key @ ''|'' @ ip"

definition recordLoginFailureScript ::
  "('r, 'v) redis \<Rightarrow> string \<Rightarrow> string \<Rightarrow> int \<Rightarrow> int \<Rightarrow> int \<Rightarrow> int \<Rightarrow> 'r \<Rightarrow> int \<times> 'r" where
  "recordLoginFailureScript R failKey lockKey maxFailures window lockFor now r =
     (let (n, r1) = rd_Incr R now failKey r;
          r2 = (if n = 1 then rd_PExpire R now failKey window r1 else r1)
      in if n \<ge> maxFailures
         then (n, rd_Del R now failKey (rd_Set R now lockKey (RStr ''1'') (Some lockFor) r2))
         else (n, r2))"

record 's login_attempt_repo =
  la_IsLocked :: "string \<Rightarrow> ('s, bool) proc"
  la_RecordFailure :: "string \<Rightarrow> int \<Rightarrow> int \<Rightarrow> int \<Rightarrow> ('s, unit) proc"
  la_Clear :: "string \<Rightarrow> ('s, unit) proc"
  la_RememberIP :: "string \<Rightarrow> string \<Rightarrow> int \<Rightarrow> ('s, unit) proc"
  la_IsKnownIP :: "string \<Rightarrow> string \<Rightarrow> ('s, bool) proc"

definition rla_IsLocked :: "('r, 'v) redis \<Rightarrow> string \<Rightarrow> ('r conn, bool) proc" where
  "rla_IsLocked R key = Exists R (loginLockKey key)"

definition rla_RecordFailure ::
  "('r, 'v) redis \<Rightarrow> string \<Rightarrow> int \<Rightarrow> int \<Rightarrow> int \<Rightarrow> ('r conn, unit) proc" where
  "rla_RecordFailure R key maxFailures window lockFor =
     bindP (rcall (recordLoginFailureScript R (loginFailureKey key) (loginLockKey key)
                     maxFailures window lockFor)) (\<lambda>_. ret ())"

definition rla_Clear :: "('r, 'v) redis \<Rightarrow> string \<Rightarrow> ('r conn, unit) proc" where
  "rla_Clear R key = DelKey R [loginFailureKey key, loginLockKey key]"

definition rla_RememberIP :: "('r, 'v) redis \<Rightarrow> string \<Rightarrow> string \<Rightarrow> int \<Rightarrow> ('r conn, unit) proc" where
  "rla_RememberIP R key ip ttl = SetKey R (loginKnownKey key ip) (RStr ''1'') (Some ttl)"

definition rla_IsKnownIP :: "('r, 'v) redis \<Rightarrow> string \<Rightarrow> string \<Rightarrow> ('r conn, bool) proc" where
  "rla_IsKnownIP R key ip = Exists R (loginKnownKey key ip)"

definition RedisLoginAttemptRepository :: "('r, 'v) redis \<Rightarrow> 'r conn login_attempt_repo" where
  "RedisLoginAttemptRepository R =
     \<lparr>la_IsLocked = rla_IsLocked R, la_RecordFailure = rla_RecordFailure R,
      la_Clear = rla_Clear R, la_RememberIP = rla_RememberIP R, la_IsKnownIP = rla_IsKnownIP R\<rparr>"

section \<open>Registration codes\<close>

definition emailOTPKey :: "string \<Rightarrow> string" where
  "emailOTPKey email = ''email_otp:'' @ ToLower (TrimSpace email)"

definition emailOTPRateKey :: "string \<Rightarrow> string" where
  "emailOTPRateKey email = ''email_otp_rate:'' @ ToLower (TrimSpace email)"

definition emailOTPAttemptsKey :: "string \<Rightarrow> string" where
  "emailOTPAttemptsKey email = ''email_otp_attempts:'' @ ToLower (TrimSpace email)"

definition emailOtpTTL :: int where
  "emailOtpTTL = 10 * 60 * 1000"

definition otpRateLimitTTL :: int where
  "otpRateLimitTTL = 60 * 1000"

text \<open>How many wrong guesses one code stands.\<close>

definition otpMaxFailures :: int where
  "otpMaxFailures = 5"

record email_otp =
  eo_Email :: string
  eo_Code :: string
  eo_ExpiresAt :: int

definition recordEmailOTPFailureScript ::
  "('r, 'v) redis \<Rightarrow> string \<Rightarrow> string \<Rightarrow> int \<Rightarrow> int \<Rightarrow> int \<Rightarrow> 'r \<Rightarrow> int \<times> 'r" where
  "recordEmailOTPFailureScript R codeKey attemptsKey maxFailures ttl now r =
     (let (failures, r1) = rd_Incr R now attemptsKey r;
          r2 = (if failures = 1 then rd_PExpire R now attemptsKey ttl r1 else r1)
      in if failures \<ge> maxFailures
         then (failures, rd_Del R now attemptsKey (rd_Del R now codeKey r2))
         else (failures, r2))"

record 's email_otp_repo =
  eo_Save :: "email_otp \<Rightarrow> ('s, unit) proc"
  eo_FindLatestByEmail :: "string \<Rightarrow> ('s, email_otp option) proc"
  eo_Delete :: "string \<Rightarrow> ('s, unit) proc"
  eo_RecordFailure :: "string \<Rightarrow> ('s, unit) proc"
  eo_TryBeginSend :: "string \<Rightarrow> ('s, bool) proc"

definition reo_Save :: "('r, 'v) redis \<Rightarrow> email_otp \<Rightarrow> ('r conn, unit) proc" where
  "reo_Save R otp =
     bindP (DelKey R [emailOTPAttemptsKey (eo_Email otp)]) (\<lambda>_.
       SetKey R (emailOTPKey (eo_Email otp)) (RStr (eo_Code otp)) (Some emailOtpTTL))"

text \<open>The command TTL rounds to whole seconds; a negative answer is passed on.\<close>

definition ttl_ms :: "int \<Rightarrow> int" where
  "ttl_ms pttl = (if pttl < 0 then pttl else (pttl + 500) div 1000 * 1000)"

definition reo_FindLatestByEmail :: "('r, 'v) redis \<Rightarrow> string \<Rightarrow> ('r conn, email_otp option) proc" where
  "reo_FindLatestByEmail R email =
     bindP (Get R (emailOTPKey email)) (\<lambda>code. case code of
       Some (RStr code) \<Rightarrow>
         bindP (rcall (\<lambda>now r. (rd_PTTL R now (emailOTPKey email) r, r))) (\<lambda>ttl c.
           (Inr (Some \<lparr>eo_Email = email, eo_Code = code, eo_ExpiresAt = rc_now c + ttl_ms ttl\<rparr>), c))
     | _ \<Rightarrow> ret None)"

definition reo_Delete :: "('r, 'v) redis \<Rightarrow> string \<Rightarrow> ('r conn, unit) proc" where
  "reo_Delete R email = DelKey R [emailOTPKey email]"

definition reo_RecordFailure :: "('r, 'v) redis \<Rightarrow> string \<Rightarrow> ('r conn, unit) proc" where
  "reo_RecordFailure R email =
     bindP (rcall (recordEmailOTPFailureScript R (emailOTPKey email) (emailOTPAttemptsKey email)
                     otpMaxFailures emailOtpTTL)) (\<lambda>_. ret ())"

definition reo_TryBeginSend :: "('r, 'v) redis \<Rightarrow> string \<Rightarrow> ('r conn, bool) proc" where
  "reo_TryBeginSend R email = SetNX R (emailOTPRateKey email) (RStr ''1'') (Some otpRateLimitTTL)"

definition RedisEmailOTPRepository :: "('r, 'v) redis \<Rightarrow> 'r conn email_otp_repo" where
  "RedisEmailOTPRepository R =
     \<lparr>eo_Save = reo_Save R, eo_FindLatestByEmail = reo_FindLatestByEmail R,
      eo_Delete = reo_Delete R, eo_RecordFailure = reo_RecordFailure R,
      eo_TryBeginSend = reo_TryBeginSend R\<rparr>"

section \<open>Password-reset codes\<close>

definition resetOTPKey :: "string \<Rightarrow> string" where
  "resetOTPKey email = ''pwreset:otp:'' @ ToLower (TrimSpace email)"

definition resetOTPAttemptsKey :: "string \<Rightarrow> string" where
  "resetOTPAttemptsKey email = ''pwreset:attempts:'' @ ToLower (TrimSpace email)"

definition resetTokenKey :: "string \<Rightarrow> string" where
  "resetTokenKey token = ''pwreset:token:'' @ token"

definition resetRateKey :: "string \<Rightarrow> string" where
  "resetRateKey email = ''pwreset:rate:'' @ ToLower (TrimSpace email)"

definition exchangeResetOTPScript ::
  "('r, 'v) redis \<Rightarrow> string \<Rightarrow> string \<Rightarrow> string \<Rightarrow> string \<Rightarrow> string \<Rightarrow> int \<Rightarrow> int \<Rightarrow> int \<Rightarrow> 'r \<Rightarrow> int \<times> 'r" where
  "exchangeResetOTPScript R codeKey tokenKey attemptsKey otp email ttl maxFailures now r =
     (case rd_Get R now codeKey r of
        None \<Rightarrow> (0, r)
      | Some current \<Rightarrow>
          (if current = RStr otp
           then (1, rd_Del R now attemptsKey (rd_Del R now codeKey
                      (rd_Set R now tokenKey (RStr email) (Some ttl) r)))
           else (let (failures, r1) = rd_Incr R now attemptsKey r;
                     r2 = (if failures = 1
                           then rd_PExpire R now attemptsKey (rd_PTTL R now codeKey r1) r1 else r1)
                 in (0, if failures \<ge> maxFailures
                        then rd_Del R now attemptsKey (rd_Del R now codeKey r2) else r2))))"

record 's password_reset_repo =
  pr_SaveOTP :: "string \<Rightarrow> string \<Rightarrow> int \<Rightarrow> ('s, unit) proc"
  pr_ExchangeOTPForResetToken :: "string \<Rightarrow> string \<Rightarrow> string \<Rightarrow> int \<Rightarrow> ('s, bool) proc"
  pr_TryBeginRequest :: "string \<Rightarrow> int \<Rightarrow> ('s, bool) proc"
  pr_ConsumeResetToken :: "string \<Rightarrow> ('s, string) proc"

definition rpr_SaveOTP :: "('r, 'v) redis \<Rightarrow> string \<Rightarrow> string \<Rightarrow> int \<Rightarrow> ('r conn, unit) proc" where
  "rpr_SaveOTP R email otp ttl =
     bindP (DelKey R [resetOTPAttemptsKey email]) (\<lambda>_.
       SetKey R (resetOTPKey email) (RStr otp) (Some ttl))"

definition rpr_ExchangeOTPForResetToken ::
  "('r, 'v) redis \<Rightarrow> string \<Rightarrow> string \<Rightarrow> string \<Rightarrow> int \<Rightarrow> ('r conn, bool) proc" where
  "rpr_ExchangeOTPForResetToken R email otp token ttl =
     bindP (rcall (exchangeResetOTPScript R (resetOTPKey email) (resetTokenKey token)
                     (resetOTPAttemptsKey email) otp email ttl otpMaxFailures)) (\<lambda>n. ret (n = 1))"

definition rpr_TryBeginRequest :: "('r, 'v) redis \<Rightarrow> string \<Rightarrow> int \<Rightarrow> ('r conn, bool) proc" where
  "rpr_TryBeginRequest R email ttl = SetNX R (resetRateKey email) (RStr ''1'') (Some ttl)"

definition rpr_ConsumeResetToken :: "('r, 'v) redis \<Rightarrow> string \<Rightarrow> ('r conn, string) proc" where
  "rpr_ConsumeResetToken R token =
     bindP (GetDel R (resetTokenKey token)) (\<lambda>val. case val of
       Some (RStr s) \<Rightarrow> ret s
     | Some _ \<Rightarrow> throw (Errorf ''WRONGTYPE'')
     | None \<Rightarrow> ret [])"

definition RedisPasswordResetRepository :: "('r, 'v) redis \<Rightarrow> 'r conn password_reset_repo" where
  "RedisPasswordResetRepository R =
     \<lparr>pr_SaveOTP = rpr_SaveOTP R, pr_ExchangeOTPForResetToken = rpr_ExchangeOTPForResetToken R,
      pr_TryBeginRequest = rpr_TryBeginRequest R, pr_ConsumeResetToken = rpr_ConsumeResetToken R\<rparr>"

lemma reset_keys_distinct [simp]:
  "resetOTPKey e \<noteq> resetTokenKey t" "resetTokenKey t \<noteq> resetOTPKey e"
  "resetOTPKey e \<noteq> resetOTPAttemptsKey e'" "resetOTPAttemptsKey e' \<noteq> resetOTPKey e"
  "resetOTPAttemptsKey e \<noteq> resetTokenKey t" "resetTokenKey t \<noteq> resetOTPAttemptsKey e"
  by (simp_all add: resetOTPKey_def resetTokenKey_def resetOTPAttemptsKey_def)

lemma revokedKey_inj [simp]: "revokedKey a = revokedKey b \<longleftrightarrow> a = b"
  by (simp add: revokedKey_def)

end
