(* ===== verification/Auth_Store_Props.thy ===== *)
theory Auth_Store_Props
  imports Auth_Store
begin

text \<open>
  What the authentication repositories promise: the contract of a revocation list, kept by the
  Redis repository, and the bound on the guesses of a password-reset code.
\<close>

section \<open>The contract of a revocation list\<close>

text \<open>\<open>used s tok x\<close>: the list holds the token until time \<open>x\<close> at least.\<close>

datatype rv_op = RevokeOp string | IsRevokedOp string | ConsumeOp string

text \<open>One call of the repository; every token has one expiry time, the one in its claims.\<close>

definition rv_exec ::
  "'s revoked_token_repo \<Rightarrow> (string \<Rightarrow> int) \<Rightarrow> rv_op \<Rightarrow> 's \<Rightarrow> bool result \<times> 's" where
  "rv_exec repo exp_of op s = (case op of
     RevokeOp tok \<Rightarrow> bindP (rv_RevokeToken repo tok (exp_of tok)) (\<lambda>_. ret True) s
   | IsRevokedOp tok \<Rightarrow> rv_IsRevoked repo tok s
   | ConsumeOp tok \<Rightarrow> rv_ConsumeToken repo tok (exp_of tok) s)"

fun rv_run ::
  "'s revoked_token_repo \<Rightarrow> (string \<Rightarrow> int) \<Rightarrow> ('e \<Rightarrow> 's \<Rightarrow> 's) \<Rightarrow> ('e \<times> rv_op) list \<Rightarrow> 's \<Rightarrow> 's" where
  "rv_run repo exp_of env [] s = s"
| "rv_run repo exp_of env ((e, op) # ops) s =
     rv_run repo exp_of env ops (snd (rv_exec repo exp_of op (env e s)))"

locale revocation_list =
  fixes repo :: "'s revoked_token_repo"
    and env :: "'e \<Rightarrow> 's \<Rightarrow> 's"
    and clock :: "'s \<Rightarrow> int"
    and used :: "'s \<Rightarrow> string \<Rightarrow> int \<Rightarrow> bool"
  assumes consumed: "rv_ConsumeToken repo tok e s = (Inr True, t) \<Longrightarrow>
      used t tok (e * 1000) \<and> clock s < e * 1000"
    and refused: "used s tok x \<Longrightarrow> clock s < x \<Longrightarrow> fst (rv_ConsumeToken repo tok e s) \<noteq> Inr True"
    and revoked: "rv_RevokeToken repo tok e s = (Inr (), t) \<Longrightarrow>
      clock s < e * 1000 \<Longrightarrow> used t tok (e * 1000)"
    and listed: "rv_IsRevoked repo tok s = (Inr b, t) \<Longrightarrow> used s tok x \<Longrightarrow> clock s < x \<Longrightarrow> b"
    and kept: "used s tok x \<Longrightarrow> x \<le> exp_of tok * 1000 \<Longrightarrow> used (snd (rv_exec repo exp_of op s)) tok x"
    and env_kept: "used s tok x \<Longrightarrow> used (env m s) tok x"
begin

lemma stays_used:
  "used s tok x \<Longrightarrow> x \<le> exp_of tok * 1000 \<Longrightarrow> used (rv_run repo exp_of env ops s) tok x"
proof (induction ops arbitrary: s)
  case (Cons eop ops)
  then show ?case by (cases eop) (simp add: kept env_kept)
qed simp

text \<open>A token that was consumed is never consumed again.\<close>

lemma consumed_once:
  assumes "rv_ConsumeToken repo tok (exp_of tok) s = (Inr True, s1)"
    and "s2 = rv_run repo exp_of env ops s1"
  shows "fst (rv_ConsumeToken repo tok (exp_of tok) s2) \<noteq> Inr True"
proof (cases "clock s2 < exp_of tok * 1000")
  case True
  have "used s2 tok (exp_of tok * 1000)"
    unfolding assms(2) using consumed [OF assms(1)] by (intro stays_used) auto
  then show ?thesis using True by (rule refused)
next
  case False
  then show ?thesis
    using consumed [of tok "exp_of tok" s2] by (metis prod.collapse)
qed

end

section \<open>The Redis revocation list\<close>

definition conn_env :: "int \<times> delivery list \<Rightarrow> 'r conn \<Rightarrow> 'r conn" where
  "conn_env e c = c\<lparr>rc_now := rc_now c + max 0 (fst e), rc_net := snd e\<rparr>"

definition rt_used :: "('r \<Rightarrow> 'v keyspace) \<Rightarrow> 'r conn \<Rightarrow> string \<Rightarrow> int \<Rightarrow> bool" where
  "rt_used view c tok x \<longleftrightarrow>
     (case view (rc_store c) (revokedKey tok) of
        Some (v, Some t) \<Rightarrow> x \<le> t | Some (v, None) \<Rightarrow> True | None \<Rightarrow> False)"

lemma rt_used_upd [simp]:
  "rt_used view (c\<lparr>rc_now := n, rc_net := ds\<rparr>) tok x = rt_used view c tok x"
  "rt_used view (c\<lparr>rc_net := ds\<rparr>) tok x = rt_used view c tok x"
  "rt_used view (c\<lparr>rc_now := n\<rparr>) tok x = rt_used view c tok x"
  by (simp_all add: rt_used_def)

lemmas revoked_defs = RedisRevokedTokenRepository_def rt_RevokeToken_def rt_IsRevoked_def
  rt_ConsumeToken_def Exists_def SetKey_def SetNX_def Let_def

sublocale redis_server \<subseteq> revocation: revocation_list "RedisRevokedTokenRepository R" conn_env
  rc_now "rt_used view"
proof unfold_locales
  fix tok e and s t :: "'r conn"
  assume a: "rv_ConsumeToken (RedisRevokedTokenRepository R) tok e s = (Inr True, t)"
  then have pos: "rc_now s < e * 1000"
    by (auto simp: revoked_defs split: if_splits)
  from a pos show "rt_used view t tok (e * 1000) \<and> rc_now s < e * 1000"
    by (cases rule: SetNX_cases [where r = "rc_store s" and now = "rc_now s" and
        k = "revokedKey tok" and v = "RStr ''1''" and ttl = "Some (e * 1000 - rc_now s)"])
      (auto simp: revoked_defs rt_used_def elim!: rcall_cases)
next
  fix s :: "'r conn" and tok x e
  assume "rt_used view s tok x" "rc_now s < x"
  then have live: "live (rc_now s) (view (rc_store s) (revokedKey tok)) \<noteq> None"
    by (auto simp: rt_used_def live_def split: option.splits)
  obtain r' where "rd_SetNX R (rc_now s) (revokedKey tok) (RStr ''1'')
      (Some (e * 1000 - rc_now s)) (rc_store s) = (False, r')"
    by (rule SetNX_taken_pair [OF live])
  then show "fst (rv_ConsumeToken (RedisRevokedTokenRepository R) tok e s) \<noteq> Inr True"
    by (cases "next_delivery s") (auto simp: revoked_defs rcall_def)
next
  fix tok e and s t :: "'r conn"
  assume "rv_RevokeToken (RedisRevokedTokenRepository R) tok e s = (Inr (), t)" "rc_now s < e * 1000"
  then show "rt_used view t tok (e * 1000)"
    by (auto simp: revoked_defs rt_used_def Set elim!: rcall_cases)
next
  fix tok b x and s t :: "'r conn"
  assume "rv_IsRevoked (RedisRevokedTokenRepository R) tok s = (Inr b, t)" "rt_used view s tok x"
    "rc_now s < x"
  then show b
    by (auto simp: revoked_defs rt_used_def Exists live_def elim!: rcall_cases split: option.splits)
next
  fix s :: "'r conn" and tok x exp_of op
  assume used: "rt_used view s tok x" and le: "x \<le> exp_of tok * 1000"
  show "rt_used view (snd (rv_exec (RedisRevokedTokenRepository R) exp_of op s)) tok x"
  proof (cases op)
    case (RevokeOp tok')
    with used le show ?thesis
      by (cases "next_delivery s")
        (auto simp: rv_exec_def revoked_defs rcall_def bindP_def Set rt_used_def)
  next
    case (IsRevokedOp tok')
    with used show ?thesis
      by (cases "next_delivery s") (auto simp: rv_exec_def revoked_defs rcall_def rt_used_def)
  next
    case (ConsumeOp tok')
    show ?thesis
    proof (cases "next_delivery s = NotSent \<or> exp_of tok' * 1000 \<le> rc_now s")
      case True
      with used ConsumeOp show ?thesis
        by (auto simp: rv_exec_def revoked_defs rcall_def rt_used_def split: delivery.splits prod.splits)
    next
      case False
      then have "rc_store (snd (rv_exec (RedisRevokedTokenRepository R) exp_of op s)) =
          snd (rd_SetNX R (rc_now s) (revokedKey tok') (RStr ''1'')
            (Some (exp_of tok' * 1000 - rc_now s)) (rc_store s))"
        using ConsumeOp
        by (cases "next_delivery s") (auto simp: rv_exec_def revoked_defs rcall_def split: prod.splits)
      then show ?thesis
        using used False le
        by (cases rule: SetNX_cases [where r = "rc_store s" and now = "rc_now s" and
            k = "revokedKey tok'" and v = "RStr ''1''" and
            ttl = "Some (exp_of tok' * 1000 - rc_now s)"])
          (auto simp: rt_used_def split: option.splits if_splits)
    qed
  qed
next
  fix s :: "'r conn" and tok x e
  assume "rt_used view s tok x"
  then show "rt_used view (conn_env e s) tok x" by (simp add: conn_env_def)
qed

text \<open>Every mark the repository writes expires with its token.\<close>

definition rt_exact :: "('r \<Rightarrow> 'v keyspace) \<Rightarrow> (string \<Rightarrow> int) \<Rightarrow> 'r conn \<Rightarrow> bool" where
  "rt_exact view exp_of c \<longleftrightarrow>
     (\<forall>tok. view (rc_store c) (revokedKey tok) = None \<or>
        rt_used view c tok (exp_of tok * 1000))"

context redis_server
begin

lemma is_revocation_list:
  "revocation_list (RedisRevokedTokenRepository R) conn_env rc_now (rt_used view)"
  by (rule revocation.revocation_list_axioms)

lemma not_consumed:
  assumes "rt_exact view exp_of c" and "rc_now c < exp_of tok * 1000"
    and "rv_ConsumeToken (RedisRevokedTokenRepository R) tok (exp_of tok) c = (Inr b, c')"
  shows "rt_used view c' tok (exp_of tok * 1000)"
proof (cases b)
  case True
  with revocation.consumed [of tok "exp_of tok" c c'] assms(3) show ?thesis by simp
next
  case False
  have "live (rc_now c) (view (rc_store c) (revokedKey tok)) \<noteq> None"
  proof
    assume "live (rc_now c) (view (rc_store c) (revokedKey tok)) = None"
    then obtain r' where "rd_SetNX R (rc_now c) (revokedKey tok) (RStr ''1'')
        (Some (exp_of tok * 1000 - rc_now c)) (rc_store c) = (True, r')"
      by (rule SetNX_free_pair)
    with assms(2,3) False show False by (auto simp: revoked_defs elim!: rcall_cases)
  qed
  then have "view (rc_store c) (revokedKey tok) \<noteq> None" by (metis live_simps(1))
  then have "rt_used view c tok (exp_of tok * 1000)"
    using assms(1) unfolding rt_exact_def by metis
  then show ?thesis
    using revocation.kept [of c tok "exp_of tok * 1000" exp_of "ConsumeOp tok"] assms(3)
    by (simp add: rv_exec_def)
qed

end

section \<open>Guessing a reset code\<close>

text \<open>Attempts on the code of one e-mail address: each comes after some time, over a network that
  may lose the request or the reply, with a guess and the reset token it would get.\<close>

record guess =
  g_after :: int
  g_net :: delivery
  g_code :: string
  g_token :: string

definition try_guess :: "('r, 'v) redis \<Rightarrow> string \<Rightarrow> int \<Rightarrow> guess \<Rightarrow> ('r conn, bool) proc" where
  "try_guess R email ttl g c =
     rpr_ExchangeOTPForResetToken R email (g_code g) (g_token g) ttl
       (conn_env (g_after g, [g_net g]) c)"

definition guess_all :: "('r, 'v) redis \<Rightarrow> string \<Rightarrow> int \<Rightarrow> guess list \<Rightarrow> 'r conn \<Rightarrow> 'r conn" where
  "guess_all R email ttl gs c = foldl (\<lambda>c g. snd (try_guess R email ttl g c)) c gs"

definition arrived :: "guess list \<Rightarrow> guess list" where
  "arrived gs = filter (\<lambda>g. g_net g \<noteq> NotSent) gs"

context redis_server
begin

text \<open>The code is gone for good, or it is live with the number of wrong guesses counted so far, which
  lives exactly as long as the code.\<close>

definition code_state :: "string \<Rightarrow> string \<Rightarrow> int \<Rightarrow> nat \<Rightarrow> 'r conn \<Rightarrow> bool" where
  "code_state email code t k c \<longleftrightarrow>
     live (rc_now c) (view (rc_store c) (resetOTPKey email)) = None \<or>
     view (rc_store c) (resetOTPKey email) = Some (RStr code, Some t) \<and> rc_now c < t \<and>
     int k < otpMaxFailures \<and>
     (if k = 0 then view (rc_store c) (resetOTPAttemptsKey email) = None
      else view (rc_store c) (resetOTPAttemptsKey email) = Some (RStr (Itoa (int k)), Some t))"

lemma guess_cases:
  assumes "try_guess R email ttl g c = (r, c')"
  obtains
    (lost) "g_net g = NotSent" "r \<noteq> Inr True" "rc_store c' = rc_store c"
      "rc_now c' = rc_now c + max 0 (g_after g)"
  | (arrived) n where "g_net g \<noteq> NotSent" "rc_now c' = rc_now c + max 0 (g_after g)"
      "exchangeResetOTPScript R (resetOTPKey email) (resetTokenKey (g_token g))
         (resetOTPAttemptsKey email) (g_code g) email ttl otpMaxFailures (rc_now c') (rc_store c) =
       (n, rc_store c')" "r = Inr True \<Longrightarrow> n = 1"
proof (cases "g_net g = NotSent")
  case True
  with assms lost show ?thesis
    by (auto simp: try_guess_def rpr_ExchangeOTPForResetToken_def rcall_def conn_env_def
        next_delivery_def bindP_def Let_def split: prod.splits)
next
  case False
  obtain n r' where s: "exchangeResetOTPScript R (resetOTPKey email) (resetTokenKey (g_token g))
      (resetOTPAttemptsKey email) (g_code g) email ttl otpMaxFailures
      (rc_now c + max 0 (g_after g)) (rc_store c) = (n, r')"
    by fastforce
  with assms False have "rc_store c' = r'" "rc_now c' = rc_now c + max 0 (g_after g)"
      "r = Inr True \<Longrightarrow> n = 1"
    by (cases "g_net g"; auto simp: try_guess_def rpr_ExchangeOTPForResetToken_def rcall_def
        conn_env_def next_delivery_def bindP_def Let_def split: prod.splits)+
  with s False arrived show ?thesis by auto
qed

lemma code_gone:
  assumes "live (rc_now c) (view (rc_store c) (resetOTPKey email)) = None"
    and "try_guess R email ttl g c = (r, c')"
  shows "live (rc_now c') (view (rc_store c') (resetOTPKey email)) = None \<and> r \<noteq> Inr True"
proof -
  have later: "live (rc_now c + max 0 (g_after g)) (view (rc_store c) (resetOTPKey email)) = None"
    using assms(1) by (auto simp: live_def split: option.splits if_splits)
  from assms(2) show ?thesis
    using later by (cases rule: guess_cases) (auto simp: exchangeResetOTPScript_def Get)
qed

lemma counter_Itoa [simp]: "k < 100 \<Longrightarrow> counter_value (Some (RStr (Itoa (int k)))) = int k"
  by (simp add: counter_value_def Atoi_Itoa in_int64_def)

text \<open>One guess that arrived: the right one takes the code away and succeeds, a wrong one is counted
  and the fifth takes the code away.\<close>

lemma code_guess:
  assumes st: "code_state email code t k c" and g: "try_guess R email ttl g c = (r, c')"
  shows "code_state email code t (if g_net g = NotSent then k else Suc k) c' \<and>
    (r = Inr True \<longrightarrow> g_code g = code \<and> int k < otpMaxFailures) \<and>
    (g_net g \<noteq> NotSent \<and> g_code g = code \<longrightarrow>
       live (rc_now c') (view (rc_store c') (resetOTPKey email)) = None)"
proof (cases "live (rc_now c + max 0 (g_after g)) (view (rc_store c) (resetOTPKey email)) = None")
  case True
  from g have "live (rc_now c') (view (rc_store c') (resetOTPKey email)) = None \<and> r \<noteq> Inr True"
    using True by (cases rule: guess_cases) (auto simp: exchangeResetOTPScript_def Get)
  then show ?thesis by (simp add: code_state_def)
next
  case False
  let ?now = "rc_now c + max 0 (g_after g)"
  have key: "view (rc_store c) (resetOTPKey email) = Some (RStr code, Some t)"
    and live: "?now < t" and k: "int k < otpMaxFailures"
    and count: "if k = 0 then view (rc_store c) (resetOTPAttemptsKey email) = None
      else view (rc_store c) (resetOTPAttemptsKey email) = Some (RStr (Itoa (int k)), Some t)"
    using st False by (auto simp: code_state_def live_def split: option.splits if_splits)
  from g show ?thesis
  proof (cases rule: guess_cases)
    case lost
    with key live k count show ?thesis by (auto simp: code_state_def)
  next
    case (arrived n)
    let ?a = "resetOTPAttemptsKey email"
    have now: "rc_now c' = ?now" using arrived by simp
    obtain r1 where incr: "rd_Incr R ?now ?a (rc_store c) = (int k + 1, r1)"
      and v1: "view r1 = (view (rc_store c))(?a \<mapsto>
        (RStr (Itoa (int k + 1)), if k = 0 then None else Some t))"
    proof -
      have "counter_value (live ?now (view (rc_store c) ?a)) = int k"
        using count live k
        by (cases "k = 0") (auto simp: counter_value_def otpMaxFailures_def in_int64_def Atoi_Itoa)
      moreover have "expiry_of ?now (view (rc_store c) ?a) = (if k = 0 then None else Some t)"
        using count live by (auto simp: expiry_of_def)
      ultimately show ?thesis
        using Incr [where now = ?now and k = ?a and r = "rc_store c"] that
        by (cases "rd_Incr R ?now ?a (rc_store c)") simp
    qed
    show ?thesis
    proof (cases "g_code g = code")
      case True
      have "rc_store c' = snd (exchangeResetOTPScript R (resetOTPKey email)
          (resetTokenKey (g_token g)) ?a (g_code g) email ttl otpMaxFailures ?now (rc_store c))"
        using arrived(3) now by simp
      then have "view (rc_store c') (resetOTPKey email) = None"
        using key live True by (simp add: exchangeResetOTPScript_def Get Del Set)
      with True k now show ?thesis by (simp add: code_state_def)
    next
      case False
      have ttl: "rd_PTTL R ?now (resetOTPKey email) r1 = t - ?now"
        using key live by (simp add: PTTL v1 expiry_of_def)
      define r2 where "r2 = (if int k + 1 = 1
        then rd_PExpire R ?now ?a (rd_PTTL R ?now (resetOTPKey email) r1) r1 else r1)"
      have v2: "view r2 = (view (rc_store c))(?a \<mapsto> (RStr (Itoa (int k + 1)), Some t))"
        using live by (auto simp: r2_def PExpire v1 ttl)
      have "exchangeResetOTPScript R (resetOTPKey email) (resetTokenKey (g_token g)) ?a (g_code g)
          email ttl otpMaxFailures ?now (rc_store c) =
          (0, if int k + 1 \<ge> otpMaxFailures
              then rd_Del R ?now ?a (rd_Del R ?now (resetOTPKey email) r2) else r2)"
        using key live False incr r2_def by (simp add: exchangeResetOTPScript_def Get Let_def)
      with arrived(3) now have "n = 0" and "rc_store c' = (if int k + 1 \<ge> otpMaxFailures
           then rd_Del R ?now ?a (rd_Del R ?now (resetOTPKey email) r2) else r2)"
        by simp_all
      then have "n = 0" "view (rc_store c') = (if int k + 1 \<ge> otpMaxFailures
           then (view (rc_store c))(?a := None, resetOTPKey email := None)
           else (view (rc_store c))(?a \<mapsto> (RStr (Itoa (int k + 1)), Some t)))"
        by (simp_all add: Del v2 fun_upd_twist)
      with arrived(1,4) False key live now show ?thesis
        by (auto simp: code_state_def add.commute)
    qed
  qed
qed

lemma guesses_state:
  assumes "code_state email code t k c"
  shows "code_state email code t (k + length (arrived gs)) (guess_all R email ttl gs c) \<and>
    ((\<exists>g \<in> set (arrived gs). g_code g = code) \<longrightarrow>
       live (rc_now (guess_all R email ttl gs c))
         (view (rc_store (guess_all R email ttl gs c)) (resetOTPKey email)) = None)"
proof (induction gs rule: rev_induct)
  case Nil
  with assms show ?case by (simp add: guess_all_def arrived_def)
next
  case (snoc g gs)
  let ?c = "guess_all R email ttl gs c"
  obtain r c' where g: "try_guess R email ttl g ?c = (r, c')" by fastforce
  then have c': "guess_all R email ttl (gs @ [g]) c = c'" by (simp add: guess_all_def)
  from snoc have st: "code_state email code t (k + length (arrived gs)) ?c" by blast
  from code_guess [OF st g] have "code_state email code t (k + length (arrived (gs @ [g]))) c'"
    by (auto simp: arrived_def split: if_splits)
  moreover have "live (rc_now c') (view (rc_store c') (resetOTPKey email)) = None"
    if "\<exists>h \<in> set (arrived (gs @ [g])). g_code h = code"
  proof (cases "\<exists>h \<in> set (arrived gs). g_code h = code")
    case True
    with snoc code_gone [OF _ g] show ?thesis by blast
  next
    case False
    with that have "g_net g \<noteq> NotSent" "g_code g = code" by (auto simp: arrived_def split: if_splits)
    with code_guess [OF st g] show ?thesis by blast
  qed
  ultimately show ?case unfolding c' by blast
qed

lemma guess_bound:
  assumes "code_state email code t 0 c"
    and "try_guess R email ttl g (guess_all R email ttl gs c) = (Inr True, c')"
  shows "g_code g = code \<and> int (length (arrived gs)) < otpMaxFailures \<and>
    (\<forall>h \<in> set (arrived gs). g_code h \<noteq> code)"
  using guesses_state [OF assms(1), of gs] code_guess [OF _ assms(2)] code_gone [OF _ assms(2)]
  by (metis add_0)

end

text \<open>C13: A password-reset code can be guessed at most four times wrong before the right guess: an
  exchange succeeds only with the saved code, only if fewer than five guesses reached the server
  before it, and only once.\<close>

theorem reset_code_guesses_bounded:
  assumes "redis_server R view"
    and "rpr_SaveOTP R email code life c = (Inr (), c0)" and "0 < life"
    and "try_guess R email ttl g (guess_all R email ttl gs c0) = (Inr True, c')"
  shows "g_code g = code \<and> int (length (arrived gs)) < otpMaxFailures \<and>
    (\<forall>h \<in> set (arrived gs). g_code h \<noteq> code)"
proof (rule redis_server.guess_bound [OF assms(1) _ assms(4)])
  show "redis_server.code_state view email code (rc_now c + life) 0 c0"
    using assms(2,3)
    by (auto simp: redis_server.code_state_def [OF assms(1)] rpr_SaveOTP_def DelKey_def SetKey_def
        redis_server.Set [OF assms(1)] redis_server.Del [OF assms(1)] otpMaxFailures_def
        elim!: bindP_InrE rcall_cases)
qed

definition sample_guess :: "string \<Rightarrow> guess" where
  "sample_guess code = \<lparr>g_after = 1, g_net = Delivered, g_code = code, g_token = ''k''\<rparr>"

definition sample_code_conn :: "unit ttl_state conn" where
  "sample_code_conn = snd (rpr_SaveOTP ttl_map ''a@b'' ''123456'' 600 empty_conn)"

theorem reset_code_guesses_bounded_witness:
  "fst (try_guess ttl_map ''a@b'' 900 (sample_guess ''123456'')
      (guess_all ttl_map ''a@b'' 900 (replicate 4 (sample_guess ''000000'')) sample_code_conn)) = Inr True \<and>
   int (length (arrived (replicate 4 (sample_guess ''000000'')))) < otpMaxFailures \<and>
   fst (try_guess ttl_map ''a@b'' 900 (sample_guess ''123456'')
      (guess_all ttl_map ''a@b'' 900 (replicate 5 (sample_guess ''000000'')) sample_code_conn)) \<noteq> Inr True"
proof -
  let ?gs = "\<lambda>n. guess_all ttl_map ''a@b'' 900 (replicate n (sample_guess ''000000'')) sample_code_conn"
  let ?guess = "\<lambda>n. try_guess ttl_map ''a@b'' 900 (sample_guess ''123456'') (?gs n)"
  have "fst (rpr_SaveOTP ttl_map ''a@b'' ''123456'' 600 (empty_conn :: unit ttl_state conn)) = Inr ()"
    by code_simp
  then have save: "rpr_SaveOTP ttl_map ''a@b'' ''123456'' 600 (empty_conn :: unit ttl_state conn) =
      (Inr (), sample_code_conn)"
    by (metis prod.collapse sample_code_conn_def)
  have four: "fst (?guess 4) = Inr True" by code_simp
  then have "?guess 4 = (Inr True, snd (?guess 4))" by (metis prod.collapse)
  from reset_code_guesses_bounded [OF ttl_map_server save _ this]
  have "int (length (arrived (replicate 4 (sample_guess ''000000'')))) < otpMaxFailures" by simp
  moreover have "fst (?guess 5) = Inr False" by code_simp
  ultimately show ?thesis using four by simp
qed

end
