(* ===== verification/User_Session.thy ===== *)
theory User_Session
  imports Auth_Store_Props
begin

text \<open>
  Signing in and out (usecase/user, usecase/administrator): login, refreshing a token pair, logout,
  the registration code and the password reset. Passwords are compared by a bcrypt parameter,
  mails are sent by a mailer parameter; random values are arguments.
\<close>

section \<open>Repositories\<close>

record user_account = user +
  ua_Email :: string

record user_credentials = user_account +
  uc_HashedPassword :: string
  uc_CredentialsVersion :: int

record 's user_login_repo =
  ul_FindCredentialsByEmail :: "string \<Rightarrow> ('s, user_credentials option) proc"
  ul_ReactivateUser :: "int \<Rightarrow> ('s, bool) proc"

record 's user_session_repo =
  ur_GetUserAccountByID :: "int \<Rightarrow> ('s, user_account option) proc"
  ur_GetCredentialsVersionByID :: "int \<Rightarrow> ('s, int) proc"

record 's user_reader =
  ud_FindByEmail :: "string \<Rightarrow> ('s, user option) proc"

record 's user_password_repo =
  up_FindCredentialsByEmail :: "string \<Rightarrow> ('s, user_credentials option) proc"
  up_SaveCredentials :: "user_credentials \<Rightarrow> ('s, unit) proc"

text \<open>\<open>bcrypt.CompareHashAndPassword\<close> and \<open>GenerateFromPassword\<close> (with its salt as an argument).\<close>

record bcrypt =
  bc_Compare :: "string \<Rightarrow> string \<Rightarrow> bool"
  bc_Generate :: "string \<Rightarrow> string \<Rightarrow> string result"

type_synonym 's mailer = "string \<Rightarrow> string \<Rightarrow> string \<Rightarrow> ('s, unit) proc"

section \<open>Validation (model/user.go)\<close>

definition ValidateUserPassword :: "string \<Rightarrow> unit result" where
  "ValidateUserPassword password =
     (if length password < 8 then Err (Errorf ''the password must have 8 characters'') else Ok ())"

text \<open>The regular expression of \<open>studentEmailRe\<close>. Matching one letter case-insensitively folds the way
  Go does: besides the two ASCII cases, \<open>k\<close> also matches the Kelvin sign and \<open>s\<close> the long s.\<close>

definition match_letter :: "char \<Rightarrow> string \<Rightarrow> string option" where
  "match_letter c s =
     (case s of [] \<Rightarrow> None
      | x # xs \<Rightarrow>
          (if lower_char x = lower_char c then Some xs
           else if lower_char c = CHR ''k'' \<and> HasPrefix s (utf8 [0xE2, 0x84, 0xAA]) then Some (drop 3 s)
           else if lower_char c = CHR ''s'' \<and> HasPrefix s (utf8 [0xC5, 0xBF]) then Some (drop 2 s)
           else None))"

fun match_word :: "string \<Rightarrow> string \<Rightarrow> string option" where
  "match_word [] s = Some s"
| "match_word (c # cs) s = Option.bind (match_letter c s) (match_word cs)"

definition match_digit :: "nat \<Rightarrow> string \<Rightarrow> string option" where
  "match_digit least s =
     (case s of [] \<Rightarrow> None
      | x # xs \<Rightarrow> (case digit_val x of Some d \<Rightarrow> if least \<le> d then Some xs else None | None \<Rightarrow> None))"

definition department_codes :: "string list" where
  "department_codes =
     [''EE'', ''EL'', ''EW'', ''JL'', ''JP'', ''MA'', ''MD'', ''CM'', ''CA'', ''LB'', ''LA'', ''LT'',
      ''LR'', ''LK'', ''LM'', ''NE'', ''HP'', ''HS'', ''GN'', ''GC'', ''E'']"

text \<open>\<open>(2[0-9]|[3-9][0-9])\d{4}@senshu-u\.jp$\<close>, which is two or more, then five digits.\<close>

definition match_number_and_domain :: "string \<Rightarrow> bool" where
  "match_number_and_domain s =
     (case foldl Option.bind (Some s) (match_digit 2 # replicate 5 (match_digit 0)) of
        None \<Rightarrow> False
      | Some rest \<Rightarrow> match_word ''@senshu-u.jp'' rest = Some [])"

definition ValidateUserEmail :: "string \<Rightarrow> unit result" where
  "ValidateUserEmail email =
     (if list_ex (\<lambda>code. case match_word code email of None \<Rightarrow> False
                   | Some rest \<Rightarrow> match_number_and_domain rest) department_codes
      then Ok ()
      else Err (Errorf ''only addresses with a student number from 2020 on can register''))"

section \<open>Login\<close>

definition ErrInvalidCredentials :: go_error where
  "ErrInvalidCredentials = Errorf ''invalid email or password''"

record login_result =
  lr_AccessToken :: string
  lr_RefreshToken :: string
  lr_User :: user_account
  lr_AccountRestored :: bool

text \<open>\<open>n1\<close> and \<open>n2\<close> are the random IDs of the two tokens.\<close>

definition LoginUser ::
  "jwt_lib \<Rightarrow> jwt_env \<Rightarrow> bcrypt \<Rightarrow> 's user_login_repo \<Rightarrow> string \<Rightarrow> string \<Rightarrow> int \<Rightarrow> string \<Rightarrow> string
     \<Rightarrow> ('s, login_result) proc" where
  "LoginUser J env B repo n1 n2 now email password =
     bindP (ul_FindCredentialsByEmail repo email) (\<lambda>user. case user of
       None \<Rightarrow> throw ErrInvalidCredentials
     | Some user \<Rightarrow>
         bindP (guardP (bc_Compare B (uc_HashedPassword user) password) ErrInvalidCredentials) (\<lambda>_.
         bindP (guardP (us_Status user \<noteq> StatusFrozen) (Errorf ''account is frozen'')) (\<lambda>_.
         bindP (if us_Status user = StatusDeactivated
                then bindP (ul_ReactivateUser repo (us_ID user)) (\<lambda>ok.
                       if \<not> ok then throw ErrInvalidCredentials
                       else ret (True, user\<lparr>us_Status := StatusActive\<rparr>))
                else ret (False, user)) (\<lambda>(restored, user).
         bindP (liftR (GenerateUserAccessToken J env n1 now (us_ID user) (us_Role user)
                         (uc_CredentialsVersion user))) (\<lambda>accessToken.
         bindP (liftR (GenerateUserRefreshToken J env n2 now (us_ID user) (us_Role user)
                         (uc_CredentialsVersion user))) (\<lambda>refreshToken.
         ret \<lparr>lr_AccessToken = accessToken, lr_RefreshToken = refreshToken,
              lr_User = user_account.truncate user, lr_AccountRestored = restored\<rparr>))))))"

section \<open>Refreshing the tokens\<close>

record refresh_result =
  rr_AccessToken :: string
  rr_RefreshToken :: string
  rr_User :: user_account

definition RefreshUserToken ::
  "jwt_lib \<Rightarrow> jwt_env \<Rightarrow> 's user_session_repo \<Rightarrow> 's revoked_token_repo \<Rightarrow> string \<Rightarrow> string \<Rightarrow> int \<Rightarrow> string
     \<Rightarrow> ('s, refresh_result) proc" where
  "RefreshUserToken J env userRepo revokedTokenRepo n1 n2 now refreshToken =
     (case ValidateRefreshToken J env now refreshToken of
        Inl e \<Rightarrow> throw (Errorf ''invalid refresh token'')
      | Inr claims \<Rightarrow>
          (case cl_CredentialsVersion claims of
             None \<Rightarrow> throw (Errorf ''invalid refresh token'')
           | Some claimed \<Rightarrow>
               bindP (guardP (cl_Role claims \<noteq> ''administrator'') (Errorf ''invalid refresh token'')) (\<lambda>_.
               bindP (ur_GetUserAccountByID userRepo (cl_ID claims)) (\<lambda>u. case u of
                 None \<Rightarrow> throw (Errorf ''user not found'')
               | Some u \<Rightarrow>
                   bindP (guardP (us_Status u \<noteq> StatusFrozen) (Errorf ''account is frozen'')) (\<lambda>_.
                   bindP (guardP (us_Status u = StatusActive) (Errorf ''user not found'')) (\<lambda>_.
                   bindP (ur_GetCredentialsVersionByID userRepo (cl_ID claims)) (\<lambda>version.
                   bindP (guardP (version = claimed) (Errorf ''refresh token has been revoked'')) (\<lambda>_.
                   bindP (liftR (GenerateUserAccessToken J env n1 now (cl_ID claims) (cl_Role claims)
                                   version)) (\<lambda>accessToken.
                   bindP (liftR (GenerateUserRefreshToken J env n2 now (cl_ID claims) (cl_Role claims)
                                   version)) (\<lambda>newRefreshToken.
                   bindP (rv_ConsumeToken revokedTokenRepo refreshToken (cl_ExpiresAt claims)) (\<lambda>consumed.
                   if \<not> consumed then throw (Errorf ''refresh token has been revoked'')
                   else ret \<lparr>rr_AccessToken = accessToken, rr_RefreshToken = newRefreshToken,
                             rr_User = u\<rparr>)))))))))))"

text \<open>The administrators' variant: no credentials version, the account is looked up last.\<close>

definition RefreshAdministratorToken ::
  "jwt_lib \<Rightarrow> jwt_env \<Rightarrow> 's account_verifier \<Rightarrow> 's revoked_token_repo \<Rightarrow> string \<Rightarrow> string \<Rightarrow> int \<Rightarrow> string
     \<Rightarrow> ('s, string \<times> string) proc" where
  "RefreshAdministratorToken J env accounts revokedTokenRepo n1 n2 now refreshToken =
     (case ValidateRefreshToken J env now refreshToken of
        Inl e \<Rightarrow> throw (Errorf ''invalid refresh token'')
      | Inr claims \<Rightarrow>
          bindP (guardP (cl_Role claims = ''administrator'') (Errorf ''invalid refresh token'')) (\<lambda>_.
          bindP (liftR (GenerateAccessToken J env n1 now (cl_ID claims) (cl_Role claims))) (\<lambda>accessToken.
          bindP (liftR (GenerateRefreshToken J env n2 now (cl_ID claims) (cl_Role claims))) (\<lambda>newRefreshToken.
          bindP (av_AdministratorExists accounts (cl_ID claims)) (\<lambda>a.
          bindP (guardP a (Errorf ''administrator not found'')) (\<lambda>_.
          bindP (rv_ConsumeToken revokedTokenRepo refreshToken (cl_ExpiresAt claims)) (\<lambda>consumed.
          if \<not> consumed then throw (Errorf ''refresh token has been revoked'')
          else ret (accessToken, newRefreshToken))))))))"

section \<open>Logout\<close>

definition LogoutUser ::
  "jwt_lib \<Rightarrow> jwt_env \<Rightarrow> 's revoked_token_repo \<Rightarrow> int \<Rightarrow> string \<Rightarrow> string option \<Rightarrow> ('s, unit) proc" where
  "LogoutUser J env revokedTokenRepo now token refreshToken =
     bindP (case refreshToken of
              None \<Rightarrow> ret ()
            | Some rt \<Rightarrow>
                (if rt = [] then ret ()
                 else (case ValidateRefreshToken J env now rt of
                         Inl e \<Rightarrow> ret ()
                       | Inr rc \<Rightarrow> bindP (rv_ConsumeToken revokedTokenRepo rt (cl_ExpiresAt rc)) (\<lambda>_. ret ()))))
       (\<lambda>_. case ValidateToken J env now token of
              Inl e \<Rightarrow> throw (Errorf ''invalid token'')
            | Inr claims \<Rightarrow> rv_RevokeToken revokedTokenRepo token (cl_ExpiresAt claims))"

section \<open>The registration code\<close>

definition SendEmailOTP ::
  "'s email_otp_repo \<Rightarrow> 's user_reader \<Rightarrow> 's mailer \<Rightarrow> string result \<Rightarrow> int \<Rightarrow> string \<Rightarrow> ('s, unit) proc" where
  "SendEmailOTP otpRepo userRepo mailer code now email =
     bindP (liftR (ValidateUserEmail email)) (\<lambda>_.
     bindP (eo_TryBeginSend otpRepo email) (\<lambda>allowed.
     bindP (guardP allowed (Errorf ''the code can be sent again after a minute'')) (\<lambda>_.
     bindP (ud_FindByEmail userRepo email) (\<lambda>user.
       if user \<noteq> None then ret ()
       else bindP (liftR code) (\<lambda>code.
            bindP (eo_Save otpRepo \<lparr>eo_Email = email, eo_Code = code, eo_ExpiresAt = now + 600000\<rparr>) (\<lambda>_.
            mailer email ''registration code'' code))))))"

text \<open>\<open>generateOTPCode\<close>: six random digits, each of which may fail to be drawn.\<close>

fun generateOTPCode :: "nat result list \<Rightarrow> string result" where
  "generateOTPCode [] = Ok []"
| "generateOTPCode (d # ds) = andThen d (\<lambda>n. andThen (generateOTPCode ds) (\<lambda>s. Ok (digits_of n @ s)))"

definition VerifyEmailOTP :: "'s email_otp_repo \<Rightarrow> string \<Rightarrow> string \<Rightarrow> ('s, unit) proc" where
  "VerifyEmailOTP otpRepo email otp =
     bindP (liftR (ValidateUserEmail email)) (\<lambda>_.
     bindP (guardP (length otp = 6) (Errorf ''the code has 6 digits'')) (\<lambda>_.
     bindP (eo_FindLatestByEmail otpRepo email) (\<lambda>record.
     bindP (case record of
              Some r \<Rightarrow> if eo_Code r \<noteq> otp then eo_RecordFailure otpRepo email else ret ()
            | None \<Rightarrow> ret ()) (\<lambda>_.
     case record of
       Some r \<Rightarrow> if eo_Code r = otp then ret () else throw (Errorf ''the code is invalid or expired'')
     | None \<Rightarrow> throw (Errorf ''the code is invalid or expired'')))))"

section \<open>Password reset\<close>

definition resetTokenTTL :: int where
  "resetTokenTTL = 15 * 60 * 1000"

definition resetOtpTTL :: int where
  "resetOtpTTL = 10 * 60 * 1000"

definition resetRequestInterval :: int where
  "resetRequestInterval = 60 * 1000"

text \<open>\<open>generateOTP\<close> of three random bytes: the 24-bit number modulo a million, as six digits.\<close>

definition generateOTP :: "nat \<Rightarrow> nat \<Rightarrow> nat \<Rightarrow> string" where
  "generateOTP b0 b1 b2 =
     (let ds = digits_of ((b0 * 65536 + b1 * 256 + b2) mod 1000000) in
      replicate (6 - length ds) (CHR ''0'') @ ds)"

text \<open>The mail goes out through \<open>spawn\<close>, outside the request; its failure is only logged.\<close>

definition RequestPasswordReset ::
  "'s user_reader \<Rightarrow> 's password_reset_repo \<Rightarrow> 's mailer \<Rightarrow> (('s, unit) proc \<Rightarrow> 's \<Rightarrow> 's) \<Rightarrow> string result
     \<Rightarrow> string \<Rightarrow> ('s, unit) proc" where
  "RequestPasswordReset userRepo pwResetRepo mailer spawn otp email =
     bindP (pr_TryBeginRequest pwResetRepo email resetRequestInterval) (\<lambda>allowed.
       if \<not> allowed then ret ()
       else bindP (ud_FindByEmail userRepo email) (\<lambda>user.
              if user = None then ret ()
              else bindP (liftR otp) (\<lambda>otp.
                   bindP (pr_SaveOTP pwResetRepo email otp resetOtpTTL) (\<lambda>_ s.
                     (Inr (), spawn (mailer email ''password reset code'' otp) s)))))"

definition VerifyPasswordResetOTP ::
  "'s password_reset_repo \<Rightarrow> string result \<Rightarrow> string \<Rightarrow> string \<Rightarrow> ('s, string) proc" where
  "VerifyPasswordResetOTP pwResetRepo fresh email otp =
     bindP (liftR fresh) (\<lambda>token.
     bindP (pr_ExchangeOTPForResetToken pwResetRepo email otp token resetTokenTTL) (\<lambda>consumed.
       if \<not> consumed then throw (Errorf ''invalid or expired verification code'') else ret token))"

definition ResetPassword ::
  "bcrypt \<Rightarrow> 's user_password_repo \<Rightarrow> 's password_reset_repo \<Rightarrow> (string \<Rightarrow> 's \<Rightarrow> 's) \<Rightarrow> string \<Rightarrow> string
     \<Rightarrow> string \<Rightarrow> ('s, unit) proc" where
  "ResetPassword B userRepo pwResetRepo forgive salt resetToken newPassword =
     bindP (liftR (ValidateUserPassword newPassword)) (\<lambda>_.
     bindP (pr_ConsumeResetToken pwResetRepo resetToken) (\<lambda>email.
     bindP (guardP (email \<noteq> []) (Errorf ''invalid or expired reset token'')) (\<lambda>_.
     bindP (up_FindCredentialsByEmail userRepo email) (\<lambda>user. case user of
       None \<Rightarrow> throw (Errorf ''user not found'')
     | Some user \<Rightarrow>
         bindP (liftR (bc_Generate B salt newPassword)) (\<lambda>hash.
         bindP (up_SaveCredentials userRepo (user\<lparr>uc_HashedPassword := hash\<rparr>)) (\<lambda>_ s.
           (Inr (), forgive email s)))))))"

section \<open>Properties\<close>

definition liftRevoked :: "'r conn revoked_token_repo \<Rightarrow> ('d, 'r) world revoked_token_repo" where
  "liftRevoked repo =
     \<lparr>rv_RevokeToken = (\<lambda>tok e. onRedis (rv_RevokeToken repo tok e)),
      rv_IsRevoked = (\<lambda>tok. onRedis (rv_IsRevoked repo tok)),
      rv_ConsumeToken = (\<lambda>tok e. onRedis (rv_ConsumeToken repo tok e))\<rparr>"

definition liftUsers :: "'d user_session_repo \<Rightarrow> ('d, 'r) world user_session_repo" where
  "liftUsers repo =
     \<lparr>ur_GetUserAccountByID = (\<lambda>i. onDb (ur_GetUserAccountByID repo i)),
      ur_GetCredentialsVersionByID = (\<lambda>i. onDb (ur_GetCredentialsVersionByID repo i))\<rparr>"

lemma lift_simps [simp]:
  "rv_RevokeToken (liftRevoked repo) tok e = onRedis (rv_RevokeToken repo tok e)"
  "rv_IsRevoked (liftRevoked repo) tok = onRedis (rv_IsRevoked repo tok)"
  "rv_ConsumeToken (liftRevoked repo) tok e = onRedis (rv_ConsumeToken repo tok e)"
  "ur_GetUserAccountByID (liftUsers urepo) i = onDb (ur_GetUserAccountByID urepo i)"
  "ur_GetCredentialsVersionByID (liftUsers urepo) i = onDb (ur_GetCredentialsVersionByID urepo i)"
  by (simp_all add: liftRevoked_def liftUsers_def)

abbreviation revokedTokens :: "('r, 'v) redis \<Rightarrow> ('d, 'r) world revoked_token_repo" where
  "revokedTokens R \<equiv> liftRevoked (RedisRevokedTokenRepository R)"

text \<open>What a successful refresh has done: every check passed, and the last step took the token.\<close>

lemma RefreshUserToken_Inr:
  assumes "RefreshUserToken J env (liftUsers U) (liftRevoked V) n1 n2 now tok w = (Inr res, w')"
  shows "\<exists>claims v. ValidateRefreshToken J env now tok = Ok claims \<and>
    cl_Role claims \<noteq> ''administrator'' \<and> cl_CredentialsVersion claims = Some v \<and>
    us_Status (rr_User res) = StatusActive \<and>
    GenerateUserAccessToken J env n1 now (cl_ID claims) (cl_Role claims) v = Ok (rr_AccessToken res) \<and>
    GenerateUserRefreshToken J env n2 now (cl_ID claims) (cl_Role claims) v = Ok (rr_RefreshToken res) \<and>
    rv_ConsumeToken V tok (cl_ExpiresAt claims) (w_redis w) = (Inr True, w_redis w')"
proof -
  obtain claims v where c: "ValidateRefreshToken J env now tok = Ok claims"
      "cl_CredentialsVersion claims = Some v"
    using assms by (auto simp: RefreshUserToken_def split: sum.splits option.splits)
  from assms have "\<exists>u version w1 w2 access refresh.
      cl_Role claims \<noteq> ''administrator'' \<and>
      ur_GetUserAccountByID (liftUsers U) (cl_ID claims) w = (Inr (Some u), w1) \<and>
      us_Status u = StatusActive \<and>
      ur_GetCredentialsVersionByID (liftUsers U) (cl_ID claims) w1 = (Inr version, w2) \<and>
      version = v \<and>
      GenerateUserAccessToken J env n1 now (cl_ID claims) (cl_Role claims) version = Ok access \<and>
      GenerateUserRefreshToken J env n2 now (cl_ID claims) (cl_Role claims) version = Ok refresh \<and>
      rv_ConsumeToken (liftRevoked V) tok (cl_ExpiresAt claims) w2 = (Inr True, w') \<and>
      res = \<lparr>rr_AccessToken = access, rr_RefreshToken = refresh, rr_User = u\<rparr>"
    unfolding RefreshUserToken_def c sum.case option.case bindP_guard_Inr
    by (auto elim!: bindP_InrE simp: proc_Inr split: option.splits if_splits)
  then obtain u w1 w2 where
    "cl_Role claims \<noteq> ''administrator''"
    "ur_GetUserAccountByID (liftUsers U) (cl_ID claims) w = (Inr (Some u), w1)"
    "us_Status u = StatusActive"
    "ur_GetCredentialsVersionByID (liftUsers U) (cl_ID claims) w1 = (Inr v, w2)"
    "GenerateUserAccessToken J env n1 now (cl_ID claims) (cl_Role claims) v = Ok (rr_AccessToken res)"
    "GenerateUserRefreshToken J env n2 now (cl_ID claims) (cl_Role claims) v = Ok (rr_RefreshToken res)"
    "rv_ConsumeToken (liftRevoked V) tok (cl_ExpiresAt claims) w2 = (Inr True, w')"
    "rr_User res = u"
    by auto
  moreover from this have "w_redis w2 = w_redis w"
    by (metis lift_simps(4,5) on_frame(1))
  ultimately show ?thesis
    using c by (auto simp: onRedis_def split: prod.splits)
qed

text \<open>C11: A refresh token works once: after it was exchanged for a new pair, no later request with it
  succeeds, whatever other tokens are revoked or consumed in between, however much time passes,
  whatever the database says and whatever round trips to Redis are lost.\<close>

theorem refresh_token_single_use:
  assumes "redis_server R view"
    and "\<And>now c. ValidateToken J env now tok = Ok c \<Longrightarrow> cl_ExpiresAt c = exp_of tok"
    and "RefreshUserToken J env (liftUsers U) (revokedTokens R) n1 n2 now1 tok w = (Inr res, w1)"
    and "w_redis w2 = rv_run (RedisRevokedTokenRepository R) exp_of conn_env ops (w_redis w1)"
  shows "fst (RefreshUserToken J env (liftUsers U) (revokedTokens R) n3 n4 now2 tok w2) \<noteq> Inr res'"
proof
  assume again: "fst (RefreshUserToken J env (liftUsers U) (revokedTokens R) n3 n4 now2 tok w2) = Inr res'"
  then obtain w3 where
    again: "RefreshUserToken J env (liftUsers U) (revokedTokens R) n3 n4 now2 tok w2 = (Inr res', w3)"
    by (metis prod.collapse)
  have exp: "cl_ExpiresAt c = exp_of tok" if "ValidateRefreshToken J env now tok = Ok c" for c now
    using that assms(2)
    by (auto simp: ValidateRefreshToken_def validateTokenWithType_def andThen_Inr_iff Let_def
        split: if_splits)
  have "rv_ConsumeToken (RedisRevokedTokenRepository R) tok (exp_of tok) (w_redis w) = (Inr True, w_redis w1)"
    using RefreshUserToken_Inr [OF assms(3)] exp by metis
  moreover have "fst (rv_ConsumeToken (RedisRevokedTokenRepository R) tok (exp_of tok) (w_redis w2)) = Inr True"
    using RefreshUserToken_Inr [OF again] exp by (metis fst_conv)
  ultimately show False
    using revocation_list.consumed_once [OF redis_server.is_revocation_list [OF assms(1)] _ assms(4)] by blast
qed

definition sample_account :: "user_status \<Rightarrow> user_account" where
  "sample_account st = user.extend (sample_user 1 st) \<lparr>ua_Email = ''a@b''\<rparr>"

definition sample_users :: "unit user_session_repo" where
  "sample_users =
     \<lparr>ur_GetUserAccountByID = (\<lambda>i d. (Inr (if i = 1 then Some (sample_account StatusActive) else None), d)),
      ur_GetCredentialsVersionByID = (\<lambda>i d. (Inr 3, d))\<rparr>"

definition sample_refresh :: string where
  "sample_refresh = (case generateTokenWithType plain_jwt sample_env ''j'' 0 1 ''user'' ''refresh'' 1 (Some 3) of
     Inr tok \<Rightarrow> tok | Inl e \<Rightarrow> [])"

definition sample_world :: "(unit, unit ttl_state) world" where
  "sample_world = \<lparr>w_db = (), w_redis = empty_conn\<rparr>"

definition token_expiry :: "string \<Rightarrow> int" where
  "token_expiry t = (case plain_fields t of
     Some (_ # _ # _ # _ # _ # e # _) \<Rightarrow> the (read_int e) | _ \<Rightarrow> 0)"

lemma plain_expiry: "ValidateToken plain_jwt env now t = Ok c \<Longrightarrow> cl_ExpiresAt c = token_expiry t"
  by (auto simp: ValidateToken_def plain_jwt_def plain_parse_def token_expiry_def
      split: if_splits option.splits list.splits)

definition sample_refreshed :: "refresh_result result \<times> (unit, unit ttl_state) world" where
  "sample_refreshed = RefreshUserToken plain_jwt sample_env (liftUsers sample_users)
     (revokedTokens ttl_map) ''x'' ''y'' 0 sample_refresh sample_world"

theorem refresh_token_single_use_witness:
  "(\<exists>res. fst sample_refreshed = Inr res) \<and>
   (\<forall>res'. fst (RefreshUserToken plain_jwt sample_env (liftUsers sample_users) (revokedTokens ttl_map)
     ''v'' ''w'' 5 sample_refresh
     \<lparr>w_db = (), w_redis = rv_run (RedisRevokedTokenRepository ttl_map) token_expiry conn_env
        [((5, []), RevokeOp ''other''), ((7, [ReplyLost]), ConsumeOp sample_refresh)]
        (w_redis (snd sample_refreshed))\<rparr>) \<noteq> Inr res')"
proof -
  have "\<not> isl (fst sample_refreshed)" by code_simp
  then obtain res where res: "fst sample_refreshed = Inr res" by (cases "fst sample_refreshed") auto
  then have "RefreshUserToken plain_jwt sample_env (liftUsers sample_users) (revokedTokens ttl_map)
      ''x'' ''y'' 0 sample_refresh sample_world = (Inr res, snd sample_refreshed)"
    unfolding sample_refreshed_def by (metis prod.collapse)
  from refresh_token_single_use [OF ttl_map_server plain_expiry this]
  have "w_redis w2 = rv_run (RedisRevokedTokenRepository ttl_map) token_expiry conn_env ops
      (w_redis (snd sample_refreshed)) \<Longrightarrow>
      fst (RefreshUserToken plain_jwt sample_env (liftUsers sample_users) (revokedTokens ttl_map)
        ''v'' ''w'' 5 sample_refresh w2) \<noteq> Inr res'" for w2 ops res' .
  from this [OF world.select_convs(2)] res show ?thesis by blast
qed

text \<open>C12: After a successful logout that named a valid refresh token, that token gives no new pair and
  the access token is not accepted any more, whatever happens in between. (Every mark on the
  list expires with its token, which is how this code writes them.)\<close>

theorem logout_ends_session:
  assumes "redis_server R view" and "jwt_library J"
    and "\<And>now t c. ValidateToken J env now t = Ok c \<Longrightarrow> cl_ExpiresAt c = exp_of t"
    and "rt_exact view exp_of (w_redis w)"
    and "ValidateRefreshToken J env (world_now w) rtok = Ok rc" and "rtok \<noteq> []"
    and "LogoutUser J env (revokedTokens R) (world_now w) tok (Some rtok) w = (Inr (), w1)"
    and "w_redis w2 = rv_run (RedisRevokedTokenRepository R) exp_of conn_env ops (w_redis w1)"
  shows "fst (RefreshUserToken J env (liftUsers U) (revokedTokens R) n1 n2 (world_now w2) rtok w2) \<noteq> Inr res \<and>
    fst (ValidateAndVerifyToken J env (revokedTokens R) A (world_now w2) tok w2) \<noteq> Inr claims"
proof -
  let ?V = "RedisRevokedTokenRepository R"
  note list = redis_server.is_revocation_list [OF assms(1)]
  have refresh_exp: "cl_ExpiresAt c = exp_of t" "ValidateToken J env now t = Ok c"
    if "ValidateRefreshToken J env now t = Ok c" for c now t
    using that assms(3)
    by (auto simp: ValidateRefreshToken_def validateTokenWithType_def andThen_Inr_iff Let_def
        split: if_splits)
  have rt_now: "world_now w < exp_of rtok * 1000"
    using refresh_exp [OF assms(5)] jwt_library.validate_unexpired [OF assms(2)] by metis
  from assms(5,6,7) obtain b c1 where
    consume: "rv_ConsumeToken ?V rtok (exp_of rtok) (w_redis w) = (Inr b, c1)" and
    rest: "(case ValidateToken J env (world_now w) tok of
              Inl e \<Rightarrow> throw (Errorf ''invalid token'')
            | Inr claims \<Rightarrow> rv_RevokeToken (liftRevoked ?V) tok (cl_ExpiresAt claims))
            (w\<lparr>w_redis := c1\<rparr>) = (Inr (), w1)"
    using refresh_exp(1) [OF assms(5)]
    by (auto simp: LogoutUser_def onRedis_def elim!: bindP_InrE split: prod.splits)
  then obtain ac where ac: "ValidateToken J env (world_now w) tok = Ok ac"
    and revoke: "rv_RevokeToken ?V tok (exp_of tok) c1 = (Inr (), w_redis w1)"
    using assms(3) by (auto simp: onRedis_def split: sum.splits prod.splits)
  have clock: "rc_now c1 = world_now w"
    using consume by (auto simp: revoked_defs world_now_def elim!: rcall_cases split: if_splits)
  have used_rt: "rt_used view (w_redis w2) rtok (exp_of rtok * 1000)"
  proof -
    have "rt_used view c1 rtok (exp_of rtok * 1000)"
      using redis_server.not_consumed [OF assms(1,4) _ consume] rt_now by (simp add: world_now_def)
    then have "rt_used view (snd (rv_exec ?V exp_of (RevokeOp tok) c1)) rtok (exp_of rtok * 1000)"
      by (intro revocation_list.kept [OF list]) auto
    then have "rt_used view (w_redis w1) rtok (exp_of rtok * 1000)"
      using revoke by (simp add: rv_exec_def bindP_def)
    then show ?thesis
      unfolding assms(8) by (intro revocation_list.stays_used [OF list]) auto
  qed
  have used_at: "rt_used view (w_redis w2) tok (exp_of tok * 1000)"
  proof -
    have "world_now w < exp_of tok * 1000"
      using jwt_library.validate_unexpired [OF assms(2) ac] assms(3) [OF ac] by simp
    then have "rt_used view (w_redis w1) tok (exp_of tok * 1000)"
      using revocation_list.revoked [OF list revoke] clock by simp
    then show ?thesis
      unfolding assms(8) by (intro revocation_list.stays_used [OF list]) auto
  qed
  show ?thesis
  proof
    show "fst (RefreshUserToken J env (liftUsers U) (revokedTokens R) n1 n2 (world_now w2) rtok w2) \<noteq> Inr res"
    proof
      assume "fst (RefreshUserToken J env (liftUsers U) (revokedTokens R) n1 n2 (world_now w2) rtok w2) = Inr res"
      then obtain w3 where
        "RefreshUserToken J env (liftUsers U) (revokedTokens R) n1 n2 (world_now w2) rtok w2 = (Inr res, w3)"
        by (metis prod.collapse)
      from RefreshUserToken_Inr [OF this] obtain c where
        c: "ValidateRefreshToken J env (world_now w2) rtok = Ok c"
        "rv_ConsumeToken ?V rtok (cl_ExpiresAt c) (w_redis w2) = (Inr True, w_redis w3)" by blast
      have "world_now w2 < exp_of rtok * 1000"
        using refresh_exp [OF c(1)] jwt_library.validate_unexpired [OF assms(2)] by metis
      with revocation_list.refused [OF list used_rt] c(2) show False
        by (metis fst_conv world_now_def)
    qed
    show "fst (ValidateAndVerifyToken J env (revokedTokens R) A (world_now w2) tok w2) \<noteq> Inr claims"
    proof
      assume "fst (ValidateAndVerifyToken J env (revokedTokens R) A (world_now w2) tok w2) = Inr claims"
      then obtain w3 where
        "ValidateAndVerifyToken J env (revokedTokens R) A (world_now w2) tok w2 = (Inr claims, w3)"
        by (metis prod.collapse)
      from ValidateAndVerifyToken_Inr [OF this] obtain s1 where
        v: "ValidateToken J env (world_now w2) tok = Ok claims"
        "rv_IsRevoked (revokedTokens R) tok w2 = (Inr False, s1)" by blast
      then obtain c' where "rv_IsRevoked ?V tok (w_redis w2) = (Inr False, c')"
        by (auto simp: onRedis_def split: prod.splits)
      moreover have "world_now w2 < exp_of tok * 1000"
        using jwt_library.validate_unexpired [OF assms(2) v(1)] assms(3) [OF v(1)] by simp
      ultimately show False
        using revocation_list.listed [OF list _ used_at] by (auto simp: world_now_def)
    qed
  qed
qed

definition sample_logout :: "unit result \<times> (unit, unit ttl_state) world" where
  "sample_logout = LogoutUser plain_jwt sample_env (revokedTokens ttl_map) 0 sample_token
     (Some sample_refresh) sample_world"

theorem logout_ends_session_witness:
  "fst sample_logout = Inr () \<and>
   (\<forall>res. fst (RefreshUserToken plain_jwt sample_env (liftUsers sample_users) (revokedTokens ttl_map)
     ''v'' ''w'' (world_now (snd sample_logout)) sample_refresh (snd sample_logout)) \<noteq> Inr res)"
proof -
  have out: "fst sample_logout = Inr ()" by code_simp
  have exact: "rt_exact map_of token_expiry (w_redis sample_world)"
    by (simp add: rt_exact_def sample_world_def empty_conn_def)
  have "\<not> isl (ValidateRefreshToken plain_jwt sample_env 0 sample_refresh)" by code_simp
  then obtain rc where rc: "ValidateRefreshToken plain_jwt sample_env (world_now sample_world)
      sample_refresh = Ok rc"
    by (cases "ValidateRefreshToken plain_jwt sample_env 0 sample_refresh")
      (auto simp: sample_world_def world_now_def empty_conn_def)
  have ne: "sample_refresh \<noteq> []" by code_simp
  have lo: "LogoutUser plain_jwt sample_env (revokedTokens ttl_map) (world_now sample_world)
      sample_token (Some sample_refresh) sample_world = (Inr (), snd sample_logout)"
    using out by (simp add: sample_logout_def sample_world_def world_now_def empty_conn_def)
      (metis prod.collapse)
  have run: "w_redis (snd sample_logout) = rv_run (RedisRevokedTokenRepository ttl_map) token_expiry conn_env []
      (w_redis (snd sample_logout))"
    by simp
  have "fst (RefreshUserToken plain_jwt sample_env (liftUsers sample_users) (revokedTokens ttl_map)
      ''v'' ''w'' (world_now (snd sample_logout)) sample_refresh (snd sample_logout)) \<noteq> Inr res \<and>
      fst (ValidateAndVerifyToken plain_jwt sample_env (revokedTokens ttl_map) undefined
        (world_now (snd sample_logout)) sample_token (snd sample_logout)) \<noteq> Inr undefined" for res
    using logout_ends_session [where exp_of = token_expiry, OF ttl_map_server
        plain_jwt.jwt_library_axioms _ exact rc ne lo run] plain_expiry by blast
  with out show ?thesis by blast
qed

end
