(* ===== verification/Login_Guard.thy ===== *)
theory Login_Guard
  imports User_Session
begin

text \<open>
  The login guard (usecase/loginguard/guard.go): failed logins are counted per account and address
  and per account; a limit of failures stops further attempts for a while. Errors of the
  repository are logged and let the login through.
\<close>

section \<open>The guard\<close>

definition MaxFailures :: int where
  "MaxFailures = 10"

definition Window :: int where
  "Window = 15 * 60 * 1000"

definition LockFor :: int where
  "LockFor = 5 * 60 * 1000"

definition KnownIPFor :: int where
  "KnownIPFor = 30 * 24 * 60 * 60 * 1000"

definition ErrTooManyAttempts :: go_error where
  "ErrTooManyAttempts = Errorf ''too many login attempts''"

definition attemptKey :: "string \<Rightarrow> string \<Rightarrow> string" where
  "attemptKey scope email = scope @ '':'' @ ToLower (TrimSpace email)"

definition ipKey :: "string \<Rightarrow> string \<Rightarrow> string" where
  "ipKey account ip = account @ ''|'' @ ip"

text \<open>An error is only logged and a default takes the place of the result.\<close>

definition logged :: "'a \<Rightarrow> ('s, 'a) proc \<Rightarrow> ('a \<Rightarrow> ('s, 'b) proc) \<Rightarrow> ('s, 'b) proc" where
  "logged d p f = tryP p (\<lambda>r. f (case r of Inl e \<Rightarrow> d | Inr x \<Rightarrow> x))"

fun logged_all :: "('s, unit) proc list \<Rightarrow> ('s, unit) proc" where
  "logged_all [] = ret ()"
| "logged_all (p # ps) = logged () p (\<lambda>_. logged_all ps)"

definition rememberIP :: "'s login_attempt_repo \<Rightarrow> string \<Rightarrow> string \<Rightarrow> ('s, unit) proc" where
  "rememberIP repo account ip =
     (if ip = [] then ret () else logged () (la_RememberIP repo account ip KnownIPFor) ret)"

definition Forgive :: "'s login_attempt_repo \<Rightarrow> string \<Rightarrow> string \<Rightarrow> string \<Rightarrow> ('s, unit) proc" where
  "Forgive repo scope email ip =
     (let account = attemptKey scope email in
      bindP (logged_all (map (la_Clear repo) [account, ipKey account ip]))
        (\<lambda>_. rememberIP repo account ip))"

fun any_locked :: "'s login_attempt_repo \<Rightarrow> string list \<Rightarrow> ('s, bool) proc" where
  "any_locked repo [] = ret False"
| "any_locked repo (key # keys) =
     logged False (la_IsLocked repo key) (\<lambda>locked. if locked then ret True else any_locked repo keys)"

definition guard_keys :: "string \<Rightarrow> string \<Rightarrow> bool \<Rightarrow> string list" where
  "guard_keys account ip known = ipKey account ip # (if known then [] else [account])"

definition isLocked :: "'s login_attempt_repo \<Rightarrow> string \<Rightarrow> string \<Rightarrow> bool \<Rightarrow> ('s, bool) proc" where
  "isLocked repo account ip known = any_locked repo (guard_keys account ip known)"

text \<open>\<open>errors.Is(err, ErrInvalidCredentials)\<close>: the error or one that wraps it.\<close>

fun is_invalid_credentials :: "go_error \<Rightarrow> bool" where
  "is_invalid_credentials (PlainError m (Some e)) \<longleftrightarrow> is_invalid_credentials e"
| "is_invalid_credentials (AppError c m (Some e)) \<longleftrightarrow> is_invalid_credentials e"
| "is_invalid_credentials e \<longleftrightarrow> e = ErrInvalidCredentials"

definition Attempt ::
  "'s login_attempt_repo \<Rightarrow> string \<Rightarrow> string \<Rightarrow> string \<Rightarrow> ('s, 'a) proc \<Rightarrow> ('s, 'a) proc" where
  "Attempt repo scope email ip login =
     (let account = attemptKey scope email in
      logged False (if ip \<noteq> [] then la_IsKnownIP repo account ip else ret False) (\<lambda>known.
      bindP (isLocked repo account ip known) (\<lambda>locked.
        if locked then throw ErrTooManyAttempts
        else tryP login (\<lambda>result. bindP
          (case result of
             Inr x \<Rightarrow> bindP (logged_all [la_Clear repo (ipKey account ip)])
                        (\<lambda>_. rememberIP repo account ip)
           | Inl err \<Rightarrow>
               (if is_invalid_credentials err
                then logged_all (map (\<lambda>key. la_RecordFailure repo key MaxFailures Window LockFor)
                       (guard_keys account ip known))
                else ret ()))
          (\<lambda>_. liftR result)))))"

text \<open>\<open>guardedLoginUser\<close> and \<open>guardedLoginAdministrator\<close>: login in their scope.\<close>

definition guardedLogin ::
  "'s login_attempt_repo \<Rightarrow> bool \<Rightarrow> string \<Rightarrow> string \<Rightarrow> (string \<Rightarrow> ('s, 'a) proc) \<Rightarrow> ('s, 'a) proc" where
  "guardedLogin repo administrator email ip login =
     Attempt repo (if administrator then ''administrator'' else ''user'') email ip (login email)"

lemma Attempt_eval:
  assumes "(if ip \<noteq> [] then la_IsKnownIP repo (attemptKey scope email) ip else ret False) s = (Inr known, s0)"
    and "isLocked repo (attemptKey scope email) ip known s0 = (Inr locked, s1)"
  shows "Attempt repo scope email ip login s =
    (if locked then (Inl ErrTooManyAttempts, s1)
     else tryP login (\<lambda>result. bindP
          (case result of
             Inr x \<Rightarrow> bindP (logged_all [la_Clear repo (ipKey (attemptKey scope email) ip)])
                        (\<lambda>_. rememberIP repo (attemptKey scope email) ip)
           | Inl err \<Rightarrow>
               (if is_invalid_credentials err
                then logged_all (map (\<lambda>key. la_RecordFailure repo key MaxFailures Window LockFor)
                       (guard_keys (attemptKey scope email) ip known))
                else ret ()))
          (\<lambda>_. liftR result)) s1)"
  by (simp only: Attempt_def Let_def logged_def tryP_def assms prod.case sum.case bindP_def throw_def
      if_True if_False split: if_split) simp

lemma Attempt_wrong:
  assumes "(if ip \<noteq> [] then la_IsKnownIP repo (attemptKey scope email) ip else ret False) s = (Inr known, s0)"
    and "isLocked repo (attemptKey scope email) ip known s0 = (Inr False, s1)"
    and "logged_all (map (\<lambda>key. la_RecordFailure repo key MaxFailures Window LockFor)
      (guard_keys (attemptKey scope email) ip known)) s1 = (Inr (), s2)"
  shows "Attempt repo scope email ip (throw ErrInvalidCredentials) s = (Inl ErrInvalidCredentials, s2)"
  unfolding Attempt_eval [OF assms(1,2)]
  using assms(3) by (simp add: tryP_def ErrInvalidCredentials_def Errorf_def bindP_def)

section \<open>The counters on Redis\<close>

context redis_server
begin

abbreviation kv :: "'r conn \<Rightarrow> 'v keyspace" where
  "kv c \<equiv> view (rc_store c)"

lemma guard_keys_simps [simp]:
  "loginFailureKey a \<noteq> loginLockKey b" "loginLockKey b \<noteq> loginFailureKey a"
  "loginFailureKey a \<noteq> loginKnownKey b i" "loginLockKey a \<noteq> loginKnownKey b i"
  "loginKnownKey b i \<noteq> loginFailureKey a" "loginKnownKey b i \<noteq> loginLockKey a"
  "loginFailureKey a = loginFailureKey b \<longleftrightarrow> a = b" "loginLockKey a = loginLockKey b \<longleftrightarrow> a = b"
  "ipKey a i \<noteq> a" "a \<noteq> ipKey a i"
  by (simp_all add: loginFailureKey_def loginLockKey_def loginKnownKey_def ipKey_def)

text \<open>\<open>n\<close> failures are counted for the key, and what is counted lasts until \<open>T\<close>; at the limit the
  lock lasts until \<open>T\<close>.\<close>

definition failures :: "int \<Rightarrow> string \<Rightarrow> int \<Rightarrow> 'r conn \<Rightarrow> bool" where
  "failures T key n c \<longleftrightarrow>
     (if n < MaxFailures
      then live (rc_now c) (kv c (loginLockKey key)) = None \<and>
           (if n = 0 then live (rc_now c) (kv c (loginFailureKey key)) = None
            else (\<exists>e. kv c (loginFailureKey key) = Some (RStr (Itoa n), Some e) \<and> T \<le> e))
      else (\<exists>e. kv c (loginLockKey key) = Some (RStr ''1'', Some e) \<and> T \<le> e))"

lemma failures_later:
  assumes "failures T key n c" "rc_now c \<le> rc_now c'"
    and "kv c' (loginLockKey key) = kv c (loginLockKey key)"
    and "kv c' (loginFailureKey key) = kv c (loginFailureKey key)"
  shows "failures T key n c'"
proof -
  have "live (rc_now c') e = None" if "live (rc_now c) e = None" for e
    using that assms(2) by (auto simp: live_def split: option.splits if_splits)
  with assms show ?thesis by (auto simp: failures_def split: if_splits)
qed

lemma locked_iff:
  assumes "failures T key n c" "rc_now c < T" "rc_net c = []"
  shows "\<exists>c'. rla_IsLocked R key c = (Inr (n \<ge> MaxFailures), c') \<and> rc_store c' = rc_store c \<and>
    rc_now c' = rc_now c \<and> rc_net c' = []"
  using assms
  by (auto simp: rla_IsLocked_def Redis.Exists_def rcall_def next_delivery_def Let_def failures_def
      Exists split: if_splits)

lemma record_failure:
  assumes "failures T key n c" "0 \<le> n" "n < MaxFailures" "rc_now c < T" "T \<le> rc_now c + LockFor"
    and "rc_net c = []"
  shows "\<exists>c'. rla_RecordFailure R key MaxFailures Window LockFor c = (Inr (), c') \<and>
    failures T key (n + 1) c' \<and> rc_now c' = rc_now c \<and> rc_net c' = [] \<and>
    (\<forall>k. k \<noteq> loginLockKey key \<and> k \<noteq> loginFailureKey key \<longrightarrow> kv c' k = kv c k)"
proof -
  let ?f = "loginFailureKey key" and ?l = "loginLockKey key" and ?now = "rc_now c"
  have lock: "live ?now (kv c ?l) = None"
    and fail: "if n = 0 then live ?now (kv c ?f) = None
      else (\<exists>e. kv c ?f = Some (RStr (Itoa n), Some e) \<and> T \<le> e)"
    using assms(1,3) by (auto simp: failures_def)
  have n: "in_int64 n" using assms(2,3) by (simp add: in_int64_def MaxFailures_def)
  obtain r1 x where incr: "rd_Incr R ?now ?f (rc_store c) = (n + 1, r1)"
    and v1: "view r1 = (kv c)(?f \<mapsto> (RStr (Itoa (n + 1)), x))"
    and x: "if n = 0 then x = None else (\<exists>e. x = Some e \<and> T \<le> e)"
  proof (cases "n = 0")
    case True
    with fail that Incr [where now = ?now and k = ?f and r = "rc_store c"] show ?thesis
      by (cases "rd_Incr R ?now ?f (rc_store c)") (auto simp: counter_value_def expiry_of_def)
  next
    case False
    with fail obtain e where e: "kv c ?f = Some (RStr (Itoa n), Some e)" "T \<le> e" by auto
    with assms(4) n False that Incr [where now = ?now and k = ?f and r = "rc_store c"] show ?thesis
      by (cases "rd_Incr R ?now ?f (rc_store c)")
        (auto simp: counter_value_def expiry_of_def Atoi_Itoa)
  qed
  define r2 where "r2 = (if n + 1 = 1 then rd_PExpire R ?now ?f Window r1 else r1)"
  obtain e where v2: "view r2 = (kv c)(?f \<mapsto> (RStr (Itoa (n + 1)), Some e))" and e: "T \<le> e"
  proof (cases "n = 0")
    case True
    with x have "view r2 = (kv c)(?f \<mapsto> (RStr (Itoa (n + 1)), Some (?now + Window)))"
      by (simp add: r2_def PExpire v1)
    moreover have "T \<le> ?now + Window" using assms(5) by (simp add: LockFor_def Window_def)
    ultimately show ?thesis using that by blast
  next
    case False
    with x that show ?thesis by (auto simp: r2_def v1)
  qed
  define r3 where "r3 = (if n + 1 \<ge> MaxFailures
    then rd_Del R ?now ?f (rd_Set R ?now ?l (RStr ''1'') (Some LockFor) r2) else r2)"
  have "recordLoginFailureScript R ?f ?l MaxFailures Window LockFor ?now (rc_store c) = (n + 1, r3)"
    by (simp add: recordLoginFailureScript_def incr r2_def r3_def)
  then have run: "rla_RecordFailure R key MaxFailures Window LockFor c = (Inr (), c\<lparr>rc_store := r3\<rparr>)"
    using assms(6) by (simp add: rla_RecordFailure_def rcall_def next_delivery_def bindP_def)
  have v3: "view r3 = (if n + 1 \<ge> MaxFailures
      then (kv c)(?l \<mapsto> (RStr ''1'', Some (?now + LockFor)), ?f := None)
      else (kv c)(?f \<mapsto> (RStr (Itoa (n + 1)), Some e)))"
    by (auto simp: r3_def Del Set v2 fun_eq_iff)
  have "failures T key (n + 1) (c\<lparr>rc_store := r3\<rparr>)"
    using e assms(2,3,5) lock by (auto simp: failures_def v3)
  moreover have "\<forall>k. k \<noteq> ?l \<and> k \<noteq> ?f \<longrightarrow> view r3 k = kv c k"
    by (simp add: v3)
  ultimately show ?thesis using run assms(6) by simp
qed

text \<open>One attempt with wrong credentials. \<open>n\<close> and \<open>m\<close> count the failures of the address and of the
  account.\<close>

abbreviation wrong_attempt :: "string \<Rightarrow> string \<Rightarrow> string \<Rightarrow> ('r conn, 'a) proc" where
  "wrong_attempt scope email ip \<equiv>
     Attempt (RedisLoginAttemptRepository R) scope email ip (throw ErrInvalidCredentials)"

definition guarded :: "int \<Rightarrow> string \<Rightarrow> string \<Rightarrow> int \<Rightarrow> 'r conn \<Rightarrow> bool" where
  "guarded T account ip n c \<longleftrightarrow>
     rc_net c = [] \<and> rc_now c < T \<and> T \<le> rc_now c + LockFor \<and> 0 \<le> n \<and>
     failures T (ipKey account ip) n c \<and> (\<exists>m. 0 \<le> m \<and> m \<le> n \<and> failures T account m c)"

lemma wrong_attempt_step:
  assumes "guarded T (attemptKey scope email) ip n c"
  shows "\<exists>c'. wrong_attempt scope email ip c =
      (Inl (if n < MaxFailures then ErrInvalidCredentials else ErrTooManyAttempts), c') \<and>
    rc_now c' = rc_now c \<and> guarded T (attemptKey scope email) ip (if n < MaxFailures then n + 1 else n) c'"
proof -
  let ?a = "attemptKey scope email" let ?i = "ipKey ?a ip"
  obtain m where g: "rc_net c = []" "rc_now c < T" "T \<le> rc_now c + LockFor" "0 \<le> n"
      "failures T ?i n c" "0 \<le> m" "m \<le> n" "failures T ?a m c"
    using assms by (auto simp: guarded_def)
  obtain known c0 where known: "(if ip \<noteq> [] then la_IsKnownIP (RedisLoginAttemptRepository R) ?a ip
        else ret False) c = (Inr known, c0)" and c0: "rc_store c0 = rc_store c" "rc_now c0 = rc_now c"
      "rc_net c0 = []"
    using g(1) by (cases "ip = []")
      (auto simp: RedisLoginAttemptRepository_def rla_IsKnownIP_def Redis.Exists_def rcall_def
        next_delivery_def)
  have f0: "failures T ?i n c0" "failures T ?a m c0"
    using failures_later [OF g(5), of c0] failures_later [OF g(8), of c0] c0 by simp_all
  obtain c1 where ip_lock: "rla_IsLocked R ?i c0 = (Inr (n \<ge> MaxFailures), c1)"
    and c1: "rc_store c1 = rc_store c0" "rc_now c1 = rc_now c0" "rc_net c1 = []"
    using locked_iff [OF f0(1)] c0 g(2) by auto
  have f1: "failures T ?i n c1" "failures T ?a m c1"
    using failures_later [OF f0(1), of c1] failures_later [OF f0(2), of c1] c1 by simp_all
  show ?thesis
  proof (cases "n < MaxFailures")
    case False
    have "wrong_attempt scope email ip c = (Inl ErrTooManyAttempts, c1)"
      using ip_lock False
      by (subst Attempt_eval [OF known, of True c1])
        (simp_all add: isLocked_def guard_keys_def logged_def tryP_def RedisLoginAttemptRepository_def)
    moreover have "guarded T ?a ip n c1"
      using g c0 c1 f1 by (auto simp: guarded_def)
    ultimately show ?thesis using False c0 c1 by auto
  next
    case True
    obtain c2 where lock: "isLocked (RedisLoginAttemptRepository R) ?a ip known c0 = (Inr False, c2)"
      and c2: "rc_store c2 = rc_store c" "rc_now c2 = rc_now c" "rc_net c2 = []"
    proof (cases known)
      case True
      with ip_lock \<open>n < MaxFailures\<close> c0 c1 that show ?thesis
        by (auto simp: isLocked_def guard_keys_def logged_def tryP_def RedisLoginAttemptRepository_def)
    next
      case False
      have "rc_now c1 < T" using c0 c1 g(2) by simp
      with locked_iff [OF f1(2)] c1 obtain c2 where
        "rla_IsLocked R ?a c1 = (Inr (m \<ge> MaxFailures), c2)"
        "rc_store c2 = rc_store c1" "rc_now c2 = rc_now c1" "rc_net c2 = []" by blast
      with ip_lock \<open>n < MaxFailures\<close> False g(7) c0 c1 that show ?thesis
        by (auto simp: isLocked_def guard_keys_def logged_def tryP_def RedisLoginAttemptRepository_def)
    qed
    have f2: "failures T ?i n c2" "failures T ?a m c2"
      using failures_later [OF g(5), of c2] failures_later [OF g(8), of c2] c2 by simp_all
    obtain c3 where r1: "rla_RecordFailure R ?i MaxFailures Window LockFor c2 = (Inr (), c3)"
      and c3: "failures T ?i (n + 1) c3" "rc_now c3 = rc_now c2" "rc_net c3 = []"
        "\<forall>k. k \<noteq> loginLockKey ?i \<and> k \<noteq> loginFailureKey ?i \<longrightarrow> kv c3 k = kv c2 k"
      using record_failure [OF f2(1)] g True c2 by auto
    have f3: "failures T ?a m c3"
      using failures_later [OF f2(2), of c3] c3 by simp
    show ?thesis
    proof (cases known)
      case True
      have "wrong_attempt scope email ip c = (Inl ErrInvalidCredentials, c3)"
        using r1 True
        by (intro Attempt_wrong [OF known lock])
          (simp add: logged_def tryP_def guard_keys_def RedisLoginAttemptRepository_def)
      moreover have "guarded T ?a ip (n + 1) c3"
        using g c2 c3 f3 by (auto simp: guarded_def intro: exI [of _ m])
      ultimately show ?thesis using \<open>n < MaxFailures\<close> c2 c3 by auto
    next
      case False
      have mx: "m < MaxFailures" using g(7) \<open>n < MaxFailures\<close> by simp
      obtain c4 where r2: "rla_RecordFailure R ?a MaxFailures Window LockFor c3 = (Inr (), c4)"
        and c4: "failures T ?a (m + 1) c4" "rc_now c4 = rc_now c3" "rc_net c4 = []"
          "\<forall>k. k \<noteq> loginLockKey ?a \<and> k \<noteq> loginFailureKey ?a \<longrightarrow> kv c4 k = kv c3 k"
        using record_failure [OF f3 g(6) mx] g c2 c3 by auto
      have "failures T ?i (n + 1) c4"
        using failures_later [OF c3(1), of c4] c4 by simp
      moreover have "wrong_attempt scope email ip c = (Inl ErrInvalidCredentials, c4)"
        using r1 r2 False
        by (intro Attempt_wrong [OF known lock])
          (simp add: logged_def tryP_def guard_keys_def RedisLoginAttemptRepository_def)
      ultimately show ?thesis
        using g c2 c3 c4 \<open>n < MaxFailures\<close> by (auto simp: guarded_def intro!: exI [of _ "m + 1"])
    qed
  qed
qed

end

section \<open>Properties\<close>

text \<open>Login attempts with wrong credentials from one address, each some time after the one before,
  and the errors they get.\<close>

fun wrong_attempts ::
  "('r, 'v) redis \<Rightarrow> string \<Rightarrow> string \<Rightarrow> string \<Rightarrow> int list \<Rightarrow> 'r conn \<Rightarrow> go_error option list" where
  "wrong_attempts R scope email ip [] c = []"
| "wrong_attempts R scope email ip (d # ds) c =
     (case Attempt (RedisLoginAttemptRepository R) scope email ip
             (throw ErrInvalidCredentials :: ('r conn, unit) proc) (conn_env (d, []) c) of
        (Inl e, c') \<Rightarrow> Some e # wrong_attempts R scope email ip ds c'
      | (Inr _, c') \<Rightarrow> None # wrong_attempts R scope email ip ds c')"

context redis_server
begin

lemma wrong_attempts_guarded:
  assumes "failures T (ipKey (attemptKey scope email) ip) n c" "0 \<le> m" "m \<le> n"
    and "failures T (attemptKey scope email) m c"
    and "rc_now c + sum_list ds < T" "T \<le> rc_now c + LockFor" "\<forall>d \<in> set ds. 0 \<le> d"
    and "n \<le> MaxFailures"
  shows "wrong_attempts R scope email ip ds c =
    map Some (replicate (min (nat (MaxFailures - n)) (length ds)) ErrInvalidCredentials @
      replicate (length ds - nat (MaxFailures - n)) ErrTooManyAttempts)"
  using assms
proof (induction ds arbitrary: c n m)
  case (Cons d ds)
  let ?a = "attemptKey scope email" let ?i = "ipKey ?a ip"
  let ?c = "conn_env (d, []) c"
  have d: "0 \<le> d" "0 \<le> sum_list ds"
    using Cons.prems(7) by (auto intro: sum_list_nonneg)
  have now: "rc_now ?c = rc_now c + d" "rc_store ?c = rc_store c" "rc_net ?c = []"
    using d by (simp_all add: conn_env_def)
  have "failures T ?i n ?c" "failures T ?a m ?c"
    using failures_later [OF Cons.prems(1), of ?c] failures_later [OF Cons.prems(4), of ?c] now d
    by simp_all
  then have "guarded T ?a ip n ?c"
    using Cons.prems now d by (auto simp: guarded_def)
  from wrong_attempt_step [OF this] obtain c' where
    step: "wrong_attempt scope email ip ?c =
      ((Inl (if n < MaxFailures then ErrInvalidCredentials else ErrTooManyAttempts) :: unit result), c')"
    and c': "rc_now c' = rc_now ?c" "guarded T ?a ip (if n < MaxFailures then n + 1 else n) c'"
    by blast
  let ?n = "if n < MaxFailures then n + 1 else n"
  obtain m' where m': "failures T ?i ?n c'" "0 \<le> m'" "m' \<le> ?n" "failures T ?a m' c'"
      "T \<le> rc_now c' + LockFor"
    using c'(2) unfolding guarded_def by blast
  have le: "rc_now c' + sum_list ds < T" using Cons.prems(5) c'(1) now by simp
  have rest: "wrong_attempts R scope email ip ds c' =
    map Some (replicate (min (nat (MaxFailures - ?n)) (length ds)) ErrInvalidCredentials @
      replicate (length ds - nat (MaxFailures - ?n)) ErrTooManyAttempts)"
    using Cons.prems(7,8) by (intro Cons.IH [OF m'(1-4) le m'(5)]) auto
  show ?case
  proof (cases "n < MaxFailures")
    case True
    then have "nat (MaxFailures - n) = Suc (nat (MaxFailures - (n + 1)))" by simp
    with True step rest show ?thesis by simp
  next
    case False
    with step rest show ?thesis by simp
  qed
qed simp

lemma known_address:
  assumes "rc_net c = []" "ip \<noteq> []"
    and "live (rc_now c) (kv c (loginKnownKey (attemptKey scope email) ip)) \<noteq> None"
    and "live (rc_now c) (kv c (loginLockKey (ipKey (attemptKey scope email) ip))) = None"
  shows "fst (Attempt (RedisLoginAttemptRepository R) scope email ip login c) = fst (login c)"
proof -
  let ?repo = "RedisLoginAttemptRepository R" and ?a = "attemptKey scope email"
  have c: "c\<lparr>rc_net := []\<rparr> = c" using assms(1) by (cases c) simp
  have known: "(if ip \<noteq> [] then la_IsKnownIP ?repo ?a ip else ret False) c = (Inr True, c)"
    using assms(1-3) c
    by (simp add: RedisLoginAttemptRepository_def rla_IsKnownIP_def Redis.Exists_def rcall_def
        next_delivery_def Exists)
  have lock: "isLocked ?repo ?a ip True c = (Inr False, c)"
    using assms(1,4) c
    by (simp add: RedisLoginAttemptRepository_def isLocked_def guard_keys_def logged_def tryP_def
        rla_IsLocked_def Redis.Exists_def rcall_def next_delivery_def Exists)
  have all: "\<exists>s'. logged_all ps s = (Inr (), s')" for ps :: "('r conn, unit) proc list" and s
    by (induction ps arbitrary: s) (simp_all add: logged_def tryP_def split: prod.split)
  have remember: "\<exists>s'. rememberIP ?repo a i s = (Inr (), s')" for a i s
    by (simp add: rememberIP_def logged_def tryP_def split: prod.split sum.split)
  obtain res c1 where login: "login c = (res, c1)" by fastforce
  have "\<exists>c2. (case res of
             Inr x \<Rightarrow> bindP (logged_all [la_Clear ?repo (ipKey ?a ip)])
                        (\<lambda>_. rememberIP ?repo ?a ip)
           | Inl err \<Rightarrow>
               (if is_invalid_credentials err
                then logged_all (map (\<lambda>key. la_RecordFailure ?repo key MaxFailures Window LockFor)
                       (guard_keys ?a ip True))
                else ret ())) c1 = (Inr (), c2)"
  proof (cases res)
    case (Inl e)
    with all show ?thesis by simp
  next
    case (Inr x)
    obtain c3 where "logged_all [la_Clear ?repo (ipKey ?a ip)] c1 = (Inr (), c3)" using all by blast
    with Inr remember [of ?a ip c3] show ?thesis by (auto simp del: logged_all.simps)
  qed
  then show ?thesis
    unfolding Attempt_eval [OF known lock] if_False tryP_def login prod.case
    by (auto simp: bindP_def liftR_def)
qed

end



text \<open>Nobody else can lock the owner out: from an address the account has signed in from, login is
  tried whatever lock other addresses have put on the account, unless this very address is locked.\<close>

theorem known_address_not_locked_out:
  assumes "redis_server R view" and "rc_net c = []" "ip \<noteq> []"
    and "live (rc_now c) (view (rc_store c) (loginKnownKey (attemptKey scope email) ip)) \<noteq> None"
    and "live (rc_now c) (view (rc_store c) (loginLockKey (ipKey (attemptKey scope email) ip))) = None"
  shows "fst (Attempt (RedisLoginAttemptRepository R) scope email ip login c) = fst (login c)"
  using redis_server.known_address [OF assms] .

definition sample_locked_account :: "unit ttl_state conn" where
  "sample_locked_account =
     empty_conn\<lparr>rc_store := [(loginKnownKey ''user:a@b'' ''1.2.3.4'', RStr ''1'', Some 100),
       (loginLockKey ''user:a@b'', RStr ''1'', Some 100)]\<rparr>"

theorem known_address_not_locked_out_witness:
  "fst (Attempt (RedisLoginAttemptRepository ttl_map) ''user'' ''a@b'' ''1.2.3.4'' (ret 7)
      sample_locked_account) = Inr (7 :: int) \<and>
   fst (Attempt (RedisLoginAttemptRepository ttl_map) ''user'' ''a@b'' ''5.6.7.8'' (ret (7 :: int))
      sample_locked_account) = Inl ErrTooManyAttempts"
proof -
  have key: "attemptKey ''user'' ''a@b'' = ''user:a@b''" by code_simp
  have "fst (Attempt (RedisLoginAttemptRepository ttl_map) ''user'' ''a@b'' ''1.2.3.4'' (ret (7 :: int))
      sample_locked_account) = fst (ret (7 :: int) sample_locked_account)"
    by (rule known_address_not_locked_out [OF ttl_map_server])
      (simp_all add: key sample_locked_account_def empty_conn_def loginKnownKey_def loginLockKey_def
        ipKey_def)
  moreover have "fst (Attempt (RedisLoginAttemptRepository ttl_map) ''user'' ''a@b'' ''5.6.7.8'' (ret (7 :: int))
      sample_locked_account) = Inl ErrTooManyAttempts" by code_simp
  ultimately show ?thesis by simp
qed

end
