(* ===== verification/Sse_Store.thy ===== *)
theory Sse_Store
  imports Redis Authz
begin

text \<open>
  Numbering and history of the server-sent events (internal/sse/store.go, the selection of missed
  events in internal/sse/fanout.go, infra/redis/sse_store.go): the \<open>Store\<close> interface, the store in
  the memory of one process and the store shared by all servers on Redis.

  Times are milliseconds. The \<open>now\<close> function of the memory store is the field \<open>sm_now\<close>, the
  reading it gives at the call. A history entry on Redis is the event it encodes; \<open>Replay\<close> still
  skips an entry that does not decode.
\<close>

section \<open>Events (internal/sse/broker.go)\<close>

record 'd event =
  ev_ID :: int
  ev_Type :: string
  ev_Data :: 'd
  ev_Time :: string

definition historySize :: nat where
  "historySize = 100"

definition historyTTL :: int where
  "historyTTL = 10 * 60 * 1000"

definition historySweepInterval :: int where
  "historySweepInterval = 60 * 1000"

record ('s, 'd) sse_store =
  sst_Append :: "int \<Rightarrow> string \<Rightarrow> 'd \<Rightarrow> ('s, 'd event) proc"
  sst_Replay :: "int \<Rightarrow> int \<Rightarrow> ('s, 'd event list) proc"
  sst_ReleaseIfIdle :: "(int \<Rightarrow> bool) \<Rightarrow> 's \<Rightarrow> 's"

definition SelectMissed :: "int \<Rightarrow> 'd event list \<Rightarrow> 'd event list" where
  "SelectMissed lastEventID hist = filter (\<lambda>ev. lastEventID < ev_ID ev) hist"

section \<open>MemoryStore\<close>

record 'd user_history =
  uh_events :: "'d event list"
  uh_nextID :: int
  uh_updatedAt :: int

record 'd sse_memory =
  sm_history :: "(int \<times> 'd user_history) list"
  sm_now :: int
  sm_lastSweep :: int

definition NewEventMemoryStore :: "int \<Rightarrow> 'd sse_memory" where
  "NewEventMemoryStore t = \<lparr>sm_history = [], sm_now = t, sm_lastSweep = 0\<rparr>"

definition sm_Append :: "int \<Rightarrow> string \<Rightarrow> 'd \<Rightarrow> ('d sse_memory, 'd event) proc" where
  "sm_Append userID eventType data s =
     (let h = (case map_of (sm_history s) userID of
                 None \<Rightarrow> \<lparr>uh_events = [], uh_nextID = 1, uh_updatedAt = 0\<rparr> | Some h \<Rightarrow> h);
          ev = \<lparr>ev_ID = uh_nextID h, ev_Type = eventType, ev_Data = data, ev_Time = []\<rparr>;
          events = uh_events h @ [ev];
          events' = (if historySize < length events
                     then drop (length events - historySize) events else events);
          h' = \<lparr>uh_events = events', uh_nextID = uh_nextID h + 1, uh_updatedAt = sm_now s\<rparr>
      in (Ok ev, s\<lparr>sm_history := AList.update userID h' (sm_history s)\<rparr>))"

definition sm_Replay :: "int \<Rightarrow> int \<Rightarrow> ('d sse_memory, 'd event list) proc" where
  "sm_Replay userID lastEventID s =
     (if lastEventID < 0 then (Ok [], s)
      else (case map_of (sm_history s) userID of
          None \<Rightarrow> (Ok [], s)
        | Some h \<Rightarrow>
            if uh_nextID h \<le> lastEventID then (Ok [], s)
            else (Ok (SelectMissed lastEventID (uh_events h)), s)))"

definition sm_ReleaseIfIdle :: "(int \<Rightarrow> bool) \<Rightarrow> 'd sse_memory \<Rightarrow> 'd sse_memory" where
  "sm_ReleaseIfIdle connected s =
     (if sm_now s - sm_lastSweep s < historySweepInterval then s
      else s\<lparr>sm_lastSweep := sm_now s,
             sm_history := filter (\<lambda>(userID, h).
               connected userID \<or> \<not> historyTTL \<le> sm_now s - uh_updatedAt h) (sm_history s)\<rparr>)"

definition MemoryEventStore :: "('d sse_memory, 'd) sse_store" where
  "MemoryEventStore =
     \<lparr>sst_Append = sm_Append, sst_Replay = sm_Replay, sst_ReleaseIfIdle = sm_ReleaseIfIdle\<rparr>"

section \<open>SSEStore on Redis\<close>

datatype 'd history_entry = Encoded "'d event" | Corrupt string

definition sseHistorySize :: nat where
  "sseHistorySize = 100"

definition sseHistoryTTL :: int where
  "sseHistoryTTL = 10 * 60 * 1000"

definition sseCounterKey :: "int \<Rightarrow> string" where
  "sseCounterKey userID = ''sse:seq:'' @ Itoa userID"

definition sseHistoryKey :: "int \<Rightarrow> string" where
  "sseHistoryKey userID = ''sse:history:'' @ Itoa userID"

text \<open>The script puts the fresh number between the two halves of the encoded event
  (\<open>splitEventJSON\<close>); \<open>enc\<close> is that composition. \<open>EXPIRE\<close> counts seconds.\<close>

definition sseAppendScript ::
  "('r, 'd history_entry) redis \<Rightarrow> string \<Rightarrow> string \<Rightarrow> (int \<Rightarrow> 'd event) \<Rightarrow> nat \<Rightarrow> int \<Rightarrow>
     int \<Rightarrow> 'r \<Rightarrow> int \<times> 'r" where
  "sseAppendScript R counter history enc limit ttl now r =
     (let (i, r1) = rd_Incr R now counter r;
          r2 = rd_RPush R now history (Encoded (enc i)) r1;
          r3 = rd_LTrim R now history limit r2;
          r4 = rd_PExpire R now history (ttl * 1000) r3
      in (i, r4))"

definition splitEventJSON :: "('d \<Rightarrow> bool) \<Rightarrow> string \<Rightarrow> 'd \<Rightarrow> (int \<Rightarrow> 'd event) result" where
  "splitEventJSON encodes eventType data =
     (if encodes data
      then Ok (\<lambda>i. \<lparr>ev_ID = i, ev_Type = eventType, ev_Data = data, ev_Time = []\<rparr>)
      else Err (Errorf ''failed to encode an SSE event''))"

definition se_Append ::
  "('r, 'd history_entry) redis \<Rightarrow> ('d \<Rightarrow> bool) \<Rightarrow> int \<Rightarrow> string \<Rightarrow> 'd \<Rightarrow>
     ('r conn, 'd event) proc" where
  "se_Append R encodes userID eventType data =
     bindP (liftR (splitEventJSON encodes eventType data)) (\<lambda>enc.
     tryP (rcall (sseAppendScript R (sseCounterKey userID) (sseHistoryKey userID) enc
             sseHistorySize (sseHistoryTTL div 1000))) (\<lambda>reply.
       case reply of
         Inl err \<Rightarrow> throw (PlainError ''failed to record an SSE event'' (Some err))
       | Inr i \<Rightarrow>
           ret \<lparr>ev_ID = i, ev_Type = eventType, ev_Data = data, ev_Time = []\<rparr>))"

fun decoded :: "'d history_entry list \<Rightarrow> 'd event list" where
  "decoded [] = []"
| "decoded (Encoded ev # raws) = ev # decoded raws"
| "decoded (Corrupt s # raws) = decoded raws"

text \<open>One pipeline of \<open>LRANGE\<close> and \<open>GET\<close>, one round trip.\<close>

definition se_Replay ::
  "('r, 'd history_entry) redis \<Rightarrow> int \<Rightarrow> int \<Rightarrow> ('r conn, 'd event list) proc" where
  "se_Replay R userID lastEventID =
     (if lastEventID < 0 then ret []
      else tryP (rcall (\<lambda>now r.
             ((rd_LRange R now (sseHistoryKey userID) r, rd_Get R now (sseCounterKey userID) r), r)))
        (\<lambda>reply. case reply of
           Inl err \<Rightarrow> throw (PlainError ''failed to read the SSE history'' (Some err))
         | Inr (raws, counter) \<Rightarrow>
             let lastIssued = (case counter of
                   Some (RStr raw) \<Rightarrow> (case Atoi raw of Some n \<Rightarrow> n | None \<Rightarrow> 0) | _ \<Rightarrow> 0)
             in if lastIssued < lastEventID then ret []
                else if raws = [] then ret []
                else ret (SelectMissed lastEventID (decoded raws))))"

definition se_ReleaseIfIdle :: "(int \<Rightarrow> bool) \<Rightarrow> 'r conn \<Rightarrow> 'r conn" where
  "se_ReleaseIfIdle connected s = s"

definition RedisEventStore ::
  "('r, 'd history_entry) redis \<Rightarrow> ('d \<Rightarrow> bool) \<Rightarrow> ('r conn, 'd) sse_store" where
  "RedisEventStore R encodes =
     \<lparr>sst_Append = se_Append R encodes, sst_Replay = se_Replay R,
      sst_ReleaseIfIdle = se_ReleaseIfIdle\<rparr>"

section \<open>The contract of a store\<close>

text \<open>A run of a store: between the calls of one server the environment acts (time passes, the
  network decides the fate of round trips, other servers' calls are calls of the run too).\<close>

datatype 'd sse_op = AppendOp int string 'd | ReplayOp int int | ReleaseOp "int list"

fun sse_exec :: "('s, 'd) sse_store \<Rightarrow> 'd sse_op \<Rightarrow> 's \<Rightarrow> 's" where
  "sse_exec S (AppendOp u ty d) s = snd (sst_Append S u ty d s)"
| "sse_exec S (ReplayOp u k) s = snd (sst_Replay S u k s)"
| "sse_exec S (ReleaseOp us) s = sst_ReleaseIfIdle S (\<lambda>u. u \<in> set us) s"

fun sse_run :: "('s, 'd) sse_store \<Rightarrow> ('e \<Rightarrow> 's \<Rightarrow> 's) \<Rightarrow> ('e \<times> 'd sse_op) list \<Rightarrow> 's \<Rightarrow> 's" where
  "sse_run S env [] s = s"
| "sse_run S env ((e, op) # ops) s = sse_run S env ops (sse_exec S op (env e s))"

fun appends_to :: "int \<Rightarrow> ('e \<times> 'd sse_op) list \<Rightarrow> nat" where
  "appends_to u [] = 0"
| "appends_to u ((e, AppendOp v ty d) # ops) = (if v = u then 1 else 0) + appends_to u ops"
| "appends_to u ((e, op) # ops) = appends_to u ops"

text \<open>The history of a user ends with the last number issued and has no gap.\<close>

definition history_ok :: "int \<Rightarrow> 'd event list \<Rightarrow> bool" where
  "history_ok n evs \<longleftrightarrow> length evs \<le> 100 \<and> int (length evs) \<le> n \<and>
     (\<forall>i < length evs. ev_ID (evs ! i) = n - int (length evs) + int i + 1)"

lemma history_ok_Nil [simp]: "history_ok n [] \<longleftrightarrow> 0 \<le> n"
  by (simp add: history_ok_def)

lemma history_ok_append:
  assumes "history_ok n evs" "ev_ID ev = n + 1"
  shows "history_ok (n + 1) (take_last 100 (evs @ [ev]))"
  using assms by (auto simp: history_ok_def take_last_def nth_append not_less less_Suc_eq)

lemma history_ok_ID_le: "history_ok n evs \<Longrightarrow> ev \<in> set evs \<Longrightarrow> ev_ID ev \<le> n"
  by (auto simp: history_ok_def in_set_conv_nth)

lemma history_ok_sorted: "history_ok n evs \<Longrightarrow> sorted_wrt (\<lambda>a b. ev_ID a < ev_ID b) evs"
  by (auto simp: history_ok_def sorted_wrt_iff_nth_less)

lemma rev_take_last: "rev (take_last n xs) = take n (rev xs)"
  by (cases "n \<le> length xs") (simp_all add: take_last_def rev_drop)

lemma length_take_last [simp]: "length (take_last n xs) = min n (length xs)"
  by (simp add: take_last_def)

text \<open>\<open>placed m ev evs\<close>: the event has exactly \<open>m\<close> successors in the history.\<close>

definition placed :: "nat \<Rightarrow> 'd event \<Rightarrow> 'd event list \<Rightarrow> bool" where
  "placed m ev evs \<longleftrightarrow> m < length evs \<and> rev evs ! m = ev"

lemma placed_0: "placed 0 ev (take_last 100 (evs @ [ev]))"
  by (simp add: placed_def rev_take_last)

lemma placed_append:
  assumes "placed m ev evs" "m + 1 < 100"
  shows "placed (m + 1) ev (take_last 100 (evs @ [x]))"
  using assms by (auto simp: placed_def rev_take_last)

lemma placed_in_set: "placed m ev evs \<Longrightarrow> ev \<in> set evs"
  by (metis placed_def length_rev nth_mem set_rev)

text \<open>Numbers are Go's 64-bit integers: \<open>inv n\<close> bounds the numbers issued so far by \<open>n\<close>.\<close>

locale event_store =
  fixes S :: "('s, 'd) sse_store"
    and env :: "'e \<Rightarrow> 's \<Rightarrow> 's"
    and inv :: "int \<Rightarrow> 's \<Rightarrow> bool"
    and clock :: "'s \<Rightarrow> int"
    and issued :: "'s \<Rightarrow> int \<Rightarrow> int"
    and retained :: "'s \<Rightarrow> int \<Rightarrow> 'd event list"
    and expires :: "'s \<Rightarrow> int \<Rightarrow> int"
  assumes inv_env: "inv n s \<Longrightarrow> inv n (env e s)"
    and inv_exec: "inv n s \<Longrightarrow> n + 1 < 2 ^ 63 \<Longrightarrow> inv (n + 1) (sse_exec S op s)"
    and history: "inv n s \<Longrightarrow> history_ok (issued s u) (retained s u)"
    and clock_env: "clock s \<le> clock (env e s)"
    and clock_exec: "clock (sse_exec S op s) = clock s"
    and appended: "inv n s \<Longrightarrow> n + 1 < 2 ^ 63 \<Longrightarrow> sst_Append S u ty d s = (Inr ev, t) \<Longrightarrow>
      ev = \<lparr>ev_ID = issued s u + 1, ev_Type = ty, ev_Data = d, ev_Time = []\<rparr> \<and>
      issued t u = issued s u + 1 \<and> retained t u = take_last 100 (retained s u @ [ev]) \<and>
      expires t u = clock s + historyTTL"
    and append_effect: "inv n s \<Longrightarrow> n + 1 < 2 ^ 63 \<Longrightarrow> t = sse_exec S (AppendOp v ty d) s \<Longrightarrow>
      issued t u = issued s u \<and> retained t u = retained s u \<and> expires t u = expires s u \<or>
      v = u \<and> issued t u = issued s u + 1 \<and> expires t u = clock s + historyTTL \<and>
      (\<exists>ev. retained t u = take_last 100 (retained s u @ [ev]))"
    and replay_effect: "sse_exec S (ReplayOp v k) s = t \<Longrightarrow> inv n s \<Longrightarrow>
      issued t u = issued s u \<and> retained t u = retained s u \<and> expires t u = expires s u"
    and release_effect: "inv n s \<Longrightarrow> clock s < expires s u \<Longrightarrow> sse_exec S (ReleaseOp us) s = t \<Longrightarrow>
      issued t u = issued s u \<and> retained t u = retained s u \<and> expires t u = expires s u"
    and env_effect: "clock (env e s) < expires s u \<Longrightarrow> inv n s \<Longrightarrow>
      issued (env e s) u = issued s u \<and> retained (env e s) u = retained s u \<and>
      expires (env e s) u = expires s u"
    and replayed: "inv n s \<Longrightarrow> n < 2 ^ 63 \<Longrightarrow> sst_Replay S u k s = (Inr evs, t) \<Longrightarrow>
      evs = (if k < 0 \<or> issued s u < k then [] else SelectMissed k (retained s u))"
begin

lemma inv_run: "inv n s \<Longrightarrow> n + int (length ops) < 2 ^ 63 \<Longrightarrow>
    inv (n + int (length ops)) (sse_run S env ops s)"
proof (induction ops arbitrary: n s)
  case (Cons eop ops)
  obtain e op where eop: "eop = (e, op)" by fastforce
  have "inv (n + 1) (sse_exec S op (env e s))"
    using Cons.prems by (intro inv_exec inv_env) auto
  from Cons.IH [OF this] Cons.prems show ?case by (simp add: eop algebra_simps)
qed simp

lemma clock_run: "clock s \<le> clock (sse_run S env ops s)"
proof (induction ops arbitrary: s)
  case (Cons eop ops)
  obtain e op where "eop = (e, op)" by fastforce
  then show ?case
    using Cons.IH [of "sse_exec S op (env e s)"] clock_env [of s e] by (simp add: clock_exec)
qed simp

lemma exec_keeps:
  assumes "inv n s" "n + 1 < 2 ^ 63" "clock s < T" "T \<le> expires s u" "T \<le> clock s + historyTTL"
    and "placed m ev (retained s u)" "m + appends_to u [(e, op)] < 100"
  shows "T \<le> expires (sse_exec S op s) u \<and>
    (\<exists>m'. placed m' ev (retained (sse_exec S op s) u) \<and> m' \<le> m + appends_to u [(e, op)])"
proof (cases op)
  case (AppendOp v ty d)
  from append_effect [OF assms(1,2) refl, of v ty d u] show ?thesis
  proof (elim disjE)
    assume "v = u \<and> issued (sse_exec S (AppendOp v ty d) s) u = issued s u + 1 \<and>
      expires (sse_exec S (AppendOp v ty d) s) u = clock s + historyTTL \<and>
      (\<exists>ev. retained (sse_exec S (AppendOp v ty d) s) u = take_last 100 (retained s u @ [ev]))"
    then show ?thesis
      using assms(5,7) placed_append [OF assms(6)]
      by (auto simp: AppendOp intro!: exI [where x = "Suc m"])
  qed (use assms in \<open>auto simp: AppendOp\<close>)
next
  case (ReplayOp v k)
  with replay_effect [OF refl assms(1), of v k u] assms show ?thesis
    by auto
next
  case (ReleaseOp us)
  with release_effect [OF assms(1) _ refl, of u us] assms show ?thesis
    by auto
qed

lemma run_keeps:
  assumes "inv n s" "n + int (length ops) < 2 ^ 63" "clock (sse_run S env ops s) < T"
    and "T \<le> expires s u" "T \<le> clock s + historyTTL"
    and "placed m ev (retained s u)" "m + appends_to u ops < 100"
  shows "T \<le> expires (sse_run S env ops s) u \<and> (\<exists>m. placed m ev (retained (sse_run S env ops s) u))"
  using assms
proof (induction ops arbitrary: n s m)
  case (Cons eop ops)
  obtain e op where eop: "eop = (e, op)" by fastforce
  let ?s = "env e s" let ?t = "sse_exec S op (env e s)"
  have split: "appends_to u (eop # ops) = appends_to u [(e, op)] + appends_to u ops"
    by (cases op) (simp_all add: eop)
  have room: "n + 1 < 2 ^ 63" "n + 1 + int (length ops) < 2 ^ 63"
    using Cons.prems(2) by auto
  have inv: "inv n ?s" using Cons.prems(1) by (rule inv_env)
  have time: "clock ?s < T"
    using Cons.prems(3) clock_run [of ?t ops] by (simp add: eop clock_exec)
  have kept: "retained ?s u = retained s u" "expires ?s u = expires s u"
    using env_effect [OF _ Cons.prems(1), of e u] time Cons.prems(4) by auto
  obtain m' where m': "T \<le> expires ?t u" "placed m' ev (retained ?t u)"
      "m' \<le> m + appends_to u [(e, op)]"
    using exec_keeps [OF inv room(1) time, of u m ev e op] Cons.prems clock_env [of s e]
    by (auto simp: kept split)
  have "inv (n + 1) ?t" using inv room(1) by (rule inv_exec)
  from Cons.IH [OF this room(2) _ m'(1) _ m'(2)] show ?case
    using Cons.prems m'(3) clock_env [of s e] by (simp add: eop split [unfolded eop] clock_exec)
qed auto

text \<open>Nothing is lost: an event that was recorded is replayed to every later reconnection within
  the lifetime of the history that has not seen it, unless a hundred newer events have pushed it
  out.\<close>

lemma replay_complete:
  assumes "inv n s" "n + 1 + int (length ops) < 2 ^ 63"
    and "sst_Append S u ty d s = (Inr ev, s1)"
    and "s2 = env e (sse_run S env ops s1)" "clock s2 < clock s + historyTTL"
    and "appends_to u ops < 100"
    and "sst_Replay S u k s2 = (Inr evs, s3)" "0 \<le> k" "k < ev_ID ev"
  shows "ev \<in> set evs"
proof -
  let ?r = "sse_run S env ops s1" let ?T = "clock s + historyTTL"
  have room: "n + 1 < 2 ^ 63" using assms(2) by simp
  note ap = appended [OF assms(1) room assms(3)]
  have s1: "s1 = sse_exec S (AppendOp u ty d) s" using assms(3) by simp
  have inv1: "inv (n + 1) s1" unfolding s1 using assms(1) room by (rule inv_exec)
  have clock1: "clock s1 = clock s" by (simp only: s1 clock_exec)
  have "placed 0 ev (retained s1 u)" using ap placed_0 by metis
  then have r: "?T \<le> expires ?r u \<and> (\<exists>m. placed m ev (retained ?r u))"
    using run_keeps [OF inv1, of ops ?T u 0 ev] assms(2,5,6) ap clock1 clock_env [of ?r e]
    by (simp add: assms(4))
  have invr: "inv (n + 1 + int (length ops)) ?r" using inv1 assms(2) by (rule inv_run)
  have kept: "retained s2 u = retained ?r u"
    using env_effect [OF _ invr, of e u] r assms(5) by (simp add: assms(4))
  then have ev: "ev \<in> set (retained s2 u)" using r placed_in_set by metis
  have inv2: "inv (n + 1 + int (length ops)) s2"
    unfolding assms(4) using invr by (rule inv_env)
  have "ev_ID ev \<le> issued s2 u" using history_ok_ID_le [OF history [OF inv2] ev] .
  then show ?thesis
    using replayed [OF inv2 assms(2,7)] ev assms(8,9) by (auto simp: SelectMissed_def)
qed

text \<open>A replay is in the order of the numbers, without repetition, and all of it is new.\<close>

lemma replay_ordered:
  assumes "inv n s" "n < 2 ^ 63" "sst_Replay S u k s = (Inr evs, t)"
  shows "sorted_wrt (\<lambda>a b. ev_ID a < ev_ID b) evs \<and> (\<forall>ev \<in> set evs. k < ev_ID ev)"
  using history_ok_sorted [OF history [OF assms(1)], of u] replayed [OF assms]
  by (auto simp: SelectMissed_def intro: sorted_wrt_filter)

end

text \<open>A store whose numbering outlives the history: no number is issued twice to one user.\<close>

locale durable_event_store = event_store +
  assumes env_issued: "inv n s \<Longrightarrow> issued s u \<le> issued (env e s) u"
    and release_issued: "inv n s \<Longrightarrow> issued (sse_exec S (ReleaseOp us) s) u = issued s u"
begin

lemma exec_issued:
  assumes "inv n s" "n + 1 < 2 ^ 63"
  shows "issued s u \<le> issued (sse_exec S op s) u"
proof (cases op)
  case (AppendOp v ty d)
  then show ?thesis using append_effect [OF assms refl, of v ty d u] by auto
next
  case (ReplayOp v k)
  then show ?thesis using replay_effect [OF refl assms(1), of v k u] by simp
next
  case (ReleaseOp us)
  then show ?thesis using release_issued [OF assms(1)] by simp
qed

lemma run_issued: "inv n s \<Longrightarrow> n + int (length ops) < 2 ^ 63 \<Longrightarrow>
    issued s u \<le> issued (sse_run S env ops s) u"
proof (induction ops arbitrary: n s)
  case (Cons eop ops)
  obtain e op where eop: "eop = (e, op)" by fastforce
  have inv: "inv n (env e s)" "inv (n + 1) (sse_exec S op (env e s))"
    using inv_exec [OF inv_env [OF Cons.prems(1), of e], of op] inv_env [OF Cons.prems(1), of e]
      Cons.prems(2) by simp_all
  have "issued s u \<le> issued (env e s) u" using Cons.prems(1) by (rule env_issued)
  also have "\<dots> \<le> issued (sse_exec S op (env e s)) u"
    using exec_issued [OF inv(1)] Cons.prems(2) by simp
  also have "\<dots> \<le> issued (sse_run S env ops (sse_exec S op (env e s))) u"
    using Cons.IH [OF inv(2)] Cons.prems(2) by simp
  finally show ?case by (simp add: eop)
qed simp

lemma numbers_increase:
  assumes "inv n s" "n + 2 + int (length ops) < 2 ^ 63"
    and "sst_Append S u ty d s = (Inr ev, s1)"
    and "s2 = env e (sse_run S env ops s1)"
    and "sst_Append S u ty' d' s2 = (Inr ev', s3)"
  shows "ev_ID ev < ev_ID ev'"
proof -
  have room: "n + 1 < 2 ^ 63" using assms(2) by simp
  have s1: "s1 = sse_exec S (AppendOp u ty d) s" using assms(3) by simp
  have inv1: "inv (n + 1) s1" unfolding s1 using assms(1) room by (rule inv_exec)
  have invr: "inv (n + 1 + int (length ops)) (sse_run S env ops s1)"
    using inv1 assms(2) by (intro inv_run) auto
  have inv2: "inv (n + 1 + int (length ops)) s2" unfolding assms(4) using invr by (rule inv_env)
  have "ev_ID ev = issued s1 u" using appended [OF assms(1) room assms(3)] by simp
  also have "\<dots> \<le> issued s2 u"
    using run_issued [OF inv1, of ops u] env_issued [OF invr, of u e] assms(2) by (simp add: assms(4))
  also have "\<dots> < ev_ID ev'"
    using appended [OF inv2 _ assms(5)] assms(2) by simp
  finally show ?thesis .
qed

end

end
