(* ===== verification/Sse_Broker.thy ===== *)
theory Sse_Broker
  imports Sse_Store
begin

text \<open>
  The broker of the server-sent events (internal/sse/broker.go), its delivery ports
  (internal/sse/fanout.go,
  infra/redis/sse_fanout.go).

  A \<open>*Client\<close> is an index into \<open>br_heap\<close>, so that two connections of one user are told apart as
  the code tells pointers apart. Sending on a closed channel and closing a closed channel are the
  two panics of the code; they set \<open>br_panicked\<close>.
\<close>

section \<open>State\<close>

definition maxSSEConnectionsPerUser :: nat where
  "maxSSEConnectionsPerUser = 5"

definition clientBuffer :: nat where
  "clientBuffer = 32"

record 'd client =
  c_ch :: "'d event list"
  c_closed :: bool

record 'd envelope =
  env_UserID :: int
  env_Event :: "'d event"

record ('s, 'd) broker =
  br_clients :: "(int \<times> nat list) list"
  br_heap :: "'d client list"
  br_panicked :: bool
  br_outbox :: "'d envelope list"
  br_store :: 's

type_synonym ('s, 'd) fanout = "'d envelope \<Rightarrow> (('s, 'd) broker, unit) proc"

definition NewBrokerWithStore :: "'s \<Rightarrow> ('s, 'd) broker" where
  "NewBrokerWithStore s =
     \<lparr>br_clients = [], br_heap = [], br_panicked = False, br_outbox = [], br_store = s\<rparr>"

definition clients_of :: "('s, 'd) broker \<Rightarrow> int \<Rightarrow> nat list" where
  "clients_of b userID = lookup_list (br_clients b) userID"

section \<open>Delivery\<close>

definition send_event :: "'d event \<Rightarrow> nat \<Rightarrow> ('s, 'd) broker \<Rightarrow> ('s, 'd) broker" where
  "send_event ev c b =
     (let cl = br_heap b ! c in
      if c_closed cl then b\<lparr>br_panicked := True\<rparr>
      else if length (c_ch cl) < clientBuffer
      then b\<lparr>br_heap := (br_heap b)[c := cl\<lparr>c_ch := c_ch cl @ [ev]\<rparr>]\<rparr>
      else b)"

definition targets_of :: "'d envelope \<Rightarrow> ('s, 'd) broker \<Rightarrow> nat list" where
  "targets_of env b =
     (if env_UserID env = 0 then concat (map snd (br_clients b)) else clients_of b (env_UserID env))"

definition DeliverLocal :: "'d envelope \<Rightarrow> ('s, 'd) broker \<Rightarrow> ('s, 'd) broker" where
  "DeliverLocal env b = fold (send_event (env_Event env)) (targets_of env b) b"

text \<open>The two delivery ports: back to the own clients, or through the Redis channel (whose
  publish may fail).\<close>

definition localFanout_Publish :: "('s, 'd) fanout" where
  "localFanout_Publish env b = (Inr (), DeliverLocal env b)"

definition SSEFanout_Publish :: "bool \<Rightarrow> ('s, 'd) fanout" where
  "SSEFanout_Publish reachable env b =
     (if reachable then (Inr (), b\<lparr>br_outbox := br_outbox b @ [env]\<rparr>)
      else (Inl (Errorf ''publish failed''), b))"

text \<open>\<open>Broker.publish\<close> logs an error of the port and goes on.\<close>

definition broker_publish :: "('s, 'd) fanout \<Rightarrow> 'd envelope \<Rightarrow> ('s, 'd) broker \<Rightarrow> ('s, 'd) broker" where
  "broker_publish fanout env b = snd (fanout env b)"

definition releaseIdleHistory :: "('s, 'd) sse_store \<Rightarrow> ('s, 'd) broker \<Rightarrow> ('s, 'd) broker" where
  "releaseIdleHistory S b =
     b\<lparr>br_store := sst_ReleaseIfIdle S (\<lambda>userID. 0 < length (clients_of b userID)) (br_store b)\<rparr>"

section \<open>Connections\<close>

definition Subscribe ::
  "('s, 'd) sse_store \<Rightarrow> int \<Rightarrow> int \<Rightarrow> (('s, 'd) broker, nat \<times> 'd event list) proc" where
  "Subscribe S userID lastEventID b =
     (if maxSSEConnectionsPerUser \<le> length (clients_of b userID)
      then (Err (Errorf ''too many SSE connections''), b)
      else
        let c = length (br_heap b);
            b1 = b\<lparr>br_heap := br_heap b @ [\<lparr>c_ch = [], c_closed = False\<rparr>],
                   br_clients := append_at userID c (br_clients b)\<rparr>;
            (r, s) = sst_Replay S userID lastEventID (br_store b1)
        in (Ok (c, case r of Inl err \<Rightarrow> [] | Inr missed \<Rightarrow> missed), b1\<lparr>br_store := s\<rparr>))"

definition close_client :: "nat \<Rightarrow> ('s, 'd) broker \<Rightarrow> ('s, 'd) broker" where
  "close_client c b =
     (let cl = br_heap b ! c in
      if c_closed cl then b\<lparr>br_panicked := True\<rparr>
      else b\<lparr>br_heap := (br_heap b)[c := cl\<lparr>c_closed := True\<rparr>]\<rparr>)"

definition Unsubscribe ::
  "('s, 'd) sse_store \<Rightarrow> int \<Rightarrow> nat \<Rightarrow> ('s, 'd) broker \<Rightarrow> ('s, 'd) broker" where
  "Unsubscribe S userID c b =
     (let list = clients_of b userID;
          b1 = (if c \<in> set list
                then (close_client c b)\<lparr>br_clients := AList.update userID (remove1 c list) (br_clients b)\<rparr>
                else b);
          b2 = (if clients_of b1 userID = []
                then b1\<lparr>br_clients := AList.delete userID (br_clients b1)\<rparr> else b1)
      in releaseIdleHistory S b2)"

text \<open>The reader of a connection takes the next event from its channel.\<close>

definition recv_event :: "nat \<Rightarrow> ('s, 'd) broker \<Rightarrow> 'd event option \<times> ('s, 'd) broker" where
  "recv_event c b =
     (if length (br_heap b) \<le> c then (None, b)
      else case c_ch (br_heap b ! c) of
        [] \<Rightarrow> (None, b)
      | ev # evs \<Rightarrow> (Some ev, b\<lparr>br_heap := (br_heap b)[c := (br_heap b ! c)\<lparr>c_ch := evs\<rparr>]\<rparr>))"

section \<open>Publishing\<close>

definition PublishNotificationsChangedToUser ::
  "('s, 'd) fanout \<Rightarrow> 'd \<Rightarrow> int \<Rightarrow> ('s, 'd) broker \<Rightarrow> ('s, 'd) broker" where
  "PublishNotificationsChangedToUser fanout empty_object userID b =
     broker_publish fanout \<lparr>env_UserID = userID,
       env_Event = \<lparr>ev_ID = 0, ev_Type = ''notifications_changed'', ev_Data = empty_object, ev_Time = []\<rparr>\<rparr> b"

definition Broadcast :: "('s, 'd) fanout \<Rightarrow> string \<Rightarrow> 'd \<Rightarrow> ('s, 'd) broker \<Rightarrow> ('s, 'd) broker" where
  "Broadcast fanout eventType data b =
     broker_publish fanout \<lparr>env_UserID = 0,
       env_Event = \<lparr>ev_ID = 0, ev_Type = eventType, ev_Data = data, ev_Time = []\<rparr>\<rparr> b"

definition PublishToUser ::
  "('s, 'd) sse_store \<Rightarrow> ('s, 'd) fanout \<Rightarrow> int \<Rightarrow> string \<Rightarrow> 'd \<Rightarrow> ('s, 'd) broker \<Rightarrow> ('s, 'd) broker" where
  "PublishToUser S fanout userID eventType data b =
     (case sst_Append S userID eventType data (br_store b) of
        (Inl err, s) \<Rightarrow> b\<lparr>br_store := s\<rparr>
      | (Inr ev, s) \<Rightarrow>
          releaseIdleHistory S
            (broker_publish fanout \<lparr>env_UserID = userID, env_Event = ev\<rparr> (b\<lparr>br_store := s\<rparr>)))"

definition ConnectedUserIDs :: "('s, 'd) broker \<Rightarrow> int list" where
  "ConnectedUserIDs b = map fst (br_clients b)"

section \<open>Runs of one broker\<close>

datatype 'd broker_op =
    SubscribeOp int int | UnsubscribeOp int nat | PublishOp int string 'd | ChangedOp 'd int
  | BroadcastOp string 'd | DeliverOp "'d envelope" | RecvOp nat

fun broker_exec ::
  "('s, 'd) sse_store \<Rightarrow> ('s, 'd) fanout \<Rightarrow> 'd broker_op \<Rightarrow> ('s, 'd) broker \<Rightarrow> ('s, 'd) broker" where
  "broker_exec S f (SubscribeOp u k) b = snd (Subscribe S u k b)"
| "broker_exec S f (UnsubscribeOp u c) b = Unsubscribe S u c b"
| "broker_exec S f (PublishOp u ty d) b = PublishToUser S f u ty d b"
| "broker_exec S f (ChangedOp d u) b = PublishNotificationsChangedToUser f d u b"
| "broker_exec S f (BroadcastOp ty d) b = Broadcast f ty d b"
| "broker_exec S f (DeliverOp env) b = DeliverLocal env b"
| "broker_exec S f (RecvOp c) b = snd (recv_event c b)"

definition broker_run ::
  "('s, 'd) sse_store \<Rightarrow> ('s, 'd) fanout \<Rightarrow> 'd broker_op list \<Rightarrow> ('s, 'd) broker \<Rightarrow> ('s, 'd) broker" where
  "broker_run S f ops b = fold (broker_exec S f) ops b"

section \<open>Invariant\<close>

definition registered :: "('s, 'd) broker \<Rightarrow> nat list" where
  "registered b = concat (map snd (br_clients b))"

definition clients_ok :: "(int \<times> nat list) list \<Rightarrow> bool" where
  "clients_ok m \<longleftrightarrow> distinct (map fst m) \<and> distinct (concat (map snd m)) \<and>
     (\<forall>u cs. map_of m u = Some cs \<longrightarrow> cs \<noteq> [] \<and> length cs \<le> maxSSEConnectionsPerUser)"

definition heap_ok :: "nat set \<Rightarrow> 'd client list \<Rightarrow> bool" where
  "heap_ok cs heap \<longleftrightarrow> (\<forall>c. c \<in> cs \<longleftrightarrow> c < length heap \<and> \<not> c_closed (heap ! c)) \<and>
     (\<forall>c < length heap. length (c_ch (heap ! c)) \<le> clientBuffer)"

definition broker_ok :: "('s, 'd) broker \<Rightarrow> bool" where
  "broker_ok b \<longleftrightarrow> \<not> br_panicked b \<and> clients_ok (br_clients b) \<and>
     heap_ok (set (registered b)) (br_heap b)"

lemma mset_registered: "mset (registered b) = grouped (br_clients b)"
  by (simp add: registered_def grouped_def)

lemma registered_upd [simp]:
  "registered (b\<lparr>br_heap := h\<rparr>) = registered b" "registered (b\<lparr>br_store := s\<rparr>) = registered b"
  "registered (b\<lparr>br_outbox := out\<rparr>) = registered b"
  by (simp_all add: registered_def)

lemma NewBroker_ok: "broker_ok (NewBrokerWithStore s)"
  by (simp add: broker_ok_def NewBrokerWithStore_def registered_def clients_ok_def heap_ok_def)

lemma heap_ok_alloc: "heap_ok cs h \<Longrightarrow> heap_ok (insert (length h) cs) (h @ [\<lparr>c_ch = [], c_closed = False\<rparr>])"
  by (auto simp: heap_ok_def nth_append less_Suc_eq)

lemma heap_ok_close:
  "heap_ok cs h \<Longrightarrow> c \<in> cs \<Longrightarrow> heap_ok (cs - {c}) (h[c := (h ! c)\<lparr>c_closed := True\<rparr>])"
  by (auto simp: heap_ok_def nth_list_update)

lemma heap_ok_recv:
  "heap_ok cs h \<Longrightarrow> c < length h \<Longrightarrow> c_ch (h ! c) = ev # evs \<Longrightarrow>
     heap_ok cs (h[c := (h ! c)\<lparr>c_ch := evs\<rparr>])"
  by (fastforce simp: heap_ok_def nth_list_update)

lemma clients_ok_append:
  assumes "clients_ok m" "c \<notin> set (concat (map snd m))"
    and "length (lookup_list m u) < maxSSEConnectionsPerUser"
  shows "clients_ok (append_at u c m)"
    and "set (concat (map snd (append_at u c m))) = insert c (set (concat (map snd m)))"
proof -
  have m: "mset (concat (map snd (append_at u c m))) = mset (c # concat (map snd m))"
    using grouped_append_at [of u c m] by (simp add: grouped_def)
  show "set (concat (map snd (append_at u c m))) = insert c (set (concat (map snd m)))"
    using mset_eq_setD [OF m] by simp
  have "distinct (concat (map snd (append_at u c m)))"
    using assms(1,2) mset_eq_imp_distinct_iff [OF m] by (simp add: clients_ok_def)
  then show "clients_ok (append_at u c m)"
    using assms by (auto simp: clients_ok_def distinct_append_at map_of_append_at lookup_list_def
        simp del: map_of_eq_Some_iff split: option.splits if_splits)
qed

definition drop_client :: "int \<Rightarrow> nat \<Rightarrow> (int \<times> nat list) list \<Rightarrow> (int \<times> nat list) list" where
  "drop_client u c m =
     (let m' = (if c \<in> set (lookup_list m u) then AList.update u (remove1 c (lookup_list m u)) m else m)
      in if lookup_list m' u = [] then AList.delete u m' else m')"

lemma drop_absent:
  assumes "clients_ok m" "c \<notin> set (lookup_list m u)"
  shows "drop_client u c m = m"
proof (cases "lookup_list m u = []")
  case True
  then have "map_of m u = None"
    using assms(1) by (auto simp: lookup_list_def clients_ok_def simp del: map_of_eq_Some_iff
        split: option.splits)
  then show ?thesis using True
    by (auto simp: drop_client_def AList.delete_eq map_of_eq_None_iff image_iff intro!: filter_True)
qed (use assms in \<open>simp add: drop_client_def\<close>)

lemma clients_ok_drop:
  assumes "clients_ok m" "c \<in> set (lookup_list m u)"
  shows "clients_ok (drop_client u c m)"
    and "set (concat (map snd (drop_client u c m))) = set (concat (map snd m)) - {c}"
proof -
  let ?cs = "lookup_list m u"
  let ?m' = "AList.update u (remove1 c ?cs) m"
  have keys: "distinct (map fst m)" "distinct (map fst ?m')"
    using assms(1) by (simp_all add: clients_ok_def distinct_update)
  have "mset (concat (map snd ?m')) + mset ?cs = mset (concat (map snd m)) + mset (remove1 c ?cs)"
    using grouped_update [OF keys(1), of u "remove1 c ?cs"] by (simp add: grouped_def)
  moreover have "mset ?cs = add_mset c (mset (remove1 c ?cs))"
    using assms(2) by simp
  ultimately have m': "mset (concat (map snd m)) = mset (c # concat (map snd ?m'))"
    by (metis add_mset_add_single add_right_cancel mset.simps(2) union_mset_add_mset_left
        union_mset_add_mset_right)
  have "mset (concat (map snd (AList.delete u ?m'))) = mset (concat (map snd ?m'))"
    if "remove1 c ?cs = []"
    using grouped_delete [OF keys(2), of u] that by (simp add: grouped_def lookup_list_update)
  then have m'': "mset (concat (map snd (drop_client u c m))) = mset (concat (map snd ?m'))"
    using assms(2) by (simp add: drop_client_def Let_def lookup_list_update)
  have d: "distinct (c # concat (map snd ?m'))"
    using assms(1) mset_eq_imp_distinct_iff [OF m'] unfolding clients_ok_def by blast
  show "set (concat (map snd (drop_client u c m))) = set (concat (map snd m)) - {c}"
    using mset_eq_setD [OF m'] mset_eq_setD [OF m''] d by auto
  have "distinct (concat (map snd (drop_client u c m)))"
    using d mset_eq_imp_distinct_iff [OF m''] by simp
  moreover have "distinct (map fst (drop_client u c m))"
    using keys by (simp add: drop_client_def Let_def distinct_delete)
  moreover have "cs \<noteq> [] \<and> length cs \<le> maxSSEConnectionsPerUser"
    if "map_of (drop_client u c m) v = Some cs" for v cs
  proof -
    have "map_of m v = Some cs \<or> cs = remove1 c ?cs \<and> cs \<noteq> []"
      using that assms(2)
      by (auto simp: drop_client_def Let_def delete_conv' update_conv' lookup_list_update
          simp del: map_of_eq_Some_iff split: if_splits)
    moreover have "length ?cs \<le> maxSSEConnectionsPerUser"
      using assms by (auto simp: clients_ok_def lookup_list_def simp del: map_of_eq_Some_iff
          split: option.splits)
    ultimately show ?thesis
      using assms(1) by (auto simp: clients_ok_def length_remove1 simp del: map_of_eq_Some_iff
          split: if_splits)
  qed
  ultimately show "clients_ok (drop_client u c m)"
    by (simp add: clients_ok_def del: map_of_eq_Some_iff)
qed

text \<open>\<open>offer\<close> is the effect of a delivery in closed form: every target with room takes the event.\<close>

definition offer :: "'d event \<Rightarrow> nat set \<Rightarrow> 'd client list \<Rightarrow> 'd client list" where
  "offer ev cs heap = map (\<lambda>i. let cl = heap ! i in
     if i \<in> cs \<and> length (c_ch cl) < clientBuffer then cl\<lparr>c_ch := c_ch cl @ [ev]\<rparr> else cl)
     [0..<length heap]"

lemma length_offer [simp]: "length (offer ev cs heap) = length heap"
  by (simp add: offer_def)

lemma nth_offer: "i < length heap \<Longrightarrow> offer ev cs heap ! i =
    (if i \<in> cs \<and> length (c_ch (heap ! i)) < clientBuffer
     then (heap ! i)\<lparr>c_ch := c_ch (heap ! i) @ [ev]\<rparr> else heap ! i)"
  by (simp add: offer_def Let_def)

lemma offer_empty [simp]: "offer ev {} heap = heap"
  by (rule nth_equalityI) (simp_all add: nth_offer)

lemma offer_insert: "c \<notin> cs \<Longrightarrow> offer ev cs (offer ev {c} heap) = offer ev (insert c cs) heap"
  by (rule nth_equalityI) (auto simp: nth_offer)

definition open_clients :: "nat list \<Rightarrow> 'd client list \<Rightarrow> bool" where
  "open_clients cs heap \<longleftrightarrow> (\<forall>c \<in> set cs. c < length heap \<and> \<not> c_closed (heap ! c))"

lemma send_open:
  assumes "open_clients [c] (br_heap b)"
  shows "send_event ev c b = b\<lparr>br_heap := offer ev {c} (br_heap b)\<rparr>"
proof -
  have "offer ev {c} (br_heap b) = (if length (c_ch (br_heap b ! c)) < clientBuffer
      then (br_heap b)[c := (br_heap b ! c)\<lparr>c_ch := c_ch (br_heap b ! c) @ [ev]\<rparr>] else br_heap b)"
    by (rule nth_equalityI) (auto simp: nth_offer nth_list_update)
  with assms show ?thesis by (simp add: send_event_def open_clients_def Let_def)
qed

lemma fold_send:
  "distinct cs \<Longrightarrow> open_clients cs (br_heap b) \<Longrightarrow>
     fold (send_event ev) cs b = b\<lparr>br_heap := offer ev (set cs) (br_heap b)\<rparr>"
proof (induction cs arbitrary: b)
  case (Cons c cs)
  let ?b = "b\<lparr>br_heap := offer ev {c} (br_heap b)\<rparr>"
  have "send_event ev c b = ?b"
    using Cons.prems(2) by (intro send_open) (simp add: open_clients_def)
  moreover have "open_clients cs (br_heap ?b)"
    using Cons.prems(2) by (auto simp: open_clients_def nth_offer)
  ultimately show ?case using Cons.IH [of ?b] Cons.prems(1) by (simp add: offer_insert)
qed simp

lemma client_registered: "c \<in> set (clients_of b u) \<Longrightarrow> c \<in> set (registered b)"
  by (cases "map_of (br_clients b) u")
    (auto simp: clients_of_def registered_def lookup_list_def intro!: bexI dest: map_of_SomeD)

lemma targets_registered: "set (targets_of env b) \<subseteq> set (registered b)"
proof (cases "env_UserID env = 0")
  case False
  then show ?thesis using client_registered by (auto simp only: targets_of_def if_False)
qed (simp add: targets_of_def registered_def)

lemma distinct_targets: "broker_ok b \<Longrightarrow> distinct (targets_of env b)"
  by (auto simp: targets_of_def broker_ok_def clients_ok_def registered_def clients_of_def lookup_list_def
      distinct_concat_iff dest!: map_of_SomeD split: option.splits)

lemma DeliverLocal_eq:
  assumes "broker_ok b"
  shows "DeliverLocal env b =
    b\<lparr>br_heap := offer (env_Event env) (set (targets_of env b)) (br_heap b)\<rparr>"
  unfolding DeliverLocal_def
proof (rule fold_send [OF distinct_targets [OF assms]])
  show "open_clients (targets_of env b) (br_heap b)"
    using targets_registered [of env b] assms by (auto simp: open_clients_def broker_ok_def heap_ok_def)
qed

lemma heap_ok_offer: "heap_ok cs h \<Longrightarrow> heap_ok cs (offer ev A h)"
  by (auto simp: heap_ok_def nth_offer split: if_splits)

lemma DeliverLocal_ok: "broker_ok b \<Longrightarrow> broker_ok (DeliverLocal env b)"
  by (simp add: DeliverLocal_eq) (simp add: broker_ok_def heap_ok_offer)

lemma store_ok [simp]: "broker_ok (b\<lparr>br_store := s\<rparr>) = broker_ok b"
  "broker_ok (b\<lparr>br_outbox := out\<rparr>) = broker_ok b"
  by (simp_all add: broker_ok_def)

lemma release_ok [simp]: "broker_ok (releaseIdleHistory S b) = broker_ok b"
  by (simp add: releaseIdleHistory_def)

text \<open>A delivery port that keeps the invariant; both ports of the program do.\<close>

definition port_ok :: "('s, 'd) fanout \<Rightarrow> bool" where
  "port_ok f \<longleftrightarrow> (\<forall>env b. broker_ok b \<longrightarrow> broker_ok (snd (f env b)))"

lemma local_port_ok: "port_ok localFanout_Publish"
  by (simp add: port_ok_def localFanout_Publish_def DeliverLocal_ok)

lemma redis_port_ok: "port_ok (SSEFanout_Publish reachable)"
  by (simp add: port_ok_def SSEFanout_Publish_def)

lemma publish_ok: "port_ok f \<Longrightarrow> broker_ok b \<Longrightarrow> broker_ok (broker_publish f env b)"
  by (simp add: port_ok_def broker_publish_def)

lemma PublishToUser_ok: "port_ok f \<Longrightarrow> broker_ok b \<Longrightarrow> broker_ok (PublishToUser S f u ty d b)"
  by (auto simp: PublishToUser_def publish_ok split: prod.splits sum.splits)

lemma recv_ok: "broker_ok b \<Longrightarrow> broker_ok (snd (recv_event c b))"
  by (simp add: recv_event_def broker_ok_def heap_ok_recv split: list.splits)

lemma Subscribe_ok:
  assumes "broker_ok b"
  shows "broker_ok (snd (Subscribe S u k b))"
proof -
  let ?c = "length (br_heap b)"
  have "?c \<notin> set (registered b)" using assms by (simp add: broker_ok_def heap_ok_def)
  then show ?thesis
    using assms clients_ok_append [of "br_clients b" ?c u] heap_ok_alloc [of "set (registered b)" "br_heap b"]
    by (auto simp: Subscribe_def broker_ok_def registered_def clients_of_def Let_def
        simp del: set_concat split: prod.splits)
qed

lemma Unsubscribe_eq:
  assumes "broker_ok b"
  shows "Unsubscribe S u c b = releaseIdleHistory S
    (b\<lparr>br_heap := if c \<in> set (clients_of b u)
         then (br_heap b)[c := (br_heap b ! c)\<lparr>c_closed := True\<rparr>] else br_heap b,
       br_clients := drop_client u c (br_clients b)\<rparr>)"
proof -
  have "\<not> c_closed (br_heap b ! c)" if "c \<in> set (clients_of b u)"
    using client_registered [OF that] assms by (simp add: broker_ok_def heap_ok_def)
  then show ?thesis
    by (simp add: Unsubscribe_def drop_client_def close_client_def clients_of_def Let_def)
qed

lemma Unsubscribe_ok:
  assumes "broker_ok b"
  shows "broker_ok (Unsubscribe S u c b)"
proof (cases "c \<in> set (clients_of b u)")
  case True
  then have "c \<in> set (registered b)" by (rule client_registered)
  with True show ?thesis
    using assms clients_ok_drop [of "br_clients b" c u] heap_ok_close [of "set (registered b)" "br_heap b" c]
    unfolding Unsubscribe_eq [OF assms] release_ok
    by (simp add: broker_ok_def registered_def clients_of_def del: set_concat)
next
  case False
  then show ?thesis
    using assms drop_absent [of "br_clients b" c u] unfolding Unsubscribe_eq [OF assms] release_ok
    by (simp add: broker_ok_def registered_def clients_of_def)
qed

lemma broker_exec_ok: "port_ok f \<Longrightarrow> broker_ok b \<Longrightarrow> broker_ok (broker_exec S f op b)"
  by (cases op) (simp_all add: Subscribe_ok Unsubscribe_ok PublishToUser_ok publish_ok recv_ok
      DeliverLocal_ok PublishNotificationsChangedToUser_def Broadcast_def)

lemma broker_run_ok: "port_ok f \<Longrightarrow> broker_ok b \<Longrightarrow> broker_ok (broker_run S f ops b)"
  unfolding broker_run_def by (induction ops arbitrary: b) (simp_all add: broker_exec_ok)

section \<open>What one delivery does\<close>

lemma open_registered: "broker_ok b \<Longrightarrow> c < length (br_heap b) \<Longrightarrow>
    c \<in> set (registered b) \<longleftrightarrow> \<not> c_closed (br_heap b ! c)"
  by (simp add: broker_ok_def heap_ok_def)

lemma DeliverLocal_channel:
  assumes "broker_ok b" "c < length (br_heap b)"
  shows "c_ch (br_heap (DeliverLocal env b) ! c) =
    (if (if env_UserID env = 0 then \<not> c_closed (br_heap b ! c) else c \<in> set (clients_of b (env_UserID env)))
        \<and> length (c_ch (br_heap b ! c)) < clientBuffer
     then c_ch (br_heap b ! c) @ [env_Event env] else c_ch (br_heap b ! c))"
  using assms open_registered [OF assms]
  by (auto simp: DeliverLocal_eq nth_offer targets_of_def registered_def simp del: set_concat)

lemma DeliverLocal_upd [simp]:
  assumes "broker_ok b"
  shows "br_clients (DeliverLocal env b) = br_clients b"
    "length (br_heap (DeliverLocal env b)) = length (br_heap b)"
    "clients_of (DeliverLocal env b) u = clients_of b u"
  using assms by (simp_all add: DeliverLocal_eq clients_of_def)

text \<open>A connection is registered under one user only.\<close>

lemma owner_unique:
  "distinct (concat (map snd m)) \<Longrightarrow> (u, cs) \<in> set m \<Longrightarrow> (v, ds) \<in> set m \<Longrightarrow>
     c \<in> set cs \<Longrightarrow> c \<in> set ds \<Longrightarrow> u = v"
  by (induction m) fastforce+

lemma clients_of_entry:
  assumes "c \<in> set (clients_of b u)"
  obtains cs where "(u, cs) \<in> set (br_clients b)" "c \<in> set cs"
  using assms that map_of_SomeD [of "br_clients b" u]
  by (cases "map_of (br_clients b) u") (simp_all add: clients_of_def lookup_list_def)

lemma one_owner:
  assumes "broker_ok b" "c \<in> set (clients_of b u)" "c \<in> set (clients_of b v)"
  shows "u = v"
proof (rule clients_of_entry [OF assms(2)], rule clients_of_entry [OF assms(3)])
  fix cs ds
  assume "(u, cs) \<in> set (br_clients b)" "c \<in> set cs" "(v, ds) \<in> set (br_clients b)" "c \<in> set ds"
  moreover have "distinct (concat (map snd (br_clients b)))"
    using assms(1) by (simp add: broker_ok_def clients_ok_def)
  ultimately show "u = v" using owner_unique by metis
qed

lemma fold_DeliverLocal:
  assumes "broker_ok b" "u \<noteq> 0" "c \<in> set (clients_of b u)"
    and "length (c_ch (br_heap b ! c)) + length envs \<le> clientBuffer"
  shows "c_ch (br_heap (fold DeliverLocal envs b) ! c) = c_ch (br_heap b ! c) @
    map env_Event (filter (\<lambda>env. env_UserID env = 0 \<or> env_UserID env = u) envs)"
  using assms
proof (induction envs arbitrary: b)
  case (Cons env envs)
  have c: "c < length (br_heap b)" "\<not> c_closed (br_heap b ! c)"
    using client_registered [OF Cons.prems(3)] Cons.prems(1) by (auto simp: broker_ok_def heap_ok_def)
  have step: "c_ch (br_heap (DeliverLocal env b) ! c) = c_ch (br_heap b ! c) @
      (if env_UserID env = 0 \<or> env_UserID env = u then [env_Event env] else [])"
  proof (cases "env_UserID env = 0 \<or> env_UserID env = u")
    case True
    then show ?thesis
      using Cons.prems(2-4) c by (auto simp: DeliverLocal_channel [OF Cons.prems(1) c(1)])
  next
    case False
    then have "c \<notin> set (clients_of b (env_UserID env))"
      using one_owner [OF Cons.prems(1,3)] by blast
    with False show ?thesis by (simp add: DeliverLocal_channel [OF Cons.prems(1) c(1)])
  qed
  have "length (c_ch (br_heap (DeliverLocal env b) ! c)) + length envs \<le> clientBuffer"
    using Cons.prems(4) by (simp add: step)
  moreover have "c \<in> set (clients_of (DeliverLocal env b) u)"
    using Cons.prems(1,3) by simp
  ultimately show ?case
    using Cons.IH [OF DeliverLocal_ok [OF Cons.prems(1)] Cons.prems(2)] by (simp add: step)
qed simp

section \<open>Several servers\<close>

text \<open>Every server has its own connections and a subscription to the Redis channel; the store is
  shared. \<open>cl_inbox\<close> holds the messages a server has been sent and has not handled.\<close>

record ('s, 'd) cluster =
  cl_nodes :: "('s, 'd) broker list"
  cl_inbox :: "'d envelope list list"
  cl_store :: 's

definition new_cluster :: "nat \<Rightarrow> 's \<Rightarrow> ('s, 'd) cluster" where
  "new_cluster n s = \<lparr>cl_nodes = replicate n (NewBrokerWithStore s), cl_inbox = replicate n [], cl_store = s\<rparr>"

definition cluster_call ::
  "nat \<Rightarrow> (('s, 'd) broker \<Rightarrow> ('s, 'd) broker) \<Rightarrow> ('s, 'd) cluster \<Rightarrow> ('s, 'd) cluster" where
  "cluster_call i f cl =
     (let b = f ((cl_nodes cl ! i)\<lparr>br_store := cl_store cl, br_outbox := []\<rparr>)
      in \<lparr>cl_nodes = (cl_nodes cl)[i := b],
          cl_inbox = map (\<lambda>q. q @ br_outbox b) (cl_inbox cl), cl_store = br_store b\<rparr>)"

definition SSEFanout_receive :: "nat \<Rightarrow> ('s, 'd) cluster \<Rightarrow> ('s, 'd) cluster" where
  "SSEFanout_receive i cl =
     (case cl_inbox cl ! i of
        [] \<Rightarrow> cl
      | env # q \<Rightarrow> cl\<lparr>cl_nodes := (cl_nodes cl)[i := DeliverLocal env (cl_nodes cl ! i)],
                      cl_inbox := (cl_inbox cl)[i := q]\<rparr>)"

datatype 'd cluster_op = CallOp nat bool "'d broker_op" | ReceiveOp nat

fun cluster_exec :: "('s, 'd) sse_store \<Rightarrow> 'd cluster_op \<Rightarrow> ('s, 'd) cluster \<Rightarrow> ('s, 'd) cluster" where
  "cluster_exec S (CallOp i reachable op) cl =
     (if i < length (cl_nodes cl)
      then cluster_call i (broker_exec S (SSEFanout_Publish reachable) op) cl else cl)"
| "cluster_exec S (ReceiveOp i) cl =
     (if i < length (cl_nodes cl) then SSEFanout_receive i cl else cl)"

definition cluster_run :: "('s, 'd) sse_store \<Rightarrow> 'd cluster_op list \<Rightarrow> ('s, 'd) cluster \<Rightarrow> ('s, 'd) cluster" where
  "cluster_run S ops cl = fold (cluster_exec S) ops cl"

definition cluster_ok :: "nat \<Rightarrow> ('s, 'd) cluster \<Rightarrow> bool" where
  "cluster_ok n cl \<longleftrightarrow> length (cl_nodes cl) = n \<and> length (cl_inbox cl) = n \<and>
     (\<forall>b \<in> set (cl_nodes cl). broker_ok b)"

lemma cluster_exec_ok: "cluster_ok n cl \<Longrightarrow> cluster_ok n (cluster_exec S op cl)"
proof (induction S op cl rule: cluster_exec.induct)
  case (1 S i reachable op cl)
  then show ?case
    by (auto simp: cluster_ok_def cluster_call_def Let_def dest!: set_update_subset_insert [THEN subsetD]
        intro!: broker_exec_ok redis_port_ok)
next
  case (2 S i cl)
  then show ?case
    by (auto simp: cluster_ok_def SSEFanout_receive_def dest!: set_update_subset_insert [THEN subsetD]
        intro!: DeliverLocal_ok split: list.split)
qed

lemma cluster_run_ok: "cluster_ok n (cluster_run S ops (new_cluster n s))"
proof -
  have "cluster_ok n cl \<Longrightarrow> cluster_ok n (fold (cluster_exec S) ops cl)" for cl
    by (induction ops arbitrary: cl) (simp_all add: cluster_exec_ok)
  moreover have "cluster_ok n (new_cluster n s)"
    by (simp add: cluster_ok_def new_cluster_def NewBroker_ok)
  ultimately show ?thesis unfolding cluster_run_def by blast
qed

lemma receive_all:
  "j < length (cl_nodes cl) \<Longrightarrow> j < length (cl_inbox cl) \<Longrightarrow>
     cl_nodes ((SSEFanout_receive j ^^ length (cl_inbox cl ! j)) cl) ! j =
       fold DeliverLocal (cl_inbox cl ! j) (cl_nodes cl ! j)"
proof (induction "cl_inbox cl ! j" arbitrary: cl)
  case (Cons env q)
  let ?cl = "SSEFanout_receive j cl"
  have cl: "?cl = cl\<lparr>cl_nodes := (cl_nodes cl)[j := DeliverLocal env (cl_nodes cl ! j)],
      cl_inbox := (cl_inbox cl)[j := q]\<rparr>"
    by (simp add: SSEFanout_receive_def Cons.hyps(2) [symmetric])
  have "cl_nodes ((SSEFanout_receive j ^^ length q) ?cl) ! j =
      fold DeliverLocal q (DeliverLocal env (cl_nodes cl ! j))"
    using Cons.hyps(1) [of ?cl] Cons.prems by (simp add: cl)
  then show ?case
    by (simp add: Cons.hyps(2) [symmetric] funpow_Suc_right del: funpow.simps)
qed simp

section \<open>The properties\<close>

lemma clients_bounded: "broker_ok b \<Longrightarrow> length (clients_of b u) \<le> maxSSEConnectionsPerUser"
  by (cases "map_of (br_clients b) u")
    (auto simp: broker_ok_def clients_ok_def clients_of_def lookup_list_def simp del: map_of_eq_Some_iff)

lemma ok_bounds: "broker_ok b \<Longrightarrow> \<not> br_panicked b \<and> (\<forall>u. length (clients_of b u) \<le> 5) \<and>
    list_all (\<lambda>cl. length (c_ch cl) \<le> 32) (br_heap b)"
  using clients_bounded [of b]
  by (auto simp: broker_ok_def heap_ok_def clientBuffer_def maxSSEConnectionsPerUser_def list_all_length)

text \<open>C17: whatever calls a broker gets, in any order and with any client (subscribing, disconnecting
  twice, delivering to a connection that has just been closed), it never sends on or closes a closed
  channel, holds at most five connections of one user and never more than 32 waiting events of one
  connection, with either delivery port.\<close>
theorem broker_never_panics:
  "let f = (if redis then SSEFanout_Publish reachable else localFanout_Publish);
       b = broker_run S f ops (NewBrokerWithStore s)
   in \<not> br_panicked b \<and> (\<forall>u. length (clients_of b u) \<le> 5) \<and>
      list_all (\<lambda>cl. length (c_ch cl) \<le> 32) (br_heap b)"
  using ok_bounds broker_run_ok [OF local_port_ok NewBroker_ok, of S ops s]
    broker_run_ok [OF redis_port_ok NewBroker_ok, of S reachable ops s]
  by (cases redis) (simp_all add: Let_def)

text \<open>a delivery reaches exactly the open connections it is addressed to (all of them for user
  0, otherwise those of the user) that have room in their buffer, and no other connection.\<close>
theorem delivery_exact:
  assumes "b = broker_run S localFanout_Publish ops (NewBrokerWithStore s)" "c < length (br_heap b)"
  shows "c_ch (br_heap (DeliverLocal env b) ! c) =
    (if (if env_UserID env = 0 then \<not> c_closed (br_heap b ! c) else c \<in> set (clients_of b (env_UserID env)))
        \<and> length (c_ch (br_heap b ! c)) < 32
     then c_ch (br_heap b ! c) @ [env_Event env] else c_ch (br_heap b ! c))"
  using DeliverLocal_channel [OF broker_run_ok [OF local_port_ok NewBroker_ok] assms(2) [unfolded assms(1)]]
  by (simp add: assms(1) clientBuffer_def)

lemma release_nodes [simp]: "br_clients (releaseIdleHistory S b) = br_clients b"
  "br_heap (releaseIdleHistory S b) = br_heap b" "br_outbox (releaseIdleHistory S b) = br_outbox b"
  by (simp_all add: releaseIdleHistory_def)

lemma publish_redis:
  assumes "sst_Append S u ty d (br_store b) = (Inr ev, s)" "br_outbox b = []"
  shows "br_clients (PublishToUser S (SSEFanout_Publish True) u ty d b) = br_clients b"
    "br_heap (PublishToUser S (SSEFanout_Publish True) u ty d b) = br_heap b"
    "br_outbox (PublishToUser S (SSEFanout_Publish True) u ty d b) = [\<lparr>env_UserID = u, env_Event = ev\<rparr>]"
    "br_panicked (PublishToUser S (SSEFanout_Publish True) u ty d b) = br_panicked b"
  using assms
  by (simp_all add: PublishToUser_def broker_publish_def SSEFanout_Publish_def releaseIdleHistory_def)

lemma deliver_same_view:
  assumes "br_clients b = br_clients b'" "br_heap b = br_heap b'" "br_panicked b = br_panicked b'"
  shows "broker_ok b = broker_ok b'" "clients_of b u = clients_of b' u"
  using assms by (simp_all add: broker_ok_def registered_def clients_of_def)

lemma publish_reaches:
  assumes ok: "cluster_ok n cl" and ij: "i < n" "j < n" and u: "u \<noteq> 0"
    and ap: "sst_Append S u ty d (cl_store cl) = (Inr ev, s')"
    and c: "c \<in> set (clients_of (cl_nodes cl ! j) u)"
    and room: "length (c_ch (br_heap (cl_nodes cl ! j) ! c)) + length (cl_inbox cl ! j) < 32"
    and cl': "cl' = cluster_call i (PublishToUser S (SSEFanout_Publish True) u ty d) cl"
  shows "c_ch (br_heap (cl_nodes ((SSEFanout_receive j ^^ length (cl_inbox cl' ! j)) cl') ! j) ! c) =
    c_ch (br_heap (cl_nodes cl ! j) ! c) @
    map env_Event (filter (\<lambda>env. env_UserID env = 0 \<or> env_UserID env = u) (cl_inbox cl ! j)) @ [ev]"
proof -
  let ?b = "cl_nodes cl ! j" and ?b' = "cl_nodes cl' ! j"
  have len: "length (cl_nodes cl) = n" "length (cl_inbox cl) = n" and bok: "broker_ok ?b"
    using ok ij(2) by (auto simp: cluster_ok_def)
  note p = publish_redis [of S u ty d "(cl_nodes cl ! i)\<lparr>br_store := cl_store cl, br_outbox := []\<rparr>" ev s']
  have inbox: "cl_inbox cl' ! j = cl_inbox cl ! j @ [\<lparr>env_UserID = u, env_Event = ev\<rparr>]"
    using p(3) ap ij len by (simp add: cl' cluster_call_def Let_def)
  have len': "length (cl_nodes cl') = n" "length (cl_inbox cl') = n"
    using len by (simp_all add: cl' cluster_call_def Let_def)
  have same: "br_clients ?b' = br_clients ?b" "br_heap ?b' = br_heap ?b" "br_panicked ?b' = br_panicked ?b"
    using p(1,2,4) ap ij len by (cases "i = j"; simp add: cl' cluster_call_def Let_def)+
  have "c_ch (br_heap (fold DeliverLocal (cl_inbox cl' ! j) ?b') ! c) = c_ch (br_heap ?b' ! c) @
      map env_Event (filter (\<lambda>env. env_UserID env = 0 \<or> env_UserID env = u) (cl_inbox cl' ! j))"
    by (rule fold_DeliverLocal)
      (use bok c u room in \<open>simp_all add: deliver_same_view [OF same] same(2) inbox clientBuffer_def\<close>)
  then show ?thesis
    using receive_all [of j cl'] len' ij by (simp add: inbox same(2))
qed


section \<open>Witnesses\<close>

definition ex_broker :: "(string sse_memory, string) broker" where
  "ex_broker = broker_run MemoryEventStore localFanout_Publish
     [SubscribeOp 7 (- 1), SubscribeOp 8 (- 1), PublishOp 7 ''a'' ''x'', UnsubscribeOp 8 1]
     (NewBrokerWithStore (NewEventMemoryStore 0))"

theorem delivery_exact_witness:
  "map c_ch (br_heap ex_broker) = [[\<lparr>ev_ID = 1, ev_Type = ''a'', ev_Data = ''x'', ev_Time = []\<rparr>], []] \<and>
   length (c_ch (br_heap (DeliverLocal \<lparr>env_UserID = 7, env_Event =
      \<lparr>ev_ID = 2, ev_Type = ''b'', ev_Data = ''y'', ev_Time = []\<rparr>\<rparr> ex_broker) ! 0)) = 2"
proof -
  have chs: "map c_ch (br_heap ex_broker) =
      [[\<lparr>ev_ID = 1, ev_Type = ''a'', ev_Data = ''x'', ev_Time = []\<rparr>], []]"
    and len: "0 < length (br_heap ex_broker)" and cl: "clients_of ex_broker 7 = [0]"
    by code_simp+
  moreover have "c_ch (br_heap ex_broker ! 0) = map c_ch (br_heap ex_broker) ! 0"
    using len by simp
  ultimately show ?thesis
    by (simp add: delivery_exact [OF ex_broker_def len])
qed

definition ex_cluster :: "(string sse_memory, string) cluster" where
  "ex_cluster = cluster_run MemoryEventStore
     [CallOp 0 True (SubscribeOp 7 (- 1)), CallOp 1 True (SubscribeOp 7 (- 1)),
      CallOp 1 True (BroadcastOp ''terms'' ''t'')] (new_cluster 2 (NewEventMemoryStore 0))"

definition ex_cluster' :: "(string sse_memory, string) cluster" where
  "ex_cluster' = cluster_call 0 (PublishToUser MemoryEventStore (SSEFanout_Publish True) 7 ''a'' ''x'') ex_cluster"


end
