(* ===== verification/Sse_Store_Props.thy ===== *)
theory Sse_Store_Props
  imports Sse_Store Auth_Store_Props
begin

text \<open>
  Both stores of internal/sse keep the contract of \<open>Sse_Store\<close>: the memory store as an
  \<open>event_store\<close>, the Redis store as a \<open>durable_event_store\<close>, whose numbering never starts over.
\<close>

section \<open>MemoryStore\<close>

definition memory_time :: "int \<Rightarrow> 'd sse_memory \<Rightarrow> 'd sse_memory" where
  "memory_time dt s = s\<lparr>sm_now := sm_now s + max 0 dt\<rparr>"

definition sm_inv :: "int \<Rightarrow> 'd sse_memory \<Rightarrow> bool" where
  "sm_inv n s \<longleftrightarrow> 0 \<le> n \<and> distinct (map fst (sm_history s)) \<and>
     (\<forall>u h. map_of (sm_history s) u = Some h \<longrightarrow>
        history_ok (uh_nextID h - 1) (uh_events h) \<and> uh_nextID h \<le> n + 1)"

definition sm_issued :: "'d sse_memory \<Rightarrow> int \<Rightarrow> int" where
  "sm_issued s u = (case map_of (sm_history s) u of None \<Rightarrow> 0 | Some h \<Rightarrow> uh_nextID h - 1)"

definition sm_retained :: "'d sse_memory \<Rightarrow> int \<Rightarrow> 'd event list" where
  "sm_retained s u = (case map_of (sm_history s) u of None \<Rightarrow> [] | Some h \<Rightarrow> uh_events h)"

definition sm_expires :: "'d sse_memory \<Rightarrow> int \<Rightarrow> int" where
  "sm_expires s u = (case map_of (sm_history s) u of None \<Rightarrow> 0 | Some h \<Rightarrow> uh_updatedAt h + historyTTL)"

lemmas sm_defs = sm_issued_def sm_retained_def sm_expires_def
lemmas sm_ops = MemoryEventStore_def sm_Append_def sm_Replay_def sm_ReleaseIfIdle_def
  memory_time_def Let_def

lemma trimmed: "(if historySize < length xs then drop (length xs - historySize) xs else xs) =
    take_last 100 xs"
  by (auto simp: historySize_def take_last_def)

lemma history_ok_nonneg: "history_ok n evs \<Longrightarrow> 0 \<le> n"
  by (auto simp: history_ok_def)

lemma sm_history_ok: "sm_inv n s \<Longrightarrow> history_ok (sm_issued s u) (sm_retained s u)"
  by (auto simp: sm_inv_def sm_defs split: option.splits)

lemma sm_Append_eq:
  "sm_Append u ty d s =
     (let ev = \<lparr>ev_ID = sm_issued s u + 1, ev_Type = ty, ev_Data = d, ev_Time = []\<rparr>
      in (Inr ev, s\<lparr>sm_history := AList.update u
            \<lparr>uh_events = take_last 100 (sm_retained s u @ [ev]), uh_nextID = sm_issued s u + 2,
             uh_updatedAt = sm_now s\<rparr> (sm_history s)\<rparr>))"
  by (simp only: sm_Append_def Let_def trimmed sm_defs) (auto simp: add.commute split: option.splits)

lemma sm_ReleaseIfIdle_lookup:
  assumes "distinct (map fst (sm_history s))"
  shows "map_of (sm_history (sm_ReleaseIfIdle connected s)) u =
    (case map_of (sm_history s) u of
       None \<Rightarrow> None
     | Some h \<Rightarrow> if sm_now s - sm_lastSweep s < historySweepInterval \<or> connected u \<or>
           sm_now s < uh_updatedAt h + historyTTL then Some h else None)"
  using assms
  by (auto simp: sm_ReleaseIfIdle_def map_of_filter_distinct simp del: map_of_eq_Some_iff
      split: option.splits)

lemma sm_ReleaseIfIdle_distinct:
  "distinct (map fst (sm_history s)) \<Longrightarrow>
     distinct (map fst (sm_history (sm_ReleaseIfIdle connected s)))"
  by (simp add: sm_ReleaseIfIdle_def distinct_map_fst_filter)

lemma sm_inv_exec: "sm_inv n s \<Longrightarrow> sm_inv (n + 1) (sse_exec MemoryEventStore op s)"
proof (cases op)
  case (AppendOp u ty d)
  assume inv: "sm_inv n s"
  then have "sm_issued s u \<le> n"
    by (cases "map_of (sm_history s) u") (fastforce simp: sm_inv_def sm_issued_def)+
  then show ?thesis
    using inv history_ok_append [OF sm_history_ok [OF inv, of u]]
    by (fastforce simp: AppendOp MemoryEventStore_def sm_Append_eq Let_def sm_inv_def update_conv'
        distinct_update algebra_simps simp del: map_of_eq_Some_iff split: if_splits)
next
  case (ReleaseOp us)
  assume "sm_inv n s"
  then show ?thesis
    by (fastforce simp: ReleaseOp MemoryEventStore_def sm_inv_def sm_ReleaseIfIdle_lookup
        sm_ReleaseIfIdle_distinct simp del: map_of_eq_Some_iff split: option.splits if_splits)
qed (fastforce simp: sm_inv_def sm_ops split: option.splits if_splits)

interpretation memory: event_store MemoryEventStore memory_time sm_inv sm_now sm_issued sm_retained
  sm_expires
proof (unfold_locales, goal_cases)
  case (2 n s op)
  then show ?case by (simp add: sm_inv_exec)
next
  case (5 op s)
  then show ?case by (cases op) (auto simp: sm_ops split: option.splits)
next
  case (7 n s t v ty d u)
  then show ?case
    by (auto simp: MemoryEventStore_def sm_Append_eq Let_def sm_defs update_conv')
next
  case (9 n s u us t)
  then show ?case
    by (auto simp: MemoryEventStore_def sm_defs sm_inv_def sm_ReleaseIfIdle_lookup
        simp del: map_of_eq_Some_iff split: option.splits)
next
  case (11 n s u k evs t)
  then show ?case
    by (auto simp: sm_ops sm_defs SelectMissed_def split: option.splits if_splits)
qed (auto simp: MemoryEventStore_def sm_Append_eq Let_def sm_defs update_conv' sm_inv_def memory_time_def
      sm_Replay_def simp del: map_of_eq_Some_iff split: option.splits if_splits)

section \<open>SSEStore on Redis\<close>

lemma sse_keys [simp]:
  "sseCounterKey u \<noteq> sseHistoryKey v" "sseHistoryKey v \<noteq> sseCounterKey u"
  "sseCounterKey u = sseCounterKey v \<longleftrightarrow> u = v" "sseHistoryKey u = sseHistoryKey v \<longleftrightarrow> u = v"
  using Itoa_inj by (auto simp: sseCounterKey_def sseHistoryKey_def)

type_synonym 'd sse_keyspace = "'d history_entry keyspace"

definition counter_ok :: "int \<Rightarrow> ('d history_entry rvalue \<times> int option) option \<Rightarrow> bool" where
  "counter_ok n e \<longleftrightarrow> e = None \<or> (\<exists>m. e = Some (RStr (Itoa m), None) \<and> 0 \<le> m \<and> m \<le> n \<and> m < 2 ^ 63)"

definition counter_of :: "('d history_entry rvalue \<times> int option) option \<Rightarrow> int" where
  "counter_of e = counter_value (map_option fst e)"

definition entry_ok :: "int \<Rightarrow> ('d history_entry rvalue \<times> int option) option \<Rightarrow> bool" where
  "entry_ok n e \<longleftrightarrow> e = None \<or>
     (\<exists>evs x. e = Some (RList (map Encoded evs), Some x) \<and> history_ok n evs)"

definition se_inv :: "('r \<Rightarrow> 'd sse_keyspace) \<Rightarrow> int \<Rightarrow> 'r conn \<Rightarrow> bool" where
  "se_inv view n c \<longleftrightarrow> 0 \<le> n \<and> (\<forall>u. counter_ok n (view (rc_store c) (sseCounterKey u)) \<and>
     entry_ok (counter_of (view (rc_store c) (sseCounterKey u))) (view (rc_store c) (sseHistoryKey u)))"

definition se_issued :: "('r \<Rightarrow> 'd sse_keyspace) \<Rightarrow> 'r conn \<Rightarrow> int \<Rightarrow> int" where
  "se_issued view c u = counter_of (view (rc_store c) (sseCounterKey u))"

definition se_retained :: "('r \<Rightarrow> 'd sse_keyspace) \<Rightarrow> 'r conn \<Rightarrow> int \<Rightarrow> 'd event list" where
  "se_retained view c u = decoded (list_value (live (rc_now c) (view (rc_store c) (sseHistoryKey u))))"

definition se_expires :: "('r \<Rightarrow> 'd sse_keyspace) \<Rightarrow> 'r conn \<Rightarrow> int \<Rightarrow> int" where
  "se_expires view c u = (case view (rc_store c) (sseHistoryKey u) of Some (_, Some x) \<Rightarrow> x | _ \<Rightarrow> 0)"

lemmas se_defs = se_issued_def se_retained_def se_expires_def

lemma decoded_Encoded [simp]: "decoded (map Encoded evs) = evs"
  by (induction evs) auto

lemma take_last_map: "take_last n (map f xs) = map f (take_last n xs)"
  by (simp add: take_last_def drop_map)

lemma list_value_RList [simp]: "list_value (Some (RList xs)) = xs" "list_value None = []"
  by (simp_all add: list_value_def)

lemma counter_of_simps [simp]:
  "counter_of None = 0"
  "0 \<le> m \<Longrightarrow> m < 2 ^ 63 \<Longrightarrow> counter_of (Some (RStr (Itoa m), x)) = m"
  by (simp_all add: counter_of_def counter_value_def Atoi_Itoa in_int64_def)

lemma counter_okE:
  assumes "counter_ok n e"
  obtains "e = None" "counter_of e = 0"
  | m where "e = Some (RStr (Itoa m), None)" "0 \<le> m" "m \<le> n" "m < 2 ^ 63" "counter_of e = m"
  using assms that by (auto simp: counter_ok_def)

lemma live_counter: "counter_ok n e \<Longrightarrow> counter_value (live now e) = counter_of e"
  by (auto simp: counter_ok_def counter_of_def counter_value_def)

lemma entry_okE:
  assumes "entry_ok n e"
  obtains "e = None" | evs x where "e = Some (RList (map Encoded evs), Some x)" "history_ok n evs"
  using assms that by (auto simp: entry_ok_def)

locale sse_redis = redis_server R view
  for R :: "('r, 'd history_entry) redis" and view :: "'r \<Rightarrow> 'd sse_keyspace" +
  fixes encodes :: "'d \<Rightarrow> bool"
begin

lemma counter: "se_inv view n c \<Longrightarrow> counter_ok n (view (rc_store c) (sseCounterKey u))"
  by (simp add: se_inv_def)

lemma entry: "se_inv view n c \<Longrightarrow> entry_ok (se_issued view c u) (view (rc_store c) (sseHistoryKey u))"
  by (simp add: se_inv_def se_issued_def)

lemma issued_le: "se_inv view n c \<Longrightarrow> 0 \<le> se_issued view c u \<and> se_issued view c u \<le> n"
  by (rule counter_okE [OF counter, of n c u]) (auto simp: se_issued_def se_inv_def)

lemma history: "se_inv view n c \<Longrightarrow> history_ok (se_issued view c u) (se_retained view c u)"
  using issued_le [of n c u]
  by (auto simp: se_retained_def elim!: entry_okE [OF entry, of n c u])

lemma list_entry: "se_inv view n c \<Longrightarrow>
    list_value (live (rc_now c) (view (rc_store c) (sseHistoryKey u))) = map Encoded (se_retained view c u)"
  by (auto simp: se_retained_def elim!: entry_okE [OF entry, of n c u])

text \<open>What the append script does to the two keys of the user.\<close>

lemma script_effect:
  assumes "se_inv view n c" "sseAppendScript R (sseCounterKey u) (sseHistoryKey u) enc sseHistorySize
      (sseHistoryTTL div 1000) (rc_now c) (rc_store c) = (i, r)"
  shows "i = se_issued view c u + 1 \<and>
    view r = (view (rc_store c))
      (sseCounterKey u \<mapsto> (RStr (Itoa i), None),
       sseHistoryKey u \<mapsto> (RList (map Encoded (take_last 100 (se_retained view c u @ [enc i]))),
          Some (rc_now c + historyTTL)))"
proof -
  let ?v = "view (rc_store c)" and ?now = "rc_now c"
  obtain r1 where incr: "rd_Incr R ?now (sseCounterKey u) (rc_store c) = (i, r1)"
    using assms(2) by (auto simp: sseAppendScript_def Let_def split: prod.splits)
  have i: "i = se_issued view c u + 1"
    using Incr(1) [of ?now "sseCounterKey u" "rc_store c"] live_counter [OF counter [OF assms(1)]]
    by (simp add: incr se_issued_def)
  have "expiry_of ?now (?v (sseCounterKey u)) = None"
    by (rule counter_okE [OF counter, OF assms(1), of u]) (auto simp: expiry_of_def)
  then have r1: "view r1 = ?v(sseCounterKey u \<mapsto> (RStr (Itoa i), None))"
    using Incr(2) [of ?now "sseCounterKey u" "rc_store c"] live_counter [OF counter [OF assms(1)]] i
    by (simp add: incr se_issued_def)
  have r2: "view (rd_RPush R ?now (sseHistoryKey u) (Encoded (enc i)) r1) = (view r1)
      (sseHistoryKey u \<mapsto> (RList (map Encoded (se_retained view c u @ [enc i])),
         expiry_of ?now (?v (sseHistoryKey u))))"
    by (simp add: RPush r1 list_entry [OF assms(1)])
  have "live ?now (Some (x, expiry_of ?now (?v (sseHistoryKey u)))) = Some x"
    for x :: "'d history_entry rvalue"
    by (auto simp: expiry_of_def live_def split: option.splits)
  then have r3: "view (rd_LTrim R ?now (sseHistoryKey u) 100
        (rd_RPush R ?now (sseHistoryKey u) (Encoded (enc i)) r1)) = (view r1)
      (sseHistoryKey u \<mapsto> (RList (map Encoded (take_last 100 (se_retained view c u @ [enc i]))),
         expiry_of ?now (?v (sseHistoryKey u))))" and live3:
    "live ?now (Some (RList (map Encoded (take_last 100 (se_retained view c u @ [enc i]))),
         expiry_of ?now (?v (sseHistoryKey u)))) =
       Some (RList (map Encoded (take_last 100 (se_retained view c u @ [enc i]))))"
    by (simp_all add: LTrim r2 take_last_map [symmetric] expiry_of_def)
  show ?thesis
    using assms(2) i
    by (auto simp: sseAppendScript_def incr PExpire r3 [unfolded i] live3 [unfolded i] r1 historyTTL_def sseHistoryTTL_def
        sseHistorySize_def)
qed

definition same :: "'r conn \<Rightarrow> 'r conn \<Rightarrow> bool" where
  "same c t \<longleftrightarrow> rc_store t = rc_store c \<and> rc_now t = rc_now c"

lemma same_view:
  assumes "same c t"
  shows "se_issued view t = se_issued view c" "se_retained view t = se_retained view c"
    "se_expires view t = se_expires view c" "se_inv view n t = se_inv view n c"
  using assms by (auto simp: same_def se_defs se_inv_def fun_eq_iff)

lemma inv_Suc: "se_inv view n c \<Longrightarrow> se_inv view (n + 1) c"
  by (fastforce simp: se_inv_def counter_ok_def)

definition grown :: "'r conn \<Rightarrow> int \<Rightarrow> 'd event \<Rightarrow> 'r conn \<Rightarrow> bool" where
  "grown c u ev t \<longleftrightarrow> rc_now t = rc_now c \<and> view (rc_store t) = (view (rc_store c))
      (sseCounterKey u \<mapsto> (RStr (Itoa (ev_ID ev)), None),
       sseHistoryKey u \<mapsto> (RList (map Encoded (take_last 100 (se_retained view c u @ [ev]))),
          Some (rc_now c + historyTTL)))"

lemma grown_view:
  assumes "se_inv view n c" "n + 1 < 2 ^ 63" "grown c u ev t" "ev_ID ev = se_issued view c u + 1"
  shows "se_inv view (n + 1) t"
    "se_issued view t v = (if v = u then se_issued view c u + 1 else se_issued view c v)"
    "se_retained view t v =
       (if v = u then take_last 100 (se_retained view c u @ [ev]) else se_retained view c v)"
    "se_expires view t v = (if v = u then rc_now c + historyTTL else se_expires view c v)"
proof -
  have b: "0 \<le> ev_ID ev" "ev_ID ev \<le> n + 1" "ev_ID ev < 2 ^ 63"
    using issued_le [OF assms(1), of u] assms(2,4) by simp_all
  show issued: "se_issued view t v = (if v = u then se_issued view c u + 1 else se_issued view c v)"
    for v using assms(3,4) b(1,3) by (simp add: grown_def se_issued_def)
  show "se_retained view t v =
      (if v = u then take_last 100 (se_retained view c u @ [ev]) else se_retained view c v)"
    using assms(3) by (simp add: grown_def se_retained_def historyTTL_def)
  show "se_expires view t v = (if v = u then rc_now c + historyTTL else se_expires view c v)"
    using assms(3) by (simp add: grown_def se_expires_def)
  have "counter_ok (n + 1) (view (rc_store t) (sseCounterKey v))" for v
    using assms(3) b inv_Suc [OF assms(1)] by (auto simp: grown_def se_inv_def counter_ok_def)
  moreover have "entry_ok (se_issued view t v) (view (rc_store t) (sseHistoryKey v))" for v
  proof (cases "v = u")
    case True
    then show ?thesis
      using assms(3) history_ok_append [OF history [OF assms(1)] assms(4)]
      by (auto simp: issued grown_def entry_ok_def)
  next
    case False
    then show ?thesis using assms(3) entry [OF assms(1), of v] by (simp add: issued grown_def)
  qed
  ultimately show "se_inv view (n + 1) t"
    using assms(1) by (auto simp: se_inv_def se_issued_def)
qed

definition next_event :: "'r conn \<Rightarrow> int \<Rightarrow> string \<Rightarrow> 'd \<Rightarrow> 'd event" where
  "next_event c u ty d = \<lparr>ev_ID = se_issued view c u + 1, ev_Type = ty, ev_Data = d, ev_Time = []\<rparr>"

lemma next_event_ID [simp]: "ev_ID (next_event c u ty d) = se_issued view c u + 1"
  by (simp add: next_event_def)

lemma append_cases:
  assumes "se_inv view n c" "se_Append R encodes u ty d c = (res, t)"
  obtains (same) e where "same c t" "res = Inl e"
  | (grown) "grown c u (next_event c u ty d) t" "\<And>ev. res = Inr ev \<Longrightarrow> ev = next_event c u ty d"
proof (cases "encodes d")
  case False
  with assms(2) that(1) show ?thesis
    by (auto simp: se_Append_def splitEventJSON_def same_def go_simps)
next
  case True
  let ?enc = "\<lambda>i. \<lparr>ev_ID = i, ev_Type = ty, ev_Data = d, ev_Time = []\<rparr>"
  obtain i r where ir: "sseAppendScript R (sseCounterKey u) (sseHistoryKey u) ?enc sseHistorySize
      (sseHistoryTTL div 1000) (rc_now c) (rc_store c) = (i, r)"
    by fastforce
  note eff = script_effect [OF assms(1) ir]
  show ?thesis
    using assms(2) that True eff
    by (cases "next_delivery c")
      (auto simp: se_Append_def splitEventJSON_def tryP_def rcall_def ir same_def grown_def
        next_event_def go_simps)
qed

lemma replay_state: "se_Replay R u k c = (res, t) \<Longrightarrow> same c t"
  by (auto simp: se_Replay_def same_def tryP_def rcall_def go_simps Let_def
      split: if_splits delivery.splits option.splits sum.splits)

lemma append_clock: "se_Append R encodes u ty d c = (res, t) \<Longrightarrow> rc_now t = rc_now c"
  by (auto simp: se_Append_def splitEventJSON_def tryP_def rcall_def go_simps Let_def
      split: if_splits delivery.splits sum.splits prod.splits)

lemma append_inv:
  assumes "se_inv view n c" "n + 1 < 2 ^ 63" "se_Append R encodes u ty d c = (res, t)"
  shows "se_inv view (n + 1) t"
  by (rule append_cases [OF assms(1,3)])
    (use assms(1,2) in \<open>simp_all add: same_view inv_Suc grown_view(1)\<close>)

lemma append_seen:
  assumes "se_inv view n c" "n + 1 < 2 ^ 63" "se_Append R encodes u ty d c = (res, t)"
  shows "(se_issued view t v = se_issued view c v \<and> se_retained view t v = se_retained view c v \<and>
      se_expires view t v = se_expires view c v) \<or>
    (u = v \<and> se_issued view t v = se_issued view c v + 1 \<and>
     se_expires view t v = rc_now c + historyTTL \<and>
     se_retained view t v = take_last 100 (se_retained view c v @ [next_event c u ty d]))"
  by (rule append_cases [OF assms(1,3)])
    (use assms(1,2) in \<open>auto simp: same_view grown_view\<close>)

lemma append_result:
  assumes "se_inv view n c" "n + 1 < 2 ^ 63" "se_Append R encodes u ty d c = (Inr ev, t)"
  shows "ev = next_event c u ty d \<and> se_issued view t u = se_issued view c u + 1 \<and>
    se_expires view t u = rc_now c + historyTTL \<and>
    se_retained view t u = take_last 100 (se_retained view c u @ [ev])"
  by (rule append_cases [OF assms(1,3)])
    (use assms(1,2) in \<open>auto simp: grown_view\<close>)

lemma env_view:
  assumes "se_inv view n c"
  shows "rc_now (conn_env e c) < se_expires view c u \<Longrightarrow>
      se_retained view (conn_env e c) u = se_retained view c u"
    "se_issued view (conn_env e c) u = se_issued view c u"
    "se_expires view (conn_env e c) u = se_expires view c u"
    "se_inv view n (conn_env e c)"
proof -
  show "rc_now (conn_env e c) < se_expires view c u \<Longrightarrow>
      se_retained view (conn_env e c) u = se_retained view c u"
    by (rule entry_okE [OF entry [OF assms], of u])
      (auto simp: conn_env_def se_defs)
qed (use assms in \<open>auto simp: conn_env_def se_defs se_inv_def\<close>)

lemma replay_result:
  assumes "se_inv view n c" "n < 2 ^ 63" "se_Replay R u k c = (Inr evs, t)"
  shows "evs = (if k < 0 \<or> se_issued view c u < k then [] else SelectMissed k (se_retained view c u))"
proof -
  have raws: "rd_LRange R (rc_now c) (sseHistoryKey u) (rc_store c) =
      map Encoded (se_retained view c u)"
    by (simp add: LRange list_entry [OF assms(1)])
  have cnt: "(case rd_Get R (rc_now c) (sseCounterKey u) (rc_store c) of
      Some (RStr raw) \<Rightarrow> (case Atoi raw of Some n \<Rightarrow> n | None \<Rightarrow> 0) | _ \<Rightarrow> 0) = se_issued view c u"
    by (rule counter_okE [OF counter [OF assms(1)], of u])
      (simp_all add: Get se_issued_def Atoi_Itoa in_int64_def)
  show ?thesis
    using assms(3)
    by (cases "next_delivery c")
      (auto simp: se_Replay_def tryP_def rcall_def raws cnt SelectMissed_def go_simps Let_def
        split: if_splits)
qed

end

sublocale sse_redis \<subseteq> events: durable_event_store "RedisEventStore R encodes" conn_env "se_inv view"
  rc_now "se_issued view" "se_retained view" "se_expires view"
proof (unfold_locales, goal_cases)
  case (2 n c op)
  then show ?case
  proof (cases op)
    case (AppendOp u ty d)
    with 2 append_inv [OF 2, of u ty d] show ?thesis
      by (simp add: RedisEventStore_def) (metis prod.collapse)
  next
    case (ReplayOp u k)
    with 2 replay_state [of u k c] show ?thesis
      by (cases "se_Replay R u k c") (auto simp: RedisEventStore_def same_view inv_Suc)
  qed (auto simp: RedisEventStore_def se_ReleaseIfIdle_def inv_Suc)
next
  case (5 op c)
  show ?case
  proof (cases op)
    case (AppendOp u ty d)
    then show ?thesis
      using append_clock by (simp add: RedisEventStore_def) (metis prod.collapse)
  next
    case (ReplayOp u k)
    then show ?thesis using replay_state [of u k c]
      by (cases "se_Replay R u k c") (auto simp: RedisEventStore_def same_def)
  qed (auto simp: RedisEventStore_def se_ReleaseIfIdle_def)
next
  case (6 n c u ty d ev t)
  then show ?case
    using append_result [OF 6(1,2), of u ty d ev t] by (auto simp: RedisEventStore_def next_event_def)
next
  case (7 n c t v ty d u)
  then show ?case
    using append_seen [OF 7(1,2), of v ty d "fst (se_Append R encodes v ty d c)" t u]
    by (fastforce simp: RedisEventStore_def)
next
  case (8 v k c t n u)
  then show ?case using replay_state [of v k c]
    by (cases "se_Replay R v k c") (auto simp: RedisEventStore_def same_view)
next
  case (11 n c u k evs t)
  then show ?case using replay_result by (simp add: RedisEventStore_def)
qed (auto simp: env_view history RedisEventStore_def se_ReleaseIfIdle_def, auto simp: conn_env_def)

interpretation sse_ttl: sse_redis ttl_map map_of "\<lambda>_. True"
  by unfold_locales

section \<open>The properties\<close>

definition no_events :: "('r \<Rightarrow> 'd sse_keyspace) \<Rightarrow> 'r conn \<Rightarrow> bool" where
  "no_events view c \<longleftrightarrow>
     (\<forall>u. view (rc_store c) (sseCounterKey u) = None \<and> view (rc_store c) (sseHistoryKey u) = None)"

lemma no_events_inv: "no_events view c \<Longrightarrow> se_inv view 0 c"
  by (simp add: no_events_def se_inv_def counter_ok_def entry_ok_def)

context sse_redis
begin

lemma reconnect_misses_nothing:
  assumes "no_events view c0" "int (length ops0) + int (length ops) < 2 ^ 62"
    and "c = sse_run (RedisEventStore R encodes) conn_env ops0 c0"
    and "se_Append R encodes u ty d c = (Inr ev, c1)"
    and "c2 = conn_env e (sse_run (RedisEventStore R encodes) conn_env ops c1)"
    and "rc_now c2 < rc_now c + historyTTL" "appends_to u ops < 100"
    and "se_Replay R u k c2 = (Inr evs, c3)" "0 \<le> k" "k < ev_ID ev"
  shows "ev \<in> set evs \<and> sorted_wrt (\<lambda>a b. ev_ID a < ev_ID b) evs \<and> (\<forall>x \<in> set evs. k < ev_ID x)"
proof -
  have inv: "se_inv view (int (length ops0)) c"
    using events.inv_run [OF no_events_inv [OF assms(1)], of ops0] assms(2,3) by simp
  have inv1: "se_inv view (int (length ops0) + 1) c1"
    using append_inv [OF inv _ assms(4)] assms(2) by simp
  have "se_inv view (int (length ops0) + 1 + int (length ops)) c2"
    using events.inv_run [OF inv1, of ops] assms(2) by (simp add: assms(5) env_view)
  from events.replay_ordered [OF this]
  have "sorted_wrt (\<lambda>a b. ev_ID a < ev_ID b) evs \<and> (\<forall>x \<in> set evs. k < ev_ID x)"
    using assms(2,8) by (simp add: RedisEventStore_def)
  moreover have "ev \<in> set evs"
    by (rule events.replay_complete [OF inv, of ops u ty d ev c1 c2 e k evs c3])
      (use assms in \<open>simp_all add: RedisEventStore_def\<close>)
  ultimately show ?thesis by blast
qed

lemma numbers_never_reused:
  assumes "no_events view c0" "int (length ops0) + int (length ops) < 2 ^ 62"
    and "c = sse_run (RedisEventStore R encodes) conn_env ops0 c0"
    and "se_Append R encodes u ty d c = (Inr ev, c1)"
    and "c2 = conn_env e (sse_run (RedisEventStore R encodes) conn_env ops c1)"
    and "se_Append R encodes u ty' d' c2 = (Inr ev', c3)"
  shows "ev_ID ev < ev_ID ev'"
proof -
  have inv: "se_inv view (int (length ops0)) c"
    using events.inv_run [OF no_events_inv [OF assms(1)], of ops0] assms(2,3) by simp
  show ?thesis
    by (rule events.numbers_increase [OF inv, of ops u ty d ev c1 c2 e ty' d' ev' c3])
      (use assms in \<open>simp_all add: RedisEventStore_def\<close>)
qed

end

text \<open>C15: whatever operations of any server and whatever losses on the network came before, an
  event the Redis store has recorded for a user is in every replay to a reconnection that has not
  seen its number, as long as the reconnection comes within the lifetime of the history (ten
  minutes) and fewer than a hundred newer events were recorded for that user; and a replay is
  strictly ascending and holds only numbers above the one the client names.\<close>
theorem redis_reconnect_misses_nothing:
  assumes "redis_server R view" "no_events view c0"
    and "int (length ops0) + int (length ops) < 2 ^ 62"
    and "c = sse_run (RedisEventStore R encodes) conn_env ops0 c0"
    and "se_Append R encodes u ty d c = (Inr ev, c1)"
    and "c2 = conn_env e (sse_run (RedisEventStore R encodes) conn_env ops c1)"
    and "rc_now c2 < rc_now c + historyTTL" "appends_to u ops < 100"
    and "se_Replay R u k c2 = (Inr evs, c3)" "0 \<le> k" "k < ev_ID ev"
  shows "ev \<in> set evs \<and> sorted_wrt (\<lambda>a b. ev_ID a < ev_ID b) evs \<and> (\<forall>x \<in> set evs. k < ev_ID x)"
  using sse_redis.reconnect_misses_nothing [OF sse_redis.intro [OF assms(1)] assms(2-)] .

text \<open>C16: the numbers the Redis store gives one user only grow, over every gap, every server and
  every loss on the network, and also after the history has expired.\<close>
theorem redis_numbers_never_reused:
  assumes "redis_server R view" "no_events view c0"
    and "int (length ops0) + int (length ops) < 2 ^ 62"
    and "c = sse_run (RedisEventStore R encodes) conn_env ops0 c0"
    and "se_Append R encodes u ty d c = (Inr ev, c1)"
    and "c2 = conn_env e (sse_run (RedisEventStore R encodes) conn_env ops c1)"
    and "se_Append R encodes u ty' d' c2 = (Inr ev', c3)"
  shows "ev_ID ev < ev_ID ev'"
  using sse_redis.numbers_never_reused [OF sse_redis.intro [OF assms(1)] assms(2-)] .

text \<open>the same for the store in one process, whose clean-up runs at any moment and with any
  knowledge of who is connected.\<close>
theorem memory_reconnect_misses_nothing:
  assumes "int (length ops0) + int (length ops) < 2 ^ 62"
    and "s = sse_run MemoryEventStore memory_time ops0 (NewEventMemoryStore t0)"
    and "sm_Append u ty d s = (Inr ev, s1)"
    and "s2 = memory_time e (sse_run MemoryEventStore memory_time ops s1)"
    and "sm_now s2 < sm_now s + historyTTL" "appends_to u ops < 100"
    and "sm_Replay u k s2 = (Inr evs, s3)" "0 \<le> k" "k < ev_ID ev"
  shows "ev \<in> set evs"
proof -
  have "sm_inv 0 (NewEventMemoryStore t0)"
    by (simp add: sm_inv_def NewEventMemoryStore_def)
  from memory.inv_run [OF this, of ops0] have "sm_inv (int (length ops0)) s"
    using assms(1,2) by simp
  then show ?thesis
    by (rule memory.replay_complete [of "int (length ops0)" s ops u ty d ev s1 s2 e k evs s3])
      (use assms in \<open>simp_all add: MemoryEventStore_def\<close>)
qed

section \<open>Witnesses\<close>

text \<open>Three events for user 7, one for user 8, a lost reply, and a reconnection after event 1.\<close>

abbreviation all_ok :: "string \<Rightarrow> bool" where
  "all_ok \<equiv> \<lambda>_. True"

definition ex_before :: "((int \<times> delivery list) \<times> string sse_op) list" where
  "ex_before = [((5, []), AppendOp 7 ''a'' ''x''), ((5, [NotSent]), AppendOp 7 ''b'' ''y'')]"

definition ex_after :: "((int \<times> delivery list) \<times> string sse_op) list" where
  "ex_after = [((1000, []), AppendOp 8 ''a'' ''x''), ((5, [ReplyLost]), AppendOp 7 ''c'' ''z'')]"

definition ex_c :: "string history_entry ttl_state conn" where
  "ex_c = sse_run (RedisEventStore ttl_map all_ok) conn_env ex_before empty_conn"

definition ex_c1 :: "string history_entry ttl_state conn" where
  "ex_c1 = snd (se_Append ttl_map all_ok 7 ''d'' ''w'' ex_c)"

definition ex_c2 :: "string history_entry ttl_state conn" where
  "ex_c2 = conn_env (9000, []) (sse_run (RedisEventStore ttl_map all_ok) conn_env ex_after ex_c1)"

definition ex_ev :: "int \<Rightarrow> string \<Rightarrow> string \<Rightarrow> string event" where
  "ex_ev n ty d = \<lparr>ev_ID = n, ev_Type = ty, ev_Data = d, ev_Time = []\<rparr>"

lemma ex_append: "se_Append ttl_map all_ok 7 ''d'' ''w'' ex_c = (Inr (ex_ev 2 ''d'' ''w''), ex_c1)"
  unfolding ex_c1_def by (rule prod_eqI) (code_simp, simp)

lemma ex_replay: "se_Replay ttl_map 7 1 ex_c2 =
    (Inr [ex_ev 2 ''d'' ''w'', ex_ev 3 ''c'' ''z''], snd (se_Replay ttl_map 7 1 ex_c2))"
  by (rule prod_eqI) (code_simp, simp)

lemma ex_time: "rc_now ex_c2 < rc_now ex_c + historyTTL"
  by code_simp

lemma ex_append2: "fst (se_Append ttl_map all_ok 7 ''e'' ''v'' ex_c2) = Inr (ex_ev 4 ''e'' ''v'')"
  by code_simp

lemma empty_no_events: "no_events map_of empty_conn"
  by (simp add: no_events_def empty_conn_def)

theorem redis_reconnect_misses_nothing_witness:
  "ex_ev 2 ''d'' ''w'' \<in> set [ex_ev 2 ''d'' ''w'', ex_ev 3 ''c'' ''z''] \<and>
   se_Replay ttl_map 7 1 ex_c2 =
     (Inr [ex_ev 2 ''d'' ''w'', ex_ev 3 ''c'' ''z''], snd (se_Replay ttl_map 7 1 ex_c2))"
  using redis_reconnect_misses_nothing [OF ttl_map_server empty_no_events _ ex_c_def ex_append
      ex_c2_def ex_time _ ex_replay] ex_replay
  by (simp add: ex_before_def ex_after_def ex_ev_def)

theorem redis_numbers_never_reused_witness:
  "ev_ID (ex_ev 2 ''d'' ''w'') < ev_ID (ex_ev 4 ''e'' ''v'')"
proof -
  obtain c3 where "se_Append ttl_map all_ok 7 ''e'' ''v'' ex_c2 = (Inr (ex_ev 4 ''e'' ''v''), c3)"
    using ex_append2 by (metis prod.collapse)
  from redis_numbers_never_reused [OF ttl_map_server empty_no_events _ ex_c_def ex_append
      ex_c2_def this]
  show ?thesis by (simp add: ex_before_def ex_after_def)
qed

end
