(* ===== verification/Sse_Stream.thy ===== *)
theory Sse_Stream
  imports Sse_Broker Sse_Store_Props
begin

text \<open>
  Opening a stream of server-sent events: the one-time tickets
  (infra/redis/sse_ticket_repository.go, usecase/notification/issue_stream_ticket.go) and the part
  of the handler before its loop (internal/transport/ssehttp/handler.go). The loop itself copies
  the channel of the connection to the response; \<open>Sse_Broker.recv_event\<close> is its read.
\<close>

section \<open>Tickets\<close>

record stream_session =
  ss_UserID :: int
  ss_Token :: string

definition sseTicketTTL :: int where
  "sseTicketTTL = 30 * 1000"

definition sseTicketKey :: "string \<Rightarrow> string" where
  "sseTicketKey ticket = ''sse_ticket:'' @ ticket"

definition ticket_Issue ::
  "('r, stream_session) redis \<Rightarrow> string \<Rightarrow> stream_session \<Rightarrow> ('r conn, unit) proc" where
  "ticket_Issue R ticket session = SetKey R (sseTicketKey ticket) (RJson session) (Some sseTicketTTL)"

text \<open>A value that does not decode counts as an invalid ticket.\<close>

definition ticket_Consume ::
  "('r, stream_session) redis \<Rightarrow> string \<Rightarrow> ('r conn, stream_session option) proc" where
  "ticket_Consume R ticket =
     bindP (GetDel R (sseTicketKey ticket)) (\<lambda>raw. case raw of
       Some (RJson session) \<Rightarrow> ret (Some session)
     | _ \<Rightarrow> ret None)"

text \<open>\<open>base64.RawURLEncoding\<close>: six bits per character, no padding.\<close>

definition base64url_char :: "nat \<Rightarrow> char" where
  "base64url_char n =
     (if n < 26 then char_of (65 + n) else if n < 52 then char_of (97 + (n - 26))
      else if n < 62 then char_of (48 + (n - 52)) else if n = 62 then CHR ''-'' else CHR ''_'')"

fun RawURLEncoding :: "nat list \<Rightarrow> string" where
  "RawURLEncoding (a # b # c # bs) =
     base64url_char (a div 4) # base64url_char (a mod 4 * 16 + b div 16) #
     base64url_char (b mod 16 * 4 + c div 64) # base64url_char (c mod 64) # RawURLEncoding bs"
| "RawURLEncoding [a, b] =
     [base64url_char (a div 4), base64url_char (a mod 4 * 16 + b div 16), base64url_char (b mod 16 * 4)]"
| "RawURLEncoding [a] = [base64url_char (a div 4), base64url_char (a mod 4 * 16)]"
| "RawURLEncoding [] = []"

text \<open>\<open>random\<close> is what the random source gave: \<open>streamTicketBytes\<close> bytes or an error.\<close>

definition IssueStreamTicket ::
  "('r, stream_session) redis \<Rightarrow> nat list result \<Rightarrow> request_ctx \<Rightarrow> string \<Rightarrow> ('r conn, string) proc" where
  "IssueStreamTicket R random ctx token =
     bindP (liftR (CallerID ctx)) (\<lambda>userID.
     bindP (liftR (case random of
         Inl err \<Rightarrow> Inl (PlainError ''failed to generate stream ticket'' (Some err))
       | Inr buf \<Rightarrow> Inr buf)) (\<lambda>buf.
     let ticket = RawURLEncoding buf in
     tryP (ticket_Issue R ticket \<lparr>ss_UserID = userID, ss_Token = token\<rparr>) (\<lambda>r. case r of
       Inl err \<Rightarrow> throw (PlainError ''failed to store stream ticket'' (Some err))
     | Inr _ \<Rightarrow> ret ticket)))"

section \<open>The handler of /events\<close>

record sse_request =
  rq_ctx :: request_ctx
  rq_ticket :: string
  rq_LastEventID_header :: string
  rq_lastEventId_query :: string

definition lastEventIDFrom :: "sse_request \<Rightarrow> int" where
  "lastEventIDFrom req =
     (let raw = (if rq_LastEventID_header req = [] then rq_lastEventId_query req
                 else rq_LastEventID_header req)
      in case Atoi raw of None \<Rightarrow> - 1 | Some n \<Rightarrow> if n < 0 then - 1 else n)"

definition HTTPError :: "int \<Rightarrow> string \<Rightarrow> go_error" where
  "HTTPError status m = PlainError (Itoa status @ '' '' @ m) None"

definition authenticate ::
  "('r, stream_session) redis \<Rightarrow> sse_request \<Rightarrow> ('r conn, stream_session) proc" where
  "authenticate R req =
     (case ClaimsFromContext (rq_ctx req) of
        Some claims \<Rightarrow>
          ret \<lparr>ss_UserID = cl_ID claims,
               ss_Token = (case TokenFromContext (rq_ctx req) of Some t \<Rightarrow> t | None \<Rightarrow> [])\<rparr>
      | None \<Rightarrow>
          if rq_ticket req \<noteq> []
          then tryP (ticket_Consume R (rq_ticket req)) (\<lambda>r. case r of
                 Inl err \<Rightarrow> throw (HTTPError 500 ''failed to verify ticket'')
               | Inr None \<Rightarrow> throw (HTTPError 401 ''invalid or expired ticket'')
               | Inr (Some session) \<Rightarrow> ret session)
          else throw (HTTPError 401 ''missing ticket''))"

record ('r, 's, 'd) stream_world =
  sw_tickets :: "'r conn"
  sw_broker :: "('s, 'd) broker"

text \<open>What the handler has done when it enters its loop: the connection, the session it watches,
  and the events written so far (the greeting, then the missed ones marked as replayed).\<close>

record 'd opened_stream =
  os_client :: nat
  os_session :: stream_session
  os_written :: "'d event list"

definition with_time :: "string \<Rightarrow> 'd event \<Rightarrow> 'd event" where
  "with_time now ev = (if ev_Time ev = [] then ev\<lparr>ev_Time := now\<rparr> else ev)"

definition open_stream ::
  "('r, stream_session) redis \<Rightarrow> ('s, (string \<times> 'j) list) sse_store \<Rightarrow> 'j \<Rightarrow> string \<Rightarrow>
     sse_request \<Rightarrow> (('r, 's, (string \<times> 'j) list) stream_world, (string \<times> 'j) list opened_stream) proc" where
  "open_stream R S json_true now req w =
     (case authenticate R req (sw_tickets w) of
        (Inl err, t) \<Rightarrow> (Inl err, w\<lparr>sw_tickets := t\<rparr>)
      | (Inr session, t) \<Rightarrow>
          (case Subscribe S (ss_UserID session) (lastEventIDFrom req) (sw_broker w) of
             (Inl err, b) \<Rightarrow>
               (Inl (HTTPError 429 ''too many SSE connections''), w\<lparr>sw_tickets := t, sw_broker := b\<rparr>)
           | (Inr (c, missed), b) \<Rightarrow>
               (Inr \<lparr>os_client = c, os_session = session,
                     os_written =
                       \<lparr>ev_ID = 0, ev_Type = ''connected'', ev_Data = [(''ok'', json_true)], ev_Time = now\<rparr> #
                       map (\<lambda>ev. with_time now
                              (ev\<lparr>ev_Data := AList.update ''replayed'' json_true (ev_Data ev)\<rparr>)) missed\<rparr>,
                w\<lparr>sw_tickets := t, sw_broker := b\<rparr>)))"

section \<open>One ticket, one stream\<close>

datatype ticket_op = IssueTicket string stream_session | ConsumeTicket string

fun ticket_exec :: "('r, stream_session) redis \<Rightarrow> ticket_op \<Rightarrow> 'r conn \<Rightarrow> 'r conn" where
  "ticket_exec R (IssueTicket t sess) c = snd (ticket_Issue R t sess c)"
| "ticket_exec R (ConsumeTicket t) c = snd (ticket_Consume R t c)"

fun ticket_run ::
  "('r, stream_session) redis \<Rightarrow> ((int \<times> delivery list) \<times> ticket_op) list \<Rightarrow> 'r conn \<Rightarrow> 'r conn" where
  "ticket_run R [] c = c"
| "ticket_run R ((e, op) # ops) c = ticket_run R ops (ticket_exec R op (conn_env e c))"

fun reissues :: "string \<Rightarrow> ticket_op \<Rightarrow> bool" where
  "reissues t (IssueTicket t' sess) \<longleftrightarrow> t' = t"
| "reissues t (ConsumeTicket t') \<longleftrightarrow> False"

definition never_reissued :: "string \<Rightarrow> ((int \<times> delivery list) \<times> ticket_op) list \<Rightarrow> bool" where
  "never_reissued t ops \<longleftrightarrow> list_all (\<lambda>(e, op). \<not> reissues t op) ops"

lemma sseTicketKey_inj [simp]: "sseTicketKey t = sseTicketKey t' \<longleftrightarrow> t = t'"
  by (simp add: sseTicketKey_def)

locale ticket_server = redis_server R view
  for R :: "('r, stream_session) redis" and view :: "'r \<Rightarrow> stream_session keyspace"
begin

abbreviation entry :: "string \<Rightarrow> 'r conn \<Rightarrow> (stream_session rvalue \<times> int option) option" where
  "entry t c \<equiv> view (rc_store c) (sseTicketKey t)"

lemma env_entry [simp]: "entry t (conn_env e c) = entry t c"
  by (simp add: conn_env_def)

lemma exec_entry:
  assumes "\<not> reissues t op"
  shows "entry t (ticket_exec R op c) = entry t c \<or> entry t (ticket_exec R op c) = None"
  using assms
  by (cases op; cases "next_delivery c")
    (auto simp: ticket_Issue_def ticket_Consume_def SetKey_def GetDel_def rcall_def bindP_def Set Del
      split: option.splits rvalue.splits)

lemma run_entry:
  "never_reissued t ops \<Longrightarrow> entry t (ticket_run R ops c) = entry t c \<or> entry t (ticket_run R ops c) = None"
proof (induction ops arbitrary: c)
  case (Cons eop ops)
  obtain e op where eop: "eop = (e, op)" by fastforce
  then have "\<not> reissues t op" "never_reissued t ops"
    using Cons.prems by (auto simp: never_reissued_def)
  then show ?case
    using exec_entry [of t op "conn_env e c"] Cons.IH [of "ticket_exec R op (conn_env e c)"]
    by (auto simp: eop)
qed simp

lemma consume_Some:
  assumes "ticket_Consume R t c = (Inr (Some sess), c')"
  shows "live (rc_now c) (entry t c) = Some (RJson sess)" "entry t c' = None"
  using assms
  by (cases "next_delivery c"; auto simp: ticket_Consume_def GetDel_def bindP_def rcall_def Let_def
      Get Del ret_def split: option.splits rvalue.splits)+

lemma issue_entry:
  "ticket_Issue R t sess c = (Inr (), c') \<Longrightarrow>
     entry t c' = Some (RJson sess, Some (rc_now c + sseTicketTTL))"
  by (cases "next_delivery c")
    (auto simp: ticket_Issue_def SetKey_def rcall_def Let_def Set add.commute)

lemma single_use:
  assumes "ticket_Issue R t sess c0 = (Inr (), c1)"
    and "c2 = ticket_run R ops c1" "never_reissued t ops"
    and "ticket_Consume R t c2 = (Inr (Some sess'), c3)"
    and "c4 = ticket_run R ops' c3" "never_reissued t ops'"
  shows "sess' = sess \<and> rc_now c2 < rc_now c0 + sseTicketTTL \<and>
    (\<forall>x. fst (ticket_Consume R t c4) \<noteq> Inr (Some x))"
proof -
  have e2: "entry t c2 = Some (RJson sess, Some (rc_now c0 + sseTicketTTL)) \<or> entry t c2 = None"
    using run_entry [OF assms(3), of c1] issue_entry [OF assms(1)] by (simp add: assms(2))
  have e4: "entry t c4 = None"
    using run_entry [OF assms(6), of c3] consume_Some(2) [OF assms(4)] by (simp add: assms(5))
  have "fst (ticket_Consume R t c4) \<noteq> Inr (Some x)" for x
    using consume_Some(1) [of t c4 x] e4 by (metis live_simps(1) option.distinct(1) prod.collapse)
  then show ?thesis
    using consume_Some(1) [OF assms(4)] e2 by (auto split: if_splits)
qed

end

text \<open>C19: a ticket opens at most one stream. Whoever redeems it, on whatever server, over whatever
  losses on the network, gets the session it was issued for, within thirty seconds; and once it
  has been redeemed nobody redeems it again.\<close>
theorem stream_ticket_single_use:
  assumes "redis_server R view"
    and "ticket_Issue R t sess c0 = (Inr (), c1)"
    and "c2 = ticket_run R ops c1" "never_reissued t ops"
    and "ticket_Consume R t c2 = (Inr (Some sess'), c3)"
    and "c4 = ticket_run R ops' c3" "never_reissued t ops'"
  shows "sess' = sess \<and> rc_now c2 < rc_now c0 + sseTicketTTL \<and>
    (\<forall>x. fst (ticket_Consume R t c4) \<noteq> Inr (Some x))"
  using ticket_server.single_use [OF ticket_server.intro [OF assms(1)] assms(2-)] .

interpretation ticket_ttl: ticket_server ttl_map map_of
  by unfold_locales

section \<open>Witness\<close>

definition ex_session :: stream_session where
  "ex_session = \<lparr>ss_UserID = 7, ss_Token = ''jwt''\<rparr>"

definition ex_t1 :: "stream_session ttl_state conn" where
  "ex_t1 = snd (ticket_Issue ttl_map ''AAEC'' ex_session empty_conn)"

definition ex_t2 :: "stream_session ttl_state conn" where
  "ex_t2 = ticket_run ttl_map [((20000, [NotSent]), ConsumeTicket ''AAEC'')] ex_t1"

definition ex_t3 :: "stream_session ttl_state conn" where
  "ex_t3 = snd (ticket_Consume ttl_map ''AAEC'' ex_t2)"

theorem stream_ticket_single_use_witness:
  "fst (ticket_Consume ttl_map ''AAEC'' ex_t2) = Inr (Some ex_session) \<and> rc_now ex_t2 < 30000 \<and>
   fst (ticket_Consume ttl_map ''AAEC'' (ticket_run ttl_map [] ex_t3)) \<noteq> Inr (Some ex_session)"
proof -
  have i: "ticket_Issue ttl_map ''AAEC'' ex_session empty_conn = (Inr (), ex_t1)"
    unfolding ex_t1_def by (rule prod_eqI) code_simp+
  have c: "ticket_Consume ttl_map ''AAEC'' ex_t2 = (Inr (Some ex_session), ex_t3)"
    unfolding ex_t3_def by (rule prod_eqI) code_simp+
  show ?thesis
    using stream_ticket_single_use [OF ttl_map_server i ex_t2_def _ c refl, of "[]"]
    by (simp add: c never_reissued_def sseTicketTTL_def empty_conn_def)
qed

end
