(* ===== verification/Db.thy ===== *)
theory Db
  imports Tokens Course_Plan
begin

text \<open>
  The MySQL database behind the repositories of infra/mysql: the tables the chat, community and
  account components use (columns and foreign keys from db/migrations), the connection pool and the
  transaction carried by the context (infra/mysql/tx.go, tx_manager.go). A repository method runs its
  statements with \<open>dbCall\<close> where the code goes through \<open>extractDB\<close> and with \<open>poolCall\<close> where it uses
  \<open>r.DB\<close> directly. Every statement may fail: \<open>db_faults\<close> says which of the coming ones do.
\<close>

section \<open>Tables\<close>

record room_row =
  rooms_id :: int
  rooms_name :: string
  rooms_type :: string
  rooms_created_at :: int
  rooms_updated_at :: int
  rooms_parent_room_id :: "int option"

record chat_thread_row =
  chat_threads_room_id :: int
  chat_threads_created_by :: "int option"
  chat_threads_closed_at :: "int option"

record room_user_row =
  room_users_room_id :: int
  room_users_user_id :: int
  room_users_role :: string
  room_users_created_at :: int
  room_users_last_read_message_id :: "int option"
  room_users_last_read_at :: "int option"

record message_row =
  messages_id :: int
  messages_room_id :: int
  messages_user_id :: int
  messages_author_role :: string
  messages_content :: string
  messages_stamp_id :: "string option"
  messages_reply_to_message_id :: "int option"
  messages_created_at :: int
  messages_updated_at :: int
  messages_deleted_at :: "int option"
  messages_deleted_by :: "int option"
  messages_thread_room_id :: "int option"

record mention_row =
  message_mentions_message_id :: int
  message_mentions_user_id :: int
  message_mentions_text :: string

record reaction_row =
  message_reactions_message_id :: int
  message_reactions_user_id :: int
  message_reactions_emoji :: string

record message_media_row =
  message_media_message_id :: int
  message_media_media_id :: int
  message_media_position :: int

record media_row =
  media_id :: int
  media_uploader_user_id :: int
  media_storage_key :: string
  media_content_type :: string
  media_width :: "int option"
  media_height :: "int option"

record course_room_read_row =
  course_room_reads_room_id :: int
  course_room_reads_user_id :: int
  course_room_reads_last_read_message_id :: "int option"
  course_room_reads_last_read_at :: int

record user_row =
  users_id :: int
  users_status :: user_status
  users_deactivated_at :: "int option"
  users_deleted_at :: "int option"
  users_created_at :: int

record account_row =
  user_accounts_user_id :: int
  user_accounts_name :: string
  user_accounts_role :: string
  user_accounts_credentials_version :: int
  user_accounts_last_active_at :: "int option"
  user_accounts_account_id :: string
  user_accounts_email :: string
  user_accounts_hashed_password :: string
  user_accounts_updated_at :: int

record profile_row =
  profiles_user_id :: int
  profiles_bio :: string
  profiles_avatar_media_id :: "int option"
  profiles_created_at :: int
  profiles_updated_at :: int

record community_row =
  communities_id :: int
  communities_room_id :: int
  communities_name :: string
  communities_description :: string
  communities_avatar_media_id :: "int option"

record course_row =
  courses_id :: int
  courses_room_id :: int
  courses_year :: int
  courses_semester :: string
  courses_day_of_week :: string
  courses_period :: int
  courses_teacher_name :: string
  courses_course_name :: string
  courses_dedup_key :: string
  courses_source :: string
  courses_source_ref :: "string option"
  courses_source_name :: "string option"
  courses_discontinued_at :: "int option"
  courses_created_at :: int
  courses_updated_at :: int

record timetable_row =
  timetables_id :: int
  timetables_user_id :: int
  timetables_course_id :: int
  timetables_color :: string
  timetables_created_at :: int
  timetables_updated_at :: int

text \<open>The columns with JSON hold the value itself; the texts of a plan are those of Course_Plan.\<close>

record course_sync_review_row =
  csr_id :: int
  csr_year :: int
  csr_kind :: review_kind
  csr_fingerprint :: string
  csr_status :: review_status
  csr_message :: review_message
  csr_existing :: "course_snapshot list"
  csr_proposed :: "course_snapshot list"
  csr_first_run_id :: "int option"
  csr_applied_run_id :: "int option"
  csr_resolved_by :: "int option"
  csr_resolved_at :: "int option"
  csr_created_at :: int
  csr_updated_at :: int

record course_sync_run_row =
  run_id :: int
  run_year :: int
  run_dry_run :: bool
  run_triggered_by :: "int option"
  run_site_total :: int
  run_listed_rows :: int
  run_unidentified_rows :: int
  run_created :: nat
  run_updated :: nat
  run_discontinued :: nat
  run_restored :: nat
  run_reviews :: nat
  run_unchanged :: nat
  run_unregistered :: nat
  run_skipped_reason :: "skip_reason option"
  run_started_at :: int
  run_finished_at :: int

datatype change_kind = ChangeCreated | ChangeUpdated | ChangeDiscontinued | ChangeRestored | ChangeReview

datatype change_detail = PlanText plan_detail | NewlyListed | ReviewText review_message

record course_sync_change_row =
  chg_id :: int
  chg_run_id :: int
  chg_kind :: change_kind
  chg_course_id :: "int option"
  chg_review_id :: "int option"
  chg_course_name :: string
  chg_teacher_name :: string
  chg_detail :: change_detail
  chg_before :: "course_snapshot option"
  chg_after :: "course_snapshot option"
  chg_registered_count :: int
  chg_unregistered_count :: int

record poll_row =
  polls_id :: int
  polls_room_id :: int
  polls_author_user_id :: int
  polls_author_role :: string
  polls_question :: string
  polls_allow_multiple_choice :: bool
  polls_deadline :: "int option"
  polls_created_at :: int
  polls_updated_at :: int

record poll_option_row =
  poll_options_id :: int
  poll_options_poll_id :: int
  poll_options_label :: string
  poll_options_display_order :: int

record poll_vote_row =
  poll_votes_id :: int
  poll_votes_poll_option_id :: int
  poll_votes_user_id :: int
  poll_votes_created_at :: int

record chat_stamp_row =
  chat_stamps_id :: string
  chat_stamps_label :: string
  chat_stamps_image_key :: string
  chat_stamps_display_size :: string
  chat_stamps_status :: string
  chat_stamps_allow_message :: bool
  chat_stamps_allow_reaction :: bool
  chat_stamps_message_order :: int
  chat_stamps_reaction_order :: int
  chat_stamps_version :: int
  chat_stamps_created_at :: int
  chat_stamps_updated_at :: int
  chat_stamps_created_by :: int
  chat_stamps_updated_by :: int

record post_row =
  posts_id :: int
  posts_content :: string
  posts_created_at :: int
  posts_updated_at :: int
  posts_user_id :: int
  posts_parent_id :: "int option"
  posts_deleted_at :: "int option"
  posts_reply_count :: int

record ng_word_row =
  ng_words_id :: int
  ng_words_pattern :: string
  ng_words_match_type :: string
  ng_words_created_at :: int

record ng_word_hit_row =
  ng_word_hits_ng_word_id :: "int option"
  ng_word_hits_pattern :: string
  ng_word_hits_user_id :: int
  ng_word_hits_room_id :: "int option"
  ng_word_hits_source :: string
  ng_word_hits_created_at :: int

record tables =
  tb_rooms :: "room_row list"
  tb_chat_threads :: "chat_thread_row list"
  tb_room_users :: "room_user_row list"
  tb_messages :: "message_row list"
  tb_message_mentions :: "mention_row list"
  tb_message_reactions :: "reaction_row list"
  tb_message_media :: "message_media_row list"
  tb_media :: "media_row list"
  tb_course_room_reads :: "course_room_read_row list"
  tb_users :: "user_row list"
  tb_user_accounts :: "account_row list"
  tb_communities :: "community_row list"
  tb_courses :: "course_row list"
  tb_timetables :: "timetable_row list"
  tb_blocks :: "(int \<times> int) list"
  tb_system_settings :: "(string \<times> string) list"
  tb_chat_stamps :: "chat_stamp_row list"
  tb_posts :: "post_row list"
  tb_profiles :: "profile_row list"
  tb_user_activity_dates :: "(int \<times> string) list"
  tb_user_activity_hours :: "(int \<times> string) list"
  tb_ng_words :: "ng_word_row list"
  tb_ng_word_hits :: "ng_word_hit_row list"
  tb_user_settings :: "((int \<times> string) \<times> string) list"
  tb_course_sync_reviews :: "course_sync_review_row list"
  tb_course_sync_runs :: "course_sync_run_row list"
  tb_course_sync_changes :: "course_sync_change_row list"
  tb_polls :: "poll_row list"
  tb_poll_options :: "poll_option_row list"
  tb_poll_votes :: "poll_vote_row list"
  tb_next_id :: int

text \<open>\<open>tb_next_id\<close> stands for the AUTO_INCREMENT counters: a fresh, growing number, which is all the
  code uses of an ID.\<close>

definition no_tables :: tables where
  "no_tables = \<lparr>tb_rooms = [], tb_chat_threads = [], tb_room_users = [], tb_messages = [],
     tb_message_mentions = [], tb_message_reactions = [], tb_message_media = [], tb_media = [],
     tb_course_room_reads = [], tb_users = [], tb_user_accounts = [], tb_communities = [],
     tb_courses = [], tb_timetables = [], tb_blocks = [], tb_system_settings = [], tb_chat_stamps = [],
     tb_posts = [], tb_profiles = [], tb_user_activity_dates = [], tb_user_activity_hours = [],
     tb_ng_words = [], tb_ng_word_hits = [], tb_user_settings = [], tb_course_sync_reviews = [],
     tb_course_sync_runs = [], tb_course_sync_changes = [], tb_polls = [], tb_poll_options = [],
     tb_poll_votes = [], tb_next_id = 1\<rparr>"

section \<open>Connections and transactions\<close>

text \<open>\<open>db_tx\<close> is the transaction of the context: what it would commit, if one is open. \<open>'o\<close> is what
  else the operation can change (the events it publishes).\<close>

record 'o db =
  db_now :: int
  db_committed :: tables
  db_tx :: "tables option"
  db_faults :: "bool list"
  db_out :: 'o

definition driver_error :: go_error where
  "driver_error = Errorf ''driver error''"

text \<open>What statements run with this context see.\<close>

definition db_view :: "'o db \<Rightarrow> tables" where
  "db_view w = (case db_tx w of None \<Rightarrow> db_committed w | Some t \<Rightarrow> t)"

definition db_next_faults :: "'o db \<Rightarrow> bool" where
  "db_next_faults w = (case db_faults w of True # _ \<Rightarrow> True | _ \<Rightarrow> False)"

definition db_tick :: "'o db \<Rightarrow> 'o db" where
  "db_tick w = w\<lparr>db_faults := tl (db_faults w)\<rparr>"

text \<open>A statement on \<open>extractDB(ctx, r.DB)\<close>: on the transaction when there is one, otherwise
  committed at once. A statement the database refuses changes nothing.\<close>

definition dbCall :: "(tables \<Rightarrow> 'a result \<times> tables) \<Rightarrow> ('o db, 'a) proc" where
  "dbCall stmt w =
     (if db_next_faults w then (Err driver_error, db_tick w)
      else (case stmt (db_view w) of
              (Inl e, _) \<Rightarrow> (Err e, db_tick w)
            | (Inr x, t) \<Rightarrow>
                (Ok x, if db_tx w = None then (db_tick w)\<lparr>db_committed := t\<rparr>
                       else (db_tick w)\<lparr>db_tx := Some t\<rparr>)))"

text \<open>A statement on \<open>r.DB\<close>: another connection, so it reads the committed tables and is committed at
  once, also while the context has a transaction open; the transaction keeps its own writes and, when
  it commits, does not undo this one.\<close>

definition poolCall :: "(tables \<Rightarrow> 'a result \<times> tables) \<Rightarrow> ('o db, 'a) proc" where
  "poolCall stmt w =
     (if db_next_faults w then (Err driver_error, db_tick w)
      else (case stmt (db_committed w) of
              (Inl e, _) \<Rightarrow> (Err e, db_tick w)
            | (Inr x, t) \<Rightarrow>
                (Ok x, (db_tick w)\<lparr>db_committed := t,
                         db_tx := map_option (\<lambda>own. snd (stmt own)) (db_tx w)\<rparr>)))"

definition dbQuery :: "(tables \<Rightarrow> 'a) \<Rightarrow> ('o db, 'a) proc" where
  "dbQuery q = dbCall (\<lambda>t. (Ok (q t), t))"

definition dbExec :: "(tables \<Rightarrow> tables) \<Rightarrow> ('o db, unit) proc" where
  "dbExec f = dbCall (\<lambda>t. (Ok (), f t))"

definition poolQuery :: "(tables \<Rightarrow> 'a) \<Rightarrow> ('o db, 'a) proc" where
  "poolQuery q = poolCall (\<lambda>t. (Ok (q t), t))"

definition poolExec :: "(tables \<Rightarrow> tables) \<Rightarrow> ('o db, unit) proc" where
  "poolExec f = poolCall (\<lambda>t. (Ok (), f t))"

text \<open>\<open>time.Now()\<close>; the clock stands still during one operation.\<close>

definition nowP :: "('o db, int) proc" where
  "nowP w = (Ok (db_now w), w)"

text \<open>\<open>MySQLTxManager.RunInTx\<close>: begin, run the body with the transaction in its context, roll back
  on its error, commit otherwise; begin and commit may fail too.\<close>

definition BeginTx :: "('o db, unit) proc" where
  "BeginTx w = (if db_next_faults w then (Err driver_error, db_tick w)
                else (Ok (), (db_tick w)\<lparr>db_tx := Some (db_committed w)\<rparr>))"

definition Rollback :: "'o db \<Rightarrow> 'o db" where
  "Rollback w = w\<lparr>db_tx := None\<rparr>"

definition CommitTx :: "('o db, unit) proc" where
  "CommitTx w = (if db_next_faults w then (Err driver_error, (db_tick w)\<lparr>db_tx := None\<rparr>)
                 else (Ok (), (db_tick w)\<lparr>db_committed := db_view w, db_tx := None\<rparr>))"

definition runInTx :: "('o db, 'a) proc \<Rightarrow> ('o db, 'a) proc" where
  "runInTx body =
     bindP BeginTx (\<lambda>_ w.
       (case body w of
          (Inl e, w') \<Rightarrow> (Err e, Rollback w')
        | (Inr x, w') \<Rightarrow> bindP CommitTx (\<lambda>_. ret x) w'))"

text \<open>\<open>inTx\<close> joins the transaction of the context, or opens one of its own.\<close>

definition inTx :: "('o db, 'a) proc \<Rightarrow> ('o db, 'a) proc" where
  "inTx body w = (if db_tx w \<noteq> None then body w else runInTx body w)"

section \<open>Outcomes\<close>

lemma bindP_Inr_iff: "bindP m f s = (Inr y, t) \<longleftrightarrow> (\<exists>x s'. m s = (Inr x, s') \<and> f x s' = (Inr y, t))"
  by (auto simp: bindP_def split: prod.splits sum.splits)

lemma bindP_guard [simp]: "bindP (guardP b e) f w = (if b then f () w else (Err e, w))"
  by simp

lemma db_tick_simps [simp]:
  "db_view (db_tick w) = db_view w" "db_committed (db_tick w) = db_committed w"
  "db_tx (db_tick w) = db_tx w" "db_now (db_tick w) = db_now w" "db_out (db_tick w) = db_out w"
  by (auto simp: db_tick_def db_view_def split: option.splits)

lemma db_view_simps [simp]:
  "db_tx w = None \<Longrightarrow> db_view w = db_committed w"
  "db_tx w = Some t \<Longrightarrow> db_view w = t"
  by (simp_all add: db_view_def)

lemma query_Inr_iff:
  "dbQuery q w = (Inr x, w') \<longleftrightarrow> \<not> db_next_faults w \<and> x = q (db_view w) \<and> w' = db_tick w"
  "poolQuery q w = (Inr x, w') \<longleftrightarrow> \<not> db_next_faults w \<and> x = q (db_committed w) \<and> w' = db_tick w"
  by (cases "db_tx w";
      auto simp: dbQuery_def dbCall_def poolQuery_def poolCall_def db_tick_def)+

lemma runInTx_eq:
  "runInTx body w =
     (if db_next_faults w then (Err driver_error, db_tick w)
      else (case body ((db_tick w)\<lparr>db_tx := Some (db_committed w)\<rparr>) of
              (Inl e, w') \<Rightarrow> (Err e, w'\<lparr>db_tx := None\<rparr>)
            | (Inr x, w') \<Rightarrow>
                if db_next_faults w' then (Err driver_error, (db_tick w')\<lparr>db_tx := None\<rparr>)
                else (Ok x, (db_tick w')\<lparr>db_committed := db_view w', db_tx := None\<rparr>)))"
  by (simp add: runInTx_def bindP_def BeginTx_def CommitTx_def Rollback_def ret_def
      split: prod.split sum.split)

lemma nowP_Inr_iff: "nowP w = (Inr n, w') \<longleftrightarrow> n = db_now w \<and> w' = w"
  by (auto simp: nowP_def)

text \<open>The two ways a sequence of steps can go.\<close>

lemma bindP_cases [consumes 1, case_names stop go]:
  assumes "bindP m f w = (r, w')"
  obtains e where "m w = (Inl e, w')" "r = Inl e"
    | x v where "m w = (Inr x, v)" "f x v = (r, w')"
  using assms by (auto simp: bindP_def split: prod.splits sum.splits)

lemma tryP_cases [consumes 1]:
  assumes "tryP m f w = (r, w')"
  obtains q v where "m w = (q, v)" "f q v = (r, w')"
  using assms by (auto simp: tryP_def split: prod.splits)

section \<open>Invariants of the tables\<close>

definition db_inv :: "(tables \<Rightarrow> bool) \<Rightarrow> 'o db \<Rightarrow> bool" where
  "db_inv I w \<longleftrightarrow> I (db_committed w) \<and> (\<forall>t. db_tx w = Some t \<longrightarrow> I t)"

definition keeps :: "(tables \<Rightarrow> bool) \<Rightarrow> ('o db, 'a) proc \<Rightarrow> bool" where
  "keeps I m \<longleftrightarrow> (\<forall>w r w'. m w = (r, w') \<longrightarrow> db_inv I w \<longrightarrow> db_inv I w')"

lemma db_inv_tick [simp]: "db_inv I (db_tick w) = db_inv I w"
  by (simp add: db_inv_def)

lemma db_inv_view: "db_inv I w \<Longrightarrow> I (db_view w)"
  by (simp add: db_inv_def db_view_def split: option.splits)

lemma keepsD: "keeps I m \<Longrightarrow> m w = (r, w') \<Longrightarrow> db_inv I w \<Longrightarrow> db_inv I w'"
  unfolding keeps_def by blast

lemma keepsI: "(\<And>w r w'. m w = (r, w') \<Longrightarrow> db_inv I w \<Longrightarrow> db_inv I w') \<Longrightarrow> keeps I m"
  unfolding keeps_def by blast

lemma keeps_basic [inv_intros]:
  "keeps I (ret x)" "keeps I (throw e)" "keeps I (liftR r)" "keeps I (guardP b e)" "keeps I nowP"
  by (simp_all add: keeps_def ret_def throw_def liftR_def guardP_def nowP_def)

lemma keeps_bindP [inv_intros]:
  assumes "keeps I m" "\<And>x. keeps I (f x)"
  shows "keeps I (bindP m f)"
  by (rule keepsI, erule bindP_cases) (blast dest: keepsD[OF assms(1)] keepsD[OF assms(2)])+

lemma keeps_tryP [inv_intros]:
  assumes "keeps I m" "\<And>r. keeps I (f r)"
  shows "keeps I (tryP m f)"
  by (rule keepsI, erule tryP_cases) (blast dest: keepsD[OF assms(1)] keepsD[OF assms(2)])

lemma keeps_if [inv_intros]: "keeps I m \<Longrightarrow> keeps I n \<Longrightarrow> keeps I (if b then m else n)"
  by simp

lemma keeps_option [inv_intros]:
  "keeps I m \<Longrightarrow> (\<And>x. keeps I (f x)) \<Longrightarrow> keeps I (case_option m f v)"
  by (cases v) simp_all

lemma keeps_sum [inv_intros]:
  "(\<And>x. keeps I (f x)) \<Longrightarrow> (\<And>x. keeps I (g x)) \<Longrightarrow> keeps I (case_sum f g v)"
  by (cases v) simp_all

lemma keeps_prod [inv_intros]: "(\<And>x y. keeps I (f x y)) \<Longrightarrow> keeps I (case_prod f v)"
  by (cases v) simp

lemma keeps_Let [inv_intros]: "(\<And>x. keeps I (f x)) \<Longrightarrow> keeps I (Let v f)"
  by (simp add: Let_def)

lemma keeps_dbCall:
  assumes "\<And>t x t'. I t \<Longrightarrow> stmt t = (Inr x, t') \<Longrightarrow> I t'"
  shows "keeps I (dbCall stmt)"
proof (rule keepsI)
  fix w r w' assume run: "dbCall stmt w = (r, w')" and inv: "db_inv I w"
  from inv have "I (db_view w)" by (rule db_inv_view)
  with assms[OF this] run inv show "db_inv I w'"
    by (cases "db_tx w") (auto simp: dbCall_def db_inv_def split: prod.splits sum.splits if_splits)
qed

lemma keeps_exec:
  assumes "\<And>t. I t \<Longrightarrow> I (f t)"
  shows "keeps I (dbExec f)" "keeps I (poolExec f)"
proof -
  show "keeps I (dbExec f)" unfolding dbExec_def by (rule keeps_dbCall) (auto simp: assms)
  show "keeps I (poolExec f)"
    by (rule keepsI)
       (auto simp: assms db_inv_def poolExec_def poolCall_def split: if_splits)
qed

lemma keeps_query [inv_intros]: "keeps I (dbQuery q)" "keeps I (poolQuery q)"
proof -
  show "keeps I (dbQuery q)" unfolding dbQuery_def by (rule keeps_dbCall) auto
  show "keeps I (poolQuery q)"
    by (rule keepsI) (auto simp: db_inv_def poolQuery_def poolCall_def split: if_splits)
qed

lemma keeps_runInTx [inv_intros]:
  assumes "keeps I body"
  shows "keeps I (runInTx body)"
proof (rule keepsI)
  fix w q v assume run: "runInTx body w = (q, v)" and inv: "db_inv I w"
  obtain r w' where body: "body ((db_tick w)\<lparr>db_tx := Some (db_committed w)\<rparr>) = (r, w')" by fastforce
  have "db_inv I ((db_tick w)\<lparr>db_tx := Some (db_committed w)\<rparr>)" using inv by (simp add: db_inv_def)
  from keepsD[OF assms body this] have "db_inv I w'" .
  with db_inv_view[OF this] inv run body show "db_inv I v"
    by (cases r) (auto simp: runInTx_eq db_inv_def split: if_splits)
qed

section \<open>Operations that change nothing, and operations that change nothing when they fail\<close>

text \<open>\<open>reads\<close>: changes no table. \<open>contained\<close>: inside a transaction it writes only to that
  transaction. \<open>atomicP out\<close>: on an error the committed tables are the ones it started from, and what
  \<open>out\<close> shows of the outside has not changed.\<close>

definition reads :: "('o db, 'a) proc \<Rightarrow> bool" where
  "reads m \<longleftrightarrow> (\<forall>w r w'. m w = (r, w') \<longrightarrow> db_committed w' = db_committed w \<and> db_tx w' = db_tx w \<and>
      db_now w' = db_now w \<and> db_out w' = db_out w)"

definition contained :: "('o db, 'a) proc \<Rightarrow> bool" where
  "contained m \<longleftrightarrow> (\<forall>w r w'. m w = (r, w') \<longrightarrow> db_tx w \<noteq> None \<longrightarrow>
      db_committed w' = db_committed w \<and> db_tx w' \<noteq> None \<and> db_now w' = db_now w \<and> db_out w' = db_out w)"

definition atomicP :: "('o \<Rightarrow> 'v) \<Rightarrow> ('o db, 'a) proc \<Rightarrow> bool" where
  "atomicP out m \<longleftrightarrow> (\<forall>w r w'. m w = (r, w') \<longrightarrow> db_tx w = None \<longrightarrow> db_tx w' = None \<and>
      (isl r \<longrightarrow> db_committed w' = db_committed w \<and> out (db_out w') = out (db_out w)))"

named_theorems reads_intros \<open>procedures that change no table\<close>
named_theorems contained_intros \<open>procedures that write to the open transaction only\<close>

lemma readsD:
  assumes "reads m" "m w = (r, w')"
  shows "db_committed w' = db_committed w" "db_tx w' = db_tx w" "db_now w' = db_now w"
    "db_out w' = db_out w" "db_view w' = db_view w"
  using assms(1)[unfolded reads_def, rule_format, OF assms(2)] by (auto simp: db_view_def split: option.splits)

lemma readsI:
  assumes "\<And>w r w'. m w = (r, w') \<Longrightarrow> db_committed w' = db_committed w \<and> db_tx w' = db_tx w \<and>
      db_now w' = db_now w \<and> db_out w' = db_out w"
  shows "reads m"
  using assms unfolding reads_def by blast

lemma reads_basic [reads_intros]:
  "reads (ret x)" "reads (throw e)" "reads (liftR r)" "reads (guardP b e)" "reads nowP"
  by (auto simp: reads_def ret_def throw_def liftR_def guardP_def nowP_def)

lemma reads_query [reads_intros]: "reads (dbQuery q)" "reads (poolQuery q)"
  by (auto simp: reads_def dbQuery_def poolQuery_def dbCall_def poolCall_def option.map_ident
      split: if_splits)

lemma reads_bindP [reads_intros]:
  assumes "reads m" "\<And>x. reads (f x)"
  shows "reads (bindP m f)"
  by (rule readsI, erule bindP_cases) (simp_all add: readsD[OF assms(1)] readsD[OF assms(2)])

lemma reads_tryP [reads_intros]:
  assumes "reads m" "\<And>x. reads (f x)"
  shows "reads (tryP m f)"
  by (rule readsI, erule tryP_cases) (simp add: readsD[OF assms(1)] readsD[OF assms(2)])

lemma reads_if [reads_intros]: "reads m \<Longrightarrow> reads n \<Longrightarrow> reads (if b then m else n)"
  by simp

lemma reads_option [reads_intros]:
  "reads m \<Longrightarrow> (\<And>x. reads (f x)) \<Longrightarrow> reads (case_option m f v)"
  by (cases v) simp_all

lemma reads_sum [reads_intros]:
  "(\<And>x. reads (f x)) \<Longrightarrow> (\<And>x. reads (g x)) \<Longrightarrow> reads (case_sum f g v)"
  by (cases v) simp_all

lemma reads_prod [reads_intros]: "(\<And>x y. reads (f x y)) \<Longrightarrow> reads (case_prod f v)"
  by (cases v) simp

lemma reads_Let [reads_intros]: "(\<And>x. reads (f x)) \<Longrightarrow> reads (Let v f)"
  by (simp add: Let_def)

text \<open>The steps of a successful run, the tables unchanged by the ones that read.\<close>

lemma reads_then:
  assumes "bindP m f w = (Inr y, w')" "reads m"
  obtains x v where "m w = (Inr x, v)" "f x v = (Inr y, w')"
    "db_committed v = db_committed w" "db_tx v = db_tx w" "db_now v = db_now w" "db_out v = db_out w"
    "db_view v = db_view w"
proof -
  from assms(1) obtain x v where "m w = (Inr x, v)" "f x v = (Inr y, w')" by (auto simp: bindP_Inr_iff)
  then show thesis using readsD[OF assms(2)] by (intro that)
qed

lemma keeps_reads: "reads m \<Longrightarrow> keeps I m"
  by (rule keepsI) (simp add: db_inv_def readsD)

lemma containedD:
  assumes "contained m" "m w = (r, w')" "db_tx w \<noteq> None"
  shows "db_committed w' = db_committed w" "db_tx w' \<noteq> None" "db_out w' = db_out w" "db_now w' = db_now w"
  using assms(1)[unfolded contained_def, rule_format, OF assms(2,3)] by auto

lemma containedI:
  assumes "\<And>w r w'. m w = (r, w') \<Longrightarrow> db_tx w \<noteq> None \<Longrightarrow>
      db_committed w' = db_committed w \<and> db_tx w' \<noteq> None \<and> db_now w' = db_now w \<and> db_out w' = db_out w"
  shows "contained m"
  using assms unfolding contained_def by blast

lemma contained_reads: "reads m \<Longrightarrow> contained m"
  by (rule containedI) (simp add: readsD)

lemma contained_dbCall [contained_intros]: "contained (dbCall stmt)" "contained (dbExec f)"
  by (auto simp: contained_def dbExec_def dbCall_def split: prod.splits sum.splits if_splits)

lemmas contained_basic [contained_intros] = reads_basic[THEN contained_reads] reads_query[THEN contained_reads]

lemma contained_bindP [contained_intros]:
  assumes "contained m" "\<And>x. contained (f x)"
  shows "contained (bindP m f)"
proof (rule containedI)
  fix w r w' assume "bindP m f w = (r, w')" and tx: "db_tx w \<noteq> None"
  then show "db_committed w' = db_committed w \<and> db_tx w' \<noteq> None \<and> db_now w' = db_now w \<and> db_out w' = db_out w"
  proof (cases rule: bindP_cases)
    case (stop e) with containedD[OF assms(1) stop(1) tx] show ?thesis by simp
  next
    case (go x v)
    from containedD[OF assms(1) go(1) tx] containedD[OF assms(2) go(2)] show ?thesis by simp
  qed
qed

lemma contained_if [contained_intros]: "contained m \<Longrightarrow> contained n \<Longrightarrow> contained (if b then m else n)"
  by simp

lemma contained_option [contained_intros]:
  "contained m \<Longrightarrow> (\<And>x. contained (f x)) \<Longrightarrow> contained (case_option m f v)"
  by (cases v) simp_all

lemma contained_prod [contained_intros]: "(\<And>x y. contained (f x y)) \<Longrightarrow> contained (case_prod f v)"
  by (cases v) simp

lemma contained_Let [contained_intros]: "(\<And>x. contained (f x)) \<Longrightarrow> contained (Let v f)"
  by (simp add: Let_def)

lemma atomicPD:
  assumes "atomicP out m" "m w = (r, w')" "db_tx w = None"
  shows "db_tx w' = None" "isl r \<Longrightarrow> db_committed w' = db_committed w"
    "isl r \<Longrightarrow> out (db_out w') = out (db_out w)"
  using assms(1)[unfolded atomicP_def, rule_format, OF assms(2,3)] by auto

lemma atomicPI:
  assumes "\<And>w r w'. m w = (r, w') \<Longrightarrow> db_tx w = None \<Longrightarrow> db_tx w' = None \<and>
      (isl r \<longrightarrow> db_committed w' = db_committed w \<and> out (db_out w') = out (db_out w))"
  shows "atomicP out m"
  using assms unfolding atomicP_def by blast

lemma atomicP_reads: "reads m \<Longrightarrow> atomicP out m"
  by (rule atomicPI) (simp add: readsD)

lemma atomicP_runInTx:
  assumes "contained body"
  shows "atomicP out (runInTx body)"
proof (rule atomicPI)
  fix w q v assume run: "runInTx body w = (q, v)" and none: "db_tx w = None"
  obtain r w' where body: "body ((db_tick w)\<lparr>db_tx := Some (db_committed w)\<rparr>) = (r, w')" by fastforce
  from containedD[OF assms body] run none body
  show "db_tx v = None \<and> (isl q \<longrightarrow> db_committed v = db_committed w \<and> out (db_out v) = out (db_out w))"
    by (cases r) (auto simp: runInTx_eq split: if_splits)
qed

lemma atomicP_bindP:
  assumes "reads m" "\<And>x. atomicP out (f x)"
  shows "atomicP out (bindP m f)"
proof (rule atomicPI)
  fix w r w' assume "bindP m f w = (r, w')" and tx: "db_tx w = None"
  then show "db_tx w' = None \<and> (isl r \<longrightarrow> db_committed w' = db_committed w \<and> out (db_out w') = out (db_out w))"
  proof (cases rule: bindP_cases)
    case (stop e) with readsD[OF assms(1) stop(1)] tx show ?thesis by simp
  next
    case (go x v)
    from readsD[OF assms(1) go(1)] atomicPD[OF assms(2) go(2)] tx show ?thesis by simp
  qed
qed

lemma atomicP_option:
  "atomicP out m \<Longrightarrow> (\<And>x. atomicP out (f x)) \<Longrightarrow> atomicP out (case_option m f v)"
  by (cases v) simp_all

lemma atomicP_if: "atomicP out m \<Longrightarrow> atomicP out n \<Longrightarrow> atomicP out (if b then m else n)"
  by simp

lemma atomicP_prod: "(\<And>x y. atomicP out (f x y)) \<Longrightarrow> atomicP out (case_prod f v)"
  by (cases v) simp

lemma atomicP_Let: "(\<And>x. atomicP out (f x)) \<Longrightarrow> atomicP out (Let v f)"
  by (simp add: Let_def)

lemma atomicP_tryP:
  assumes "reads m" "\<And>x. atomicP out (f x)"
  shows "atomicP out (tryP m f)"
proof (rule atomicPI)
  fix w r w' assume "tryP m f w = (r, w')" and tx: "db_tx w = None"
  from this(1) obtain q v where m: "m w = (q, v)" and f: "f q v = (r, w')" by (rule tryP_cases)
  from readsD[OF assms(1) m] atomicPD[OF assms(2) f] tx
  show "db_tx w' = None \<and> (isl r \<longrightarrow> db_committed w' = db_committed w \<and> out (db_out w') = out (db_out w))"
    by simp
qed

lemma atomicP_calls: "atomicP out (dbCall stmt)" "atomicP out (poolCall stmt)" "atomicP out (dbExec f)"
  by (rule atomicPI; auto simp: dbExec_def dbCall_def poolCall_def split: if_splits prod.splits sum.splits)+

text \<open>Steps that leave the tables alone, whatever they publish.\<close>

definition no_write :: "('o db, 'a) proc \<Rightarrow> bool" where
  "no_write m \<longleftrightarrow> (\<forall>w r w'. m w = (r, w') \<longrightarrow> db_committed w' = db_committed w \<and> db_tx w' = db_tx w)"

lemma no_writeD:
  "no_write m \<Longrightarrow> m w = (r, w') \<Longrightarrow> db_committed w' = db_committed w"
  "no_write m \<Longrightarrow> m w = (r, w') \<Longrightarrow> db_tx w' = db_tx w"
  unfolding no_write_def by blast+

lemma no_writeI:
  "(\<And>w r w'. m w = (r, w') \<Longrightarrow> db_committed w' = db_committed w \<and> db_tx w' = db_tx w) \<Longrightarrow> no_write m"
  unfolding no_write_def by blast

lemma no_write_reads: "reads m \<Longrightarrow> no_write m"
  by (rule no_writeI) (simp add: readsD)

lemma no_write_bindP:
  assumes "no_write m" "\<And>x. no_write (f x)"
  shows "no_write (bindP m f)"
  by (rule no_writeI, erule bindP_cases) (simp_all add: no_writeD[OF assms(1)] no_writeD[OF assms(2)])

lemma no_write_tryP:
  assumes "no_write m" "\<And>x. no_write (f x)"
  shows "no_write (tryP m f)"
  by (rule no_writeI, erule tryP_cases) (simp add: no_writeD[OF assms(1)] no_writeD[OF assms(2)])

lemma no_write_cases:
  "no_write m \<Longrightarrow> no_write n \<Longrightarrow> no_write (if b then m else n)"
  "no_write m \<Longrightarrow> (\<And>x. no_write (f x)) \<Longrightarrow> no_write (case_option m f v)"
  "(\<And>x. no_write (g x)) \<Longrightarrow> (\<And>x. no_write (h x)) \<Longrightarrow> no_write (case_sum g h u)"
  by (simp, cases v, simp_all, cases u, simp_all)

lemmas no_write_intros = no_write_bindP no_write_tryP no_write_cases

text \<open>Steps after the last one that can fail: publishing an event, building the answer.\<close>

definition infallible :: "('o db, 'a) proc \<Rightarrow> bool" where
  "infallible m \<longleftrightarrow> (\<forall>w r w'. m w = (r, w') \<longrightarrow> \<not> isl r \<and> (db_tx w = None \<longrightarrow> db_tx w' = None))"

lemma infallible_ret: "infallible (ret x)"
  by (simp add: infallible_def ret_def)

lemma infallible_bindP:
  assumes "infallible m" "\<And>x. infallible (f x)"
  shows "infallible (bindP m f)"
  unfolding infallible_def
proof (intro allI impI)
  fix w r w' assume "bindP m f w = (r, w')"
  then show "\<not> isl r \<and> (db_tx w = None \<longrightarrow> db_tx w' = None)"
    by (cases rule: bindP_cases)
       (use assms(1)[unfolded infallible_def] assms(2)[unfolded infallible_def] in \<open>fastforce+\<close>)
qed

lemma infallible_prod: "(\<And>x y. infallible (f x y)) \<Longrightarrow> infallible (case_prod f v)"
  by (cases v) simp

lemma infallible_tryP:
  assumes "\<And>w r w'. m w = (r, w') \<Longrightarrow> db_tx w = None \<Longrightarrow> db_tx w' = None" "\<And>r. infallible (f r)"
  shows "infallible (tryP m f)"
  unfolding infallible_def
  by (auto elim!: tryP_cases dest: assms(1) assms(2)[unfolded infallible_def, rule_format])

lemma atomicP_then:
  assumes "atomicP out m" "\<And>x. infallible (f x)"
  shows "atomicP out (bindP m f)"
proof (rule atomicPI)
  fix w r w' assume "bindP m f w = (r, w')" and tx: "db_tx w = None"
  then show "db_tx w' = None \<and> (isl r \<longrightarrow> db_committed w' = db_committed w \<and> out (db_out w') = out (db_out w))"
  proof (cases rule: bindP_cases)
    case (stop e) with atomicPD[OF assms(1) stop(1) tx] show ?thesis by simp
  next
    case (go x v)
    from atomicPD[OF assms(1) go(1) tx] assms(2)[unfolded infallible_def, rule_format, OF go(2)]
    show ?thesis by simp
  qed
qed

section \<open>Inside a transaction\<close>

text \<open>\<open>tx_keeps I m\<close>: run inside a transaction, \<open>m\<close> keeps \<open>I\<close> of what the transaction sees.\<close>

definition in_tx :: "(tables \<Rightarrow> bool) \<Rightarrow> 'o db \<Rightarrow> bool" where
  "in_tx I w \<longleftrightarrow> (case db_tx w of None \<Rightarrow> False | Some t \<Rightarrow> I t)"

definition tx_keeps :: "(tables \<Rightarrow> bool) \<Rightarrow> ('o db, 'a) proc \<Rightarrow> bool" where
  "tx_keeps I m \<longleftrightarrow> (\<forall>w r w'. m w = (r, w') \<longrightarrow> in_tx I w \<longrightarrow> in_tx I w')"

named_theorems tx_intros \<open>procedures that keep what a transaction sees\<close>

lemma tx_keepsD: "tx_keeps I m \<Longrightarrow> m w = (r, w') \<Longrightarrow> in_tx I w \<Longrightarrow> in_tx I w'"
  unfolding tx_keeps_def by blast

lemma tx_keepsI: "(\<And>w r w'. m w = (r, w') \<Longrightarrow> in_tx I w \<Longrightarrow> in_tx I w') \<Longrightarrow> tx_keeps I m"
  unfolding tx_keeps_def by blast

lemma tx_keeps_reads: "reads m \<Longrightarrow> tx_keeps I m"
  by (rule tx_keepsI) (simp add: in_tx_def readsD)

lemmas tx_keeps_basic [tx_intros] = reads_basic[THEN tx_keeps_reads] reads_query[THEN tx_keeps_reads]

lemma tx_keeps_bindP [tx_intros]:
  assumes "tx_keeps I m" "\<And>x. tx_keeps I (f x)"
  shows "tx_keeps I (bindP m f)"
  by (rule tx_keepsI, erule bindP_cases) (blast dest: tx_keepsD[OF assms(1)] tx_keepsD[OF assms(2)])+

lemma tx_keeps_if [tx_intros]: "tx_keeps I m \<Longrightarrow> tx_keeps I n \<Longrightarrow> tx_keeps I (if b then m else n)"
  by simp

lemma tx_keeps_option [tx_intros]:
  "tx_keeps I m \<Longrightarrow> (\<And>x. tx_keeps I (f x)) \<Longrightarrow> tx_keeps I (case_option m f v)"
  by (cases v) simp_all

lemma tx_keeps_Let [tx_intros]: "(\<And>x. tx_keeps I (f x)) \<Longrightarrow> tx_keeps I (Let v f)"
  by (simp add: Let_def)

lemma tx_keeps_dbCall:
  assumes "\<And>t x t'. I t \<Longrightarrow> stmt t = (Inr x, t') \<Longrightarrow> I t'"
  shows "tx_keeps I (dbCall stmt)"
  by (rule tx_keepsI)
     (auto simp: in_tx_def dbCall_def assms split: option.splits if_splits prod.splits sum.splits)

lemma tx_keeps_exec: "(\<And>t. I t \<Longrightarrow> I (f t)) \<Longrightarrow> tx_keeps I (dbExec f)"
  unfolding dbExec_def by (rule tx_keeps_dbCall) auto

text \<open>A committed transaction: the tables are what the body left in it.\<close>

lemma runInTx_Inr:
  assumes "runInTx body w = (Inr x, w')"
  obtains v v' where "body v = (Inr x, v')" "db_tx v = Some (db_committed w)" "db_committed v = db_committed w"
    "db_now v = db_now w" "db_out v = db_out w"
    "db_committed w' = db_view v'" "db_tx w' = None" "db_out w' = db_out v'"
proof -
  let ?v = "(db_tick w)\<lparr>db_tx := Some (db_committed w)\<rparr>"
  obtain r v' where run: "body ?v = (r, v')" by fastforce
  with assms have "r = Inr x" "db_committed w' = db_view v'" "db_tx w' = None" "db_out w' = db_out v'"
    by (auto simp: runInTx_eq split: if_splits sum.splits)
  with run show thesis by (intro that[of ?v v']) auto
qed

lemma runInTx_inv:
  assumes "runInTx body w = (Inr x, w')" "tx_keeps I body" "I (db_committed w)"
  shows "I (db_committed w')"
  using assms(1)
proof (rule runInTx_Inr)
  fix v v' assume "body v = (Inr x, v')" "db_tx v = Some (db_committed w)" "db_committed w' = db_view v'"
  with tx_keepsD[OF assms(2), of v] assms(3) show ?thesis
    by (auto simp: in_tx_def db_view_def split: option.splits)
qed

section \<open>Runs without a driver error\<close>

text \<open>\<open>robust m\<close>: a run that succeeds is the run that the same operation makes when no statement
  fails, so what holds of the fault-free runs holds of every successful one. Code that only passes
  errors on is robust.\<close>

definition faultless :: "'o db \<Rightarrow> 'o db" where
  "faultless w = w\<lparr>db_faults := []\<rparr>"

definition robust :: "('o db, 'a) proc \<Rightarrow> bool" where
  "robust m \<longleftrightarrow> (\<forall>w x w'. m w = (Inr x, w') \<longrightarrow> m (faultless w) = (Inr x, faultless w'))"

named_theorems robust_intros \<open>procedures that pass every error on\<close>

lemma faultless_simps [simp]:
  "db_committed (faultless w) = db_committed w" "db_tx (faultless w) = db_tx w"
  "db_now (faultless w) = db_now w" "db_out (faultless w) = db_out w" "db_view (faultless w) = db_view w"
  "db_faults (faultless w) = []" "\<not> db_next_faults (faultless w)" "faultless (db_tick w) = faultless w"
  "db_tick (faultless w) = faultless w"
  by (auto simp: faultless_def db_next_faults_def db_tick_def db_view_def split: option.splits)

lemma no_faults_simps [simp]:
  "db_faults w = [] \<Longrightarrow> \<not> db_next_faults w" "db_faults w = [] \<Longrightarrow> db_tick w = w"
  by (simp_all add: db_next_faults_def db_tick_def)

lemma robustI: "(\<And>w x w'. m w = (Inr x, w') \<Longrightarrow> m (faultless w) = (Inr x, faultless w')) \<Longrightarrow> robust m"
  unfolding robust_def by blast

lemma robustD: "robust m \<Longrightarrow> m w = (Inr x, w') \<Longrightarrow> m (faultless w) = (Inr x, faultless w')"
  unfolding robust_def by blast

lemma robust_basic [robust_intros]:
  "robust (ret x)" "robust (throw e)" "robust (liftR r)" "robust (guardP b e)" "robust nowP"
  by (auto simp: robust_def ret_def throw_def liftR_def guardP_def nowP_def)

lemma robust_bindP [robust_intros]:
  assumes "robust m" "\<And>x. robust (f x)"
  shows "robust (bindP m f)"
  using robustD[OF assms(1)] robustD[OF assms(2)]
  by (intro robustI) (auto simp: bindP_Inr_iff)

lemma robust_if [robust_intros]: "robust m \<Longrightarrow> robust n \<Longrightarrow> robust (if b then m else n)"
  by simp

lemma robust_option [robust_intros]:
  "robust m \<Longrightarrow> (\<And>x. robust (f x)) \<Longrightarrow> robust (case_option m f v)"
  by (cases v) simp_all

lemma robust_prod [robust_intros]: "(\<And>x y. robust (f x y)) \<Longrightarrow> robust (case_prod f v)"
  by (cases v) simp

lemma robust_Let [robust_intros]: "(\<And>x. robust (f x)) \<Longrightarrow> robust (Let v f)"
  by (simp add: Let_def)

lemma robust_calls [robust_intros]: "robust (dbCall stmt)" "robust (poolCall stmt)"
proof -
  show "robust (dbCall stmt)"
    by (rule robustI)
       (auto simp: dbCall_def faultless_def db_tick_def db_next_faults_def db_view_def
        split: prod.splits sum.splits if_splits option.splits)
  show "robust (poolCall stmt)"
    by (rule robustI)
       (auto simp: poolCall_def faultless_def db_tick_def db_next_faults_def
        split: prod.splits sum.splits if_splits)
qed

lemma robust_statements [robust_intros]:
  "robust (dbQuery q)" "robust (poolQuery q)" "robust (dbExec f)" "robust (poolExec f)"
  unfolding dbQuery_def poolQuery_def dbExec_def poolExec_def by (rule robust_calls)+

text \<open>An error that is replaced by another one.\<close>

definition orFail :: "('s, 'a) proc \<Rightarrow> go_error \<Rightarrow> ('s, 'a) proc" where
  "orFail m e w = (case m w of (Inl _, w') \<Rightarrow> (Inl e, w') | (Inr x, w') \<Rightarrow> (Inr x, w'))"

lemma orFail_Inr_iff [simp]: "orFail m e w = (Inr x, w') \<longleftrightarrow> m w = (Inr x, w')"
  by (auto simp: orFail_def split: prod.splits sum.splits)

lemma orFail_eval:
  "m w = (Inl e', w') \<Longrightarrow> orFail m e w = (Inl e, w')"
  "m w = (Inr x, w') \<Longrightarrow> orFail m e w = (Inr x, w')"
  by (simp_all add: orFail_def)

lemma orFail_cases:
  assumes "orFail m e w = (r, w')"
  obtains e' where "m w = (Inl e', w')" "r = Inl e" | x where "m w = (Inr x, w')" "r = Inr x"
  using assms by (auto simp: orFail_def split: prod.splits sum.splits)

lemma orFail_rules:
  "robust m \<Longrightarrow> robust (orFail m e)" "reads m \<Longrightarrow> reads (orFail m e)" "keeps I m \<Longrightarrow> keeps I (orFail m e)"
  "contained m \<Longrightarrow> contained (orFail m e)"
proof -
  show "robust m \<Longrightarrow> robust (orFail m e)" by (rule robustI) (simp add: robustD)
  show "reads m \<Longrightarrow> reads (orFail m e)" by (rule readsI, erule orFail_cases) (simp_all add: readsD)
  show "keeps I m \<Longrightarrow> keeps I (orFail m e)"
    by (rule keepsI, erule orFail_cases) (blast dest: keepsD)+
  show "contained m \<Longrightarrow> contained (orFail m e)"
    by (rule containedI, erule orFail_cases) (simp_all add: containedD)
qed

lemmas orFail_robust [robust_intros] = orFail_rules(1)
lemmas orFail_reads [reads_intros] = orFail_rules(2)
lemmas orFail_keeps [inv_intros] = orFail_rules(3)
lemmas orFail_contained [contained_intros] = orFail_rules(4)

text \<open>What a fault-free world answers.\<close>

lemma calls_faultless [simp]:
  assumes "db_faults w = []"
  shows "dbQuery q w = (Ok (q (db_view w)), w)" "poolQuery p w = (Ok (p (db_committed w)), w)"
  using assms
  by (cases "db_tx w"; simp add: dbQuery_def poolQuery_def dbCall_def poolCall_def)+

end
