(* ===== verification/Room_Store.thy ===== *)
theory Room_Store
  imports Db "HOL-Library.Product_Lexorder"
begin

text \<open>
  Rooms, their members and their threads in the database: model/room.go and the repositories
  infra/mysql/room_repository.go, room_user_repository.go (membership, roles, read positions, DM
  rooms), chat_thread_repository.go and community_repository.go.
\<close>

section \<open>Rooms (model/room.go)\<close>

definition RoomTypeCommunity :: string where "RoomTypeCommunity = ''community''"
definition RoomTypeDM :: string where "RoomTypeDM = ''dm''"
definition RoomTypeCourse :: string where "RoomTypeCourse = ''course''"

definition RoomUserRoleOwner :: string where "RoomUserRoleOwner = ''owner''"
definition RoomUserRoleMember :: string where "RoomUserRoleMember = ''member''"

lemma room_types_distinct [simp]:
  "RoomTypeCommunity \<noteq> RoomTypeDM" "RoomTypeDM \<noteq> RoomTypeCommunity"
  "RoomTypeCommunity \<noteq> RoomTypeCourse" "RoomTypeCourse \<noteq> RoomTypeCommunity"
  "RoomTypeDM \<noteq> RoomTypeCourse" "RoomTypeCourse \<noteq> RoomTypeDM"
  "RoomUserRoleOwner \<noteq> RoomUserRoleMember" "RoomUserRoleMember \<noteq> RoomUserRoleOwner"
  by (simp_all add: RoomTypeCommunity_def RoomTypeDM_def RoomTypeCourse_def RoomUserRoleOwner_def
      RoomUserRoleMember_def)

record room =
  rm_ParentRoomID :: "int option"
  rm_ThreadCreatorID :: "int option"
  rm_ThreadClosedAt :: "int option"
  rm_ID :: int
  rm_Name :: string
  rm_Type :: string
  rm_CreatedAt :: int
  rm_UpdatedAt :: int

definition PolicyRoomID :: "room \<Rightarrow> int" where
  "PolicyRoomID r = (case rm_ParentRoomID r of Some p \<Rightarrow> p | None \<Rightarrow> rm_ID r)"

section \<open>Rows\<close>

definition has_room :: "tables \<Rightarrow> int \<Rightarrow> bool" where
  "has_room t roomID \<longleftrightarrow> roomID \<in> rooms_id ` set (tb_rooms t)"

definition has_user :: "tables \<Rightarrow> int \<Rightarrow> bool" where
  "has_user t userID \<longleftrightarrow> userID \<in> users_id ` set (tb_users t)"

definition has_account :: "tables \<Rightarrow> int \<Rightarrow> bool" where
  "has_account t userID \<longleftrightarrow> userID \<in> user_accounts_user_id ` set (tb_user_accounts t)"

definition in_room :: "tables \<Rightarrow> int \<Rightarrow> int \<Rightarrow> bool" where
  "in_room t roomID userID \<longleftrightarrow>
     (\<exists>r\<in>set (tb_room_users t). room_users_room_id r = roomID \<and> room_users_user_id r = userID)"

definition room_user_rows :: "tables \<Rightarrow> int \<Rightarrow> room_user_row list" where
  "room_user_rows t roomID = filter (\<lambda>r. room_users_room_id r = roomID) (tb_room_users t)"

text \<open>A statement refused by a foreign key or a unique key.\<close>

definition constraint_error :: go_error where
  "constraint_error = Errorf ''constraint violation''"

section \<open>Rooms: infra/mysql/room_repository.go\<close>

definition SaveRoom :: "room \<Rightarrow> ('o db, room) proc" where
  "SaveRoom rm = dbCall (\<lambda>t.
     if case rm_ParentRoomID rm of None \<Rightarrow> True | Some p \<Rightarrow> has_room t p
     then (Ok (rm\<lparr>rm_ID := tb_next_id t\<rparr>),
           t\<lparr>tb_next_id := tb_next_id t + 1,
             tb_rooms := tb_rooms t @
               [\<lparr>rooms_id = tb_next_id t, rooms_name = rm_Name rm, rooms_type = rm_Type rm,
                 rooms_created_at = rm_CreatedAt rm, rooms_updated_at = rm_UpdatedAt rm,
                 rooms_parent_room_id = rm_ParentRoomID rm\<rparr>]\<rparr>)
     else (Err constraint_error, t))"

text \<open>\<open>rooms r LEFT JOIN chat_threads t ON t.room_id = r.id\<close>.\<close>

definition room_of_row :: "tables \<Rightarrow> room_row \<Rightarrow> room" where
  "room_of_row t r =
     (let th = List.find (\<lambda>h. chat_threads_room_id h = rooms_id r) (tb_chat_threads t) in
      \<lparr>rm_ParentRoomID = rooms_parent_room_id r,
       rm_ThreadCreatorID = Option.bind th chat_threads_created_by,
       rm_ThreadClosedAt = Option.bind th chat_threads_closed_at,
       rm_ID = rooms_id r, rm_Name = rooms_name r, rm_Type = rooms_type r,
       rm_CreatedAt = rooms_created_at r, rm_UpdatedAt = rooms_updated_at r\<rparr>)"

definition find_room :: "tables \<Rightarrow> int \<Rightarrow> room option" where
  "find_room t roomID = map_option (room_of_row t) (List.find (\<lambda>r. rooms_id r = roomID) (tb_rooms t))"

definition GetRoomByID :: "int \<Rightarrow> ('o db, room option) proc" where
  "GetRoomByID roomID = dbQuery (\<lambda>t. find_room t roomID)"

text \<open>\<open>DELETE FROM rooms\<close> with its foreign keys: the threads of a room go with it (each round adds the
  children of what is going; there are at most as many rounds as rooms), then everything that belongs
  to the rooms; announcements lose their link.\<close>

fun with_threads :: "nat \<Rightarrow> room_row list \<Rightarrow> int list \<Rightarrow> int list" where
  "with_threads 0 rs going = going"
| "with_threads (Suc n) rs going =
     with_threads n rs
       (going @ [rooms_id r. r \<leftarrow> rs, rooms_id r \<notin> set going,
                  case rooms_parent_room_id r of None \<Rightarrow> False | Some p \<Rightarrow> p \<in> set going])"

definition cascade_messages :: "int list \<Rightarrow> tables \<Rightarrow> tables" where
  "cascade_messages msgs t =
     t\<lparr>tb_messages :=
         map (\<lambda>m. case messages_reply_to_message_id m of
                    Some r \<Rightarrow> if r \<in> set msgs then m\<lparr>messages_reply_to_message_id := None\<rparr> else m
                  | None \<Rightarrow> m)
           (filter (\<lambda>m. messages_id m \<notin> set msgs) (tb_messages t)),
       tb_message_mentions := filter (\<lambda>m. message_mentions_message_id m \<notin> set msgs) (tb_message_mentions t),
       tb_message_reactions := filter (\<lambda>m. message_reactions_message_id m \<notin> set msgs) (tb_message_reactions t),
       tb_message_media := filter (\<lambda>m. message_media_message_id m \<notin> set msgs) (tb_message_media t)\<rparr>"

definition cascade_rooms :: "int list \<Rightarrow> tables \<Rightarrow> tables" where
  "cascade_rooms going t =
     (let courses = [courses_id c. c \<leftarrow> tb_courses t, courses_room_id c \<in> set going];
          polls = [polls_id p. p \<leftarrow> tb_polls t, polls_room_id p \<in> set going];
          options = [poll_options_id opt. opt \<leftarrow> tb_poll_options t, poll_options_poll_id opt \<in> set polls];
          msgs = [messages_id m. m \<leftarrow> tb_messages t, messages_room_id m \<in> set going];
          t = cascade_messages msgs t in
      t\<lparr>tb_rooms := filter (\<lambda>r. rooms_id r \<notin> set going) (tb_rooms t),
        tb_chat_threads := filter (\<lambda>h. chat_threads_room_id h \<notin> set going) (tb_chat_threads t),
        tb_room_users := filter (\<lambda>r. room_users_room_id r \<notin> set going) (tb_room_users t),
        tb_course_room_reads :=
          filter (\<lambda>r. course_room_reads_room_id r \<notin> set going) (tb_course_room_reads t),
        tb_communities := filter (\<lambda>c. communities_room_id c \<notin> set going) (tb_communities t),
        tb_courses := filter (\<lambda>c. courses_room_id c \<notin> set going) (tb_courses t),
        tb_timetables := filter (\<lambda>e. timetables_course_id e \<notin> set courses) (tb_timetables t),
        tb_polls := filter (\<lambda>p. polls_room_id p \<notin> set going) (tb_polls t),
        tb_poll_options := filter (\<lambda>opt. poll_options_poll_id opt \<notin> set polls) (tb_poll_options t),
        tb_poll_votes := filter (\<lambda>v. poll_votes_poll_option_id v \<notin> set options) (tb_poll_votes t),
        tb_messages :=
          map (\<lambda>m. case messages_thread_room_id m of
                     Some r \<Rightarrow> if r \<in> set going then m\<lparr>messages_thread_room_id := None\<rparr> else m
                   | None \<Rightarrow> m) (tb_messages t)\<rparr>)"

definition DeleteRoom :: "int \<Rightarrow> ('o db, bool) proc" where
  "DeleteRoom roomID = dbCall (\<lambda>t.
     if has_room t roomID then (Ok True, cascade_rooms (with_threads (length (tb_rooms t)) (tb_rooms t) [roomID]) t)
     else (Ok False, t))"

section \<open>Members: infra/mysql/room_user_repository.go\<close>

text \<open>\<open>INSERT IGNORE INTO room_users\<close>: nothing happens when the pair is there already, or when the
  room or the account is not.\<close>

definition insert_room_user :: "int \<Rightarrow> int \<Rightarrow> int \<Rightarrow> string \<Rightarrow> tables \<Rightarrow> tables" where
  "insert_room_user now roomID userID role t =
     (if has_room t roomID \<and> has_account t userID \<and> \<not> in_room t roomID userID
      then t\<lparr>tb_room_users := tb_room_users t @
               [\<lparr>room_users_room_id = roomID, room_users_user_id = userID, room_users_role = role,
                 room_users_created_at = now, room_users_last_read_message_id = None,
                 room_users_last_read_at = None\<rparr>]\<rparr>
      else t)"

definition AddUserToRoom :: "int \<Rightarrow> int \<Rightarrow> ('o db, unit) proc" where
  "AddUserToRoom roomID userID =
     bindP nowP (\<lambda>now. poolExec (insert_room_user now roomID userID RoomUserRoleMember))"

definition GetRoomUserRole :: "int \<Rightarrow> int \<Rightarrow> ('o db, string) proc" where
  "GetRoomUserRole roomID userID = poolQuery (\<lambda>t.
     case List.find (\<lambda>r. room_users_room_id r = roomID \<and> room_users_user_id r = userID) (tb_room_users t) of
       None \<Rightarrow> []
     | Some r \<Rightarrow> room_users_role r)"

definition set_role_where :: "(room_user_row \<Rightarrow> bool) \<Rightarrow> string \<Rightarrow> tables \<Rightarrow> tables" where
  "set_role_where P role t =
     t\<lparr>tb_room_users := map (\<lambda>r. if P r then r\<lparr>room_users_role := role\<rparr> else r) (tb_room_users t)\<rparr>"

definition SetRoomUserRole :: "int \<Rightarrow> int \<Rightarrow> string \<Rightarrow> ('o db, unit) proc" where
  "SetRoomUserRole roomID userID role =
     dbExec (set_role_where (\<lambda>r. room_users_room_id r = roomID \<and> room_users_user_id r = userID) role)"

text \<open>\<open>inChunks\<close> (infra/mysql/query_helper.go): the statement for one slice of the arguments after the
  other, none for no arguments.\<close>

definition maxBulkInsertParams :: int where
  "maxBulkInsertParams = 60000"

definition bulkInsertChunkSize :: "int \<Rightarrow> int" where
  "bulkInsertChunkSize cols =
     (if cols \<le> 0 then 1
      else (let n = maxBulkInsertParams div cols in if n < 1 then 1 else n))"

lemma bulkInsertChunkSize_pos: "1 \<le> bulkInsertChunkSize cols"
  by (simp add: bulkInsertChunkSize_def Let_def)

lemma chunk_positive [simp]: "0 < bulkInsertChunkSize cols" "\<not> bulkInsertChunkSize cols \<le> 0"
  using bulkInsertChunkSize_pos[of cols] by linarith+

function inChunks :: "'a list \<Rightarrow> int \<Rightarrow> ('a list \<Rightarrow> ('s, unit) proc) \<Rightarrow> ('s, unit) proc" where
  "inChunks rows cols exec =
     (if rows = [] then ret ()
      else if int (length rows) \<le> bulkInsertChunkSize cols then exec rows
      else bindP (exec (take (nat (bulkInsertChunkSize cols)) rows)) (\<lambda>_.
             inChunks (drop (nat (bulkInsertChunkSize cols)) rows) cols exec))"
  by pat_completeness auto
termination
  by (relation "measure (\<lambda>(rows, _). length rows)") auto

declare inChunks.simps [simp del]

text \<open>The same where the statement of a slice has a result for each of its rows.\<close>

function inChunksCollect :: "'a list \<Rightarrow> int \<Rightarrow> ('a list \<Rightarrow> ('s, 'b list) proc) \<Rightarrow> ('s, 'b list) proc" where
  "inChunksCollect rows cols exec =
     (if rows = [] then ret []
      else if int (length rows) \<le> bulkInsertChunkSize cols then exec rows
      else bindP (exec (take (nat (bulkInsertChunkSize cols)) rows)) (\<lambda>xs.
             bindP (inChunksCollect (drop (nat (bulkInsertChunkSize cols)) rows) cols exec) (\<lambda>ys.
             ret (xs @ ys))))"
  by pat_completeness auto
termination
  by (relation "measure (\<lambda>(rows, _). length rows)") auto

declare inChunksCollect.simps [simp del]

definition SetRoomUserRoles :: "int \<Rightarrow> int list \<Rightarrow> string \<Rightarrow> ('o db, unit) proc" where
  "SetRoomUserRoles roomID userIDs role =
     inChunks userIDs 1 (\<lambda>chunk.
       dbExec (set_role_where (\<lambda>r. room_users_room_id r = roomID \<and> room_users_user_id r \<in> set chunk) role))"

definition delete_room_users_where :: "(room_user_row \<Rightarrow> bool) \<Rightarrow> tables \<Rightarrow> tables" where
  "delete_room_users_where P t = t\<lparr>tb_room_users := filter (\<lambda>r. \<not> P r) (tb_room_users t)\<rparr>"

definition RemoveUsersFromRoom :: "int \<Rightarrow> int list \<Rightarrow> ('o db, unit) proc" where
  "RemoveUsersFromRoom roomID userIDs =
     inChunks userIDs 1 (\<lambda>chunk.
       dbExec (delete_room_users_where
         (\<lambda>r. room_users_room_id r = roomID \<and> room_users_user_id r \<in> set chunk)))"

definition RemoveUserFromRoom :: "int \<Rightarrow> int \<Rightarrow> ('o db, unit) proc" where
  "RemoveUserFromRoom roomID userID =
     dbExec (delete_room_users_where
       (\<lambda>r. room_users_room_id r = roomID \<and> room_users_user_id r = userID))"

text \<open>\<open>map[int64]string\<close>: the members of a room with their roles.\<close>

definition member_roles :: "tables \<Rightarrow> int \<Rightarrow> (int \<times> string) list" where
  "member_roles t roomID = map (\<lambda>r. (room_users_user_id r, room_users_role r)) (room_user_rows t roomID)"

definition txQuery :: "(tables \<Rightarrow> 'a) \<Rightarrow> ('o db, 'a) proc" where
  "txQuery q w = (if db_tx w = None then (Err (Errorf ''requires a transaction''), w) else dbQuery q w)"

definition LockRoomMemberRolesForUpdate :: "int \<Rightarrow> ('o db, (int \<times> string) list) proc" where
  "LockRoomMemberRolesForUpdate roomID = txQuery (\<lambda>t. member_roles t roomID)"

definition community_memberships :: "tables \<Rightarrow> int \<Rightarrow> (int \<times> string) list" where
  "community_memberships t userID =
     [(room_users_room_id r, room_users_role r).
        r \<leftarrow> tb_room_users t, room_users_user_id r = userID,
        \<exists>rm\<in>set (tb_rooms t). rooms_id rm = room_users_room_id r \<and> rooms_type rm = RoomTypeCommunity]"

definition LockUserCommunityMembershipsForUpdate :: "int \<Rightarrow> ('o db, (int \<times> string) list) proc" where
  "LockUserCommunityMembershipsForUpdate userID = txQuery (\<lambda>t. community_memberships t userID)"

text \<open>\<open>FindOwnerSuccessor\<close>: an active account first, then who posted last, then who was active last,
  then who joined first.\<close>

definition last_posted_at :: "tables \<Rightarrow> int \<Rightarrow> int \<Rightarrow> int option" where
  "last_posted_at t roomID userID =
     (let ts = [messages_created_at m. m \<leftarrow> tb_messages t, messages_room_id m = roomID,
                  messages_deleted_at m = None, messages_user_id m = userID] in
      if ts = [] then None else Some (Max (set ts)))"

definition last_active_at :: "tables \<Rightarrow> int \<Rightarrow> int option" where
  "last_active_at t userID =
     Option.bind (List.find (\<lambda>a. user_accounts_user_id a = userID) (tb_user_accounts t))
       user_accounts_last_active_at"

definition nulls_last_desc :: "int option \<Rightarrow> bool \<times> int" where
  "nulls_last_desc v = (v = None, case v of None \<Rightarrow> 0 | Some x \<Rightarrow> - x)"

definition successor_key ::
  "tables \<Rightarrow> int \<Rightarrow> room_user_row \<Rightarrow> bool \<times> (bool \<times> int) \<times> (bool \<times> int) \<times> int \<times> int" where
  "successor_key t roomID r =
     (\<not> (\<exists>u\<in>set (tb_users t). users_id u = room_users_user_id r \<and> users_status u = StatusActive),
      nulls_last_desc (last_posted_at t roomID (room_users_user_id r)),
      nulls_last_desc (last_active_at t (room_users_user_id r)),
      room_users_created_at r, room_users_user_id r)"

definition owner_successor :: "tables \<Rightarrow> int \<Rightarrow> int \<Rightarrow> int" where
  "owner_successor t roomID leavingUserID =
     (case sort_key (successor_key t roomID)
             (filter (\<lambda>r. room_users_user_id r \<noteq> leavingUserID \<and> has_user t (room_users_user_id r))
                (room_user_rows t roomID)) of
        [] \<Rightarrow> 0
      | r # _ \<Rightarrow> room_users_user_id r)"

definition FindOwnerSuccessor :: "int \<Rightarrow> int \<Rightarrow> ('o db, int) proc" where
  "FindOwnerSuccessor roomID leavingUserID = dbQuery (\<lambda>t. owner_successor t roomID leavingUserID)"

definition IsRoomMember :: "int \<Rightarrow> int \<Rightarrow> ('o db, bool) proc" where
  "IsRoomMember roomID userID = dbQuery (\<lambda>t. in_room t roomID userID)"

definition GetUserIDsByRoomID :: "int \<Rightarrow> ('o db, int list) proc" where
  "GetUserIDsByRoomID roomID = poolQuery (\<lambda>t. map room_users_user_id (room_user_rows t roomID))"

section \<open>Read positions: infra/mysql/room_user_repository.go, course_room_read_repository.go\<close>

record read_position =
  rp_LastReadMessageID :: "int option"
  rp_LastReadAt :: "int option"

text \<open>\<open>advanceLastReadMessageIDSQL\<close> (infra/mysql/unread_origin.go):
  \<open>NULLIF(GREATEST(COALESCE(col, 0), COALESCE(?, 0)), 0)\<close>.\<close>

definition coalesce0 :: "int option \<Rightarrow> int" where
  "coalesce0 v = (case v of None \<Rightarrow> 0 | Some x \<Rightarrow> x)"

definition advanceLastReadMessageID :: "int option \<Rightarrow> int option \<Rightarrow> int option" where
  "advanceLastReadMessageID col new =
     (let g = max (coalesce0 col) (coalesce0 new) in if g = 0 then None else Some g)"

definition UpdateLastRead :: "int \<Rightarrow> int \<Rightarrow> int option \<Rightarrow> int \<Rightarrow> ('o db, unit) proc" where
  "UpdateLastRead roomID userID lastReadMessageID readAt = poolExec (\<lambda>t.
     t\<lparr>tb_room_users :=
         map (\<lambda>r. if room_users_room_id r = roomID \<and> room_users_user_id r = userID
                  then r\<lparr>room_users_last_read_message_id :=
                           advanceLastReadMessageID (room_users_last_read_message_id r) lastReadMessageID,
                         room_users_last_read_at := Some (max (coalesce0 (room_users_last_read_at r)) readAt)\<rparr>
                  else r) (tb_room_users t)\<rparr>)"

definition room_user_position :: "tables \<Rightarrow> int \<Rightarrow> int \<Rightarrow> read_position option" where
  "room_user_position t roomID userID =
     (case List.find (\<lambda>r. room_users_room_id r = roomID \<and> room_users_user_id r = userID) (tb_room_users t) of
        None \<Rightarrow> None
      | Some r \<Rightarrow>
          if room_users_last_read_message_id r = None \<and> room_users_last_read_at r = None then None
          else Some \<lparr>rp_LastReadMessageID = room_users_last_read_message_id r,
                     rp_LastReadAt = room_users_last_read_at r\<rparr>)"

definition GetLastRead :: "int \<Rightarrow> int \<Rightarrow> ('o db, read_position option) proc" where
  "GetLastRead roomID userID = poolQuery (\<lambda>t. room_user_position t roomID userID)"

definition GetMembersLastReadAt :: "int \<Rightarrow> ('o db, (int \<times> int option) list) proc" where
  "GetMembersLastReadAt roomID =
     poolQuery (\<lambda>t. map (\<lambda>r. (room_users_user_id r, room_users_last_read_at r)) (room_user_rows t roomID))"

text \<open>\<open>INSERT ... ON DUPLICATE KEY UPDATE\<close>.\<close>

definition UpsertLastRead :: "int \<Rightarrow> int \<Rightarrow> int option \<Rightarrow> int \<Rightarrow> ('o db, unit) proc" where
  "UpsertLastRead roomID userID lastReadMessageID readAt = poolCall (\<lambda>t.
     if \<exists>r\<in>set (tb_course_room_reads t).
          course_room_reads_room_id r = roomID \<and> course_room_reads_user_id r = userID
     then (Ok (), t\<lparr>tb_course_room_reads :=
            map (\<lambda>r. if course_room_reads_room_id r = roomID \<and> course_room_reads_user_id r = userID
                     then r\<lparr>course_room_reads_last_read_message_id :=
                              advanceLastReadMessageID (course_room_reads_last_read_message_id r)
                                lastReadMessageID,
                            course_room_reads_last_read_at :=
                              max (course_room_reads_last_read_at r) readAt\<rparr>
                     else r) (tb_course_room_reads t)\<rparr>)
     else if has_room t roomID \<and> has_account t userID
     then (Ok (), t\<lparr>tb_course_room_reads := tb_course_room_reads t @
            [\<lparr>course_room_reads_room_id = roomID, course_room_reads_user_id = userID,
              course_room_reads_last_read_message_id = lastReadMessageID,
              course_room_reads_last_read_at = readAt\<rparr>]\<rparr>)
     else (Err constraint_error, t))"

definition course_room_position :: "tables \<Rightarrow> int \<Rightarrow> int \<Rightarrow> read_position option" where
  "course_room_position t roomID userID =
     map_option (\<lambda>r. \<lparr>rp_LastReadMessageID = course_room_reads_last_read_message_id r,
                       rp_LastReadAt = Some (course_room_reads_last_read_at r)\<rparr>)
       (List.find (\<lambda>r. course_room_reads_room_id r = roomID \<and> course_room_reads_user_id r = userID)
          (tb_course_room_reads t))"

definition GetCourseLastRead :: "int \<Rightarrow> int \<Rightarrow> ('o db, read_position option) proc" where
  "GetCourseLastRead roomID userID = poolQuery (\<lambda>t. course_room_position t roomID userID)"

section \<open>DM rooms: \<open>FindOrCreateDMRoom\<close>\<close>

definition dm_room_of :: "tables \<Rightarrow> int \<Rightarrow> int \<Rightarrow> room_row option" where
  "dm_room_of t leftUserID rightUserID =
     List.find (\<lambda>r. rooms_type r = RoomTypeDM \<and> in_room t (rooms_id r) leftUserID \<and>
                    in_room t (rooms_id r) rightUserID) (tb_rooms t)"

definition account_name :: "tables \<Rightarrow> int \<Rightarrow> string" where
  "account_name t userID =
     (case List.find (\<lambda>a. user_accounts_user_id a = userID) (tb_user_accounts t) of
        Some a \<Rightarrow> user_accounts_name a
      | None \<Rightarrow> ''user:'' @ Itoa userID)"

text \<open>The body of the serialisable transaction; a new room has no thread columns.\<close>

definition new_room :: "int \<Rightarrow> string \<Rightarrow> string \<Rightarrow> room" where
  "new_room now name rtype =
     \<lparr>rm_ParentRoomID = None, rm_ThreadCreatorID = None, rm_ThreadClosedAt = None, rm_ID = 0,
      rm_Name = name, rm_Type = rtype, rm_CreatedAt = now, rm_UpdatedAt = now\<rparr>"

definition find_or_create_dm :: "int \<Rightarrow> int \<Rightarrow> ('o db, room) proc" where
  "find_or_create_dm leftUserID rightUserID =
     bindP (dbQuery (\<lambda>t. dm_room_of t leftUserID rightUserID)) (\<lambda>found. case found of
       Some r \<Rightarrow>
         ret ((new_room (rooms_created_at r) (rooms_name r) (rooms_type r))
                \<lparr>rm_ID := rooms_id r, rm_UpdatedAt := rooms_updated_at r\<rparr>)
     | None \<Rightarrow>
         bindP nowP (\<lambda>now.
         bindP (dbQuery (\<lambda>t. account_name t leftUserID)) (\<lambda>leftUserName.
         bindP (dbQuery (\<lambda>t. account_name t rightUserID)) (\<lambda>rightUserName.
         bindP (SaveRoom (new_room now (''DM:'' @ leftUserName @ ''<->'' @ rightUserName) RoomTypeDM)) (\<lambda>room.
         bindP (dbExec (insert_room_user now (rm_ID room) leftUserID RoomUserRoleMember)) (\<lambda>_.
         bindP (dbExec (insert_room_user now (rm_ID room) rightUserID RoomUserRoleMember)) (\<lambda>_.
         ret room)))))))"

definition FindOrCreateDMRoom :: "int \<Rightarrow> int \<Rightarrow> ('o db, room) proc" where
  "FindOrCreateDMRoom userID1 userID2 =
     runInTx (find_or_create_dm (min userID1 userID2) (max userID1 userID2))"

section \<open>Threads: infra/mysql/chat_thread_repository.go\<close>

definition CreateThread :: "int \<Rightarrow> int \<Rightarrow> ('o db, unit) proc" where
  "CreateThread roomID creatorID = dbCall (\<lambda>t.
     if has_room t roomID \<and> has_user t creatorID \<and>
        (\<forall>h\<in>set (tb_chat_threads t). chat_threads_room_id h \<noteq> roomID)
     then (Ok (), t\<lparr>tb_chat_threads := tb_chat_threads t @
            [\<lparr>chat_threads_room_id = roomID, chat_threads_created_by = Some creatorID,
              chat_threads_closed_at = None\<rparr>]\<rparr>)
     else (Err constraint_error, t))"

definition UpdateThread :: "int \<Rightarrow> string \<Rightarrow> bool \<Rightarrow> ('o db, unit) proc" where
  "UpdateThread roomID title closed =
     bindP nowP (\<lambda>now.
     bindP (dbExec (\<lambda>t. t\<lparr>tb_rooms := map (\<lambda>r. if rooms_id r = roomID
              then r\<lparr>rooms_name := title, rooms_updated_at := now\<rparr> else r) (tb_rooms t)\<rparr>)) (\<lambda>_.
     let closedAt = (if closed then Some now else None) in
     dbExec (\<lambda>t. t\<lparr>tb_chat_threads := map (\<lambda>h. if chat_threads_room_id h = roomID
              then h\<lparr>chat_threads_closed_at := closedAt\<rparr> else h) (tb_chat_threads t)\<rparr>)))"

definition AnnouncementID :: "int \<Rightarrow> ('o db, int) proc" where
  "AnnouncementID roomID = dbQuery (\<lambda>t.
     let ids = [messages_id m. m \<leftarrow> tb_messages t, messages_thread_room_id m = Some roomID,
                  messages_deleted_at m = None] in
     if ids = [] then 0 else Min (set ids))"

section \<open>Communities: infra/mysql/community_repository.go\<close>

record community =
  cm_ID :: int
  cm_RoomID :: int
  cm_Name :: string
  cm_Description :: string
  cm_AvatarMediaID :: "int option"

record avatar_param =
  av_UploaderUserID :: int
  av_StorageKey :: string
  av_ContentType :: string

definition insert_media :: "int \<Rightarrow> string \<Rightarrow> string \<Rightarrow> ('o db, int) proc" where
  "insert_media uploader key ctype = dbCall (\<lambda>t.
     if has_account t uploader
     then (Ok (tb_next_id t), t\<lparr>tb_next_id := tb_next_id t + 1,
             tb_media := tb_media t @
               [\<lparr>media_id = tb_next_id t, media_uploader_user_id = uploader, media_storage_key = key,
                 media_content_type = ctype, media_width = None, media_height = None\<rparr>]\<rparr>)
     else (Err constraint_error, t))"

definition SaveCommunityWithRoom ::
  "string \<Rightarrow> string \<Rightarrow> avatar_param option \<Rightarrow> int \<Rightarrow> ('o db, community) proc" where
  "SaveCommunityWithRoom name description avatar creatorUserID =
     runInTx (
       bindP nowP (\<lambda>now.
       bindP (case avatar of
                None \<Rightarrow> ret None
              | Some a \<Rightarrow> bindP (insert_media (av_UploaderUserID a) (av_StorageKey a) (av_ContentType a))
                            (\<lambda>mediaID. ret (Some mediaID))) (\<lambda>avatarMediaID.
       bindP (SaveRoom (new_room now name RoomTypeCommunity)) (\<lambda>room.
       bindP (dbExec (insert_room_user now (rm_ID room) creatorUserID RoomUserRoleOwner)) (\<lambda>_.
       dbCall (\<lambda>t. (Ok \<lparr>cm_ID = tb_next_id t, cm_RoomID = rm_ID room, cm_Name = name,
                          cm_Description = description, cm_AvatarMediaID = avatarMediaID\<rparr>,
                     t\<lparr>tb_next_id := tb_next_id t + 1,
                       tb_communities := tb_communities t @
                         [\<lparr>communities_id = tb_next_id t, communities_room_id = rm_ID room,
                           communities_name = name, communities_description = description,
                           communities_avatar_media_id = avatarMediaID\<rparr>]\<rparr>)))))))"

text \<open>\<open>LEFT JOIN media\<close>: an icon whose row is gone is none.\<close>

definition community_of_row :: "tables \<Rightarrow> community_row \<Rightarrow> community" where
  "community_of_row t c =
     \<lparr>cm_ID = communities_id c, cm_RoomID = communities_room_id c, cm_Name = communities_name c,
      cm_Description = communities_description c,
      cm_AvatarMediaID =
        (case communities_avatar_media_id c of
           None \<Rightarrow> None
         | Some m \<Rightarrow> if m \<in> media_id ` set (tb_media t) then Some m else None)\<rparr>"

definition GetCommunityByID :: "int \<Rightarrow> ('o db, community option) proc" where
  "GetCommunityByID communityID = poolQuery (\<lambda>t.
     map_option (community_of_row t) (List.find (\<lambda>c. communities_id c = communityID) (tb_communities t)))"

text \<open>\<open>UpdateCommunity\<close>: the community and the name of its room, in one transaction.\<close>

definition UpdateCommunityRow :: "community \<Rightarrow> avatar_param option \<Rightarrow> ('o db, community) proc" where
  "UpdateCommunityRow c avatar =
     bindP nowP (\<lambda>now.
     runInTx (
       bindP (case avatar of
                None \<Rightarrow> ret (cm_AvatarMediaID c)
              | Some a \<Rightarrow> bindP (insert_media (av_UploaderUserID a) (av_StorageKey a) (av_ContentType a))
                            (\<lambda>mediaID. ret (Some mediaID))) (\<lambda>avatarMediaID.
       bindP (dbExec (\<lambda>t. t\<lparr>tb_communities :=
                map (\<lambda>r. if communities_id r = cm_ID c
                         then r\<lparr>communities_name := cm_Name c, communities_description := cm_Description c,
                                communities_avatar_media_id := avatarMediaID\<rparr> else r) (tb_communities t)\<rparr>)) (\<lambda>_.
       bindP (dbExec (\<lambda>t. t\<lparr>tb_rooms :=
                map (\<lambda>r. if rooms_id r = cm_RoomID c
                         then r\<lparr>rooms_name := cm_Name c, rooms_updated_at := now\<rparr> else r) (tb_rooms t)\<rparr>)) (\<lambda>_.
       ret (c\<lparr>cm_AvatarMediaID := avatarMediaID\<rparr>))))))"

definition GetCommunityIDByRoomID :: "int \<Rightarrow> ('o db, int) proc" where
  "GetCommunityIDByRoomID roomID = dbQuery (\<lambda>t.
     case List.find (\<lambda>c. communities_room_id c = roomID) (tb_communities t) of
       None \<Rightarrow> 0
     | Some c \<Rightarrow> communities_id c)"

end
