(* ===== verification/Course_Access.thy ===== *)
theory Course_Access
  imports Room_Store Course_Plan
begin

text \<open>
  Who may write in a course chat: the settings table (infra/mysql/system_setting_repository.go), the
  current semester kept in it (usecase/semester) and the course-room policies of usecase/course, which
  the chat uses for messages and the questions, answers and polls use for theirs.
\<close>

section \<open>Settings: infra/mysql/system_setting_repository.go\<close>

definition GetSetting :: "string \<Rightarrow> ('o db, string) proc" where
  "GetSetting key =
     poolQuery (\<lambda>t. case map_of (tb_system_settings t) key of None \<Rightarrow> [] | Some v \<Rightarrow> v)"

definition GetBoolSetting :: "string \<Rightarrow> ('o db, bool) proc" where
  "GetBoolSetting key = bindP (GetSetting key) (\<lambda>val. ret (val = ''true''))"

definition UpdateSetting :: "string \<Rightarrow> string \<Rightarrow> ('o db, unit) proc" where
  "UpdateSetting key value = poolExec (\<lambda>t.
     t\<lparr>tb_system_settings := map (\<lambda>(k, v). (k, if k = key then value else v)) (tb_system_settings t)\<rparr>)"

section \<open>The current semester: usecase/semester/semester.go\<close>

definition SettingKey :: string where
  "SettingKey = ''current_semester''"

definition parseSemester :: "string \<Rightarrow> (int \<times> string) result" where
  "parseSemester value =
     (case split_first (CHR '':'') value of
        None \<Rightarrow> Err (Errorf ''invalid current_semester value'')
      | Some (y, name) \<Rightarrow>
          (case Atoi y of
             None \<Rightarrow> Err (PlainError ''invalid current_semester year'' (Some (Errorf ''invalid syntax'')))
           | Some year \<Rightarrow> Ok (year, name)))"

definition GetSemester :: "('o db, int \<times> string) proc" where
  "GetSemester = bindP (GetSetting SettingKey) (\<lambda>value. liftR (parseSemester value))"

definition SetSemester :: "int \<Rightarrow> string \<Rightarrow> ('o db, unit) proc" where
  "SetSemester year semesterName = UpdateSetting SettingKey (Itoa year @ CHR '':'' # semesterName)"

section \<open>The stopped course chat: usecase/course/course_chat_policy.go\<close>

definition SystemSettingCourseChatEnabled :: string where
  "SystemSettingCourseChatEnabled = ''course_chat_enabled''"

definition courseChatStoppedFor :: "request_ctx \<Rightarrow> ('o db, bool) proc" where
  "courseChatStoppedFor ctx =
     bindP (liftR (RequireAuth ctx)) (\<lambda>claims.
     if IsAdminRole (cl_Role claims) then ret False
     else bindP (GetSetting SystemSettingCourseChatEnabled) (\<lambda>value. ret (value = ''false'')))"

definition EnsureCourseChatEnabled :: "request_ctx \<Rightarrow> ('o db, unit) proc" where
  "EnsureCourseChatEnabled ctx =
     bindP (courseChatStoppedFor ctx) (\<lambda>stopped.
     guardP (\<not> stopped) (Forbidden ''the course chat is under maintenance''))"

section \<open>Writable course rooms: usecase/course/course_room_policy.go\<close>

definition course_of_room :: "tables \<Rightarrow> int \<Rightarrow> course_row option" where
  "course_of_room t roomID = List.find (\<lambda>c. courses_room_id c = roomID) (tb_courses t)"

definition GetCourseByRoomID :: "int \<Rightarrow> ('o db, course_row option) proc" where
  "GetCourseByRoomID roomID = dbQuery (\<lambda>t. course_of_room t roomID)"

definition registered :: "tables \<Rightarrow> int \<Rightarrow> int \<Rightarrow> bool" where
  "registered t userID courseID \<longleftrightarrow>
     (\<exists>e\<in>set (tb_timetables t). timetables_user_id e = userID \<and> timetables_course_id e = courseID)"

definition IsRegistered :: "int \<Rightarrow> int \<Rightarrow> ('o db, bool) proc" where
  "IsRegistered userID courseID = poolQuery (\<lambda>t. registered t userID courseID)"

definition GetRegisteredAt :: "int \<Rightarrow> int \<Rightarrow> ('o db, int option) proc" where
  "GetRegisteredAt userID courseID = poolQuery (\<lambda>t.
     map_option timetables_created_at
       (List.find (\<lambda>e. timetables_user_id e = userID \<and> timetables_course_id e = courseID) (tb_timetables t)))"

definition inSemester :: "course_row \<Rightarrow> int \<Rightarrow> string \<Rightarrow> bool" where
  "inSemester c year semesterName \<longleftrightarrow>
     courses_year c = year \<and> (courses_semester c = semesterName \<or> courses_semester c = SemesterFull)"

definition ensureCurrentSemester :: "course_row \<Rightarrow> ('o db, unit) proc" where
  "ensureCurrentSemester c =
     bindP GetSemester (\<lambda>(year, semesterName).
     if inSemester c year semesterName then ret ()
     else throw (Forbidden ''the course is not of the current semester: read only''))"

definition ensureRegistered :: "request_ctx \<Rightarrow> course_row \<Rightarrow> ('o db, unit) proc" where
  "ensureRegistered ctx c =
     bindP (liftR (RequireAuth ctx)) (\<lambda>claims.
     if IsAdminRole (cl_Role claims) then ret ()
     else bindP (IsRegistered (cl_ID claims) (courses_id c)) (\<lambda>reg.
          if reg then ret () else throw (Forbidden ''the course is not in your timetable'')))"

definition ensureWritable :: "request_ctx \<Rightarrow> int \<Rightarrow> ('o db, course_row option) proc" where
  "ensureWritable ctx roomID =
     bindP (GetCourseByRoomID roomID) (\<lambda>c. case c of
       None \<Rightarrow> ret None
     | Some c \<Rightarrow>
         bindP (EnsureCourseChatEnabled ctx) (\<lambda>_.
         bindP (ensureCurrentSemester c) (\<lambda>_.
         bindP (ensureRegistered ctx c) (\<lambda>_. ret (Some c)))))"

definition CheckRoomWritable :: "request_ctx \<Rightarrow> int \<Rightarrow> ('o db, unit) proc" where
  "CheckRoomWritable ctx roomID = bindP (ensureWritable ctx roomID) (\<lambda>_. ret ())"

definition RequireWritableCourseRoom :: "request_ctx \<Rightarrow> int \<Rightarrow> ('o db, course_row) proc" where
  "RequireWritableCourseRoom ctx roomID =
     bindP (ensureWritable ctx roomID) (\<lambda>c. case c of
       None \<Rightarrow> throw (InvalidInput ''only available in a course chat'')
     | Some c \<Rightarrow> ret c)"

section \<open>Facts\<close>

lemma course_reads [reads_intros]:
  "reads (GetSetting key)" "reads GetSemester" "reads (courseChatStoppedFor ctx)"
  "reads (EnsureCourseChatEnabled ctx)" "reads (GetCourseByRoomID roomID)"
  "reads (IsRegistered userID courseID)" "reads (GetRegisteredAt userID courseID)"
  unfolding GetSetting_def GetSemester_def courseChatStoppedFor_def EnsureCourseChatEnabled_def
    GetCourseByRoomID_def IsRegistered_def GetRegisteredAt_def
  by (intro reads_intros)+

lemma policy_reads [reads_intros]:
  "reads (ensureCurrentSemester c)" "reads (ensureRegistered ctx c)" "reads (ensureWritable ctx roomID)"
  "reads (CheckRoomWritable ctx roomID)" "reads (RequireWritableCourseRoom ctx roomID)"
  unfolding ensureCurrentSemester_def ensureRegistered_def ensureWritable_def CheckRoomWritable_def
    RequireWritableCourseRoom_def
  by (intro reads_intros)+

text \<open>What the policy lets pass, over the tables: what the specification of F-04 and F-06 says.\<close>

definition current_semester :: "tables \<Rightarrow> (int \<times> string) option" where
  "current_semester t =
     (case map_of (tb_system_settings t) SettingKey of
        None \<Rightarrow> None
      | Some v \<Rightarrow> (case parseSemester v of Inl _ \<Rightarrow> None | Inr x \<Rightarrow> Some x))"

definition course_open :: "tables \<Rightarrow> bool" where
  "course_open t \<longleftrightarrow> map_of (tb_system_settings t) SystemSettingCourseChatEnabled \<noteq> Some ''false''"

definition may_write_course :: "tables \<Rightarrow> claims \<Rightarrow> course_row \<Rightarrow> bool" where
  "may_write_course t claims c \<longleftrightarrow>
     (\<exists>y s. current_semester t = Some (y, s) \<and> inSemester c y s) \<and>
     (IsAdminRole (cl_Role claims) \<or> course_open t \<and> registered t (cl_ID claims) (courses_id c))"

lemma parseSemester_Nil [simp]: "\<exists>e. parseSemester [] = Inl e"
  by (simp add: parseSemester_def)

lemma GetSemester_Inr:
  assumes "GetSemester w = (Inr p, w')" "db_tx w = None"
  shows "current_semester (db_committed w) = Some p"
  using assms
  by (auto simp: GetSemester_def GetSetting_def bindP_Inr_iff query_Inr_iff current_semester_def
      parseSemester_def split: option.splits)

lemma EnsureCourseChatEnabled_Inr:
  assumes "EnsureCourseChatEnabled ctx w = (Inr u, w')" "ClaimsFromContext ctx = Some claims"
  shows "IsAdminRole (cl_Role claims) \<or> course_open (db_committed w)"
  using assms
  by (auto simp: EnsureCourseChatEnabled_def courseChatStoppedFor_def GetSetting_def bindP_Inr_iff
      query_Inr_iff course_open_def RequireAuth_Inr_iff guardP_Inr_iff liftR_def ret_def
      split: if_splits option.splits)

lemma ensureCurrentSemester_Inr:
  assumes "ensureCurrentSemester c w = (Inr u, w')" "db_tx w = None"
  shows "\<exists>y s. current_semester (db_committed w) = Some (y, s) \<and> inSemester c y s"
  using assms
  by (auto simp: ensureCurrentSemester_def bindP_Inr_iff throw_def dest!: GetSemester_Inr split: if_splits)

lemma ensureRegistered_Inr:
  assumes "ensureRegistered ctx c w = (Inr u, w')" "ClaimsFromContext ctx = Some claims"
  shows "IsAdminRole (cl_Role claims) \<or> registered (db_committed w) (cl_ID claims) (courses_id c)"
  using assms
  by (auto simp: ensureRegistered_def IsRegistered_def bindP_Inr_iff query_Inr_iff RequireAuth_Inr_iff
      liftR_def throw_def split: if_splits)

lemma ensureWritable_Inr:
  assumes run: "ensureWritable ctx roomID w = (Inr c, w')" and tx: "db_tx w = None"
    and claims: "ClaimsFromContext ctx = Some claims"
  shows "c = course_of_room (db_committed w) roomID \<and>
    (\<forall>c'. c = Some c' \<longrightarrow> may_write_course (db_committed w) claims c')"
proof -
  from run[unfolded ensureWritable_def] obtain found v where
      found: "GetCourseByRoomID roomID w = (Inr found, v)"
      and rest: "(case found of None \<Rightarrow> ret None | Some c \<Rightarrow> bindP (EnsureCourseChatEnabled ctx) (\<lambda>_.
         bindP (ensureCurrentSemester c) (\<lambda>_. bindP (ensureRegistered ctx c) (\<lambda>_. ret (Some c))))) v = (Inr c, w')"
      and v: "db_committed v = db_committed w" "db_tx v = db_tx w"
    by (rule reads_then) (intro reads_intros, blast)
  have f: "found = course_of_room (db_committed w) roomID"
    using found tx by (simp add: GetCourseByRoomID_def query_Inr_iff)
  show ?thesis
  proof (cases found)
    case None with rest f show ?thesis by simp
  next
    case (Some d)
    from rest[unfolded Some option.case] obtain u1 v1 where
      1: "EnsureCourseChatEnabled ctx v = (Inr u1, v1)" and
      r1: "bindP (ensureCurrentSemester d) (\<lambda>_. bindP (ensureRegistered ctx d) (\<lambda>_. ret (Some d))) v1 = (Inr c, w')"
      and v1: "db_committed v1 = db_committed w" "db_tx v1 = None"
      by (rule reads_then) (intro reads_intros, use v tx in auto)
    from r1 obtain u2 v2 where
      2: "ensureCurrentSemester d v1 = (Inr u2, v2)" and
      r2: "bindP (ensureRegistered ctx d) (\<lambda>_. ret (Some d)) v2 = (Inr c, w')"
      and v2: "db_committed v2 = db_committed w" "db_tx v2 = None"
      by (rule reads_then) (intro reads_intros, use v1 in auto)
    from r2 obtain u3 where 3: "ensureRegistered ctx d v2 = (Inr u3, w')" and c: "c = Some d"
      by (auto simp: bindP_Inr_iff)
    have "may_write_course (db_committed w) claims d"
      using EnsureCourseChatEnabled_Inr[OF 1 claims] ensureCurrentSemester_Inr[OF 2 v1(2)]
        ensureRegistered_Inr[OF 3 claims] v v1 v2
      by (auto simp: may_write_course_def)
    with c f Some show ?thesis by (metis option.inject)
  qed
qed

section \<open>The semester survives storage\<close>

lemma parseSemester_format:
  assumes "in_int64 year"
  shows "parseSemester (Itoa year @ CHR '':'' # name) = Ok (year, name)"
proof -
  have "CHR '':'' \<notin> set (Itoa year)"
    using digits_of_no_sign by (auto simp: Itoa_def)
  then show ?thesis
    using Atoi_Itoa[OF assms] by (simp add: parseSemester_def split_first_append)
qed

lemma map_of_update_existing:
  "key \<in> fst ` set kvs \<Longrightarrow> map_of (map (\<lambda>(k, v). (k, if k = key then val else v)) kvs) key = Some val"
  by (induction kvs) auto

text \<open>C26: What \<open>semester.Set\<close> stores, \<open>semester.Get\<close> reads back: the year and the name of the
  semester, for every year of a 64-bit integer and every name, also one with a colon.\<close>

theorem semester_roundtrip:
  assumes "SetSemester year name w = (Ok (), v)"
    and "SettingKey \<in> fst ` set (tb_system_settings (db_committed w))"
    and "in_int64 year" and "\<not> db_next_faults v"
  shows "fst (GetSemester v) = Ok (year, name)"
proof -
  from assms(1) have v: "map_of (tb_system_settings (db_committed v)) SettingKey =
      Some (Itoa year @ CHR '':'' # name)"
    using map_of_update_existing[OF assms(2)]
    by (auto simp: SetSemester_def UpdateSetting_def poolExec_def poolCall_def split: if_splits)
  then have "GetSetting SettingKey v = (Ok (Itoa year @ CHR '':'' # name), db_tick v)"
    unfolding GetSetting_def query_Inr_iff using assms(4) by simp
  then show ?thesis
    by (simp add: GetSemester_def parseSemester_format[OF assms(3)])
qed

theorem semester_roundtrip_witness:
  "let w = \<lparr>db_now = 0, db_committed = no_tables\<lparr>tb_system_settings := [(SettingKey, [])]\<rparr>,
            db_tx = None, db_faults = [], db_out = ()\<rparr> in
   fst (SetSemester 2025 ''a:b'' w) = Ok () \<and>
   fst (GetSemester (snd (SetSemester 2025 ''a:b'' w))) = Ok (2025, ''a:b'')"
proof -
  define w where "w = \<lparr>db_now = 0, db_committed = no_tables\<lparr>tb_system_settings := [(SettingKey, [])]\<rparr>,
            db_tx = None, db_faults = [], db_out = ()\<rparr>"
  obtain v where v: "SetSemester 2025 ''a:b'' w = (Ok (), v)" "db_faults v = []"
    by (simp add: SetSemester_def UpdateSetting_def poolExec_def poolCall_def w_def db_next_faults_def
        db_tick_def)
  have "fst (GetSemester v) = Ok (2025, ''a:b'')"
    by (rule semester_roundtrip[OF v(1)])
       (simp_all add: w_def no_tables_def in_int64_def db_next_faults_def v(2))
  with v show ?thesis by (simp add: w_def Let_def)
qed

end
