(* ===== verification/Go_Text.thy ===== *)
theory Go_Text
  imports Prelude
begin

text \<open>
  Text as the Go standard library sees it: a string is bytes, \<open>utf8.DecodeRuneInString\<close> reads one
  code point (an invalid byte is the one-byte rune \<open>RuneError\<close>), \<open>utf8.RuneCountInString\<close> counts them
  and \<open>strings.TrimSpace\<close> strips the white space of Unicode from both ends. A backward scan finds the
  same runes as a forward one, because a rune never starts inside another.
\<close>

section \<open>Decoding\<close>

definition byte :: "char \<Rightarrow> int" where
  "byte c = of_char c"

definition in_range :: "int \<Rightarrow> int \<Rightarrow> char \<Rightarrow> bool" where
  "in_range lo hi c \<longleftrightarrow> lo \<le> byte c \<and> byte c \<le> hi"

definition RuneError :: int where
  "RuneError = 65533"

text \<open>The accepted range of the second byte after the first byte \<open>a\<close>, for three and four bytes.\<close>

definition second_ok :: "char \<Rightarrow> char \<Rightarrow> bool" where
  "second_ok a b \<longleftrightarrow>
     (if byte a = 224 then in_range 160 191 b
      else if byte a = 237 then in_range 128 159 b
      else if byte a = 240 then in_range 144 191 b
      else if byte a = 244 then in_range 128 143 b
      else in_range 128 191 b)"

text \<open>\<open>decode_rune s\<close>: the rune at the front of a non-empty string and how many bytes it takes.\<close>

definition decode_rune :: "string \<Rightarrow> int \<times> nat" where
  "decode_rune s =
     (case s of
        [] \<Rightarrow> (RuneError, 0)
      | a # s1 \<Rightarrow>
          if byte a < 128 then (byte a, 1)
          else (case s1 of
             [] \<Rightarrow> (RuneError, 1)
           | b # s2 \<Rightarrow>
               if in_range 194 223 a \<and> in_range 128 191 b
               then ((byte a - 192) * 64 + (byte b - 128), 2)
               else if in_range 224 239 a \<and> second_ok a b
               then (case s2 of
                  [] \<Rightarrow> (RuneError, 1)
                | c # _ \<Rightarrow>
                    if in_range 128 191 c
                    then ((byte a - 224) * 4096 + (byte b - 128) * 64 + (byte c - 128), 3)
                    else (RuneError, 1))
               else if in_range 240 244 a \<and> second_ok a b
               then (case s2 of
                  c # d # _ \<Rightarrow>
                    if in_range 128 191 c \<and> in_range 128 191 d
                    then ((byte a - 240) * 262144 + (byte b - 128) * 4096 + (byte c - 128) * 64 + (byte d - 128), 4)
                    else (RuneError, 1)
                | _ \<Rightarrow> (RuneError, 1))
               else (RuneError, 1)))"

lemma decode_rune_size: "s \<noteq> [] \<Longrightarrow> 1 \<le> snd (decode_rune s) \<and> snd (decode_rune s) \<le> length s"
  by (auto simp: decode_rune_def split: list.splits)

lemma decode_rune_pos: "(r, n) = decode_rune (x # xs) \<Longrightarrow> 0 < n"
  using decode_rune_size[of "x # xs"] by (metis less_eq_Suc_le One_nat_def list.distinct(1) snd_conv)

text \<open>A string as its runes, each with its bytes.\<close>

function runes :: "string \<Rightarrow> (int \<times> string) list" where
  "runes [] = []"
| "runes (x # xs) =
     (case decode_rune (x # xs) of
        (r, n) \<Rightarrow> (r, take n (x # xs)) # runes (drop n (x # xs)))"
  by pat_completeness auto
termination
  by (relation "measure length") (auto dest: decode_rune_pos)

definition RuneCount :: "string \<Rightarrow> int" where
  "RuneCount s = int (length (runes s))"

definition IsSpace :: "int \<Rightarrow> bool" where
  "IsSpace r \<longleftrightarrow> r = 32 \<or> (9 \<le> r \<and> r \<le> 13) \<or> r = 133 \<or> r = 160 \<or> r = 5760 \<or>
     (8192 \<le> r \<and> r \<le> 8202) \<or> r = 8232 \<or> r = 8233 \<or> r = 8239 \<or> r = 8287 \<or> r = 12288"

definition bytes_of :: "(int \<times> string) list \<Rightarrow> string" where
  "bytes_of rs = concat (map snd rs)"

definition trim_runes :: "(int \<times> string) list \<Rightarrow> (int \<times> string) list" where
  "trim_runes rs = rev (dropWhile (\<lambda>r. IsSpace (fst r)) (rev (dropWhile (\<lambda>r. IsSpace (fst r)) rs)))"

definition TrimUnicode :: "string \<Rightarrow> string" where
  "TrimUnicode s = bytes_of (trim_runes (runes s))"

section \<open>Facts\<close>

lemma bytes_of_simps [simp]:
  "bytes_of [] = []" "bytes_of (r # rs) = snd r @ bytes_of rs" "bytes_of (rs @ qs) = bytes_of rs @ bytes_of qs"
  by (simp_all add: bytes_of_def)

lemma bytes_of_runes [simp]: "bytes_of (runes s) = s"
  by (induction s rule: runes.induct) (simp_all split: prod.split)

lemma runes_step:
  "s \<noteq> [] \<Longrightarrow> decode_rune s = (c, n) \<Longrightarrow> runes s = (c, take n s) # runes (drop n s)"
  by (cases s) simp_all

lemma runes_eq_Nil [simp]: "runes s = [] \<longleftrightarrow> s = []"
  by (cases s) (simp_all split: prod.split)

text \<open>What a rune is does not depend on what follows the bytes that were read, nor on whether anything
  follows at all.\<close>

lemma decode_rune_take:
  assumes "snd (decode_rune (p @ q)) \<le> length p" "p \<noteq> []"
  shows "decode_rune p = decode_rune (p @ q)"
proof -
  consider a where "p = [a]" | a b where "p = [a, b]" | a b c where "p = [a, b, c]"
    | a b c d r where "p = a # b # c # d # r"
    using assms(2) by (metis neq_Nil_conv)
  then show ?thesis
  proof cases
    case 1 with assms(1) show ?thesis
      by (cases q) (auto simp: decode_rune_def split: if_splits list.splits)
  next
    case 2 with assms(1) show ?thesis
      by (cases q) (auto simp: decode_rune_def split: if_splits list.splits)
  next
    case 3 with assms(1) show ?thesis
      by (cases q) (auto simp: decode_rune_def split: if_splits)
  next
    case 4 then show ?thesis by (simp add: decode_rune_def)
  qed
qed

text \<open>A list of runes is what its bytes decode to.\<close>

definition canonical :: "(int \<times> string) list \<Rightarrow> bool" where
  "canonical rs \<longleftrightarrow> runes (bytes_of rs) = rs"

lemma canonical_runes [simp]: "canonical (runes s)"
  by (simp add: canonical_def)

lemma canonical_suffix: "canonical (rs @ qs) \<Longrightarrow> canonical qs"
proof (induction rs)
  case (Cons r rs)
  have "canonical (rs @ qs)"
  proof (cases "snd r @ bytes_of (rs @ qs)")
    case Nil
    with Cons.prems show ?thesis by (simp add: canonical_def)
  next
    case (Cons x xs)
    obtain c n where d: "decode_rune (x # xs) = (c, n)" by fastforce
    from Cons.prems have "runes (x # xs) = r # rs @ qs"
      using Cons by (simp add: canonical_def flip: append_assoc)
    with d have "r = (c, take n (x # xs))" "runes (drop n (x # xs)) = rs @ qs" by simp_all
    moreover have "drop n (x # xs) = bytes_of (rs @ qs)"
      using calculation by (metis bytes_of_runes)
    ultimately show ?thesis by (simp add: canonical_def)
  qed
  then show ?case by (rule Cons.IH)
qed simp

lemma canonical_prefix: "canonical (rs @ qs) \<Longrightarrow> canonical rs"
proof (induction rs)
  case Nil
  show ?case by (simp add: canonical_def)
next
  case (Cons r rs)
  from Cons.prems canonical_suffix[of "[r]" "rs @ qs"] have "canonical (rs @ qs)" by simp
  then have ih: "runes (bytes_of rs) = rs" using Cons.IH by (simp add: canonical_def)
  have all: "runes (snd r @ bytes_of (rs @ qs)) = r # rs @ qs"
    using Cons.prems by (simp add: canonical_def)
  then obtain x xs where e: "snd r @ bytes_of (rs @ qs) = x # xs"
    by (cases "snd r @ bytes_of (rs @ qs)") simp_all
  obtain c n where d: "decode_rune (x # xs) = (c, n)" by fastforce
  with all e have r: "r = (c, take n (x # xs))" by simp
  have n: "1 \<le> n" "n \<le> length (x # xs)" using decode_rune_size[of "x # xs"] d by auto
  with r have len: "length (snd r) = n" by simp
  then have ne: "snd r @ bytes_of rs \<noteq> []" using n by (cases "snd r") auto
  have "decode_rune ((snd r @ bytes_of rs) @ bytes_of qs) = (c, n)" using d e by simp
  with decode_rune_take[of "snd r @ bytes_of rs" "bytes_of qs"] len ne
  have d': "decode_rune (snd r @ bytes_of rs) = (c, n)" by simp
  have "take n (snd r @ bytes_of rs) = snd r" "drop n (snd r @ bytes_of rs) = bytes_of rs"
    using len by simp_all
  with runes_step[OF ne d'] r ih have "runes (snd r @ bytes_of rs) = r # rs" by simp
  then show ?case by (simp add: canonical_def)
qed

lemma canonical_trim: "canonical rs \<Longrightarrow> canonical (trim_runes rs)"
proof -
  assume rs: "canonical rs"
  let ?P = "\<lambda>r. IsSpace (fst r)"
  have "canonical (takeWhile ?P rs @ dropWhile ?P rs)" using rs by simp
  then have 1: "canonical (dropWhile ?P rs)" by (rule canonical_suffix)
  have "dropWhile ?P rs =
      rev (dropWhile ?P (rev (dropWhile ?P rs))) @ rev (takeWhile ?P (rev (dropWhile ?P rs)))"
    by (metis rev_append rev_rev_ident takeWhile_dropWhile_id)
  with 1 show ?thesis unfolding trim_runes_def by (metis canonical_prefix)
qed

lemma dropWhile_fixed: "(xs = [] \<or> \<not> P (hd xs)) \<Longrightarrow> dropWhile P xs = xs"
  by (cases xs) auto

lemma trim_runes_idem [simp]: "trim_runes (trim_runes rs) = trim_runes rs"
proof -
  let ?P = "\<lambda>r :: int \<times> string. IsSpace (fst r)"
  define xs where "xs = dropWhile ?P rs"
  define ys where "ys = dropWhile ?P (rev xs)"
  have "rev ys = [] \<or> \<not> ?P (hd (rev ys))"
  proof (cases "ys = []")
    case False
    have "xs = rev ys @ rev (takeWhile ?P (rev xs))"
      unfolding ys_def by (metis rev_append rev_rev_ident takeWhile_dropWhile_id)
    with False have "hd xs = hd (rev ys)" "xs \<noteq> []" by (metis hd_append2 rev_is_Nil_conv, auto)
    then show ?thesis unfolding xs_def by (metis hd_dropWhile dropWhile_eq_Nil_conv)
  qed simp
  then have "dropWhile ?P (rev ys) = rev ys" by (rule dropWhile_fixed)
  moreover have "dropWhile ?P ys = ys" unfolding ys_def by (rule dropWhile_idem)
  ultimately show ?thesis by (simp add: trim_runes_def flip: xs_def ys_def)
qed

lemma runes_TrimUnicode: "runes (TrimUnicode s) = trim_runes (runes s)"
  using canonical_trim[OF canonical_runes] by (simp add: TrimUnicode_def canonical_def)

lemma TrimUnicode_idem [simp]: "TrimUnicode (TrimUnicode s) = TrimUnicode s"
  unfolding TrimUnicode_def[of "TrimUnicode s"] runes_TrimUnicode trim_runes_idem
  by (simp add: TrimUnicode_def)

lemma TrimUnicode_Nil [simp]: "TrimUnicode [] = []"
  by (simp add: TrimUnicode_def trim_runes_def)

lemma RuneCount_trim: "RuneCount (TrimUnicode s) \<le> RuneCount s"
proof -
  have "length (trim_runes (runes s)) \<le> length (runes s)"
    unfolding trim_runes_def by (metis length_dropWhile_le length_rev order.trans)
  then show ?thesis by (simp add: RuneCount_def runes_TrimUnicode)
qed

section \<open>Searching\<close>

text \<open>\<open>strings.Index\<close>.\<close>

fun indexOf :: "string \<Rightarrow> string \<Rightarrow> nat option" where
  "indexOf [] token = (if token = [] then Some 0 else None)"
| "indexOf (c # s) token =
     (if HasPrefix (c # s) token then Some 0 else map_option Suc (indexOf s token))"

lemma indexOf_less: "indexOf s token = Some i \<Longrightarrow> token \<noteq> [] \<Longrightarrow> i < length s"
  by (induction s token arbitrary: i rule: indexOf.induct) (auto split: if_splits)

lemma indexOf_Some:
  "indexOf s token = Some i \<Longrightarrow> HasPrefix (drop i s) token \<and> (\<forall>j<i. \<not> HasPrefix (drop j s) token)"
proof (induction s token arbitrary: i rule: indexOf.induct)
  case (2 c s token)
  show ?case
  proof (cases "HasPrefix (c # s) token")
    case False
    with "2.prems" obtain k where k: "i = Suc k" "indexOf s token = Some k" by auto
    from "2.IH"[OF False k(2)] False k(1) show ?thesis
      by (auto simp: less_Suc_eq_0_disj)
  qed (use "2.prems" in auto)
qed (auto simp: HasPrefix_def split: if_splits)

lemma indexOf_None: "indexOf s token = None \<Longrightarrow> \<not> HasPrefix (drop i s) token"
proof (induction s token arbitrary: i rule: indexOf.induct)
  case (2 c s token)
  then show ?case by (cases i) (auto split: if_splits)
qed (auto simp: HasPrefix_def)

end
