(* ===== verification/Message_Store.thy ===== *)
theory Message_Store
  imports Room_Store Go_Text
begin

text \<open>
  Messages: model/message.go, the repositories of infra/mysql (message_store.go,
  message_mention_store.go, message_reaction_repository.go, media_repository.go, the read model and the
  unread counter) and what an operation leaves outside the database: the events of
  usecase/chat/events.go and the discarded uploads. The cipher of the message bodies is a parameter.
\<close>

section \<open>Messages (model/message.go, mention.go, message_reaction.go)\<close>

record mention =
  me_UserID :: int
  me_Text :: string

record message =
  ms_ThreadRoomID :: "int option"
  ms_ID :: int
  ms_RoomID :: int
  ms_UserID :: int
  ms_AuthorRole :: string
  ms_ReplyToID :: "int option"
  ms_Content :: string
  ms_StampID :: "string option"
  ms_Mentions :: "mention list"
  ms_CreatedAt :: int
  ms_UpdatedAt :: int
  ms_DeletedAt :: "int option"
  ms_DeletedBy :: "int option"

definition IsDeleted :: "message \<Rightarrow> bool" where
  "IsDeleted m \<longleftrightarrow> ms_DeletedAt m \<noteq> None"

definition IsInRoom :: "message \<Rightarrow> int \<Rightarrow> bool" where
  "IsInRoom m roomID \<longleftrightarrow> ms_RoomID m = roomID"

definition CanBeEditedBy :: "message \<Rightarrow> int \<Rightarrow> bool \<Rightarrow> bool" where
  "CanBeEditedBy m userID isAdmin =
     (if IsDeleted m then False else ms_ThreadRoomID m = None \<and> (ms_UserID m = userID \<or> isAdmin))"

definition CanBeDeletedBy :: "message \<Rightarrow> int \<Rightarrow> bool \<Rightarrow> bool" where
  "CanBeDeletedBy m userID isAdmin = CanBeEditedBy m userID isAdmin"

definition StampIDPrefix :: string where
  "StampIDPrefix = ''stamp:''"

definition IsValidMessageStampID :: "string \<Rightarrow> bool" where
  "IsValidMessageStampID stampID =
     (if \<not> HasPrefix stampID StampIDPrefix \<or> length stampID \<le> length StampIDPrefix \<or> 64 < length stampID
      then False
      else list_all (\<lambda>c. in_range 97 122 c \<or> in_range 48 57 c \<or> byte c = 45) (TrimPrefix stampID StampIDPrefix))"

record create_message_param =
  cp_RoomID :: int
  cp_UserID :: int
  cp_ReplyToID :: "int option"
  cp_Content :: string
  cp_StampID :: "string option"
  cp_MediaKeys :: "string list"
  cp_AuthorRole :: string
  cp_CreatedAt :: "int option"
  cp_UpdatedAt :: "int option"

definition AuthorRoleStudent :: string where
  "AuthorRoleStudent = ''STUDENT''"

text \<open>A zero \<open>time.Time\<close> is \<open>None\<close>; \<open>now\<close> is \<open>time.Now()\<close>.\<close>

definition NewMessage :: "int \<Rightarrow> create_message_param \<Rightarrow> message result" where
  "NewMessage now param =
     (let content = TrimUnicode (cp_Content param);
          authorRole = (if cp_AuthorRole param = [] then AuthorRoleStudent else cp_AuthorRole param);
          createdAt = (case cp_CreatedAt param of None \<Rightarrow> now | Some t \<Rightarrow> t);
          updatedAt = (case cp_UpdatedAt param of None \<Rightarrow> createdAt | Some t \<Rightarrow> t);
          m = \<lparr>ms_ThreadRoomID = None, ms_ID = 0, ms_RoomID = cp_RoomID param, ms_UserID = cp_UserID param,
               ms_AuthorRole = authorRole, ms_ReplyToID = cp_ReplyToID param, ms_Content = content,
               ms_StampID = cp_StampID param, ms_Mentions = [], ms_CreatedAt = createdAt,
               ms_UpdatedAt = updatedAt, ms_DeletedAt = None, ms_DeletedBy = None\<rparr> in
      case cp_StampID param of
        Some stamp \<Rightarrow>
          if content \<noteq> [] \<or> cp_MediaKeys param \<noteq> []
          then Err (InvalidInput ''a stamp cannot be sent with text or attachments'')
          else if \<not> IsValidMessageStampID stamp then Err (InvalidInput ''this stamp cannot be used'')
          else Ok m
      | None \<Rightarrow>
          if content = [] \<and> cp_MediaKeys param = [] then Err (InvalidInput ''content or media is required'')
          else Ok m)"

definition applyUpdate :: "int \<Rightarrow> message \<Rightarrow> string option \<Rightarrow> message" where
  "applyUpdate now m newContent =
     (let m = (case newContent of Some c \<Rightarrow> m\<lparr>ms_Content := c\<rparr> | None \<Rightarrow> m) in m\<lparr>ms_UpdatedAt := now\<rparr>)"

section \<open>Outside the database\<close>

datatype effect =
    MessageSent room message int "int list" bool
  | MessageUpdated room message int "mention list"
  | MessageDeleted int int
  | RoomMarkedAsRead room int "int list"
  | ObjectDiscarded string
  | OwnersNotified "(int \<times> int) list"

type_synonym app = "effect list db"

definition publish :: "effect \<Rightarrow> (app, unit) proc" where
  "publish e w = (Ok (), w\<lparr>db_out := db_out w @ [e]\<rparr>)"

text \<open>What users notice: everything but the clean-up of the storage.\<close>

definition is_event :: "effect \<Rightarrow> bool" where
  "is_event e = (case e of ObjectDiscarded _ \<Rightarrow> False | _ \<Rightarrow> True)"

definition events :: "effect list \<Rightarrow> effect list" where
  "events es = filter is_event es"

lemma publish_Inr_iff: "publish e w = (Inr u, w') \<longleftrightarrow> w' = w\<lparr>db_out := db_out w @ [e]\<rparr>"
  by (auto simp: publish_def)

lemma infallible_publish: "infallible (publish e)"
  by (simp add: infallible_def publish_def)

lemma keeps_publish [inv_intros]: "keeps I (publish e)"
  by (simp add: keeps_def publish_def db_inv_def)

section \<open>Messages in the database: infra/mysql/message_store.go\<close>

record cipher =
  ci_Encrypt :: "string \<Rightarrow> string result"
  ci_Decrypt :: "string \<Rightarrow> string result"

definition encryptContent :: "cipher \<Rightarrow> string \<Rightarrow> string result" where
  "encryptContent C content =
     (case ci_Encrypt C content of
        Inl e \<Rightarrow> Err (PlainError ''encrypt message content'' (Some e))
      | Inr c \<Rightarrow> Ok c)"

definition has_message :: "tables \<Rightarrow> int \<Rightarrow> bool" where
  "has_message t messageID \<longleftrightarrow> messageID \<in> messages_id ` set (tb_messages t)"

definition insert_message :: "message \<Rightarrow> string \<Rightarrow> tables \<Rightarrow> message result \<times> tables" where
  "insert_message m content t =
     (if has_room t (ms_RoomID m) \<and> has_user t (ms_UserID m) \<and>
         (case ms_ReplyToID m of None \<Rightarrow> True | Some r \<Rightarrow> has_message t r) \<and>
         (case ms_ThreadRoomID m of None \<Rightarrow> True | Some r \<Rightarrow> has_room t r)
      then (Ok (m\<lparr>ms_ID := tb_next_id t\<rparr>),
            t\<lparr>tb_next_id := tb_next_id t + 1,
              tb_messages := tb_messages t @
                [\<lparr>messages_id = tb_next_id t, messages_room_id = ms_RoomID m, messages_user_id = ms_UserID m,
                  messages_author_role = ms_AuthorRole m, messages_content = content,
                  messages_stamp_id = ms_StampID m, messages_reply_to_message_id = ms_ReplyToID m,
                  messages_created_at = ms_CreatedAt m, messages_updated_at = ms_UpdatedAt m,
                  messages_deleted_at = None, messages_deleted_by = None,
                  messages_thread_room_id = ms_ThreadRoomID m\<rparr>]\<rparr>)
      else (Err constraint_error, t))"

definition SaveMessage :: "cipher \<Rightarrow> message \<Rightarrow> ('o db, message) proc" where
  "SaveMessage C m =
     bindP (liftR (encryptContent C (ms_Content m))) (\<lambda>content. dbCall (insert_message m content))"

definition message_of_row :: "cipher \<Rightarrow> message_row \<Rightarrow> message result" where
  "message_of_row C r =
     (case ci_Decrypt C (messages_content r) of
        Inl e \<Rightarrow> Err (PlainError ''decrypt message content'' (Some e))
      | Inr content \<Rightarrow>
          Ok \<lparr>ms_ThreadRoomID = messages_thread_room_id r, ms_ID = messages_id r,
              ms_RoomID = messages_room_id r, ms_UserID = messages_user_id r,
              ms_AuthorRole = messages_author_role r, ms_ReplyToID = messages_reply_to_message_id r,
              ms_Content = content, ms_StampID = messages_stamp_id r, ms_Mentions = [],
              ms_CreatedAt = messages_created_at r, ms_UpdatedAt = messages_updated_at r,
              ms_DeletedAt = None, ms_DeletedBy = None\<rparr>)"

definition live_message :: "tables \<Rightarrow> int \<Rightarrow> message_row option" where
  "live_message t messageID =
     List.find (\<lambda>r. messages_id r = messageID \<and> messages_deleted_at r = None) (tb_messages t)"

definition GetMessageByID :: "cipher \<Rightarrow> int \<Rightarrow> ('o db, message option) proc" where
  "GetMessageByID C messageID =
     bindP (poolQuery (\<lambda>t. live_message t messageID)) (\<lambda>row. case row of
       None \<Rightarrow> ret None
     | Some r \<Rightarrow> bindP (liftR (message_of_row C r)) (\<lambda>m. ret (Some m)))"

definition update_messages :: "(message_row \<Rightarrow> bool) \<Rightarrow> (message_row \<Rightarrow> message_row) \<Rightarrow> tables \<Rightarrow> tables" where
  "update_messages P f t = t\<lparr>tb_messages := map (\<lambda>r. if P r then f r else r) (tb_messages t)\<rparr>"

definition saveMessageUpdate :: "cipher \<Rightarrow> message \<Rightarrow> ('o db, unit) proc" where
  "saveMessageUpdate C m =
     bindP (liftR (encryptContent C (ms_Content m))) (\<lambda>content.
     dbExec (update_messages (\<lambda>r. messages_id r = ms_ID m \<and> messages_deleted_at r = None)
               (\<lambda>r. r\<lparr>messages_content := content, messages_updated_at := ms_UpdatedAt m\<rparr>)))"

definition SoftDeleteMessage :: "int \<Rightarrow> int \<Rightarrow> ('o db, bool) proc" where
  "SoftDeleteMessage messageID deletedBy =
     bindP nowP (\<lambda>now. poolCall (\<lambda>t.
       (Ok (live_message t messageID \<noteq> None),
        update_messages (\<lambda>r. messages_id r = messageID \<and> messages_deleted_at r = None)
          (\<lambda>r. r\<lparr>messages_deleted_at := Some now, messages_deleted_by := Some deletedBy\<rparr>) t)))"

section \<open>Mentions, reactions, attachments\<close>

fun mapR :: "('a \<Rightarrow> 'b result) \<Rightarrow> 'a list \<Rightarrow> 'b list result" where
  "mapR f [] = Ok []"
| "mapR f (x # xs) = andThen (f x) (\<lambda>y. andThen (mapR f xs) (\<lambda>ys. Ok (y # ys)))"

definition insert_mentions :: "int \<Rightarrow> (int \<times> string) list \<Rightarrow> tables \<Rightarrow> tables" where
  "insert_mentions messageID ms t =
     fold (\<lambda>(userID, txt) t.
             if has_message t messageID \<and> has_account t userID \<and>
                (\<forall>r\<in>set (tb_message_mentions t).
                   \<not> (message_mentions_message_id r = messageID \<and> message_mentions_user_id r = userID))
             then t\<lparr>tb_message_mentions := tb_message_mentions t @
                      [\<lparr>message_mentions_message_id = messageID, message_mentions_user_id = userID,
                        message_mentions_text = txt\<rparr>]\<rparr>
             else t) ms t"

definition CreateMessageMentions :: "cipher \<Rightarrow> int \<Rightarrow> mention list \<Rightarrow> ('o db, unit) proc" where
  "CreateMessageMentions C messageID mentions =
     (if mentions = [] then ret ()
      else bindP (liftR (mapR (\<lambda>m. andThen (encryptContent C (me_Text m)) (\<lambda>e. Ok (me_UserID m, e))) mentions))
             (\<lambda>rows. dbExec (insert_mentions messageID rows)))"

definition DeleteMessageMentionsByMessageID :: "int \<Rightarrow> ('o db, unit) proc" where
  "DeleteMessageMentionsByMessageID messageID = dbExec (\<lambda>t.
     t\<lparr>tb_message_mentions := filter (\<lambda>r. message_mentions_message_id r \<noteq> messageID) (tb_message_mentions t)\<rparr>)"

definition mention_of_row :: "cipher \<Rightarrow> mention_row \<Rightarrow> (int \<times> mention) result" where
  "mention_of_row C r =
     (case ci_Decrypt C (message_mentions_text r) of
        Inl e \<Rightarrow> Err (PlainError ''decrypt mention text'' (Some e))
      | Inr txt \<Rightarrow> Ok (message_mentions_message_id r,
                      \<lparr>me_UserID = message_mentions_user_id r, me_Text = txt\<rparr>))"

definition ListMentionsByMessageIDs :: "cipher \<Rightarrow> int list \<Rightarrow> ('o db, (int \<times> mention) list) proc" where
  "ListMentionsByMessageIDs C messageIDs =
     (if messageIDs = [] then ret []
      else bindP (poolQuery (\<lambda>t. filter (\<lambda>r. message_mentions_message_id r \<in> set messageIDs)
                                   (tb_message_mentions t)))
             (\<lambda>rows. liftR (mapR (mention_of_row C) rows)))"

definition AddMessageReaction :: "int \<Rightarrow> int \<Rightarrow> string \<Rightarrow> ('o db, unit) proc" where
  "AddMessageReaction messageID userID emoji = dbExec (\<lambda>t.
     let r = \<lparr>message_reactions_message_id = messageID, message_reactions_user_id = userID,
              message_reactions_emoji = emoji\<rparr> in
     if has_message t messageID \<and> has_user t userID \<and> r \<notin> set (tb_message_reactions t)
     then t\<lparr>tb_message_reactions := tb_message_reactions t @ [r]\<rparr> else t)"

definition RemoveMessageReaction :: "int \<Rightarrow> int \<Rightarrow> string \<Rightarrow> ('o db, unit) proc" where
  "RemoveMessageReaction messageID userID emoji = dbExec (\<lambda>t.
     t\<lparr>tb_message_reactions :=
         filter (\<lambda>r. r \<noteq> \<lparr>message_reactions_message_id = messageID, message_reactions_user_id = userID,
                          message_reactions_emoji = emoji\<rparr>) (tb_message_reactions t)\<rparr>)"

record media_input =
  mi_StorageKey :: string
  mi_ContentType :: string
  mi_Width :: "int option"
  mi_Height :: "int option"

text \<open>\<open>CreateMediaBatch\<close>: a multi-row INSERT takes consecutive IDs.\<close>

fun insert_medias :: "int \<Rightarrow> media_input list \<Rightarrow> tables \<Rightarrow> int list \<times> tables" where
  "insert_medias uploader [] t = ([], t)"
| "insert_medias uploader (i # is) t =
     (case insert_medias uploader is
        (t\<lparr>tb_next_id := tb_next_id t + 1,
           tb_media := tb_media t @
             [\<lparr>media_id = tb_next_id t, media_uploader_user_id = uploader,
               media_storage_key = mi_StorageKey i, media_content_type = mi_ContentType i,
               media_width = mi_Width i, media_height = mi_Height i\<rparr>]\<rparr>) of
        (ids, t') \<Rightarrow> (tb_next_id t # ids, t'))"

definition CreateMediaBatch :: "int \<Rightarrow> media_input list \<Rightarrow> ('o db, int list) proc" where
  "CreateMediaBatch uploader inputs =
     inChunksCollect inputs 6 (\<lambda>chunk. dbCall (\<lambda>t.
       if has_account t uploader then (case insert_medias uploader chunk t of (ids, t') \<Rightarrow> (Ok ids, t'))
       else (Err constraint_error, t)))"

text \<open>\<open>createMediaLinks\<close>: the offset runs on over the chunks, so the positions are those of the whole
  list.\<close>

definition CreateMessageMediaBatch :: "int \<Rightarrow> int list \<Rightarrow> int \<Rightarrow> ('o db, unit) proc" where
  "CreateMessageMediaBatch messageID mediaIDs startPosition =
     inChunks (zip mediaIDs [0..int (length mediaIDs) - 1]) 3 (\<lambda>chunk. dbCall (\<lambda>t.
       if has_message t messageID \<and> fst ` set chunk \<subseteq> media_id ` set (tb_media t)
       then (Ok (), t\<lparr>tb_message_media := tb_message_media t @
               map (\<lambda>(m, i). \<lparr>message_media_message_id = messageID, message_media_media_id = m,
                              message_media_position = startPosition + i\<rparr>) chunk\<rparr>)
       else (Err constraint_error, t)))"

definition ListMediaByMessageIDs :: "int list \<Rightarrow> ('o db, (int \<times> int) list) proc" where
  "ListMediaByMessageIDs messageIDs =
     (if messageIDs = [] then ret []
      else poolQuery (\<lambda>t. [(message_media_message_id l, message_media_media_id l).
                           l \<leftarrow> tb_message_media t, message_media_message_id l \<in> set messageIDs]))"

section \<open>What is unread: message_read_model.go, message_unread_counter.go, unread_origin.go\<close>

definition MessageExistsInRoom :: "int \<Rightarrow> int \<Rightarrow> ('o db, bool) proc" where
  "MessageExistsInRoom roomID messageID = poolQuery (\<lambda>t.
     \<exists>r\<in>set (tb_messages t). messages_id r = messageID \<and> messages_room_id r = roomID)"

definition room_message_ids :: "tables \<Rightarrow> int \<Rightarrow> int list" where
  "room_message_ids t roomID = [messages_id m. m \<leftarrow> tb_messages t, messages_room_id m = roomID]"

definition GetLatestMessageID :: "int \<Rightarrow> ('o db, int option) proc" where
  "GetLatestMessageID roomID = poolQuery (\<lambda>t.
     let ids = room_message_ids t roomID in if ids = [] then None else Some (Max (set ids)))"

record unread_origin = read_position +
  uo_FallbackAt :: "int option"

definition NewUnreadOrigin :: "read_position option \<Rightarrow> int option \<Rightarrow> unread_origin" where
  "NewUnreadOrigin pos fallbackAt =
     (case pos of
        None \<Rightarrow> \<lparr>rp_LastReadMessageID = None, rp_LastReadAt = None, uo_FallbackAt = fallbackAt\<rparr>
      | Some p \<Rightarrow> \<lparr>rp_LastReadMessageID = rp_LastReadMessageID p, rp_LastReadAt = rp_LastReadAt p,
                  uo_FallbackAt = fallbackAt\<rparr>)"

definition unreadAfter :: "unread_origin \<Rightarrow> message_row \<Rightarrow> bool" where
  "unreadAfter origin m =
     (case rp_LastReadMessageID origin of
        Some lastID \<Rightarrow> lastID < messages_id m
      | None \<Rightarrow>
          (case rp_LastReadAt origin of
             Some at \<Rightarrow> at < messages_created_at m
           | None \<Rightarrow> coalesce0 (uo_FallbackAt origin) < messages_created_at m))"

definition unread_rows :: "tables \<Rightarrow> int \<Rightarrow> int \<Rightarrow> unread_origin \<Rightarrow> message_row list" where
  "unread_rows t roomID userID origin =
     filter (\<lambda>m. messages_room_id m = roomID \<and> messages_user_id m \<noteq> userID \<and>
                 messages_deleted_at m = None \<and> unreadAfter origin m) (tb_messages t)"

definition CountUnreadMessages :: "int \<Rightarrow> int \<Rightarrow> unread_origin \<Rightarrow> ('o db, int) proc" where
  "CountUnreadMessages roomID userID origin =
     poolQuery (\<lambda>t. int (length (unread_rows t roomID userID origin)))"

end
