(* ===== verification/Chat_Access.thy ===== *)
theory Chat_Access
  imports Course_Access Message_Store
begin

text \<open>
  The access policy of the chat (usecase/chat/access.go, with chat.go, usecase/room and
  usecase/block): who may read a room, write into it, and change what is in it.
\<close>

section \<open>What the policy asks\<close>

text \<open>usecase/room: \<open>GetRoom\<close>, \<open>GetRoomUserRole\<close>; \<open>IsRoomMember\<close> and \<open>GetUserIDsByRoomID\<close> are the
  repository methods.\<close>

definition GetRoom :: "int \<Rightarrow> ('o db, room) proc" where
  "GetRoom roomID =
     bindP (GetRoomByID roomID) (\<lambda>r. case r of
       None \<Rightarrow> throw (Errorf (''room not found: '' @ Itoa roomID))
     | Some r \<Rightarrow> ret r)"

definition GetCallerRoomRole :: "request_ctx \<Rightarrow> int \<Rightarrow> ('o db, string) proc" where
  "GetCallerRoomRole ctx roomID = bindP (liftR (CallerID ctx)) (\<lambda>userID. GetRoomUserRole roomID userID)"

text \<open>infra/mysql/block_repository.go, usecase/block.\<close>

definition blocked_between :: "tables \<Rightarrow> int \<Rightarrow> int \<Rightarrow> bool" where
  "blocked_between t a b \<longleftrightarrow> (a, b) \<in> set (tb_blocks t) \<or> (b, a) \<in> set (tb_blocks t)"

definition ExistsBlockRelation :: "int \<Rightarrow> int \<Rightarrow> ('o db, bool) proc" where
  "ExistsBlockRelation userA userB = poolQuery (\<lambda>t. blocked_between t userA userB)"

definition GetBlockedAndBlockerIDs :: "int \<Rightarrow> ('o db, int list) proc" where
  "GetBlockedAndBlockerIDs userID = poolQuery (\<lambda>t.
     remdups ([b. (a, b) \<leftarrow> tb_blocks t, a = userID] @ [a. (a, b) \<leftarrow> tb_blocks t, b = userID]))"

definition CheckBlockRelation :: "request_ctx \<Rightarrow> int \<Rightarrow> ('o db, bool) proc" where
  "CheckBlockRelation ctx targetUserID =
     bindP (liftR (CallerID ctx)) (\<lambda>userID. ExistsBlockRelation userID targetUserID)"

text \<open>infra/mysql/user_repository.go \<open>GetUserByID\<close>, \<open>GetUsersByIDs\<close>: an account that is there and not
  being deleted, as shown to others.\<close>

record shown_user =
  su_ID :: int
  su_Name :: string
  su_Status :: user_status

definition visible_user :: "tables \<Rightarrow> int \<Rightarrow> shown_user option" where
  "visible_user t userID =
     (case (List.find (\<lambda>u. users_id u = userID) (tb_users t),
            List.find (\<lambda>a. user_accounts_user_id a = userID) (tb_user_accounts t)) of
        (Some u, Some a) \<Rightarrow>
          if users_status u = StatusDeactivated then None
          else Some \<lparr>su_ID = userID, su_Name = user_accounts_name a, su_Status = users_status u\<rparr>
      | _ \<Rightarrow> None)"

definition GetUserByID :: "int \<Rightarrow> ('o db, shown_user option) proc" where
  "GetUserByID userID = dbQuery (\<lambda>t. visible_user t userID)"

definition GetUsersByIDs :: "int list \<Rightarrow> ('o db, shown_user list) proc" where
  "GetUsersByIDs userIDs =
     (if userIDs = [] then ret []
      else dbQuery (\<lambda>t. List.map_filter (visible_user t)
             [users_id u. u \<leftarrow> tb_users t, users_id u \<in> set userIDs]))"

section \<open>Small helpers: usecase/chat/chat.go\<close>

definition containsInt64 :: "int list \<Rightarrow> int \<Rightarrow> bool" where
  "containsInt64 values target \<longleftrightarrow> list_ex (\<lambda>v. v = target) values"

definition soleOtherMember :: "int list \<Rightarrow> int \<Rightarrow> int option" where
  "soleOtherMember memberIDs selfID =
     (case filter (\<lambda>m. m \<noteq> selfID) memberIDs of
        [partnerID] \<Rightarrow> Some partnerID
      | _ \<Rightarrow> None)"

section \<open>The policy: usecase/chat/access.go\<close>

definition ErrDMPartnerWithdrawn :: go_error where
  "ErrDMPartnerWithdrawn = Errorf ''the partner has left''"

definition not_a_member :: go_error where
  "not_a_member = Errorf ''forbidden: not a member of this room''"

definition thread_closed :: go_error where
  "thread_closed = Errorf ''this thread is closed''"

definition ensureRoomParticipation :: "claims \<Rightarrow> room \<Rightarrow> ('o db, unit) proc" where
  "ensureRoomParticipation claims room =
     (if rm_Type room \<noteq> RoomTypeDM \<and> IsAdminRole (cl_Role claims) then ret ()
      else bindP (orFail (IsRoomMember (PolicyRoomID room) (cl_ID claims))
                    (Errorf ''failed to verify room membership'')) (\<lambda>isMember.
           if isMember then ret () else throw not_a_member))"

definition EnsureReadAccess :: "request_ctx \<Rightarrow> int \<Rightarrow> ('o db, room) proc" where
  "EnsureReadAccess ctx roomID =
     bindP (liftR (RequireAuth ctx)) (\<lambda>claims.
     bindP (GetRoom roomID) (\<lambda>room.
     if rm_Type room = RoomTypeCourse
     then bindP (EnsureCourseChatEnabled ctx) (\<lambda>_. ret room)
     else bindP (ensureRoomParticipation claims room) (\<lambda>_. ret room)))"

definition ensureMutateAccess :: "request_ctx \<Rightarrow> claims \<Rightarrow> room \<Rightarrow> ('o db, unit) proc" where
  "ensureMutateAccess ctx claims room =
     (if rm_ThreadClosedAt room \<noteq> None \<and> \<not> IsAdminRole (cl_Role claims) then throw thread_closed
      else if rm_Type room = RoomTypeCourse
      then (if IsAdminRole (cl_Role claims) then ret () else CheckRoomWritable ctx (PolicyRoomID room))
      else ensureRoomParticipation claims room)"

text \<open>\<open>writeAccess\<close>: the room and its members; a course room has none.\<close>

record write_access =
  wa_Room :: room
  wa_MemberIDs :: "int list"

definition ensureDMPartner :: "request_ctx \<Rightarrow> claims \<Rightarrow> int list \<Rightarrow> ('o db, unit) proc" where
  "ensureDMPartner ctx claims memberIDs =
     (case soleOtherMember memberIDs (cl_ID claims) of
        None \<Rightarrow> throw ErrDMPartnerWithdrawn
      | Some partnerID \<Rightarrow>
          bindP (orFail (GetUserByID partnerID) (Errorf ''failed to check the DM partner'')) (\<lambda>partner.
          bindP (guardP (partner \<noteq> None) ErrDMPartnerWithdrawn) (\<lambda>_.
          bindP (orFail (CheckBlockRelation ctx partnerID) (Errorf ''failed to check block status'')) (\<lambda>isBlocked.
          guardP (\<not> isBlocked) (Errorf ''blocked'')))))"

definition ensureWriteAccessFor :: "request_ctx \<Rightarrow> claims \<Rightarrow> int \<Rightarrow> ('o db, write_access) proc" where
  "ensureWriteAccessFor ctx claims roomID =
     bindP (orFail (GetRoom roomID) (Errorf ''failed to get room'')) (\<lambda>room.
     bindP (guardP (rm_ThreadClosedAt room = None) thread_closed) (\<lambda>_.
     if rm_Type room = RoomTypeCourse
     then bindP (CheckRoomWritable ctx (PolicyRoomID room)) (\<lambda>_.
          ret \<lparr>wa_Room = room, wa_MemberIDs = []\<rparr>)
     else bindP (orFail (GetUserIDsByRoomID (PolicyRoomID room))
                   (Errorf ''failed to verify room membership'')) (\<lambda>memberIDs.
          bindP (guardP (containsInt64 memberIDs (cl_ID claims)) not_a_member) (\<lambda>_.
          bindP (if rm_Type room = RoomTypeDM then ensureDMPartner ctx claims memberIDs else ret ()) (\<lambda>_.
          ret \<lparr>wa_Room = room, wa_MemberIDs = memberIDs\<rparr>)))))"

definition EnsureWriteAccess :: "request_ctx \<Rightarrow> int \<Rightarrow> ('o db, room) proc" where
  "EnsureWriteAccess ctx roomID =
     bindP (liftR (RequireAuth ctx)) (\<lambda>claims.
     bindP (ensureWriteAccessFor ctx claims roomID) (\<lambda>access. ret (wa_Room access)))"

section \<open>The policy only reads and passes every error on\<close>

lemma chat_queries_read [reads_intros]:
  "reads (GetRoomByID r)" "reads (GetRoom r)" "reads (GetCallerRoomRole ctx r)" "reads (IsRoomMember r u)"
  "reads (GetUserIDsByRoomID r)" "reads (GetUserByID u)" "reads (CheckBlockRelation ctx u)"
  "reads (GetRoomUserRole r u)" "reads (GetBlockedAndBlockerIDs u)" "reads (GetUsersByIDs us)"
  unfolding GetRoom_def GetRoomByID_def GetCallerRoomRole_def IsRoomMember_def GetUserIDsByRoomID_def
    GetUserByID_def CheckBlockRelation_def ExistsBlockRelation_def GetRoomUserRole_def
    GetBlockedAndBlockerIDs_def GetUsersByIDs_def
  by (intro reads_intros)+

lemma policy_reads_chat [reads_intros]:
  "reads (ensureRoomParticipation claims room)" "reads (EnsureReadAccess ctx roomID)"
  "reads (ensureMutateAccess ctx claims room)" "reads (ensureDMPartner ctx claims ids)"
  "reads (ensureWriteAccessFor ctx claims roomID)" "reads (EnsureWriteAccess ctx roomID)"
  unfolding ensureRoomParticipation_def EnsureReadAccess_def ensureMutateAccess_def ensureDMPartner_def
    ensureWriteAccessFor_def EnsureWriteAccess_def
  by (intro reads_intros)+

lemma chat_queries_robust [robust_intros]:
  "robust (GetRoomByID r)" "robust (GetRoom r)" "robust (GetCallerRoomRole ctx r)" "robust (IsRoomMember r u)"
  "robust (GetUserIDsByRoomID r)" "robust (GetUserByID u)" "robust (CheckBlockRelation ctx u)"
  "robust (GetRoomUserRole r u)" "robust (GetSetting k)" "robust GetSemester" "robust (GetCourseByRoomID r)"
  "robust (IsRegistered u c)" "robust (GetBlockedAndBlockerIDs u)" "robust (GetUsersByIDs us)"
  unfolding GetRoom_def GetRoomByID_def GetCallerRoomRole_def IsRoomMember_def GetUserIDsByRoomID_def
    GetUserByID_def CheckBlockRelation_def ExistsBlockRelation_def GetRoomUserRole_def GetSetting_def
    GetSemester_def GetCourseByRoomID_def IsRegistered_def GetBlockedAndBlockerIDs_def GetUsersByIDs_def
  by (intro robust_intros)+

lemma policy_robust [robust_intros]:
  "robust (EnsureCourseChatEnabled ctx)" "robust (CheckRoomWritable ctx roomID)"
  "robust (ensureRoomParticipation claims room)" "robust (EnsureReadAccess ctx roomID)"
  "robust (ensureMutateAccess ctx claims room)" "robust (ensureDMPartner ctx claims ids)"
  "robust (ensureWriteAccessFor ctx claims roomID)" "robust (EnsureWriteAccess ctx roomID)"
  unfolding EnsureCourseChatEnabled_def courseChatStoppedFor_def CheckRoomWritable_def ensureWritable_def
    ensureCurrentSemester_def ensureRegistered_def ensureRoomParticipation_def EnsureReadAccess_def
    ensureMutateAccess_def ensureDMPartner_def ensureWriteAccessFor_def EnsureWriteAccess_def
  by (intro robust_intros)+

section \<open>The rules the policy implements\<close>

text \<open>The table in the comment of access.go, over the tables of the database.\<close>

definition takes_part :: "tables \<Rightarrow> claims \<Rightarrow> room \<Rightarrow> bool" where
  "takes_part t claims room \<longleftrightarrow>
     rm_Type room \<noteq> RoomTypeDM \<and> IsAdminRole (cl_Role claims) \<or>
     in_room t (PolicyRoomID room) (cl_ID claims)"

definition may_read :: "tables \<Rightarrow> claims \<Rightarrow> room \<Rightarrow> bool" where
  "may_read t claims room \<longleftrightarrow>
     (if rm_Type room = RoomTypeCourse then IsAdminRole (cl_Role claims) \<or> course_open t
      else takes_part t claims room)"

definition course_writable :: "tables \<Rightarrow> claims \<Rightarrow> int \<Rightarrow> bool" where
  "course_writable t claims roomID \<longleftrightarrow>
     (case course_of_room t roomID of None \<Rightarrow> True | Some c \<Rightarrow> may_write_course t claims c)"

definition may_mutate :: "tables \<Rightarrow> claims \<Rightarrow> room \<Rightarrow> bool" where
  "may_mutate t claims room \<longleftrightarrow>
     (rm_ThreadClosedAt room = None \<or> IsAdminRole (cl_Role claims)) \<and>
     (if rm_Type room = RoomTypeCourse
      then IsAdminRole (cl_Role claims) \<or> course_writable t claims (PolicyRoomID room)
      else takes_part t claims room)"

definition dm_partner_reachable :: "tables \<Rightarrow> claims \<Rightarrow> int \<Rightarrow> bool" where
  "dm_partner_reachable t claims roomID \<longleftrightarrow>
     (\<exists>p. filter (\<lambda>m. m \<noteq> cl_ID claims) (map room_users_user_id (room_user_rows t roomID)) = [p] \<and>
          visible_user t p \<noteq> None \<and> \<not> blocked_between t (cl_ID claims) p)"

definition may_write :: "tables \<Rightarrow> claims \<Rightarrow> room \<Rightarrow> bool" where
  "may_write t claims room \<longleftrightarrow>
     rm_ThreadClosedAt room = None \<and>
     (if rm_Type room = RoomTypeCourse then course_writable t claims (PolicyRoomID room)
      else in_room t (PolicyRoomID room) (cl_ID claims) \<and>
           (rm_Type room = RoomTypeDM \<longrightarrow> dm_partner_reachable t claims (PolicyRoomID room)))"

section \<open>The policy without driver errors\<close>

lemma contains_members: "containsInt64 (map room_users_user_id (room_user_rows t r)) u = in_room t r u"
  by (auto simp: containsInt64_def list_ex_iff room_user_rows_def in_room_def)

text \<open>\<open>decides m w b x\<close>: in the world \<open>w\<close> the operation changes nothing and answers \<open>x\<close> exactly when \<open>b\<close>
  holds, an error otherwise.\<close>

definition decides :: "('o db, 'a) proc \<Rightarrow> 'o db \<Rightarrow> bool \<Rightarrow> 'a \<Rightarrow> bool" where
  "decides m w b x \<longleftrightarrow> (if b then m w = (Ok x, w) else (\<exists>e. m w = (Err e, w)))"

lemma decides_bindP:
  assumes "decides m w b x" "b \<Longrightarrow> decides (f x) w c y"
  shows "decides (bindP m f) w (b \<and> c) y"
  using assms by (cases b) (auto simp: decides_def)

lemma decides_query: "m w = (Ok x, w) \<Longrightarrow> decides (f x) w b y \<Longrightarrow> decides (bindP m f) w b y"
  by (simp add: decides_def)

lemma decides_basic:
  "decides (ret x) w True x" "decides (throw e) w False x" "decides (guardP b e) w b ()"
  "decides (liftR r) w (\<exists>x. r = Inr x) (projr r)"
  by (auto simp: decides_def guardP_def) (cases r; auto)+

lemma decides_cong: "decides m w b x \<Longrightarrow> b = c \<Longrightarrow> decides m w c x"
  by simp

lemma orFail_ok: "m w = (Ok x, w) \<Longrightarrow> orFail m e w = (Ok x, w)"
  by (simp add: orFail_def)

lemma decides_orFail: "decides m w b x \<Longrightarrow> decides (orFail m e) w b x"
  by (cases b) (auto simp: decides_def orFail_def)

lemma decides_okD:
  assumes "decides m w b x"
  shows "isl (fst (m w)) = (\<not> b)" "b \<Longrightarrow> fst (m w) = Ok x" "snd (m w) = w"
  using assms by (auto simp: decides_def split: if_splits)

text \<open>A world without driver errors or a transaction, and the claims of the request.\<close>

definition quiet :: "'o db \<Rightarrow> request_ctx \<Rightarrow> claims \<Rightarrow> bool" where
  "quiet w ctx claims \<longleftrightarrow> db_faults w = [] \<and> db_tx w = None \<and> ClaimsFromContext ctx = Some claims"

lemma quietD:
  assumes "quiet w ctx claims"
  shows "db_faults w = []" "db_tx w = None" "ClaimsFromContext ctx = Some claims"
  using assms by (simp_all add: quiet_def)

lemma RequireAuth_ok:
  assumes q: "quiet w ctx claims"
  shows "RequireAuth ctx = Ok claims"
  using quietD[OF q] by (simp add: RequireAuth_def)

lemma CallerID_ok:
  assumes q: "quiet w ctx claims"
  shows "CallerID ctx = Ok (cl_ID claims)"
  using quietD[OF q] by (simp add: CallerID_def RequireAuth_def)

lemma GetSetting_ok:
  assumes q: "quiet w ctx claims"
  shows "GetSetting key w = (Ok (case map_of (tb_system_settings (db_committed w)) key of None \<Rightarrow> [] | Some v \<Rightarrow> v), w)"
  using quietD[OF q] by (simp add: GetSetting_def)

lemma GetSemester_decides:
  assumes q: "quiet w ctx claims"
  shows "decides GetSemester w (\<exists>p. current_semester (db_committed w) = Some p)
     (the (current_semester (db_committed w)))"
  unfolding GetSemester_def
  using parseSemester_Nil
  by (auto simp: GetSetting_ok[OF q] decides_def current_semester_def liftR_def bindP_def
      split: option.splits sum.splits)

lemma EnsureCourseChatEnabled_decides:
  assumes q: "quiet w ctx claims"
  shows "decides (EnsureCourseChatEnabled ctx) w (IsAdminRole (cl_Role claims) \<or> course_open (db_committed w)) ()"
  unfolding EnsureCourseChatEnabled_def courseChatStoppedFor_def
  by (auto simp: RequireAuth_ok[OF q] GetSetting_ok[OF q] decides_def course_open_def bindP_assoc split: option.splits)

lemma ensureRegistered_decides:
  assumes q: "quiet w ctx claims"
  shows "decides (ensureRegistered ctx c) w
     (IsAdminRole (cl_Role claims) \<or> registered (db_committed w) (cl_ID claims) (courses_id c)) ()"
  using quietD[OF q] unfolding ensureRegistered_def IsRegistered_def
  by (auto simp: RequireAuth_ok[OF q] decides_def)

lemma ensureCurrentSemester_decides:
  assumes q: "quiet w ctx claims"
  shows "decides (ensureCurrentSemester c) w
     (\<exists>y s. current_semester (db_committed w) = Some (y, s) \<and> inSemester c y s) ()"
proof (cases "current_semester (db_committed w)")
  case None
  with GetSemester_decides[OF q] show ?thesis by (auto simp: ensureCurrentSemester_def decides_def)
next
  case (Some p)
  with GetSemester_decides[OF q] have "GetSemester w = (Ok p, w)" by (simp add: decides_def)
  with Some show ?thesis by (cases p) (auto simp: ensureCurrentSemester_def decides_def)
qed

lemma CheckRoomWritable_decides:
  assumes q: "quiet w ctx claims"
  shows "decides (CheckRoomWritable ctx roomID) w (course_writable (db_committed w) claims roomID) ()"
proof (cases "course_of_room (db_committed w) roomID")
  case None
  with quietD[OF q] show ?thesis
    by (simp add: CheckRoomWritable_def ensureWritable_def GetCourseByRoomID_def course_writable_def decides_def)
next
  case (Some c)
  have c: "GetCourseByRoomID roomID w = (Ok (Some c), w)"
    using Some quietD[OF q] by (simp add: GetCourseByRoomID_def)
  show ?thesis
    unfolding CheckRoomWritable_def ensureWritable_def
    apply (rule decides_cong)
     apply (rule decides_bindP)
      apply (rule decides_query, rule c, simp only: option.case)
      apply (rule decides_bindP[OF EnsureCourseChatEnabled_decides[OF q]])
      apply (rule decides_bindP[OF ensureCurrentSemester_decides[OF q]])
      apply (rule decides_bindP[OF ensureRegistered_decides[OF q]])
      apply (rule decides_basic)+
    apply (auto simp: course_writable_def Some may_write_course_def)
    done
qed

lemma GetRoom_decides:
  assumes q: "quiet w ctx claims"
  shows "decides (GetRoom roomID) w (\<exists>r. find_room (db_committed w) roomID = Some r)
     (the (find_room (db_committed w) roomID))"
  using quietD[OF q] by (auto simp: GetRoom_def GetRoomByID_def decides_def split: option.splits)

lemma ensureRoomParticipation_decides:
  assumes q: "quiet w ctx claims"
  shows "decides (ensureRoomParticipation claims room) w (takes_part (db_committed w) claims room) ()"
  using quietD[OF q]
  by (auto simp: ensureRoomParticipation_def takes_part_def decides_def IsRoomMember_def orFail_ok)

lemma EnsureReadAccess_decides:
  assumes q: "quiet w ctx claims"
  shows "decides (EnsureReadAccess ctx roomID) w
     (\<exists>room. find_room (db_committed w) roomID = Some room \<and> may_read (db_committed w) claims room)
     (the (find_room (db_committed w) roomID))"
proof (cases "find_room (db_committed w) roomID")
  case None
  with GetRoom_decides[OF q, of roomID] show ?thesis
    by (auto simp: EnsureReadAccess_def RequireAuth_ok[OF q] decides_def)
next
  case (Some room)
  with GetRoom_decides[OF q, of roomID] have "GetRoom roomID w = (Ok room, w)" by (simp add: decides_def)
  with Some EnsureCourseChatEnabled_decides[OF q] ensureRoomParticipation_decides[OF q, of room] show ?thesis
    by (auto simp: EnsureReadAccess_def RequireAuth_ok[OF q] may_read_def decides_def)
qed

lemma ensureMutateAccess_decides:
  assumes q: "quiet w ctx claims"
  shows "decides (ensureMutateAccess ctx claims room) w (may_mutate (db_committed w) claims room) ()"
  using CheckRoomWritable_decides[OF q, of "PolicyRoomID room"] ensureRoomParticipation_decides[OF q, of room]
  by (auto simp: ensureMutateAccess_def may_mutate_def decides_def)

lemma ensureDMPartner_decides:
  assumes q: "quiet w ctx claims"
  shows "decides (ensureDMPartner ctx claims (map room_users_user_id (room_user_rows (db_committed w) roomID))) w
     (dm_partner_reachable (db_committed w) claims roomID) ()"
proof (cases "soleOtherMember (map room_users_user_id (room_user_rows (db_committed w) roomID)) (cl_ID claims)")
  case None
  then show ?thesis
    by (auto simp: ensureDMPartner_def dm_partner_reachable_def decides_def soleOtherMember_def
        split: list.splits)
next
  case (Some p)
  then have "filter (\<lambda>m. m \<noteq> cl_ID claims) (map room_users_user_id (room_user_rows (db_committed w) roomID)) = [p]"
    by (auto simp: soleOtherMember_def split: list.splits)
  moreover have "GetUserByID p w = (Ok (visible_user (db_committed w) p), w)"
    "CheckBlockRelation ctx p w = (Ok (blocked_between (db_committed w) (cl_ID claims) p), w)"
    using quietD[OF q] by (simp_all add: GetUserByID_def CheckBlockRelation_def ExistsBlockRelation_def CallerID_ok[OF q])
  ultimately show ?thesis
    by (auto simp: ensureDMPartner_def Some dm_partner_reachable_def decides_def orFail_ok)
qed

lemma ensureWriteAccessFor_decides:
  assumes q: "quiet w ctx claims"
  shows "decides (ensureWriteAccessFor ctx claims roomID) w
     (\<exists>room. find_room (db_committed w) roomID = Some room \<and> may_write (db_committed w) claims room)
     (let room = the (find_room (db_committed w) roomID) in
      \<lparr>wa_Room = room,
       wa_MemberIDs = if rm_Type room = RoomTypeCourse then []
         else map room_users_user_id (room_user_rows (db_committed w) (PolicyRoomID room))\<rparr>)"
proof (cases "find_room (db_committed w) roomID")
  case None
  with GetRoom_decides[OF q, of roomID] show ?thesis
    by (auto simp: ensureWriteAccessFor_def decides_def orFail_def)
next
  case (Some room)
  with GetRoom_decides[OF q, of roomID] have "GetRoom roomID w = (Ok room, w)" by (simp add: decides_def)
  moreover have "GetUserIDsByRoomID r w = (Ok (map room_users_user_id (room_user_rows (db_committed w) r)), w)" for r
    using quietD[OF q] by (simp add: GetUserIDsByRoomID_def)
  ultimately show ?thesis
    using Some CheckRoomWritable_decides[OF q, of "PolicyRoomID room"] ensureDMPartner_decides[OF q, of "PolicyRoomID room"]
    by (auto simp: ensureWriteAccessFor_def may_write_def decides_def orFail_ok contains_members Let_def)
qed

section \<open>The policy, with driver errors\<close>

lemma ensureMutateAccess_Inr:
  assumes "ensureMutateAccess ctx claims room w = (Inr u, w')" "db_tx w = None"
    "ClaimsFromContext ctx = Some claims"
  shows "may_mutate (db_committed w) claims room"
proof -
  have "ensureMutateAccess ctx claims room (faultless w) = (Ok u, faultless w')"
    by (rule robustD[OF policy_robust(5) assms(1)])
  with ensureMutateAccess_decides[of "faultless w" ctx claims room] assms(2,3) show ?thesis
    by (auto simp: quiet_def decides_def split: if_splits)
qed

lemma ensureWriteAccessFor_Inr:
  assumes "ensureWriteAccessFor ctx claims roomID w = (Inr a, w')" "db_tx w = None"
    "ClaimsFromContext ctx = Some claims"
  shows "find_room (db_committed w) roomID = Some (wa_Room a) \<and> may_write (db_committed w) claims (wa_Room a)"
proof -
  have "ensureWriteAccessFor ctx claims roomID (faultless w) = (Ok a, faultless w')"
    by (rule robustD[OF policy_robust(7) assms(1)])
  with ensureWriteAccessFor_decides[of "faultless w" ctx claims roomID] assms(2,3) show ?thesis
    by (auto simp: quiet_def decides_def Let_def split: if_splits)
qed

lemma EnsureReadAccess_Inr:
  assumes "EnsureReadAccess ctx roomID w = (Inr room, w')" "db_tx w = None"
    "ClaimsFromContext ctx = Some claims"
  shows "find_room (db_committed w) roomID = Some room \<and> may_read (db_committed w) claims room"
proof -
  have "EnsureReadAccess ctx roomID (faultless w) = (Ok room, faultless w')"
    by (rule robustD[OF policy_robust(4) assms(1)])
  with EnsureReadAccess_decides[of "faultless w" ctx claims roomID] assms(2,3) show ?thesis
    by (auto simp: quiet_def decides_def split: if_splits)
qed

end
