(* ===== verification/Chat_Mention.thy ===== *)
theory Chat_Mention
  imports Chat_Access
begin

text \<open>
  Mentions in a community: the notation (\<open>ContainsText\<close> of internal/mention/mention.go) and which of
  the users named by the client a message really mentions (usecase/message/mention.go).
\<close>

section \<open>The notation: internal/mention/mention.go\<close>

definition markers :: "string list" where
  "markers = [''@'', utf8 [239, 188, 160]]"

text \<open>The last rune of a string is the last one of its decoding.\<close>

definition isBoundary :: "string \<Rightarrow> nat \<Rightarrow> bool" where
  "isBoundary content i \<longleftrightarrow>
     (if i = 0 then True
      else (case rev (runes (take i content)) of [] \<Rightarrow> False | r # _ \<Rightarrow> IsSpace (fst r)))"

text \<open>The loop over the occurrences of one marker with the name.\<close>

function scanToken :: "string \<Rightarrow> string \<Rightarrow> string \<Rightarrow> nat \<Rightarrow> bool" where
  "scanToken content marker name offset =
     (if marker = [] then False
      else (case indexOf (drop offset content) (marker @ name) of
              None \<Rightarrow> False
            | Some idx \<Rightarrow>
                if isBoundary content (offset + idx) then True
                else scanToken content marker name (offset + idx + length marker)))"
  by pat_completeness auto
termination
proof (relation "measure (\<lambda>(content, _, _, offset). length content - offset)")
  fix content marker name :: string and offset idx :: nat
  assume m: "marker \<noteq> []" and i: "indexOf (drop offset content) (marker @ name) = Some idx"
  then have "idx < length content - offset" using indexOf_less[OF i] by simp
  moreover have "0 < length marker" using m by simp
  ultimately show "((content, marker, name, offset + idx + length marker), content, marker, name, offset)
      \<in> measure (\<lambda>(content, _, _, offset). length content - offset)"
    by (simp del: length_greater_0_conv)
qed simp

declare scanToken.simps [simp del]

definition ContainsText :: "string \<Rightarrow> string \<Rightarrow> bool" where
  "ContainsText content name \<longleftrightarrow>
     (if name = [] then False else list_ex (\<lambda>marker. scanToken content marker name 0) markers)"

section \<open>Whom a message mentions: usecase/message/mention.go\<close>

definition MentionsSupported :: "room option \<Rightarrow> bool" where
  "MentionsSupported room \<longleftrightarrow> (case room of None \<Rightarrow> False | Some r \<Rightarrow> rm_Type r = RoomTypeCommunity)"

definition MaxMentionsPerMessage :: nat where
  "MaxMentionsPerMessage = 10"

text \<open>The candidates: no self-mention, no duplicates, cut at the limit.\<close>

fun mentionCandidates :: "int \<Rightarrow> int list \<Rightarrow> int list \<Rightarrow> int list" where
  "mentionCandidates authorID ids [] = ids"
| "mentionCandidates authorID ids (u # us) =
     (if u = authorID \<or> u \<in> set ids then mentionCandidates authorID ids us
      else if MaxMentionsPerMessage \<le> length (ids @ [u]) then ids @ [u]
      else mentionCandidates authorID (ids @ [u]) us)"

definition acceptedMentions ::
  "int list \<Rightarrow> int list \<Rightarrow> shown_user list \<Rightarrow> string \<Rightarrow> int list \<Rightarrow> mention list" where
  "acceptedMentions members blocked users content ids =
     List.map_filter (\<lambda>u.
       case List.find (\<lambda>s. su_ID s = u) users of
         None \<Rightarrow> None
       | Some s \<Rightarrow>
           if su_Status s = StatusActive \<and> u \<in> set members \<and> u \<notin> set blocked \<and>
              ContainsText content (su_Name s)
           then Some \<lparr>me_UserID = su_ID s, me_Text = su_Name s\<rparr> else None) ids"

definition ResolveMentions :: "int \<Rightarrow> int \<Rightarrow> string \<Rightarrow> int list \<Rightarrow> ('o db, mention list) proc" where
  "ResolveMentions roomID authorID content mentionUserIDs =
     (let ids = mentionCandidates authorID [] mentionUserIDs in
      if ids = [] then ret []
      else
        bindP (GetRoomByID roomID) (\<lambda>room.
        if \<not> MentionsSupported room then ret []
        else
          bindP (GetUserIDsByRoomID roomID) (\<lambda>memberIDs.
          bindP (GetBlockedAndBlockerIDs authorID) (\<lambda>blockedIDs.
          bindP (GetUsersByIDs ids) (\<lambda>users.
          ret (acceptedMentions memberIDs blockedIDs users content ids))))))"

section \<open>Facts\<close>

lemma ResolveMentions_rules [reads_intros, robust_intros]:
  "reads (ResolveMentions roomID authorID content us)" "robust (ResolveMentions roomID authorID content us)"
  unfolding ResolveMentions_def by (intro reads_intros, intro robust_intros)

text \<open>\<open>indexOf\<close> finds the first occurrence.\<close>

text \<open>A marker does not overlap itself, so resuming behind it skips no occurrence.\<close>

definition rigid :: "string \<Rightarrow> bool" where
  "rigid marker \<longleftrightarrow> marker \<noteq> [] \<and> hd marker \<notin> set (tl marker)"

lemma markers_rigid: "marker \<in> set markers \<Longrightarrow> rigid marker"
  by (auto simp: markers_def rigid_def utf8_def char_of_eq_iff)

lemma HasPrefix_nth: "HasPrefix s p \<Longrightarrow> k < length p \<Longrightarrow> k < length s \<and> s ! k = p ! k"
  unfolding HasPrefix_iff by (auto simp: nth_append)

lemma no_overlap:
  assumes "rigid marker" "HasPrefix (drop pos content) (marker @ name)"
    and "pos < j" "j < pos + length marker"
  shows "\<not> HasPrefix (drop j content) (marker @ name)"
proof
  assume h: "HasPrefix (drop j content) (marker @ name)"
  have ne: "marker \<noteq> []" using assms(1) by (simp add: rigid_def)
  from HasPrefix_nth[OF h, of 0] ne have "j < length content" "content ! j = hd marker"
    by (auto simp: hd_conv_nth nth_append)
  moreover have k: "j - pos < length marker" using assms(3,4) by linarith
  with HasPrefix_nth[OF assms(2), of "j - pos"] assms(3)
  have "drop pos content ! (j - pos) = marker ! (j - pos)" "j - pos < length content - pos"
    by (simp_all add: nth_append)
  then have "content ! j = marker ! (j - pos)" using assms(3) nth_drop[of pos content "j - pos"] by simp
  moreover have "marker ! (j - pos) \<in> set (tl marker)"
    using k assms(3) ne by (cases marker) (auto simp: nth_Cons' intro!: nth_mem)
  ultimately show False using assms(1) by (simp add: rigid_def)
qed

lemma scanToken_iff:
  assumes "rigid marker"
  shows "scanToken content marker name offset \<longleftrightarrow>
    (\<exists>i\<ge>offset. HasPrefix (drop i content) (marker @ name) \<and> isBoundary content i)"
  using assms
proof (induction content marker name offset rule: scanToken.induct)
  case (1 content marker name offset)
  let ?occ = "\<lambda>i. HasPrefix (drop i content) (marker @ name)"
  have ne: "marker \<noteq> []" using "1.prems" by (simp add: rigid_def)
  show ?case
  proof (cases "indexOf (drop offset content) (marker @ name)")
    case None
    have "\<not> ?occ i" if "offset \<le> i" for i
      using indexOf_None[OF None, of "i - offset"] that by simp
    with None show ?thesis by (auto simp: scanToken.simps[of content])
  next
    case (Some idx)
    let ?pos = "offset + idx"
    from indexOf_Some[OF Some] have here: "?occ ?pos"
      and before: "\<And>j. j < idx \<Longrightarrow> \<not> ?occ (offset + j)" by (auto simp: add.commute)
    show ?thesis
    proof (cases "isBoundary content ?pos")
      case True
      with Some here ne show ?thesis by (auto simp: scanToken.simps[of content] intro!: exI[of _ ?pos])
    next
      case False
      have "i \<ge> ?pos + length marker" if "offset \<le> i" "?occ i" "isBoundary content i" for i
      proof (rule ccontr)
        assume "\<not> i \<ge> ?pos + length marker"
        then consider "i < ?pos" | "i = ?pos" | "?pos < i" "i < ?pos + length marker" by linarith
        then show False
        proof cases
          case 1 with before[of "i - offset"] that show False by (simp add: less_diff_conv2)
        next
          case 2 with False that show False by simp
        next
          case 3 with no_overlap[OF "1.prems" here 3] that show False by simp
        qed
      qed
      then have "(\<exists>i\<ge>?pos + length marker. ?occ i \<and> isBoundary content i) \<longleftrightarrow>
          (\<exists>i\<ge>offset. ?occ i \<and> isBoundary content i)" by (meson le_add1 order.trans)
      with "1.IH"[OF ne Some False "1.prems"] Some False ne show ?thesis
        by (simp add: scanToken.simps[of content])
    qed
  qed
qed

text \<open>The hand-written search of \<open>mention.ContainsText\<close>, which resumes behind each marker it has
  tried, answers exactly the plain definition: somewhere in the text a marker followed by the name stands
  at the beginning or after white space.\<close>

theorem contains_text_exact:
  "ContainsText content name =
     (name \<noteq> [] \<and> list_ex (\<lambda>marker. list_ex (\<lambda>i. HasPrefix (drop i content) (marker @ name) \<and>
                                             isBoundary content i) [0..<length content]) markers)"
proof -
  have "scanToken content marker name 0 = list_ex (\<lambda>i. HasPrefix (drop i content) (marker @ name) \<and>
      isBoundary content i) [0..<length content]" if m: "marker \<in> set markers" for marker
  proof -
    have "marker \<noteq> []" using markers_rigid[OF m] by (simp add: rigid_def)
    then have "i < length content" if "HasPrefix (drop i content) (marker @ name)" for i
      using HasPrefix_nth[OF that, of 0] by auto
    then show ?thesis
      by (simp add: scanToken_iff[OF markers_rigid[OF m]] list_ex_iff Bex_def) blast
  qed
  then show ?thesis
    by (simp add: ContainsText_def list_ex_iff)
qed

end
