(* ===== verification/Chat_Command.thy ===== *)
theory Chat_Command
  imports Chat_Mention
begin

text \<open>
  Writing messages: the storage steps of usecase/chat/internal/messagestore, the command service of
  usecase/chat/command.go (send, edit, delete) and the reactions of usecase/chat/reaction.go. The stamp
  catalogue, the NG-word guard and the upload acceptor are the interfaces the service is built with.
\<close>

section \<open>What the services are built with\<close>

type_synonym acceptor = "request_ctx \<Rightarrow> string \<Rightarrow> string \<Rightarrow> (app, string) proc"

record chat_deps =
  cd_Cipher :: cipher
  cd_Stamps :: "(request_ctx \<Rightarrow> string \<Rightarrow> bool \<Rightarrow> (app, unit) proc) option"
  cd_Screen :: "request_ctx \<Rightarrow> int \<Rightarrow> int \<Rightarrow> string \<Rightarrow> (app, unit) proc"
  cd_Uploads :: "acceptor option"
  cd_Threads :: bool

text \<open>\<open>cd_Screen\<close> is \<open>ngword.Guard.Screen\<close> (the one that does nothing, when none is configured);
  \<open>cd_Threads\<close> says whether the finder of thread announcements is configured.\<close>

section \<open>Uploads: usecase/upload/accept.go\<close>

definition MessageAttachment :: string where
  "MessageAttachment = ''message-media''"

definition ErrNoAcceptor :: go_error where
  "ErrNoAcceptor = Errorf ''upload acceptor is not configured''"

definition sessionAccept :: "acceptor option \<Rightarrow> request_ctx \<Rightarrow> string \<Rightarrow> string \<Rightarrow> (app, string) proc" where
  "sessionAccept a ctx kind key = (case a of None \<Rightarrow> throw ErrNoAcceptor | Some accept \<Rightarrow> accept ctx kind key)"

text \<open>\<open>AcceptAll\<close> over a session: the attachments with their stored keys, and the keys this operation has
  published, also when it stops at an error.\<close>

fun acceptAll ::
  "(string \<Rightarrow> (app, string) proc) \<Rightarrow> (string \<times> string) list \<Rightarrow> string list \<Rightarrow> media_input list
     \<Rightarrow> (app, media_input list result \<times> string list) proc" where
  "acceptAll accept seen created [] = ret (Ok [], created)"
| "acceptAll accept seen created (i # is) =
     (case map_of seen (mi_StorageKey i) of
        Some stored \<Rightarrow>
          bindP (acceptAll accept seen created is) (\<lambda>(r, c).
          ret (andThen r (\<lambda>rest. Ok (i\<lparr>mi_StorageKey := stored\<rparr> # rest)), c))
      | None \<Rightarrow>
          tryP (accept (mi_StorageKey i)) (\<lambda>r. case r of
            Inl e \<Rightarrow> ret (Err e, created)
          | Inr stored \<Rightarrow>
              let created' = (if stored \<noteq> mi_StorageKey i then created @ [stored] else created) in
              bindP (acceptAll accept ((mi_StorageKey i, stored) # seen) created' is) (\<lambda>(r, c).
              ret (andThen r (\<lambda>rest. Ok (i\<lparr>mi_StorageKey := stored\<rparr> # rest)), c))))"

text \<open>\<open>DiscardOnError\<close>, deferred: when the operation ends in an error, what it published is discarded.\<close>

definition discardOnError :: "string list \<Rightarrow> (app, 'a) proc \<Rightarrow> (app, 'a) proc" where
  "discardOnError created m w =
     (case m w of
        (Inl e, w') \<Rightarrow> (Err e, w'\<lparr>db_out := db_out w' @ map ObjectDiscarded created\<rparr>)
      | (Inr x, w') \<Rightarrow> (Ok x, w'))"

section \<open>Storage: usecase/chat/internal/messagestore\<close>

definition MaxContentChars :: int where
  "MaxContentChars = 2000"

definition validateContent :: "string \<Rightarrow> unit result" where
  "validateContent content =
     (if MaxContentChars < RuneCount content
      then Err (InvalidInput ''a message has at most 2000 characters'') else Ok ())"

definition saveNewMessage ::
  "chat_deps \<Rightarrow> message \<Rightarrow> int \<Rightarrow> media_input list \<Rightarrow> mention list \<Rightarrow> (app, message) proc" where
  "saveNewMessage D m userID mediaInputs mentions =
     bindP (SaveMessage (cd_Cipher D) m) (\<lambda>m.
     bindP (CreateMessageMentions (cd_Cipher D) (ms_ID m) mentions) (\<lambda>_.
     if mediaInputs = [] then ret m
     else bindP (CreateMediaBatch userID mediaInputs) (\<lambda>mediaIDs.
          bindP (CreateMessageMediaBatch (ms_ID m) mediaIDs 0) (\<lambda>_. ret m))))"

definition sendExecute ::
  "chat_deps \<Rightarrow> request_ctx \<Rightarrow> int \<Rightarrow> int \<Rightarrow> string \<Rightarrow> media_input list \<Rightarrow> int option \<Rightarrow> string option
     \<Rightarrow> mention list \<Rightarrow> (app, message) proc" where
  "sendExecute D ctx roomID userID content0 mediaInputs0 replyToID stampID mentions =
     (let content = TrimUnicode content0 in
      bindP (liftR (validateContent content)) (\<lambda>_.
      bindP (guardP (\<not> (stampID \<noteq> None \<and> (content \<noteq> [] \<or> mediaInputs0 \<noteq> [] \<or> mentions \<noteq> [])))
               (InvalidInput ''a stamp cannot be sent with text or attachments'')) (\<lambda>_.
      bindP (guardP (case stampID of None \<Rightarrow> True | Some s \<Rightarrow> IsValidMessageStampID s)
               (InvalidInput ''this stamp cannot be used'')) (\<lambda>_.
      bindP (acceptAll (sessionAccept (cd_Uploads D) ctx MessageAttachment) [] [] mediaInputs0)
        (\<lambda>(accepted, created).
      discardOnError created (
      bindP (liftR accepted) (\<lambda>mediaInputs.
      bindP (case replyToID of
               None \<Rightarrow> ret ()
             | Some r \<Rightarrow>
                 bindP (GetMessageByID (cd_Cipher D) r) (\<lambda>parent.
                 guardP (case parent of None \<Rightarrow> False | Some p \<Rightarrow> IsInRoom p roomID)
                   (InvalidInput ''the message replied to is not there''))) (\<lambda>_.
      bindP nowP (\<lambda>now.
      bindP (liftR (NewMessage now
               \<lparr>cp_RoomID = roomID, cp_UserID = userID, cp_ReplyToID = replyToID, cp_Content = content,
                cp_StampID = stampID, cp_MediaKeys = map mi_StorageKey mediaInputs, cp_AuthorRole = [],
                cp_CreatedAt = Some now, cp_UpdatedAt = Some now\<rparr>)) (\<lambda>m.
      runInTx (saveNewMessage D (m\<lparr>ms_Mentions := mentions\<rparr>) userID mediaInputs mentions)))))))))))"

definition updateExecute ::
  "chat_deps \<Rightarrow> int \<Rightarrow> string option \<Rightarrow> mention list \<Rightarrow> (app, message) proc" where
  "updateExecute D messageID newContent mentions =
     bindP (GetMessageByID (cd_Cipher D) messageID) (\<lambda>message.
     case message of
       None \<Rightarrow> throw (NotFound ''message not found'')
     | Some m0 \<Rightarrow>
         bindP (guardP (\<not> IsDeleted m0) (NotFound ''message not found'')) (\<lambda>_.
         bindP (case newContent of None \<Rightarrow> ret () | Some c \<Rightarrow> liftR (validateContent c)) (\<lambda>_.
         bindP nowP (\<lambda>now.
         let m = (applyUpdate now m0 newContent)\<lparr>ms_Mentions := mentions\<rparr> in
         bindP (runInTx (
           bindP (saveMessageUpdate (cd_Cipher D) m) (\<lambda>_.
           case newContent of
             None \<Rightarrow> ret ()
           | Some _ \<Rightarrow>
               bindP (DeleteMessageMentionsByMessageID (ms_ID m)) (\<lambda>_.
               CreateMessageMentions (cd_Cipher D) (ms_ID m) mentions)))) (\<lambda>_. ret m)))))"

definition deleteExecute :: "int \<Rightarrow> int \<Rightarrow> (app, bool) proc" where
  "deleteExecute messageID deletedBy = SoftDeleteMessage messageID deletedBy"

section \<open>The command service: usecase/chat/command.go\<close>

definition loadMessageInRoom :: "chat_deps \<Rightarrow> int \<Rightarrow> int \<Rightarrow> (app, message) proc" where
  "loadMessageInRoom D roomID messageID =
     bindP (orFail (GetMessageByID (cd_Cipher D) messageID) (Errorf ''failed to get message'')) (\<lambda>msg.
     case msg of
       None \<Rightarrow> throw (NotFound ''message not found'')
     | Some m \<Rightarrow> if IsInRoom m roomID then ret m else throw (NotFound ''message not found''))"

text \<open>\<open>ngword.ScreenFor\<close> leaves administrators alone; \<open>screenNGWords\<close> screens course rooms only.\<close>

definition ScreenFor :: "chat_deps \<Rightarrow> request_ctx \<Rightarrow> claims \<Rightarrow> int \<Rightarrow> string \<Rightarrow> (app, unit) proc" where
  "ScreenFor D ctx claims roomID txt =
     (if IsAdminRole (cl_Role claims) then ret () else cd_Screen D ctx (cl_ID claims) roomID txt)"

definition screenNGWords :: "chat_deps \<Rightarrow> request_ctx \<Rightarrow> claims \<Rightarrow> room \<Rightarrow> string \<Rightarrow> (app, unit) proc" where
  "screenNGWords D ctx claims room content =
     (if rm_Type room \<noteq> RoomTypeCourse then ret () else ScreenFor D ctx claims (rm_ID room) content)"

definition ensureMessageNotEmptied :: "message \<Rightarrow> string \<Rightarrow> (app, unit) proc" where
  "ensureMessageNotEmptied existing content =
     (if TrimUnicode content \<noteq> [] then ret ()
      else bindP (orFail (ListMediaByMessageIDs [ms_ID existing])
                    (Errorf ''failed to check message attachments'')) (\<lambda>media.
           if media \<noteq> [] then ret () else throw (InvalidInput ''content or media is required'')))"

definition publishThreadCard :: "chat_deps \<Rightarrow> room \<Rightarrow> (app, unit) proc" where
  "publishThreadCard D room =
     bindP (AnnouncementID (rm_ID room)) (\<lambda>announcementID.
     if announcementID = 0 then ret ()
     else bindP (GetMessageByID (cd_Cipher D) announcementID) (\<lambda>announcement.
          case announcement of
            None \<Rightarrow> ret ()
          | Some a \<Rightarrow>
              bindP (GetRoom (case rm_ParentRoomID room of None \<Rightarrow> 0 | Some p \<Rightarrow> p)) (\<lambda>parent.
              publish (MessageUpdated parent a (ms_UserID a) []))))"

definition refreshThreadCard :: "chat_deps \<Rightarrow> room \<Rightarrow> (app, unit) proc" where
  "refreshThreadCard D room =
     (if \<not> cd_Threads D \<or> rm_ParentRoomID room = None then ret ()
      else tryP (publishThreadCard D room) (\<lambda>_. ret ()))"

record send_input =
  si_RoomID :: int
  si_Content :: string
  si_MediaInputs :: "media_input list"
  si_MentionUserIDs :: "int list"
  si_ReplyToID :: "int option"
  si_StampID :: "string option"

text \<open>Everything \<open>SendMessage\<close> does before it stores the message: the caller, the access with the
  members it has looked up, and the mentions that hold.\<close>

definition sendChecks ::
  "chat_deps \<Rightarrow> request_ctx \<Rightarrow> send_input \<Rightarrow> (app, claims \<times> write_access \<times> mention list) proc" where
  "sendChecks D ctx inp =
     bindP (liftR (RequireAuth ctx)) (\<lambda>claims.
     bindP (ensureWriteAccessFor ctx claims (si_RoomID inp)) (\<lambda>access.
     bindP (case si_StampID inp of
              None \<Rightarrow> ret ()
            | Some stamp \<Rightarrow>
                (case cd_Stamps D of
                   None \<Rightarrow> throw (InvalidInput ''the stamps are not configured'')
                 | Some requireAllowed \<Rightarrow> requireAllowed ctx stamp False)) (\<lambda>_.
     bindP (screenNGWords D ctx claims (wa_Room access) (si_Content inp)) (\<lambda>_.
     bindP (guardP (\<not> (si_StampID inp \<noteq> None \<and> si_MentionUserIDs inp \<noteq> []))
              (InvalidInput ''a stamp cannot be sent with mentions'')) (\<lambda>_.
     bindP (ResolveMentions (PolicyRoomID (wa_Room access)) (cl_ID claims) (si_Content inp)
              (si_MentionUserIDs inp)) (\<lambda>mentions.
     ret (claims, access, mentions)))))))"

definition SendMessage :: "chat_deps \<Rightarrow> request_ctx \<Rightarrow> send_input \<Rightarrow> (app, message) proc" where
  "SendMessage D ctx inp =
     bindP (sendChecks D ctx inp) (\<lambda>(claims, access, mentions).
     bindP (sendExecute D ctx (si_RoomID inp) (cl_ID claims) (si_Content inp) (si_MediaInputs inp)
              (si_ReplyToID inp) (si_StampID inp) mentions) (\<lambda>msg.
     bindP (publish (MessageSent (wa_Room access) msg (cl_ID claims) (wa_MemberIDs access)
                       (si_MediaInputs inp \<noteq> []))) (\<lambda>_.
     bindP (refreshThreadCard D (wa_Room access)) (\<lambda>_. ret msg))))"

record update_input =
  ui_RoomID :: int
  ui_MessageID :: int
  ui_Content :: string
  ui_MentionUserIDs :: "int list"

text \<open>Everything \<open>UpdateMessage\<close> does before it stores the edit: the message, its room, the mentions
  that hold, and those there were before (or why they could not be read).\<close>

definition updateChecks ::
  "chat_deps \<Rightarrow> request_ctx \<Rightarrow> update_input
     \<Rightarrow> (app, message \<times> room \<times> mention list \<times> (int \<times> mention) list result) proc" where
  "updateChecks D ctx inp =
     bindP (liftR (RequireAuth ctx)) (\<lambda>claims.
     let isAdmin = IsAdminRole (cl_Role claims) in
     bindP (loadMessageInRoom D (ui_RoomID inp) (ui_MessageID inp)) (\<lambda>existing.
     bindP (orFail (GetRoom (ms_RoomID existing)) (Errorf ''failed to get room'')) (\<lambda>room.
     bindP (ensureMutateAccess ctx claims room) (\<lambda>_.
     bindP (guardP (rm_Type room \<noteq> RoomTypeCourse)
              (InvalidInput ''messages of a course chat cannot be edited'')) (\<lambda>_.
     bindP (guardP (CanBeEditedBy existing (cl_ID claims) isAdmin)
              (Errorf ''forbidden: can only update your own messages'')) (\<lambda>_.
     bindP (guardP (ms_StampID existing = None) (InvalidInput ''a stamp cannot be edited'')) (\<lambda>_.
     bindP (screenNGWords D ctx claims room (ui_Content inp)) (\<lambda>_.
     bindP (ensureMessageNotEmptied existing (ui_Content inp)) (\<lambda>_.
     bindP (ResolveMentions (PolicyRoomID room) (ms_UserID existing) (ui_Content inp)
              (ui_MentionUserIDs inp)) (\<lambda>mentions.
     tryP (ListMentionsByMessageIDs (cd_Cipher D) [ui_MessageID inp]) (\<lambda>before.
     ret (existing, room, mentions, before))))))))))))"

definition UpdateMessage :: "chat_deps \<Rightarrow> request_ctx \<Rightarrow> update_input \<Rightarrow> (app, message) proc" where
  "UpdateMessage D ctx inp =
     bindP (updateChecks D ctx inp) (\<lambda>(existing, room, mentions, before).
     bindP (updateExecute D (ui_MessageID inp) (Some (ui_Content inp)) mentions) (\<lambda>msg.
     let added = (case before of
                    Inl _ \<Rightarrow> []
                  | Inr olds \<Rightarrow> filter (\<lambda>m. me_UserID m \<notin> me_UserID ` snd ` set olds) (ms_Mentions msg)) in
     bindP (publish (MessageUpdated room msg (ms_UserID existing) added)) (\<lambda>_. ret msg)))"

text \<open>Everything \<open>DeleteMessage\<close> does before the delete.\<close>

definition deleteChecks ::
  "chat_deps \<Rightarrow> request_ctx \<Rightarrow> int \<Rightarrow> int \<Rightarrow> (app, claims \<times> message) proc" where
  "deleteChecks D ctx roomID messageID =
     bindP (liftR (RequireAuth ctx)) (\<lambda>claims.
     let isAdmin = IsAdminRole (cl_Role claims) in
     bindP (loadMessageInRoom D roomID messageID) (\<lambda>msg.
     bindP (guardP (ms_ThreadRoomID msg = None)
              (InvalidInput ''the announcement of a thread cannot be deleted'')) (\<lambda>_.
     bindP (orFail (GetRoom (ms_RoomID msg)) (Errorf ''failed to get room'')) (\<lambda>room.
     bindP (ensureMutateAccess ctx claims room) (\<lambda>_.
     bindP (if CanBeDeletedBy msg (cl_ID claims) isAdmin then ret ()
            else if rm_Type room \<noteq> RoomTypeCommunity
            then throw (Errorf ''forbidden: can only delete your own messages'')
            else tryP (GetCallerRoomRole ctx (PolicyRoomID room)) (\<lambda>role.
                   if role = Ok RoomUserRoleOwner then ret ()
                   else throw (Errorf ''forbidden: can only delete your own messages''))) (\<lambda>_.
     ret (claims, msg)))))))"

definition DeleteMessage :: "chat_deps \<Rightarrow> request_ctx \<Rightarrow> int \<Rightarrow> int \<Rightarrow> (app, bool) proc" where
  "DeleteMessage D ctx roomID messageID =
     bindP (deleteChecks D ctx roomID messageID) (\<lambda>(claims, msg).
     bindP (deleteExecute (ms_ID msg) (cl_ID claims)) (\<lambda>deleted.
     bindP (if deleted
            then bindP (publish (MessageDeleted (ms_RoomID msg) (ms_ID msg))) (\<lambda>_.
                 tryP (GetRoom (ms_RoomID msg)) (\<lambda>r. case r of
                   Inl _ \<Rightarrow> ret ()
                 | Inr room \<Rightarrow> refreshThreadCard D room))
            else ret ()) (\<lambda>_. ret deleted)))"

section \<open>Reactions: usecase/chat/reaction.go\<close>

definition maxReactionEmojiRunes :: int where
  "maxReactionEmojiRunes = 64"

definition changeReaction ::
  "chat_deps \<Rightarrow> request_ctx \<Rightarrow> int \<Rightarrow> int \<Rightarrow> string \<Rightarrow> bool \<Rightarrow> (int \<Rightarrow> int \<Rightarrow> string \<Rightarrow> (app, unit) proc)
     \<Rightarrow> (app, message) proc" where
  "changeReaction D ctx roomID messageID emoji requireAllowed change =
     bindP (liftR (RequireAuth ctx)) (\<lambda>claims.
     bindP (if requireAllowed
            then (case cd_Stamps D of
                    None \<Rightarrow> throw (InvalidInput ''this emoji cannot be used'')
                  | Some allowed \<Rightarrow> allowed ctx emoji True)
            else guardP (emoji \<noteq> [] \<and> RuneCount emoji \<le> maxReactionEmojiRunes)
                   (InvalidInput ''this emoji cannot be used'')) (\<lambda>_.
     bindP (loadMessageInRoom D roomID messageID) (\<lambda>msg.
     bindP (orFail (GetRoom (ms_RoomID msg)) (Errorf ''failed to get room'')) (\<lambda>room.
     bindP (ensureMutateAccess ctx claims room) (\<lambda>_.
     bindP (change (ms_ID msg) (cl_ID claims) emoji) (\<lambda>_.
     bindP (publish (MessageUpdated room msg (ms_UserID msg) [])) (\<lambda>_. ret msg)))))))"

definition AddReaction :: "chat_deps \<Rightarrow> request_ctx \<Rightarrow> int \<Rightarrow> int \<Rightarrow> string \<Rightarrow> (app, message) proc" where
  "AddReaction D ctx roomID messageID emoji =
     changeReaction D ctx roomID messageID emoji True AddMessageReaction"

definition RemoveReaction :: "chat_deps \<Rightarrow> request_ctx \<Rightarrow> int \<Rightarrow> int \<Rightarrow> string \<Rightarrow> (app, message) proc" where
  "RemoveReaction D ctx roomID messageID emoji =
     changeReaction D ctx roomID messageID emoji False RemoveMessageReaction"

end
