(* ===== verification/Db_Logic.thy ===== *)
theory Db_Logic
  imports Db
begin

text \<open>
  Two judgements for operations on the database. \<open>tx_valid P m Q\<close>: run inside a transaction whose tables
  satisfy \<open>P\<close>, a successful \<open>m\<close> leaves tables that satisfy \<open>Q\<close> of its result; its rules compute the weakest
  \<open>P\<close> from \<open>Q\<close>. \<open>stable I m\<close>: called outside a transaction, \<open>m\<close> leaves none open and keeps \<open>I\<close> of the
  committed tables, whether it succeeds or fails.
\<close>

section \<open>Inside a transaction\<close>

definition tx_valid :: "(tables \<Rightarrow> bool) \<Rightarrow> ('o db, 'a) proc \<Rightarrow> ('a \<Rightarrow> tables \<Rightarrow> bool) \<Rightarrow> bool" where
  "tx_valid P m Q \<longleftrightarrow>
     (\<forall>w x w' t. m w = (Inr x, w') \<longrightarrow> db_tx w = Some t \<longrightarrow> P t \<longrightarrow> (\<exists>t'. db_tx w' = Some t' \<and> Q x t'))"

named_theorems tx_wp \<open>weakest preconditions of the steps of a transaction\<close>

lemma tx_validI:
  "(\<And>w x w' t. m w = (Inr x, w') \<Longrightarrow> db_tx w = Some t \<Longrightarrow> P t \<Longrightarrow> \<exists>t'. db_tx w' = Some t' \<and> Q x t') \<Longrightarrow>
   tx_valid P m Q"
  unfolding tx_valid_def by blast

lemma tx_validD:
  "tx_valid P m Q \<Longrightarrow> m w = (Inr x, w') \<Longrightarrow> db_tx w = Some t \<Longrightarrow> P t \<Longrightarrow> \<exists>t'. db_tx w' = Some t' \<and> Q x t'"
  unfolding tx_valid_def by blast

lemma tx_valid_weaken: "tx_valid P' m Q \<Longrightarrow> (\<And>t. P t \<Longrightarrow> P' t) \<Longrightarrow> tx_valid P m Q"
  unfolding tx_valid_def by blast

lemma tx_valid_bindP [tx_wp]:
  assumes "\<And>x. tx_valid (B x) (f x) Q" "tx_valid P m B"
  shows "tx_valid P (bindP m f) Q"
proof (rule tx_validI)
  fix w x w' t assume "bindP m f w = (Inr x, w')" and t: "db_tx w = Some t" "P t"
  then obtain y v where "m w = (Inr y, v)" and f: "f y v = (Inr x, w')" by (auto simp: bindP_Inr_iff)
  from tx_validD[OF assms(2) this(1) t] obtain t' where "db_tx v = Some t'" "B y t'" by blast
  with tx_validD[OF assms(1) f] show "\<exists>t'. db_tx w' = Some t' \<and> Q x t'" by blast
qed

lemma tx_valid_ret [tx_wp]: "tx_valid (Q x) (ret x) Q"
  by (auto simp: tx_valid_def ret_def)

lemma tx_valid_throw [tx_wp]: "tx_valid (\<lambda>_. True) (throw e) Q"
  by (auto simp: tx_valid_def throw_def)

lemma tx_valid_guardP [tx_wp]: "tx_valid (\<lambda>t. b \<longrightarrow> Q () t) (guardP b e) Q"
  by (auto simp: tx_valid_def guardP_Inr_iff)

lemma tx_valid_liftR [tx_wp]: "tx_valid (\<lambda>t. \<forall>x. r = Inr x \<longrightarrow> Q x t) (liftR r) Q"
  by (auto simp: tx_valid_def liftR_def)

lemma tx_valid_nowP [tx_wp]: "tx_valid (\<lambda>t. \<forall>n. Q n t) nowP Q"
  by (auto simp: tx_valid_def nowP_def)

lemma tx_valid_dbCall [tx_wp]: "tx_valid (\<lambda>t. \<forall>x t'. stmt t = (Inr x, t') \<longrightarrow> Q x t') (dbCall stmt) Q"
  by (auto simp: tx_valid_def dbCall_def split: if_splits prod.splits sum.splits)

lemma tx_valid_dbQuery [tx_wp]: "tx_valid (\<lambda>t. Q (q t) t) (dbQuery q) Q"
  by (auto simp: tx_valid_def query_Inr_iff)

lemma tx_valid_dbExec [tx_wp]: "tx_valid (\<lambda>t. Q () (f t)) (dbExec f) Q"
  by (auto simp: tx_valid_def dbExec_def dbCall_def split: if_splits)

lemma tx_valid_if [tx_wp]:
  "tx_valid P m Q \<Longrightarrow> tx_valid P' n Q \<Longrightarrow>
   tx_valid (\<lambda>t. (b \<longrightarrow> P t) \<and> (\<not> b \<longrightarrow> P' t)) (if b then m else n) Q"
  by (simp add: tx_valid_def)

lemma tx_valid_option [tx_wp]:
  "tx_valid P m Q \<Longrightarrow> (\<And>x. tx_valid (P' x) (f x) Q) \<Longrightarrow>
   tx_valid (\<lambda>t. (v = None \<longrightarrow> P t) \<and> (\<forall>x. v = Some x \<longrightarrow> P' x t)) (case_option m f v) Q"
  by (cases v) (simp_all add: tx_valid_def)

lemma tx_valid_prod [tx_wp]:
  "(\<And>x y. tx_valid (P x y) (f x y) Q) \<Longrightarrow> tx_valid (P (fst v) (snd v)) (case_prod f v) Q"
  by (cases v) simp

text \<open>Steps that only read keep whatever holds.\<close>

lemma tx_valid_reads: "reads m \<Longrightarrow> tx_valid (\<lambda>t. \<forall>x. Q x t) m Q"
  by (auto simp: tx_valid_def dest: readsD)

section \<open>Outside a transaction\<close>

definition stable :: "(tables \<Rightarrow> bool) \<Rightarrow> ('o db, 'a) proc \<Rightarrow> bool" where
  "stable I m \<longleftrightarrow>
     (\<forall>w r w'. m w = (r, w') \<longrightarrow> db_tx w = None \<longrightarrow> I (db_committed w) \<longrightarrow>
        db_tx w' = None \<and> I (db_committed w'))"

named_theorems stable_intros \<open>operations that keep what is committed\<close>

lemma stableI:
  "(\<And>w r w'. m w = (r, w') \<Longrightarrow> db_tx w = None \<Longrightarrow> I (db_committed w) \<Longrightarrow>
     db_tx w' = None \<and> I (db_committed w')) \<Longrightarrow> stable I m"
  unfolding stable_def by blast

lemma stableD:
  assumes "stable I m" "m w = (r, w')" "db_tx w = None" "I (db_committed w)"
  shows "db_tx w' = None" "I (db_committed w')"
  using assms unfolding stable_def by blast+

lemma stable_reads: "reads m \<Longrightarrow> stable I m"
  by (rule stableI) (simp add: readsD)

lemmas stable_basic [stable_intros] = reads_basic[THEN stable_reads] reads_query[THEN stable_reads]

lemma stable_bindP [stable_intros]:
  assumes "stable I m" "\<And>x. stable I (f x)"
  shows "stable I (bindP m f)"
proof (rule stableI)
  fix w r w' assume "bindP m f w = (r, w')" and w: "db_tx w = None" "I (db_committed w)"
  then show "db_tx w' = None \<and> I (db_committed w')"
  proof (cases rule: bindP_cases)
    case (stop e) with stableD[OF assms(1) stop(1) w] show ?thesis by simp
  next
    case (go x v)
    from stableD[OF assms(2) go(2) stableD[OF assms(1) go(1) w]] show ?thesis by simp
  qed
qed

lemma stable_if [stable_intros]: "stable I m \<Longrightarrow> stable I n \<Longrightarrow> stable I (if b then m else n)"
  by simp

lemma stable_option [stable_intros]:
  "stable I m \<Longrightarrow> (\<And>x. stable I (f x)) \<Longrightarrow> stable I (case_option m f v)"
  by (cases v) simp_all

lemma stable_prod [stable_intros]: "(\<And>x y. stable I (f x y)) \<Longrightarrow> stable I (case_prod f v)"
  by (cases v) simp

lemma stable_sum [stable_intros]:
  "(\<And>x. stable I (f x)) \<Longrightarrow> (\<And>x. stable I (g x)) \<Longrightarrow> stable I (case_sum f g v)"
  by (cases v) simp_all

lemma stable_Let [stable_intros]: "(\<And>x. stable I (f x)) \<Longrightarrow> stable I (Let v f)"
  by (simp add: Let_def)

lemma stable_tryP [stable_intros]:
  assumes "stable I m" "\<And>r. stable I (f r)"
  shows "stable I (tryP m f)"
proof (rule stableI)
  fix w r w' assume "tryP m f w = (r, w')" and w: "db_tx w = None" "I (db_committed w)"
  from this(1) obtain q v where m: "m w = (q, v)" and f: "f q v = (r, w')" by (rule tryP_cases)
  from stableD[OF assms(2) f stableD[OF assms(1) m w]] show "db_tx w' = None \<and> I (db_committed w')" by simp
qed

lemma stable_exec:
  assumes "\<And>t. I t \<Longrightarrow> I (f t)"
  shows "stable I (dbExec f)" "stable I (poolExec f)"
  by (rule stableI; auto simp: assms dbExec_def dbCall_def poolExec_def poolCall_def split: if_splits)+

lemma stable_call:
  assumes "\<And>t x t'. I t \<Longrightarrow> stmt t = (Inr x, t') \<Longrightarrow> I t'"
  shows "stable I (dbCall stmt)" "stable I (poolCall stmt)"
  by (rule stableI;
      auto simp: assms dbCall_def poolCall_def split: if_splits prod.splits sum.splits)+

text \<open>A transaction whose body turns \<open>I\<close> into \<open>I\<close>, whatever holds halfway.\<close>

lemma stable_runInTx:
  assumes "Db.contained body" "tx_valid I body (\<lambda>_. I)"
  shows "stable I (runInTx body)"
proof (rule stableI)
  fix w r w' assume run: "runInTx body w = (r, w')" and w: "db_tx w = None" "I (db_committed w)"
  show "db_tx w' = None \<and> I (db_committed w')"
  proof (cases r)
    case (Inl e)
    with atomicPD[where out = "\<lambda>_. ()", OF atomicP_runInTx[OF assms(1)] run w(1)] w(2) show ?thesis by simp
  next
    case (Inr x)
    with run have "runInTx body w = (Inr x, w')" by simp
    then show ?thesis
    proof (rule runInTx_Inr)
      fix v v' assume "body v = (Inr x, v')" "db_tx v = Some (db_committed w)"
        "db_committed w' = db_view v'" "db_tx w' = None"
      with tx_validD[OF assms(2)] w(2) show ?thesis by fastforce
    qed
  qed
qed

text \<open>What a committed transaction has done.\<close>

lemma runInTx_valid:
  assumes "runInTx body w = (Inr x, w')" "tx_valid P body Q" "P (db_committed w)"
  shows "Q x (db_committed w')"
  using assms(1)
proof (rule runInTx_Inr)
  fix v v' assume "body v = (Inr x, v')" "db_tx v = Some (db_committed w)" "db_committed w' = db_view v'"
  with tx_validD[OF assms(2)] assms(3) show ?thesis by fastforce
qed

section \<open>Reading and joining\<close>

text \<open>What is read satisfies what the invariant says of it.\<close>

lemma stable_read:
  assumes "\<And>t. I t \<Longrightarrow> R (q t)" "\<And>x. R x \<Longrightarrow> stable I (f x)"
  shows "stable I (bindP (dbQuery q) f)"
proof (rule stableI)
  fix w r w' assume "bindP (dbQuery q) f w = (r, w')" and w: "db_tx w = None" "I (db_committed w)"
  from this(1) show "db_tx w' = None \<and> I (db_committed w')"
  proof (cases rule: bindP_cases)
    case (stop e)
    with readsD[OF reads_query(1) stop(1)] w show ?thesis by simp
  next
    case (go x v)
    then have "x = q (db_committed w)" using w(1) by (simp add: query_Inr_iff)
    with assms(1) w(2) have "R x" by simp
    from stableD[OF assms(2)[OF this] go(2)] readsD[OF reads_query(1) go(1)] w show ?thesis by simp
  qed
qed

lemma tx_valid_inTx [tx_wp]: "tx_valid P body Q \<Longrightarrow> tx_valid P (inTx body) Q"
  by (simp add: tx_valid_def inTx_def)

lemma stable_inTx:
  assumes "Db.contained (inTx body)" "tx_valid I (inTx body) (\<lambda>_. I)"
  shows "stable I (inTx body)"
proof -
  have "Db.contained body"
    unfolding Db.contained_def
  proof (intro allI impI)
    fix w r w' assume b: "body w = (r, w')" "db_tx w \<noteq> None"
    then have "inTx body w = (r, w')" by (simp add: inTx_def)
    from assms(1)[unfolded Db.contained_def, rule_format, OF this b(2)]
    show "db_committed w' = db_committed w \<and> db_tx w' \<noteq> None \<and> db_now w' = db_now w \<and> db_out w' = db_out w" .
  qed
  moreover have "tx_valid I body (\<lambda>_. I)"
    by (rule tx_validI) (rule tx_validD[OF assms(2)]; simp add: inTx_def)
  ultimately have run: "stable I (runInTx body)" by (rule stable_runInTx)
  show ?thesis
  proof (rule stableI)
    fix w r w' assume "inTx body w = (r, w')" and w: "db_tx w = None" "I (db_committed w)"
    then have "runInTx body w = (r, w')" by (simp add: inTx_def)
    from stableD[OF run this w] show "db_tx w' = None \<and> I (db_committed w')" by simp
  qed
qed

lemma contained_inTx: "Db.contained body \<Longrightarrow> Db.contained (inTx body)"
  by (auto simp: Db.contained_def inTx_def)

end
