(* ===== verification/Db_Chunks.thy ===== *)
theory Db_Chunks
  imports Db_Logic Room_Store
begin

text \<open>
  Statements in slices (\<open>inChunks\<close> of infra/mysql/query_helper.go): what holds of the statement for one slice holds
  of all of them, and where the slices add up, the loop is one statement.
\<close>

section \<open>Inside a transaction\<close>

lemma contained_inChunks [contained_intros]:
  assumes "\<And>chunk. Db.contained (exec chunk)"
  shows "Db.contained (inChunks rows cols exec)"
  using assms
proof (induction rows cols exec rule: inChunks.induct)
  case (1 rows cols exec)
  show ?case
    by (subst inChunks.simps) (auto intro!: contained_intros "1.prems" "1.IH")
qed

lemma contained_inChunksCollect [contained_intros]:
  assumes "\<And>chunk. Db.contained (exec chunk)"
  shows "Db.contained (inChunksCollect rows cols exec)"
  using assms
proof (induction rows cols exec rule: inChunksCollect.induct)
  case (1 rows cols exec)
  show ?case
    by (subst inChunksCollect.simps) (auto intro!: contained_intros "1.prems" "1.IH")
qed

lemma tx_keeps_inChunks [tx_intros]:
  assumes "\<And>chunk. tx_keeps I (exec chunk)"
  shows "tx_keeps I (inChunks rows cols exec)"
  using assms
proof (induction rows cols exec rule: inChunks.induct)
  case (1 rows cols exec)
  show ?case by (subst inChunks.simps) (auto intro!: tx_intros "1.prems" "1.IH")
qed

lemma tx_keeps_inChunksCollect [tx_intros]:
  assumes "\<And>chunk. tx_keeps I (exec chunk)"
  shows "tx_keeps I (inChunksCollect rows cols exec)"
  using assms
proof (induction rows cols exec rule: inChunksCollect.induct)
  case (1 rows cols exec)
  show ?case by (subst inChunksCollect.simps) (auto intro!: tx_intros "1.prems" "1.IH")
qed

lemma inChunksCollect_length:
  assumes "inChunksCollect rows cols exec w = (Inr xs, w')"
    and "\<And>chunk v ys v'. exec chunk v = (Inr ys, v') \<Longrightarrow> length ys = length chunk"
  shows "length xs = length rows"
  using assms
proof (induction rows cols exec arbitrary: w w' xs rule: inChunksCollect.induct)
  case (1 rows cols exec)
  consider "rows = []" | "rows \<noteq> []" "int (length rows) \<le> bulkInsertChunkSize cols"
    | "rows \<noteq> []" "\<not> int (length rows) \<le> bulkInsertChunkSize cols" by blast
  then show ?case
  proof cases
    case 3
    with "1.prems"(1) obtain ys zs v where
      "exec (take (nat (bulkInsertChunkSize cols)) rows) w = (Inr ys, v)"
      "inChunksCollect (drop (nat (bulkInsertChunkSize cols)) rows) cols exec v = (Inr zs, w')" "xs = ys @ zs"
      by (auto simp: inChunksCollect.simps[of rows] bindP_Inr_iff)
    with "1.prems"(2) "1.IH"[OF 3] show ?thesis by (fastforce simp: min_def)
  qed (use "1.prems" in \<open>auto simp: inChunksCollect.simps[of rows] inChunksCollect.simps[of "[]"]\<close>)
qed

section \<open>What the slices add up to\<close>

text \<open>One statement for each slice is the statement for the whole.\<close>

lemma tx_valid_inChunks:
  assumes "F [] = id" "\<And>xs ys. F (xs @ ys) = F ys \<circ> F xs"
  shows "tx_valid (\<lambda>t. Q () (F rows t)) (inChunks rows cols (\<lambda>chunk. dbExec (F chunk))) Q"
proof (induction rows rule: length_induct)
  case (1 rows)
  let ?n = "nat (bulkInsertChunkSize cols)"
  show ?case
  proof (cases "rows = [] \<or> int (length rows) \<le> bulkInsertChunkSize cols")
    case True
    then show ?thesis
      using tx_valid_ret[of Q "()"] tx_valid_dbExec[of Q "F rows"] assms(1)
      by (subst inChunks.simps) auto
  next
    case False
    then have "length (drop ?n rows) < length rows" using chunk_positive(1)[of cols] by simp
    note rest = 1[rule_format, OF this]
    from tx_valid_bindP[OF rest tx_valid_dbExec] False assms(2)[of "take ?n rows" "drop ?n rows"]
    show ?thesis by (subst inChunks.simps) (simp add: comp_def)
  qed
qed

text \<open>An invariant of every slice.\<close>

lemma tx_valid_each_chunk:
  assumes "\<And>chunk. tx_valid I (exec chunk) (\<lambda>_. I)"
  shows "tx_valid I (inChunks rows cols exec) (\<lambda>_. I)"
  using assms
proof (induction rows cols exec rule: inChunks.induct)
  case (1 rows cols exec)
  from 1 show ?case
    by (subst inChunks.simps) (auto intro!: tx_valid_bindP tx_valid_ret[of "\<lambda>_. I"])
qed

lemma tx_valid_each_collect:
  assumes "\<And>chunk. tx_valid I (exec chunk) (\<lambda>_. I)"
  shows "tx_valid I (inChunksCollect rows cols exec) (\<lambda>_. I)"
  using assms
proof (induction rows cols exec rule: inChunksCollect.induct)
  case (1 rows cols exec)
  from 1 show ?case
    by (subst inChunksCollect.simps)
       (auto intro!: tx_valid_bindP tx_valid_ret[of "\<lambda>_. I"])
qed

lemma reads_inChunks [reads_intros]:
  assumes "\<And>chunk. reads (exec chunk)"
  shows "reads (inChunks rows cols exec)"
  using assms
proof (induction rows cols exec rule: inChunks.induct)
  case (1 rows cols exec)
  show ?case by (subst inChunks.simps) (auto intro!: reads_intros "1.prems" "1.IH")
qed

lemma reads_inChunksCollect [reads_intros]:
  assumes "\<And>chunk. reads (exec chunk)"
  shows "reads (inChunksCollect rows cols exec)"
  using assms
proof (induction rows cols exec rule: inChunksCollect.induct)
  case (1 rows cols exec)
  show ?case by (subst inChunksCollect.simps) (auto intro!: reads_intros "1.prems" "1.IH")
qed

text \<open>Reading in slices: the set of what is read, and the very list if one slice is enough.\<close>

lemma collect_run:
  assumes "inChunksCollect rows cols (\<lambda>chunk. dbQuery (q chunk)) w = (Inr xs, w')" "rows \<noteq> []"
    and "\<And>xs ys t. set (q (xs @ ys) t) = set (q xs t) \<union> set (q ys t)"
  shows "set xs = set (q rows (db_view w)) \<and>
    (int (length rows) \<le> bulkInsertChunkSize cols \<longrightarrow> xs = q rows (db_view w))"
  using assms(1,2)
proof (induction "length rows" arbitrary: rows w xs w' rule: less_induct)
  case less
  let ?n = "nat (bulkInsertChunkSize cols)"
  show ?case
  proof (cases "int (length rows) \<le> bulkInsertChunkSize cols")
    case True
    with less.prems show ?thesis
      by (simp add: inChunksCollect.simps[of rows] query_Inr_iff)
  next
    case False
    with less.prems obtain ys zs v where run: "dbQuery (q (take ?n rows)) w = (Inr ys, v)"
      "inChunksCollect (drop ?n rows) cols (\<lambda>chunk. dbQuery (q chunk)) v = (Inr zs, w')" "xs = ys @ zs"
      by (auto simp: inChunksCollect.simps[of rows] bindP_Inr_iff)
    from False have n: "?n < length rows" using chunk_positive(1)[of cols] by linarith
    have shorter: "length (drop ?n rows) < length rows" "drop ?n rows \<noteq> []"
      using n less.prems(2) by (auto intro!: diff_less)
    from less.hyps[OF shorter(1) run(2) shorter(2)] run(1,3) assms(3)[of "take ?n rows" "drop ?n rows"] False
    show ?thesis by (auto simp: query_Inr_iff)
  qed
qed

end
