(* ===== verification/Chat_Command_Props.thy ===== *)
theory Chat_Command_Props
  imports Chat_Command Db_Chunks
begin

text \<open>
  What the command service guarantees: only who may write writes (Chat_Access), a failed operation
  changes nothing, and the messages it leaves are never empty.
\<close>

section \<open>The interfaces of the service\<close>

text \<open>What the service relies on: checking a stamp, screening a text and accepting an upload do not
  touch the tables of the chat nor publish chat events.\<close>

locale chat_service =
  fixes D :: chat_deps
  assumes stamps_read: "\<And>allowed ctx stamp b. cd_Stamps D = Some allowed \<Longrightarrow> reads (allowed ctx stamp b)"
    and screen_reads: "\<And>ctx u r txt. reads (cd_Screen D ctx u r txt)"
    and accept_reads: "\<And>acc ctx kind key. cd_Uploads D = Some acc \<Longrightarrow> reads (acc ctx kind key)"

lemma events_discard [simp]: "events (es @ map ObjectDiscarded keys) = events es"
  by (induction keys) (auto simp: events_def is_event_def)

lemma message_queries_read [reads_intros]:
  "reads (GetMessageByID C i)" "reads (ListMediaByMessageIDs is)" "reads (ListMentionsByMessageIDs C is)"
  "reads (AnnouncementID r)" "reads (loadMessageInRoom D roomID messageID)"
  "reads (ensureMessageNotEmptied existing content)"
  unfolding GetMessageByID_def ListMediaByMessageIDs_def ListMentionsByMessageIDs_def AnnouncementID_def
    loadMessageInRoom_def ensureMessageNotEmptied_def
  by (intro reads_intros)+

lemma storage_contained [contained_intros]:
  "Db.contained (SaveMessage C m)" "Db.contained (CreateMessageMentions C i ms)"
  "Db.contained (CreateMediaBatch u is)" "Db.contained (CreateMessageMediaBatch i ids p)"
  "Db.contained (saveMessageUpdate C m)" "Db.contained (DeleteMessageMentionsByMessageID i)"
  unfolding SaveMessage_def CreateMessageMentions_def CreateMediaBatch_def CreateMessageMediaBatch_def
    saveMessageUpdate_def DeleteMessageMentionsByMessageID_def
  by (intro contained_intros)+

lemma saveNewMessage_contained [contained_intros]: "Db.contained (saveNewMessage D m u is ms)"
  unfolding saveNewMessage_def by (intro contained_intros)

lemma atomicP_discardOnError:
  assumes "atomicP events m"
  shows "atomicP events (discardOnError created m)"
proof (rule atomicPI)
  fix w r w' assume "discardOnError created m w = (r, w')" and tx: "db_tx w = None"
  then show "db_tx w' = None \<and>
      (isl r \<longrightarrow> db_committed w' = db_committed w \<and> events (db_out w') = events (db_out w))"
    using atomicPD[OF assms _ tx]
    by (cases "m w") (auto simp: discardOnError_def split: sum.splits)
qed

lemma no_write_publish: "no_write (publish e)"
  by (simp add: no_write_def publish_def)

lemma no_write_card: "no_write (publishThreadCard D room)"
  unfolding publishThreadCard_def
  by (intro no_write_intros no_write_publish no_write_reads reads_intros)

lemma no_write_refresh: "no_write (refreshThreadCard D room)"
  unfolding refreshThreadCard_def
  by (intro no_write_intros no_write_card no_write_reads reads_intros)

lemma infallible_refresh: "infallible (refreshThreadCard D room)"
  unfolding refreshThreadCard_def
  by (auto intro!: infallible_ret infallible_tryP simp: no_writeD(2)[OF no_write_card])

context chat_service
begin

lemma acceptAll_reads:
  assumes "\<And>key. reads (accept key)"
  shows "reads (acceptAll accept seen created is)"
  by (induction "is" arbitrary: seen created)
     (auto intro!: reads_intros assms split: option.split)

lemma accept_all_reads: "reads (acceptAll (sessionAccept (cd_Uploads D) ctx kind) seen created is)"
  by (rule acceptAll_reads)
     (auto simp: sessionAccept_def intro!: reads_intros accept_reads split: option.split)

lemma screen_reads' : "reads (screenNGWords D ctx claims room txt)"
  unfolding screenNGWords_def ScreenFor_def by (intro reads_intros screen_reads)

lemma send_stamp_reads:
  "reads (case cd_Stamps D of None \<Rightarrow> throw e | Some allowed \<Rightarrow> allowed ctx stamp b)"
  by (cases "cd_Stamps D") (auto intro: reads_intros stamps_read)

lemma sendExecute_atomic:
  "atomicP events (sendExecute D ctx roomID userID content is replyTo stamp mentions)"
  unfolding sendExecute_def Let_def
  by (intro atomicP_bindP atomicP_prod atomicP_discardOnError atomicP_runInTx accept_all_reads
      saveNewMessage_contained reads_intros)

lemma sendChecks_reads [reads_intros]: "reads (sendChecks D ctx inp)"
  unfolding sendChecks_def by (intro reads_intros screen_reads' send_stamp_reads)

lemma SendMessage_atomic: "atomicP events (SendMessage D ctx inp)"
  unfolding SendMessage_def
  by (intro atomicP_bindP atomicP_prod atomicP_then[OF sendExecute_atomic] infallible_bindP
      infallible_publish infallible_refresh infallible_ret sendChecks_reads)

lemma updateExecute_atomic: "atomicP events (updateExecute D i c ms)"
  unfolding updateExecute_def Let_def
  by (intro atomicP_bindP atomicP_option atomicP_then[OF atomicP_runInTx] infallible_ret atomicP_reads
      contained_intros reads_intros)

lemma updateChecks_reads [reads_intros]: "reads (updateChecks D ctx inp)"
  unfolding updateChecks_def Let_def by (intro reads_intros screen_reads')

lemma UpdateMessage_atomic: "atomicP events (UpdateMessage D ctx inp)"
  unfolding UpdateMessage_def Let_def
  by (intro atomicP_bindP atomicP_prod atomicP_then[OF updateExecute_atomic] infallible_bindP
      infallible_publish infallible_ret updateChecks_reads)

lemma deleteChecks_reads [reads_intros]: "reads (deleteChecks D ctx roomID messageID)"
  unfolding deleteChecks_def Let_def by (intro reads_intros)

lemma DeleteMessage_atomic: "atomicP events (DeleteMessage D ctx roomID messageID)"
proof -
  have del: "atomicP events (deleteExecute i u)" for i u
    unfolding deleteExecute_def SoftDeleteMessage_def
    by (intro atomicP_bindP atomicP_calls reads_intros)
  have rest: "infallible (if deleted
            then bindP (publish (MessageDeleted r i)) (\<lambda>_.
                 tryP (GetRoom r) (case_sum (\<lambda>_. ret ()) (refreshThreadCard D)))
            else ret ())" for deleted r i
  proof -
    have "infallible (tryP (GetRoom r) (case_sum (\<lambda>_. ret ()) (refreshThreadCard D)))"
    proof (rule infallible_tryP)
      show "db_tx w' = None" if "GetRoom r w = (q, w')" "db_tx w = None" for w q and w' :: app
        using readsD(2)[OF chat_queries_read(2) that(1)] that(2) by simp
      show "infallible (case q of Inl _ \<Rightarrow> ret () | Inr rm \<Rightarrow> refreshThreadCard D rm)" for q
        by (cases q) (simp_all add: infallible_ret infallible_refresh)
    qed
    then show ?thesis by (auto intro: infallible_bindP infallible_publish infallible_ret)
  qed
  show ?thesis
    unfolding DeleteMessage_def
    by (intro atomicP_bindP atomicP_prod atomicP_then[OF del] infallible_bindP[OF rest] infallible_ret
        deleteChecks_reads)
qed

end

section \<open>What saving a message does\<close>

lemma insert_mentions_same [simp]:
  "tb_messages (insert_mentions i ms t) = tb_messages t"
  "tb_message_media (insert_mentions i ms t) = tb_message_media t"
  unfolding insert_mentions_def by (induction ms arbitrary: t) auto

lemma insert_medias_same:
  "insert_medias u is t = (ids, t') \<Longrightarrow> tb_messages t' = tb_messages t \<and> tb_message_media t' = tb_message_media t
    \<and> length ids = length is"
  by (induction u "is" t arbitrary: ids t' rule: insert_medias.induct) (auto split: prod.splits)

text \<open>The messages, and the attachments already linked, stay while mentions and attachments are added.\<close>

definition has_messages :: "message_row list \<Rightarrow> message_media_row set \<Rightarrow> tables \<Rightarrow> bool" where
  "has_messages ms links t \<longleftrightarrow> tb_messages t = ms \<and> links \<subseteq> set (tb_message_media t)"

lemma additions_keep [tx_intros]:
  "tx_keeps (has_messages ms links) (CreateMessageMentions C i mts)"
  "tx_keeps (has_messages ms links) (CreateMediaBatch u is)"
  "tx_keeps (has_messages ms links) (CreateMessageMediaBatch i ids p)"
proof -
  show "tx_keeps (has_messages ms links) (CreateMessageMentions C i mts)"
    unfolding CreateMessageMentions_def
    by (intro tx_intros tx_keeps_exec) (simp add: has_messages_def)
  show "tx_keeps (has_messages ms links) (CreateMediaBatch u is)"
    unfolding CreateMediaBatch_def
    by (intro tx_intros tx_keeps_dbCall)
       (clarsimp simp: has_messages_def split: if_splits prod.splits, drule insert_medias_same, simp)
  show "tx_keeps (has_messages ms links) (CreateMessageMediaBatch i ids p)"
    unfolding CreateMessageMediaBatch_def
    by (intro tx_intros tx_keeps_dbCall) (auto simp: has_messages_def split: if_splits)
qed

lemma CreateMediaBatch_length:
  "CreateMediaBatch u is w = (Inr ids, w') \<Longrightarrow> length ids = length is"
  unfolding CreateMediaBatch_def
  by (erule inChunksCollect_length)
     (auto simp: dbCall_def dest: insert_medias_same split: if_splits prod.splits sum.splits)

lemma CreateMessageMediaBatch_links:
  assumes run: "CreateMessageMediaBatch i ids p w = (Inr u, w')" and ids: "ids \<noteq> []" and tx: "db_tx w \<noteq> None"
  shows "i \<in> message_media_message_id ` set (tb_message_media (db_view w'))"
proof -
  let ?exec = "\<lambda>chunk. dbCall (\<lambda>t.
       if has_message t i \<and> fst ` set chunk \<subseteq> media_id ` set (tb_media t)
       then (Ok (), t\<lparr>tb_message_media := tb_message_media t @
               map (\<lambda>(m, k). \<lparr>message_media_message_id = i, message_media_media_id = m,
                              message_media_position = p + k\<rparr>) chunk\<rparr>)
       else (Err constraint_error, t))"
  let ?I = "\<lambda>t. i \<in> message_media_message_id ` set (tb_message_media t)"
  have keep: "tx_keeps ?I (?exec chunk)" for chunk
    by (rule tx_keeps_dbCall) (auto split: if_splits)
  have one: "in_tx ?I v'" if "?exec chunk v = (Inr u, v')" "chunk \<noteq> []" "db_tx v \<noteq> None" for chunk v u v'
    using that by (cases chunk) (auto simp: dbCall_def in_tx_def split: if_splits prod.splits)
  have "in_tx ?I w'" if "inChunks rows cols ?exec w = (Inr u, w')" "rows \<noteq> []" "db_tx w \<noteq> None"
    for rows cols w u w'
  proof (cases "int (length rows) \<le> bulkInsertChunkSize cols")
    case True
    with that one show ?thesis by (simp add: inChunks.simps[of rows])
  next
    case False
    with that obtain v where v: "?exec (take (nat (bulkInsertChunkSize cols)) rows) w = (Inr (), v)"
      "inChunks (drop (nat (bulkInsertChunkSize cols)) rows) cols ?exec v = (Inr u, w')"
      by (auto simp: inChunks.simps[of rows] bindP_Inr_iff)
    have "in_tx ?I v" by (rule one[OF v(1)]) (use that in auto)
    with tx_keepsD[OF tx_keeps_inChunks[OF keep] v(2)] show ?thesis by blast
  qed
  moreover have "zip ids [0..int (length ids) - 1] \<noteq> []" using ids by (cases ids) auto
  ultimately have "in_tx ?I w'" using run tx unfolding CreateMessageMediaBatch_def by blast
  then show ?thesis by (auto simp: in_tx_def db_view_def split: option.splits)
qed

text \<open>The row of a new message.\<close>

definition new_row :: "message \<Rightarrow> string \<Rightarrow> message_row" where
  "new_row m content =
     \<lparr>messages_id = ms_ID m, messages_room_id = ms_RoomID m, messages_user_id = ms_UserID m,
      messages_author_role = ms_AuthorRole m, messages_content = content,
      messages_stamp_id = ms_StampID m, messages_reply_to_message_id = ms_ReplyToID m,
      messages_created_at = ms_CreatedAt m, messages_updated_at = ms_UpdatedAt m,
      messages_deleted_at = None, messages_deleted_by = None,
      messages_thread_room_id = ms_ThreadRoomID m\<rparr>"

lemma SaveMessage_Inr:
  assumes "SaveMessage C m w = (Inr m', w')" "db_tx w \<noteq> None"
  obtains content where "encryptContent C (ms_Content m) = Ok content"
    "m' = m\<lparr>ms_ID := tb_next_id (db_view w)\<rparr>"
    "in_tx (has_messages (tb_messages (db_view w) @ [new_row m' content]) (set (tb_message_media (db_view w)))) w'"
proof -
  from assms obtain content where c: "encryptContent C (ms_Content m) = Ok content"
    "dbCall (insert_message m content) w = (Inr m', w')"
    by (auto simp: SaveMessage_def bindP_liftR_Inr)
  from c(2) assms(2) show thesis
    by (intro that[OF c(1)])
       (auto simp: dbCall_def insert_message_def in_tx_def has_messages_def new_row_def split: if_splits)
qed

lemma saveNewMessage_Inr:
  assumes run: "saveNewMessage D m u is mts w = (Inr m', w')" and tx: "db_tx w \<noteq> None"
  obtains content where "encryptContent (cd_Cipher D) (ms_Content m) = Ok content"
    "m' = m\<lparr>ms_ID := tb_next_id (db_view w)\<rparr>"
    "in_tx (has_messages (tb_messages (db_view w) @ [new_row m' content]) (set (tb_message_media (db_view w)))) w'"
    "is \<noteq> [] \<Longrightarrow> ms_ID m' \<in> message_media_message_id ` set (tb_message_media (db_view w'))"
proof -
  from run obtain m1 v1 v2 where
    save: "SaveMessage (cd_Cipher D) m w = (Inr m1, v1)" and
    ment: "CreateMessageMentions (cd_Cipher D) (ms_ID m1) mts v1 = (Inr (), v2)" and
    rest: "(if is = [] then ret m1
      else bindP (CreateMediaBatch u is) (\<lambda>mediaIDs.
           bindP (CreateMessageMediaBatch (ms_ID m1) mediaIDs 0) (\<lambda>_. ret m1))) v2 = (Inr m', w')"
    by (auto simp: saveNewMessage_def bindP_Inr_iff)
  obtain content where c: "encryptContent (cd_Cipher D) (ms_Content m) = Ok content"
    "m1 = m\<lparr>ms_ID := tb_next_id (db_view w)\<rparr>"
    and i1: "in_tx (has_messages (tb_messages (db_view w) @ [new_row m1 content]) (set (tb_message_media (db_view w)))) v1"
    (is "in_tx ?I v1")
    using SaveMessage_Inr[OF save tx] by blast
  have i2: "in_tx ?I v2" by (rule tx_keepsD[OF additions_keep(1) ment i1])
  show thesis
  proof (cases "is = []")
    case True
    with rest have "m' = m1" "w' = v2" by auto
    with True c i2 show thesis by (intro that) auto
  next
    case False
    with rest obtain ids v3 where m: "CreateMediaBatch u is v2 = (Inr ids, v3)"
      "CreateMessageMediaBatch (ms_ID m1) ids 0 v3 = (Inr (), w')" "m' = m1"
      by (auto simp: bindP_Inr_iff)
    have i3: "in_tx ?I v3" by (rule tx_keepsD[OF additions_keep(2) m(1) i2])
    have i4: "in_tx ?I w'" by (rule tx_keepsD[OF additions_keep(3) m(2) i3])
    have "ids \<noteq> []" using CreateMediaBatch_length[OF m(1)] False by auto
    moreover have "db_tx v3 \<noteq> None" using i3 by (auto simp: in_tx_def split: option.splits)
    ultimately have "ms_ID m1 \<in> message_media_message_id ` set (tb_message_media (db_view w'))"
      using CreateMessageMediaBatch_links[OF m(2)] by blast
    with c i4 m(3) show thesis by (intro that) auto
  qed
qed

section \<open>The steps of a successful send\<close>

lemma discardOnError_Inr [simp]: "discardOnError c m w = (Inr x, w') \<longleftrightarrow> m w = (Inr x, w')"
  by (auto simp: discardOnError_def split: prod.splits sum.splits)

lemma NewMessage_Inr:
  assumes "NewMessage now p = Ok m"
  shows "ms_RoomID m = cp_RoomID p" "ms_UserID m = cp_UserID p" "ms_Content m = TrimUnicode (cp_Content p)"
    "ms_StampID m = cp_StampID p" "ms_ReplyToID m = cp_ReplyToID p" "ms_ThreadRoomID m = None"
    "ms_StampID m \<noteq> None \<or> ms_Content m \<noteq> [] \<or> cp_MediaKeys p \<noteq> []"
  using assms by (auto simp: NewMessage_def Let_def split: option.splits if_splits)

text \<open>Who may edit a message, and that it is one that can be edited.\<close>

definition can_edit :: "tables \<Rightarrow> claims \<Rightarrow> message_row \<Rightarrow> bool" where
  "can_edit t claims row \<longleftrightarrow>
     (\<exists>room. find_room t (messages_room_id row) = Some room \<and> may_mutate t claims room \<and>
        rm_Type room \<noteq> RoomTypeCourse) \<and>
     messages_thread_room_id row = None \<and> messages_stamp_id row = None \<and>
     (messages_user_id row = cl_ID claims \<or> IsAdminRole (cl_Role claims))"

context chat_service
begin

lemma sendExecute_Inr:
  assumes run: "sendExecute D ctx roomID userID content is replyTo stamp mentions w = (Inr m, w')"
    and tx: "db_tx w = None"
  obtains row where
    "tb_messages (db_committed w') = tb_messages (db_committed w) @ [row]"
    "set (tb_message_media (db_committed w)) \<subseteq> set (tb_message_media (db_committed w'))"
    "encryptContent (cd_Cipher D) (TrimUnicode content) = Ok (messages_content row)"
    "messages_id row = ms_ID m" "messages_room_id row = roomID" "messages_user_id row = userID"
    "messages_stamp_id row = stamp" "messages_deleted_at row = None"
    "ms_RoomID m = roomID" "ms_UserID m = userID" "db_tx w' = None"
    "RuneCount (TrimUnicode content) \<le> MaxContentChars"
    "stamp \<noteq> None \<or> TrimUnicode content \<noteq> [] \<or>
       messages_id row \<in> message_media_message_id ` set (tb_message_media (db_committed w'))"
proof -
  let ?c = "TrimUnicode content"
  let ?rest = "\<lambda>mediaInputs. bindP (case replyTo of
               None \<Rightarrow> ret ()
             | Some r \<Rightarrow>
                 bindP (GetMessageByID (cd_Cipher D) r) (\<lambda>parent.
                 guardP (case parent of None \<Rightarrow> False | Some p \<Rightarrow> IsInRoom p roomID)
                   (InvalidInput ''the message replied to is not there''))) (\<lambda>_.
      bindP nowP (\<lambda>now.
      bindP (liftR (NewMessage now
               \<lparr>cp_RoomID = roomID, cp_UserID = userID, cp_ReplyToID = replyTo, cp_Content = ?c,
                cp_StampID = stamp, cp_MediaKeys = map mi_StorageKey mediaInputs, cp_AuthorRole = [],
                cp_CreatedAt = Some now, cp_UpdatedAt = Some now\<rparr>)) (\<lambda>m.
      runInTx (saveNewMessage D (m\<lparr>ms_Mentions := mentions\<rparr>) userID mediaInputs mentions))))"
  from run obtain acc created v where
    len: "RuneCount ?c \<le> MaxContentChars" and
    acc: "acceptAll (sessionAccept (cd_Uploads D) ctx MessageAttachment) [] [] is w = (Inr (acc, created), v)"
    and rest: "bindP (liftR acc) ?rest v = (Inr m, w')"
    by (auto simp: sendExecute_def Let_def proc_Inr bindP_Inr_iff[of "acceptAll _ _ _ _"] validateContent_def
        split: if_splits)
  have v: "db_committed v = db_committed w" "db_tx v = None"
    using readsD(1,2)[OF accept_all_reads acc] tx by simp_all
  from rest obtain media where media: "acc = Ok media" and rest': "?rest media v = (Inr m, w')"
    by (auto simp: bindP_liftR_Inr)
  from rest' obtain u v1 where v1: "db_committed v1 = db_committed w" "db_tx v1 = None"
    and rest1: "bindP nowP (\<lambda>now.
      bindP (liftR (NewMessage now
               \<lparr>cp_RoomID = roomID, cp_UserID = userID, cp_ReplyToID = replyTo, cp_Content = ?c,
                cp_StampID = stamp, cp_MediaKeys = map mi_StorageKey media, cp_AuthorRole = [],
                cp_CreatedAt = Some now, cp_UpdatedAt = Some now\<rparr>)) (\<lambda>m.
      runInTx (saveNewMessage D (m\<lparr>ms_Mentions := mentions\<rparr>) userID media mentions))) v1 = (Inr m, w')"
    by (rule reads_then) (intro reads_intros, use v in auto)
  then obtain m0 where
    m0: "NewMessage (db_now v1) \<lparr>cp_RoomID = roomID, cp_UserID = userID, cp_ReplyToID = replyTo, cp_Content = ?c,
           cp_StampID = stamp, cp_MediaKeys = map mi_StorageKey media, cp_AuthorRole = [],
           cp_CreatedAt = Some (db_now v1), cp_UpdatedAt = Some (db_now v1)\<rparr> = Ok m0"
    and save: "runInTx (saveNewMessage D (m0\<lparr>ms_Mentions := mentions\<rparr>) userID media mentions) v1 = (Inr m, w')"
    by (auto simp: bindP_Inr_iff[of nowP] nowP_Inr_iff bindP_liftR_Inr)
  from save obtain x x' where x: "saveNewMessage D (m0\<lparr>ms_Mentions := mentions\<rparr>) userID media mentions x = (Inr m, x')"
    "db_tx x = Some (db_committed w)" "db_committed w' = db_view x'" "db_tx w' = None"
    by (rule runInTx_Inr) (use v1 in auto)
  from x(1) obtain enc where
    enc: "encryptContent (cd_Cipher D) (ms_Content (m0\<lparr>ms_Mentions := mentions\<rparr>)) = Ok enc"
    and mID: "m = (m0\<lparr>ms_Mentions := mentions\<rparr>)\<lparr>ms_ID := tb_next_id (db_view x)\<rparr>"
    and kept: "in_tx (has_messages (tb_messages (db_view x) @ [new_row m enc]) (set (tb_message_media (db_view x)))) x'"
    and links: "media \<noteq> [] \<Longrightarrow> ms_ID m \<in> message_media_message_id ` set (tb_message_media (db_view x'))"
    by (rule saveNewMessage_Inr) (use x(2) in auto)
  have kept': "has_messages (tb_messages (db_committed w) @ [new_row m enc])
      (set (tb_message_media (db_committed w))) (db_committed w')"
    using kept x(2,3) by (auto simp: in_tx_def db_view_def split: option.splits)
  note nm = NewMessage_Inr[OF m0]
  show thesis
    by (rule that[of "new_row m enc"])
       (use kept' enc nm links mID len x(3,4) in \<open>auto simp: has_messages_def new_row_def\<close>)
qed

lemma SendMessage_Inr:
  assumes run: "SendMessage D ctx inp w = (Inr m, w')" and tx: "db_tx w = None"
  obtains claims room row where
    "ClaimsFromContext ctx = Some claims"
    "find_room (db_committed w) (si_RoomID inp) = Some room" "may_write (db_committed w) claims room"
    "tb_messages (db_committed w') = tb_messages (db_committed w) @ [row]"
    "set (tb_message_media (db_committed w)) \<subseteq> set (tb_message_media (db_committed w'))"
    "encryptContent (cd_Cipher D) (TrimUnicode (si_Content inp)) = Ok (messages_content row)"
    "messages_id row = ms_ID m" "messages_room_id row = si_RoomID inp" "messages_user_id row = cl_ID claims"
    "messages_stamp_id row = si_StampID inp" "messages_deleted_at row = None" "db_tx w' = None"
    "RuneCount (TrimUnicode (si_Content inp)) \<le> MaxContentChars"
    "si_StampID inp \<noteq> None \<or> TrimUnicode (si_Content inp) \<noteq> [] \<or>
       messages_id row \<in> message_media_message_id ` set (tb_message_media (db_committed w'))"
proof -
  from run obtain claims access mentions v where
    checks: "sendChecks D ctx inp w = (Inr (claims, access, mentions), v)" and
    rest: "bindP (sendExecute D ctx (si_RoomID inp) (cl_ID claims) (si_Content inp) (si_MediaInputs inp)
              (si_ReplyToID inp) (si_StampID inp) mentions) (\<lambda>msg.
     bindP (publish (MessageSent (wa_Room access) msg (cl_ID claims) (wa_MemberIDs access)
                       (si_MediaInputs inp \<noteq> []))) (\<lambda>_.
     bindP (refreshThreadCard D (wa_Room access)) (\<lambda>_. ret msg))) v = (Inr m, w')"
    by (auto simp: SendMessage_def bindP_Inr_iff[of "sendChecks _ _ _"])
  have v: "db_committed v = db_committed w" "db_tx v = None"
    using readsD(1,2)[OF sendChecks_reads checks] tx by simp_all
  from checks obtain a where claims: "ClaimsFromContext ctx = Some claims"
    and acc: "ensureWriteAccessFor ctx claims (si_RoomID inp) w = (Inr access, a)"
    by (auto simp: sendChecks_def bindP_liftR_Inr RequireAuth_Inr_iff bindP_Inr_iff split: if_splits)
  note may = ensureWriteAccessFor_Inr[OF acc tx claims]
  from rest obtain v2 where
    exec: "sendExecute D ctx (si_RoomID inp) (cl_ID claims) (si_Content inp) (si_MediaInputs inp)
              (si_ReplyToID inp) (si_StampID inp) mentions v = (Inr m, v2)"
    and after: "bindP (publish (MessageSent (wa_Room access) m (cl_ID claims) (wa_MemberIDs access)
                       (si_MediaInputs inp \<noteq> []))) (\<lambda>_.
     bindP (refreshThreadCard D (wa_Room access)) (\<lambda>_. ret m)) v2 = (Inr m, w')"
    by (auto simp: bindP_Inr_iff)
  have "no_write (bindP (publish e) (\<lambda>_. bindP (refreshThreadCard D r) (\<lambda>_. ret m)))" for e r
    by (intro no_write_intros no_write_publish no_write_refresh no_write_reads reads_intros)
  then have w': "db_committed w' = db_committed v2" "db_tx w' = db_tx v2"
    using after by (auto dest: no_writeD)
  from exec v(2) show thesis
    by (rule sendExecute_Inr) (rule that[of claims "wa_Room access"], use claims may v w' in auto)
qed

text \<open>Edits and deletes.\<close>

lemma loadMessageInRoom_Inr:
  assumes "loadMessageInRoom D roomID messageID w = (Inr m, w')"
  obtains row where "live_message (db_committed w) messageID = Some row"
    "message_of_row (cd_Cipher D) row = Ok m" "messages_room_id row = roomID" "messages_id row = messageID"
    "ms_RoomID m = roomID" "ms_ID m = messageID" "ms_UserID m = messages_user_id row"
    "ms_StampID m = messages_stamp_id row" "messages_deleted_at row = None"
proof -
  from assms obtain row where row: "live_message (db_committed w) messageID = Some row"
    "message_of_row (cd_Cipher D) row = Ok m" "IsInRoom m roomID"
    by (auto simp: loadMessageInRoom_def GetMessageByID_def bindP_Inr_iff query_Inr_iff liftR_def throw_def
        split: option.splits if_splits)
  then have "messages_id row = messageID \<and> messages_deleted_at row = None"
    by (auto simp: live_message_def find_Some_iff)
  with row show thesis
    by (intro that[of row]) (auto simp: message_of_row_def IsInRoom_def split: sum.splits)
qed

lemma find_room_Inr: "GetRoom r w = (Inr room, w') \<Longrightarrow> find_room (db_view w) r = Some room"
  by (auto simp: GetRoom_def GetRoomByID_def bindP_Inr_iff query_Inr_iff throw_def split: option.splits)

lemma updateChecks_Inr:
  assumes run: "updateChecks D ctx inp w = (Inr (existing, room, mentions, before), w')" and tx: "db_tx w = None"
  obtains claims row where "ClaimsFromContext ctx = Some claims"
    "live_message (db_committed w) (ui_MessageID inp) = Some row" "messages_room_id row = ui_RoomID inp"
    "can_edit (db_committed w) claims row"
    "TrimUnicode (ui_Content inp) \<noteq> [] \<or>
       ui_MessageID inp \<in> message_media_message_id ` set (tb_message_media (db_committed w))"
proof -
  from run obtain claims v1 v2 v3 v4 v5 where claims: "ClaimsFromContext ctx = Some claims"
    and load: "loadMessageInRoom D (ui_RoomID inp) (ui_MessageID inp) w = (Inr existing, v1)"
    and room: "GetRoom (ms_RoomID existing) v1 = (Inr room, v2)"
    and mut: "ensureMutateAccess ctx claims room v2 = (Inr (), v3)"
    and own: "rm_Type room \<noteq> RoomTypeCourse" "CanBeEditedBy existing (cl_ID claims) (IsAdminRole (cl_Role claims))"
      "ms_StampID existing = None"
    and screen: "screenNGWords D ctx claims room (ui_Content inp) v3 = (Inr (), v4)"
    and full: "ensureMessageNotEmptied existing (ui_Content inp) v4 = (Inr (), v5)"
    by (auto simp: updateChecks_def Let_def bindP_liftR_Inr RequireAuth_Inr_iff bindP_Inr_iff
        elim!: tryP_cases split: if_splits)
  note r1 = readsD(1,2)[OF message_queries_read(5) load]
  note r2 = readsD(1,2)[OF chat_queries_read(2) room]
  note r3 = readsD(1,2)[OF policy_reads_chat(3) mut]
  note r4 = readsD(1,2)[OF screen_reads' screen]
  from load obtain row where row: "live_message (db_committed w) (ui_MessageID inp) = Some row"
    "message_of_row (cd_Cipher D) row = Ok existing" "messages_room_id row = ui_RoomID inp"
    "messages_id row = ui_MessageID inp" "ms_RoomID existing = ui_RoomID inp" "ms_ID existing = ui_MessageID inp"
    "ms_UserID existing = messages_user_id row" "ms_StampID existing = messages_stamp_id row"
    by (rule loadMessageInRoom_Inr)
  have "find_room (db_committed w) (messages_room_id row) = Some room"
    using find_room_Inr[OF room] row r1 tx by simp
  moreover have "may_mutate (db_committed w) claims room"
    using ensureMutateAccess_Inr[OF mut _ claims] r1 r2 tx by simp
  moreover have "messages_thread_room_id row = None \<and> (messages_user_id row = cl_ID claims \<or> IsAdminRole (cl_Role claims))"
    using own(2) row by (auto simp: CanBeEditedBy_def IsDeleted_def message_of_row_def split: sum.splits if_splits)
  ultimately have "can_edit (db_committed w) claims row"
    using own row by (auto simp: can_edit_def)
  moreover have "TrimUnicode (ui_Content inp) \<noteq> [] \<or>
       ui_MessageID inp \<in> message_media_message_id ` set (tb_message_media (db_committed w))"
    using full row(6) r1 r2 r3 r4
    by (fastforce simp: ensureMessageNotEmptied_def ListMediaByMessageIDs_def bindP_Inr_iff query_Inr_iff
        throw_def image_iff split: if_splits)
  ultimately show thesis using claims row by (intro that[of claims row]) auto
qed

lemma updateExecute_Inr:
  assumes run: "updateExecute D i (Some c) ms w = (Inr m, w')" and tx: "db_tx w = None"
  obtains enc where "encryptContent (cd_Cipher D) c = Ok enc" "RuneCount c \<le> MaxContentChars"
    "tb_messages (db_committed w') =
       map (\<lambda>r. if messages_id r = i \<and> messages_deleted_at r = None
                then r\<lparr>messages_content := enc, messages_updated_at := db_now w\<rparr> else r)
         (tb_messages (db_committed w))"
    "tb_message_media (db_committed w') = tb_message_media (db_committed w)" "db_tx w' = None"
proof -
  from run obtain m0 v where get: "GetMessageByID (cd_Cipher D) i w = (Inr (Some m0), v)"
    and len: "RuneCount c \<le> MaxContentChars"
    and tran: "runInTx (bindP (saveMessageUpdate (cd_Cipher D) ((applyUpdate (db_now v) m0 (Some c))\<lparr>ms_Mentions := ms\<rparr>)) (\<lambda>_.
               bindP (DeleteMessageMentionsByMessageID (ms_ID ((applyUpdate (db_now v) m0 (Some c))\<lparr>ms_Mentions := ms\<rparr>))) (\<lambda>_.
               CreateMessageMentions (cd_Cipher D) (ms_ID ((applyUpdate (db_now v) m0 (Some c))\<lparr>ms_Mentions := ms\<rparr>)) ms))) v = (Inr (), w')"
    by (auto simp: updateExecute_def Let_def bindP_Inr_iff nowP_Inr_iff validateContent_def liftR_def throw_def
        split: option.splits if_splits)
  define msg where "msg = (applyUpdate (db_now v) m0 (Some c))\<lparr>ms_Mentions := ms\<rparr>"
  note v = readsD(1-3)[OF message_queries_read(1) get]
  have i: "ms_ID m0 = i"
    using get by (auto simp: GetMessageByID_def bindP_Inr_iff query_Inr_iff liftR_def message_of_row_def
        live_message_def find_Some_iff split: option.splits sum.splits)
  have msg: "ms_ID msg = i" "ms_Content msg = c" "ms_UpdatedAt msg = db_now w"
    using i v by (simp_all add: msg_def applyUpdate_def)
  from tran[folded msg_def] obtain x x' :: app where x: "db_tx x = Some (db_committed w)" "db_tx w' = None"
    "db_committed w' = db_view x'" "bindP (saveMessageUpdate (cd_Cipher D) msg) (\<lambda>_.
        bindP (DeleteMessageMentionsByMessageID (ms_ID msg)) (\<lambda>_.
        CreateMessageMentions (cd_Cipher D) (ms_ID msg) ms)) x = (Inr (), x')"
    by (rule runInTx_Inr) (use v in auto)
  from x(4) obtain enc x1 where enc: "encryptContent (cd_Cipher D) c = Ok enc"
    and x1: "dbExec (update_messages (\<lambda>r. messages_id r = ms_ID msg \<and> messages_deleted_at r = None)
               (\<lambda>r. r\<lparr>messages_content := enc, messages_updated_at := ms_UpdatedAt msg\<rparr>)) x = (Inr (), x1)"
    and rest: "bindP (DeleteMessageMentionsByMessageID (ms_ID msg)) (\<lambda>_.
        CreateMessageMentions (cd_Cipher D) (ms_ID msg) ms) x1 = (Inr (), x')"
    by (auto simp: saveMessageUpdate_def bindP_Inr_iff[of "bindP _ _"] bindP_liftR_Inr msg)
  let ?t = "update_messages (\<lambda>r. messages_id r = ms_ID msg \<and> messages_deleted_at r = None)
               (\<lambda>r. r\<lparr>messages_content := enc, messages_updated_at := ms_UpdatedAt msg\<rparr>) (db_committed w)"
  let ?I = "\<lambda>t. tb_messages t = tb_messages ?t \<and> tb_message_media t = tb_message_media ?t"
  have "in_tx ?I x1" using x1 x(1) by (auto simp: dbExec_def dbCall_def in_tx_def split: if_splits)
  moreover have "tx_keeps ?I (bindP (DeleteMessageMentionsByMessageID (ms_ID msg)) (\<lambda>_.
        CreateMessageMentions (cd_Cipher D) (ms_ID msg) ms))"
    unfolding DeleteMessageMentionsByMessageID_def CreateMessageMentions_def
    by (intro tx_intros tx_keeps_exec) simp_all
  ultimately have "in_tx ?I x'" using rest by (blast intro: tx_keepsD)
  then have "?I (db_committed w')" using x(3) by (auto simp: in_tx_def db_view_def split: option.splits)
  with enc len x(2) show thesis
    by (intro that[of enc]) (simp_all add: update_messages_def msg)
qed

end

end
