(* ===== verification/Chat_Stamp.thy ===== *)
theory Chat_Stamp
  imports Chat_Command
begin

text \<open>
  The stamps of the chat: model/chat_stamp.go, infra/mysql/chat_stamp_repository.go and
  usecase/chatstamp/service.go. A row of the table is the \<open>model.ChatStamp\<close> itself. Administrators save
  stamps with an optimistic lock on the version.
\<close>

section \<open>The repository\<close>

definition find_stamp :: "tables \<Rightarrow> string \<Rightarrow> chat_stamp_row option" where
  "find_stamp t stampID = List.find (\<lambda>v. chat_stamps_id v = stampID) (tb_chat_stamps t)"

definition ListChatStamps :: "('o db, chat_stamp_row list) proc" where
  "ListChatStamps = dbQuery (\<lambda>t. sort_key (\<lambda>v. (chat_stamps_message_order v, chat_stamps_id v)) (tb_chat_stamps t))"

definition GetChatStamp :: "string \<Rightarrow> ('o db, chat_stamp_row option) proc" where
  "GetChatStamp stampID = dbQuery (\<lambda>t. find_stamp t stampID)"

text \<open>The ID is the primary key.\<close>

definition CreateChatStamp :: "chat_stamp_row \<Rightarrow> ('o db, unit) proc" where
  "CreateChatStamp v = dbCall (\<lambda>t.
     if find_stamp t (chat_stamps_id v) = None
     then (Ok (), t\<lparr>tb_chat_stamps := tb_chat_stamps t @ [v]\<rparr>)
     else (Err constraint_error, t))"

text \<open>\<open>UPDATE ... SET ..., version = version + 1 WHERE id = ? AND version = ?\<close>; the creation columns stay.\<close>

definition stored_stamp :: "chat_stamp_row \<Rightarrow> chat_stamp_row \<Rightarrow> chat_stamp_row" where
  "stored_stamp v old =
     v\<lparr>chat_stamps_version := chat_stamps_version old + 1, chat_stamps_created_at := chat_stamps_created_at old,
       chat_stamps_created_by := chat_stamps_created_by old\<rparr>"

definition UpdateChatStamp :: "chat_stamp_row \<Rightarrow> ('o db, bool) proc" where
  "UpdateChatStamp v = dbCall (\<lambda>t.
     let hit = (\<lambda>old. chat_stamps_id old = chat_stamps_id v \<and> chat_stamps_version old = chat_stamps_version v) in
     (Ok (length (filter hit (tb_chat_stamps t)) = 1),
      t\<lparr>tb_chat_stamps := map (\<lambda>old. if hit old then stored_stamp v old else old) (tb_chat_stamps t)\<rparr>))"

section \<open>The service\<close>

definition ListStamps :: "request_ctx \<Rightarrow> bool \<Rightarrow> ('o db, chat_stamp_row list) proc" where
  "ListStamps ctx admin =
     bindP (liftR (if admin then RequireAdmin ctx else RequireAuth ctx)) (\<lambda>_.
     bindP ListChatStamps (\<lambda>rows.
     ret (filter (\<lambda>v. admin \<or> chat_stamps_status v \<noteq> ''draft'') rows)))"

definition RequireAllowed :: "request_ctx \<Rightarrow> string \<Rightarrow> bool \<Rightarrow> ('o db, unit) proc" where
  "RequireAllowed ctx stampID reaction =
     bindP (GetChatStamp stampID) (\<lambda>v. case v of
       None \<Rightarrow> throw (InvalidInput ''this stamp cannot be used now'')
     | Some v \<Rightarrow>
         if chat_stamps_status v \<noteq> ''active'' \<or> \<not> reaction \<and> \<not> chat_stamps_allow_message v \<or>
            reaction \<and> \<not> chat_stamps_allow_reaction v
         then throw (InvalidInput ''this stamp cannot be used now'') else ret ())"

definition ChatStampKind :: string where
  "ChatStampKind = ''chat-stamps''"

definition updated_meanwhile :: go_error where
  "updated_meanwhile = InvalidInput ''another administrator has updated it''"

definition checkStamp :: "chat_stamp_row \<Rightarrow> unit result" where
  "checkStamp v =
     (if chat_stamps_label v = [] \<or> 50 < RuneCount (chat_stamps_label v)
      then Err (InvalidInput ''a name has 1 to 50 characters'')
      else if chat_stamps_display_size v \<notin> {''small'', ''standard'', ''large''}
      then Err (InvalidInput ''the display size is not one of them'')
      else if chat_stamps_status v \<notin> {''draft'', ''active'', ''inactive''}
      then Err (InvalidInput ''the status is not one of them'')
      else if chat_stamps_message_order v < 0 \<or> chat_stamps_reaction_order v < 0
      then Err (InvalidInput ''the order is not a position'')
      else Ok ())"

text \<open>The row the rest of \<open>Save\<close> works on: a new draft, or the stored stamp with the new values.\<close>

definition preparedStamp :: "int \<Rightarrow> string \<Rightarrow> int \<Rightarrow> chat_stamp_row \<Rightarrow> (app, chat_stamp_row) proc" where
  "preparedStamp now uuid actor v =
     (let v = v\<lparr>chat_stamps_updated_at := now, chat_stamps_updated_by := actor\<rparr> in
      if chat_stamps_id v = []
      then bindP (guardP (chat_stamps_status v = ''draft'') (InvalidInput ''save it as a draft first'')) (\<lambda>_.
           ret (v\<lparr>chat_stamps_image_key := [], chat_stamps_id := ''stamp:'' @ uuid, chat_stamps_version := 1,
                  chat_stamps_created_at := now, chat_stamps_created_by := actor\<rparr>))
      else bindP (GetChatStamp (chat_stamps_id v)) (\<lambda>old. case old of
           None \<Rightarrow> throw (InvalidInput ''no such stamp'')
         | Some old \<Rightarrow>
             bindP (guardP (chat_stamps_version old = chat_stamps_version v) updated_meanwhile) (\<lambda>_.
             bindP (guardP (\<not> (chat_stamps_status old \<noteq> ''draft'' \<and> chat_stamps_status v = ''draft''))
                      (InvalidInput ''withdraw what has been published'')) (\<lambda>_.
             ret (v\<lparr>chat_stamps_image_key := chat_stamps_image_key old,
                    chat_stamps_created_at := chat_stamps_created_at old,
                    chat_stamps_created_by := chat_stamps_created_by old\<rparr>)))))"

text \<open>The upload of the image, when there is one: the key to store and what was published for it.\<close>

definition acceptImage ::
  "acceptor option \<Rightarrow> request_ctx \<Rightarrow> string option \<Rightarrow> string \<Rightarrow> (app, string result \<times> string list) proc" where
  "acceptImage uploads ctx uploadKey imageKey =
     (case uploadKey of
        None \<Rightarrow> ret (Ok imageKey, [])
      | Some key \<Rightarrow>
          if \<not> HasPrefix key ''staging/chat-stamps/''
          then ret (Err (InvalidInput ''upload a new image''), [])
          else tryP (sessionAccept uploads ctx ChatStampKind key) (\<lambda>r. case r of
                 Inl e \<Rightarrow> ret (Err e, [])
               | Inr stored \<Rightarrow> ret (Ok stored, if stored \<noteq> key then [stored] else [])))"

definition SaveStamp ::
  "acceptor option \<Rightarrow> string \<Rightarrow> request_ctx \<Rightarrow> chat_stamp_row \<Rightarrow> string option
     \<Rightarrow> (app, chat_stamp_row) proc" where
  "SaveStamp uploads uuid ctx v0 uploadKey =
     bindP (liftR (RequireAdmin ctx)) (\<lambda>actor.
     let create = (chat_stamps_id v0 = []);
         v0 = v0\<lparr>chat_stamps_label := TrimUnicode (chat_stamps_label v0)\<rparr> in
     bindP (liftR (checkStamp v0)) (\<lambda>_.
     bindP nowP (\<lambda>now.
     bindP (preparedStamp now uuid (cl_ID actor) v0) (\<lambda>v.
     bindP (acceptImage uploads ctx uploadKey (chat_stamps_image_key v)) (\<lambda>(image, created).
     discardOnError created (
       bindP (liftR image) (\<lambda>imageKey.
       let v = v\<lparr>chat_stamps_image_key := imageKey\<rparr> in
       bindP (guardP (\<not> (chat_stamps_status v = ''active'' \<and>
                         (imageKey = [] \<or> \<not> chat_stamps_allow_message v \<and> \<not> chat_stamps_allow_reaction v)))
                (InvalidInput ''publishing needs an image and a use'')) (\<lambda>_.
       if create then bindP (CreateChatStamp v) (\<lambda>_. ret v)
       else bindP (UpdateChatStamp v) (\<lambda>ok.
            if ok then ret (v\<lparr>chat_stamps_version := chat_stamps_version v + 1\<rparr>)
            else throw updated_meanwhile)))))))))"

text \<open>\<open>Reorder\<close>: the positions of the listed stamps, all of them or none.\<close>

fun reorderItems ::
  "int \<Rightarrow> bool \<Rightarrow> string list \<Rightarrow> int \<Rightarrow> (string \<times> int) list \<Rightarrow> ('o db, unit) proc" where
  "reorderItems actor reaction seen i [] = ret ()"
| "reorderItems actor reaction seen i ((stampID, version) # items) =
     bindP (guardP (stampID \<notin> set seen) (InvalidInput ''an ID is there twice'')) (\<lambda>_.
     bindP (GetChatStamp stampID) (\<lambda>v. case v of
       None \<Rightarrow> throw updated_meanwhile
     | Some v \<Rightarrow>
         bindP (guardP (chat_stamps_version v = version) updated_meanwhile) (\<lambda>_.
         bindP nowP (\<lambda>now.
         bindP (UpdateChatStamp
                  ((if reaction then v\<lparr>chat_stamps_reaction_order := i\<rparr> else v\<lparr>chat_stamps_message_order := i\<rparr>)
                   \<lparr>chat_stamps_updated_by := actor, chat_stamps_updated_at := now\<rparr>)) (\<lambda>ok.
         bindP (guardP ok updated_meanwhile) (\<lambda>_.
         reorderItems actor reaction (stampID # seen) (i + 1) items))))))"

definition ReorderStamps :: "request_ctx \<Rightarrow> (string \<times> int) list \<Rightarrow> bool \<Rightarrow> ('o db, unit) proc" where
  "ReorderStamps ctx items reaction =
     bindP (liftR (RequireAdmin ctx)) (\<lambda>actor.
     bindP (guardP (int (length items) \<le> 1000) (InvalidInput ''too many at once'')) (\<lambda>_.
     runInTx (reorderItems (cl_ID actor) reaction [] 0 items)))"

section \<open>Reading, and the lock on the version\<close>

lemma stamp_reads [reads_intros]:
  "reads (GetChatStamp i)" "reads ListChatStamps" "reads (RequireAllowed ctx i b)" "reads (ListStamps ctx admin)"
  unfolding GetChatStamp_def ListChatStamps_def RequireAllowed_def ListStamps_def
  by (intro reads_intros)+

lemma preparedStamp_reads [reads_intros]: "reads (preparedStamp now uuid actor v)"
  unfolding preparedStamp_def Let_def by (intro reads_intros)

text \<open>A stamp is only ever replaced by a save that names the version it replaces.\<close>

definition stamp_history :: "chat_stamp_row \<Rightarrow> chat_stamp_row \<Rightarrow> bool" where
  "stamp_history old new \<longleftrightarrow>
     new = old \<or>
     chat_stamps_id new = chat_stamps_id old \<and> chat_stamps_version new = chat_stamps_version old + 1 \<and>
     chat_stamps_created_at new = chat_stamps_created_at old \<and>
     chat_stamps_created_by new = chat_stamps_created_by old"

end
