(* ===== verification/Chat_Props.thy ===== *)
theory Chat_Props
  imports Chat_Command_Props Chat_Stamp
begin

text \<open>
  The properties of the command service: who may send, edit and delete; that a failed operation leaves
  neither rows nor events; that no message is empty; and the access policy as a table of rules.
\<close>

section \<open>Deletes and reactions\<close>

definition can_delete :: "tables \<Rightarrow> claims \<Rightarrow> message_row \<Rightarrow> bool" where
  "can_delete t claims row \<longleftrightarrow>
     messages_thread_room_id row = None \<and>
     (case find_room t (messages_room_id row) of
        None \<Rightarrow> False
      | Some room \<Rightarrow>
          may_mutate t claims room \<and>
          (messages_user_id row = cl_ID claims \<or> IsAdminRole (cl_Role claims) \<or>
           rm_Type room = RoomTypeCommunity \<and>
           (\<exists>m\<in>set (tb_room_users t). room_users_room_id m = PolicyRoomID room \<and>
              room_users_user_id m = cl_ID claims \<and> room_users_role m = RoomUserRoleOwner)))"

lemma caller_role_Inr:
  assumes "GetCallerRoomRole ctx r w = (Inr RoomUserRoleOwner, w')" "ClaimsFromContext ctx = Some claims"
  shows "\<exists>m\<in>set (tb_room_users (db_committed w)). room_users_room_id m = r \<and>
           room_users_user_id m = cl_ID claims \<and> room_users_role m = RoomUserRoleOwner"
proof -
  have "CallerID ctx = Ok (cl_ID claims)" using assms(2) by (simp add: CallerID_def RequireAuth_def)
  with assms(1) have "RoomUserRoleOwner =
      (case List.find (\<lambda>m. room_users_room_id m = r \<and> room_users_user_id m = cl_ID claims)
              (tb_room_users (db_committed w)) of None \<Rightarrow> [] | Some m \<Rightarrow> room_users_role m)"
    by (auto simp: GetCallerRoomRole_def GetRoomUserRole_def bindP_liftR_Inr query_Inr_iff)
  then obtain m where "List.find (\<lambda>m. room_users_room_id m = r \<and> room_users_user_id m = cl_ID claims)
              (tb_room_users (db_committed w)) = Some m" "room_users_role m = RoomUserRoleOwner"
    by (auto simp: RoomUserRoleOwner_def split: option.splits)
  then show ?thesis by (auto simp: find_Some_iff intro!: bexI[of _ m])
qed

lemma message_of_row_thread:
  "message_of_row C row = Ok m \<Longrightarrow> ms_ThreadRoomID m = messages_thread_room_id row \<and> \<not> IsDeleted m"
  by (auto simp: message_of_row_def IsDeleted_def split: sum.splits)

context chat_service
begin

lemma deleteChecks_Inr:
  assumes run: "deleteChecks D ctx roomID messageID w = (Inr (claims, msg), w')" and tx: "db_tx w = None"
  obtains row where "ClaimsFromContext ctx = Some claims" "ms_ID msg = messageID"
    "live_message (db_committed w) messageID = Some row" "messages_room_id row = roomID"
    "can_delete (db_committed w) claims row"
proof -
  from run obtain room v1 v2 v3 where claims: "ClaimsFromContext ctx = Some claims"
    and load: "loadMessageInRoom D roomID messageID w = (Inr msg, v1)"
    and none: "ms_ThreadRoomID msg = None"
    and room: "GetRoom (ms_RoomID msg) v1 = (Inr room, v2)"
    and mut: "ensureMutateAccess ctx claims room v2 = (Inr (), v3)"
    and own: "CanBeDeletedBy msg (cl_ID claims) (IsAdminRole (cl_Role claims)) \<or>
      rm_Type room = RoomTypeCommunity \<and>
      (\<exists>v4. GetCallerRoomRole ctx (PolicyRoomID room) v3 = (Inr RoomUserRoleOwner, v4))"
    by (fastforce simp: deleteChecks_def Let_def bindP_liftR_Inr RequireAuth_Inr_iff bindP_Inr_iff throw_def
        elim!: tryP_cases split: if_splits)
  note r1 = readsD(1,2)[OF message_queries_read(5) load]
  note r2 = readsD(1,2)[OF chat_queries_read(2) room]
  note r3 = readsD(1,2)[OF policy_reads_chat(3) mut]
  from load obtain row where row: "live_message (db_committed w) messageID = Some row"
    "message_of_row (cd_Cipher D) row = Ok msg" "messages_room_id row = roomID"
    "messages_id row = messageID" "ms_RoomID msg = roomID" "ms_ID msg = messageID"
    "ms_UserID msg = messages_user_id row"
    by (rule loadMessageInRoom_Inr)
  have r: "find_room (db_committed w) (messages_room_id row) = Some room"
    using find_room_Inr[OF room] row r1 tx by simp
  have m: "may_mutate (db_committed w) claims room"
    using ensureMutateAccess_Inr[OF mut _ claims] r1 r2 tx by simp
  have "messages_user_id row = cl_ID claims \<or> IsAdminRole (cl_Role claims) \<or>
           rm_Type room = RoomTypeCommunity \<and>
           (\<exists>m\<in>set (tb_room_users (db_committed w)). room_users_room_id m = PolicyRoomID room \<and>
              room_users_user_id m = cl_ID claims \<and> room_users_role m = RoomUserRoleOwner)"
    using own
  proof
    assume "CanBeDeletedBy msg (cl_ID claims) (IsAdminRole (cl_Role claims))"
    then show ?thesis using row by (auto simp: CanBeDeletedBy_def CanBeEditedBy_def split: if_splits)
  next
    assume "rm_Type room = RoomTypeCommunity \<and>
      (\<exists>v4. GetCallerRoomRole ctx (PolicyRoomID room) v3 = (Inr RoomUserRoleOwner, v4))"
    then show ?thesis using caller_role_Inr[OF _ claims] r1 r2 r3 by fastforce
  qed
  with r m none message_of_row_thread[OF row(2)] have "can_delete (db_committed w) claims row"
    by (simp add: can_delete_def)
  with claims row show thesis by (intro that)
qed

lemma DeleteMessage_Inr:
  assumes run: "DeleteMessage D ctx roomID messageID w = (Inr b, w')" and tx: "db_tx w = None"
  obtains claims row where "ClaimsFromContext ctx = Some claims"
    "live_message (db_committed w) messageID = Some row" "messages_room_id row = roomID"
    "can_delete (db_committed w) claims row"
    "tb_messages (db_committed w') =
       map (\<lambda>r. if messages_id r = messageID \<and> messages_deleted_at r = None
                then r\<lparr>messages_deleted_at := Some (db_now w), messages_deleted_by := Some (cl_ID claims)\<rparr> else r)
         (tb_messages (db_committed w))"
    "tb_message_media (db_committed w') = tb_message_media (db_committed w)" "db_tx w' = None"
proof -
  from run obtain claims msg v where checks: "deleteChecks D ctx roomID messageID w = (Inr (claims, msg), v)"
    and rest: "bindP (deleteExecute (ms_ID msg) (cl_ID claims)) (\<lambda>deleted.
     bindP (if deleted
            then bindP (publish (MessageDeleted (ms_RoomID msg) (ms_ID msg))) (\<lambda>_.
                 tryP (GetRoom (ms_RoomID msg)) (\<lambda>r. case r of
                   Inl _ \<Rightarrow> ret ()
                 | Inr room \<Rightarrow> refreshThreadCard D room))
            else ret ()) (\<lambda>_. ret deleted)) v = (Inr b, w')"
    by (auto simp: DeleteMessage_def bindP_Inr_iff[of "deleteChecks _ _ _ _"])
  note v = readsD(1-3)[OF deleteChecks_reads checks]
  from rest obtain d v2 where del: "deleteExecute (ms_ID msg) (cl_ID claims) v = (Inr d, v2)"
    and after: "bindP (if d
            then bindP (publish (MessageDeleted (ms_RoomID msg) (ms_ID msg))) (\<lambda>_.
                 tryP (GetRoom (ms_RoomID msg)) (case_sum (\<lambda>_. ret ()) (refreshThreadCard D)))
            else ret ()) (\<lambda>_. ret d) v2 = (Inr b, w')"
    by (auto simp: bindP_Inr_iff)
  have "no_write (bindP (if d
            then bindP (publish (MessageDeleted (ms_RoomID msg) (ms_ID msg))) (\<lambda>_.
                 tryP (GetRoom (ms_RoomID msg)) (case_sum (\<lambda>_. ret ()) (refreshThreadCard D)))
            else ret ()) (\<lambda>_. ret d))"
    by (intro no_write_intros no_write_publish no_write_refresh no_write_reads reads_intros)
  then have w': "db_committed w' = db_committed v2" "db_tx w' = db_tx v2"
    using after by (auto dest: no_writeD)
  have id: "ms_ID msg = messageID" using checks tx by (rule deleteChecks_Inr)
  have v2: "db_committed v2 = update_messages (\<lambda>r. messages_id r = messageID \<and> messages_deleted_at r = None)
      (\<lambda>r. r\<lparr>messages_deleted_at := Some (db_now w), messages_deleted_by := Some (cl_ID claims)\<rparr>) (db_committed w)"
    "db_tx v2 = None"
    using del v id tx
    by (auto simp: deleteExecute_def SoftDeleteMessage_def bindP_Inr_iff nowP_Inr_iff poolCall_def split: if_splits)
  from checks tx show thesis
    by (rule deleteChecks_Inr) (rule that, use v2 w' in \<open>auto simp: update_messages_def\<close>)
qed

lemma UpdateMessage_Inr:
  assumes run: "UpdateMessage D ctx inp w = (Inr m, w')" and tx: "db_tx w = None"
  obtains claims row enc where "ClaimsFromContext ctx = Some claims"
    "live_message (db_committed w) (ui_MessageID inp) = Some row" "messages_room_id row = ui_RoomID inp"
    "can_edit (db_committed w) claims row"
    "TrimUnicode (ui_Content inp) \<noteq> [] \<or>
       ui_MessageID inp \<in> message_media_message_id ` set (tb_message_media (db_committed w))"
    "encryptContent (cd_Cipher D) (ui_Content inp) = Ok enc" "RuneCount (ui_Content inp) \<le> MaxContentChars"
    "tb_messages (db_committed w') =
       map (\<lambda>r. if messages_id r = ui_MessageID inp \<and> messages_deleted_at r = None
                then r\<lparr>messages_content := enc, messages_updated_at := db_now w\<rparr> else r)
         (tb_messages (db_committed w))"
    "tb_message_media (db_committed w') = tb_message_media (db_committed w)" "db_tx w' = None"
proof -
  from run obtain existing room mentions before v v2 added where
    checks: "updateChecks D ctx inp w = (Inr (existing, room, mentions, before), v)"
    and exec: "updateExecute D (ui_MessageID inp) (Some (ui_Content inp)) mentions v = (Inr m, v2)"
    and w': "w' = v2\<lparr>db_out := db_out v2 @ [MessageUpdated room m (ms_UserID existing) added]\<rparr>"
    by (auto simp: UpdateMessage_def Let_def bindP_Inr_iff publish_Inr_iff)
  note v = readsD(1-3)[OF updateChecks_reads checks]
  have tx': "db_tx v = None" using v tx by simp
  from exec tx' obtain enc where enc: "encryptContent (cd_Cipher D) (ui_Content inp) = Ok enc"
    "RuneCount (ui_Content inp) \<le> MaxContentChars"
    "tb_messages (db_committed v2) =
       map (\<lambda>r. if messages_id r = ui_MessageID inp \<and> messages_deleted_at r = None
                then r\<lparr>messages_content := enc, messages_updated_at := db_now v\<rparr> else r)
         (tb_messages (db_committed v))"
    "tb_message_media (db_committed v2) = tb_message_media (db_committed v)" "db_tx v2 = None"
    by (rule updateExecute_Inr)
  from checks tx show thesis
    by (rule updateChecks_Inr) (rule that, use enc v w' in auto)
qed

end

section \<open>The service as it is built\<close>

text \<open>The command service with the stamp catalogue of the database, a cipher, the words that stop a
  message (\<open>blocked\<close>, what the NG-word guard answers to a text) and an object store (\<open>store\<close>, what it
  answers to an upload), none of which the statements depend on.\<close>

definition service_deps ::
  "cipher \<Rightarrow> (string \<Rightarrow> go_error option) \<Rightarrow> (string \<Rightarrow> string \<Rightarrow> string result) \<Rightarrow> chat_deps" where
  "service_deps C blocked store =
     \<lparr>cd_Cipher = C, cd_Stamps = Some RequireAllowed,
      cd_Screen = (\<lambda>ctx userID roomID txt. case blocked txt of None \<Rightarrow> ret () | Some e \<Rightarrow> throw e),
      cd_Uploads = Some (\<lambda>ctx kind key. liftR (store kind key)), cd_Threads = True\<rparr>"

lemma service_deps_simps [simp]:
  "cd_Cipher (service_deps C blocked store) = C"
  "cd_Stamps (service_deps C blocked store) = Some RequireAllowed"
  "cd_Uploads (service_deps C blocked store) = Some (\<lambda>ctx kind key. liftR (store kind key))"
  by (simp_all add: service_deps_def)

interpretation service: chat_service "service_deps C blocked store" for C blocked store
proof
  show "cd_Stamps (service_deps C blocked store) = Some allowed \<Longrightarrow> reads (allowed ctx stamp b)"
    for allowed ctx stamp b by (auto intro: reads_intros)
  show "reads (cd_Screen (service_deps C blocked store) ctx u r msg)" for ctx u r msg
    by (simp add: service_deps_def) (intro reads_intros)
  show "cd_Uploads (service_deps C blocked store) = Some acc \<Longrightarrow> reads (acc ctx kind key)"
    for acc ctx kind key by (auto intro: reads_intros)
qed

text \<open>What a client asks of the service, each request with the caller it comes from.\<close>

datatype chat_op =
    Send send_input
  | Update update_input
  | Delete int int
  | React int int string
  | Unreact int int string

definition run_chat :: "chat_deps \<Rightarrow> request_ctx \<Rightarrow> chat_op \<Rightarrow> (app, unit) proc" where
  "run_chat D ctx op =
     (case op of
        Send inp \<Rightarrow> bindP (SendMessage D ctx inp) (\<lambda>_. ret ())
      | Update inp \<Rightarrow> bindP (UpdateMessage D ctx inp) (\<lambda>_. ret ())
      | Delete r i \<Rightarrow> bindP (DeleteMessage D ctx r i) (\<lambda>_. ret ())
      | React r i emoji \<Rightarrow> bindP (AddReaction D ctx r i emoji) (\<lambda>_. ret ())
      | Unreact r i emoji \<Rightarrow> bindP (RemoveReaction D ctx r i emoji) (\<lambda>_. ret ()))"

definition run_chats :: "chat_deps \<Rightarrow> (request_ctx \<times> chat_op) list \<Rightarrow> app \<Rightarrow> app" where
  "run_chats D ops w = fold (\<lambda>(ctx, op) w. snd (run_chat D ctx op w)) ops w"

context chat_service
begin

lemma changeReaction_atomic:
  assumes "\<And>i u e. atomicP events (change i u e)"
  shows "atomicP events (changeReaction D ctx roomID messageID emoji b change)"
proof -
  have allowed: "reads (if b
            then (case cd_Stamps D of
                    None \<Rightarrow> throw err
                  | Some allowed \<Rightarrow> allowed ctx emoji True)
            else guardP ok err)" for ok err
    using send_stamp_reads[of err ctx emoji True] by (cases b) (simp_all add: reads_intros)
  then show ?thesis
    unfolding changeReaction_def
    by (intro atomicP_bindP[of "liftR _"] atomicP_bindP[OF allowed] atomicP_bindP[of "loadMessageInRoom _ _ _"]
        atomicP_bindP[of "orFail _ _"] atomicP_bindP[of "ensureMutateAccess _ _ _"] atomicP_then[OF assms]
        infallible_bindP infallible_publish infallible_ret reads_intros)
qed

lemma run_chat_atomic: "atomicP events (run_chat D ctx op)"
proof -
  have "atomicP events (AddReaction D ctx r i e)" "atomicP events (RemoveReaction D ctx r i e)" for r i e
    unfolding AddReaction_def RemoveReaction_def AddMessageReaction_def RemoveMessageReaction_def
    by (intro changeReaction_atomic atomicP_calls)+
  then show ?thesis
    unfolding run_chat_def
    by (cases op)
       (auto intro!: atomicP_then infallible_ret SendMessage_atomic UpdateMessage_atomic DeleteMessage_atomic)
qed

end

section \<open>An example database\<close>

text \<open>Users 7 and 8 (active) and 9; the community room 1 of 7 and 8, the DM 2 between them, a stamp.\<close>

definition member_row :: "int \<Rightarrow> int \<Rightarrow> string \<Rightarrow> room_user_row" where
  "member_row r u role = \<lparr>room_users_room_id = r, room_users_user_id = u, room_users_role = role,
     room_users_created_at = 0, room_users_last_read_message_id = None, room_users_last_read_at = None\<rparr>"

definition plain_room :: "int \<Rightarrow> string \<Rightarrow> room_row" where
  "plain_room r kind = \<lparr>rooms_id = r, rooms_name = [], rooms_type = kind, rooms_created_at = 0,
     rooms_updated_at = 0, rooms_parent_room_id = None\<rparr>"

definition plain_user :: "int \<Rightarrow> user_row" where
  "plain_user u = \<lparr>users_id = u, users_status = StatusActive, users_deactivated_at = None, users_deleted_at = None,
     users_created_at = 0\<rparr>"

definition plain_account :: "int \<Rightarrow> account_row" where
  "plain_account u = \<lparr>user_accounts_user_id = u, user_accounts_name = ''name'', user_accounts_role = ''student'',
     user_accounts_credentials_version = 0, user_accounts_last_active_at = None,
     user_accounts_account_id = Itoa u, user_accounts_email = Itoa u @ ''@x'', user_accounts_hashed_password = ''hash'',
     user_accounts_updated_at = 0\<rparr>"

definition text_row :: "int \<Rightarrow> int \<Rightarrow> int \<Rightarrow> string \<Rightarrow> message_row" where
  "text_row i r u content = \<lparr>messages_id = i, messages_room_id = r, messages_user_id = u,
     messages_author_role = AuthorRoleStudent, messages_content = content, messages_stamp_id = None,
     messages_reply_to_message_id = None, messages_created_at = 0, messages_updated_at = 0,
     messages_deleted_at = None, messages_deleted_by = None, messages_thread_room_id = None\<rparr>"

definition sample_tables :: tables where
  "sample_tables = no_tables\<lparr>
     tb_rooms := [plain_room 1 RoomTypeCommunity, plain_room 2 RoomTypeDM],
     tb_room_users := [member_row 1 7 RoomUserRoleOwner, member_row 1 8 RoomUserRoleMember,
                       member_row 2 7 RoomUserRoleMember, member_row 2 8 RoomUserRoleMember],
     tb_messages := [text_row 20 1 7 ''hi'', text_row 21 2 8 ''yo''],
     tb_users := map plain_user [7, 8, 9], tb_user_accounts := map plain_account [7, 8, 9],
     tb_next_id := 30\<rparr>"

definition sample_world :: "bool list \<Rightarrow> app" where
  "sample_world faults =
     \<lparr>db_now = 100, db_committed = sample_tables, db_tx = None, db_faults = faults, db_out = []\<rparr>"

definition plain_cipher :: cipher where
  "plain_cipher = \<lparr>ci_Encrypt = Ok, ci_Decrypt = Ok\<rparr>"

definition sample_deps :: chat_deps where
  "sample_deps = service_deps plain_cipher (\<lambda>_. None) (\<lambda>kind key. Ok key)"

definition signed_in :: "int \<Rightarrow> string \<Rightarrow> request_ctx" where
  "signed_in u role =
     \<lparr>ctx_claims = Some \<lparr>cl_ID = u, cl_Role = role, cl_TokenType = [], cl_CredentialsVersion = None, cl_ExpiresAt = 0\<rparr>,
      ctx_token = None\<rparr>"

definition sample_send :: "int \<Rightarrow> string \<Rightarrow> send_input" where
  "sample_send r content =
     \<lparr>si_RoomID = r, si_Content = content, si_MediaInputs = [], si_MentionUserIDs = [], si_ReplyToID = None,
      si_StampID = None\<rparr>"

lemmas sample_defs = sample_world_def sample_tables_def sample_deps_def plain_cipher_def signed_in_def
  sample_send_def no_tables_def

section \<open>The properties\<close>



text \<open>C21: Who sends. A message is stored only for a signed-in caller who may write into the room: it
  is one new row, in that room, with the caller as its author, the given text trimmed and encrypted, and
  at most 2000 characters long.\<close>

theorem send_message_authorised:
  assumes "db_tx w = None" "SendMessage (service_deps C blocked store) ctx inp w = (Ok m, w')"
  shows "\<exists>claims room row.
      ClaimsFromContext ctx = Some claims \<and>
      find_room (db_committed w) (si_RoomID inp) = Some room \<and> may_write (db_committed w) claims room \<and>
      tb_messages (db_committed w') = tb_messages (db_committed w) @ [row] \<and>
      messages_room_id row = si_RoomID inp \<and> messages_user_id row = cl_ID claims \<and>
      encryptContent C (TrimUnicode (si_Content inp)) = Ok (messages_content row) \<and>
      RuneCount (TrimUnicode (si_Content inp)) \<le> MaxContentChars"
  using assms(2,1) by (rule service.SendMessage_Inr) auto

theorem send_message_authorised_witness:
  "let r = SendMessage sample_deps (signed_in 7 ''user'') (sample_send 1 '' hello '') (sample_world []) in
   map messages_content (tb_messages (db_committed (snd r))) = [''hi'', ''yo'', ''hello''] \<and>
   (\<exists>claims. ClaimsFromContext (signed_in 7 ''user'') = Some claims \<and>
      (\<exists>room. may_write sample_tables claims room))"
proof -
  let ?run = "SendMessage sample_deps (signed_in 7 ''user'') (sample_send 1 '' hello '') (sample_world [])"
  have run: "\<not> isl (fst ?run)"
    "map messages_content (tb_messages (db_committed (snd ?run))) = [''hi'', ''yo'', ''hello'']"
    by code_simp+
  from run(1) obtain m w' where "?run = (Ok m, w')" by (cases ?run; cases "fst ?run") auto
  with send_message_authorised[of "sample_world []"] run(2) show ?thesis
    by (fastforce simp: sample_deps_def sample_world_def)
qed

text \<open>C22: Who edits and deletes. An edit is accepted only from the author of the message or an
  administrator, outside course rooms, for a message that is no stamp and no announcement, and changes
  the text of that message alone; a delete is accepted from the author, an administrator or the owner of
  the community, and marks that message alone as deleted by the caller.\<close>

theorem message_changes_authorised:
  assumes "db_tx w = None"
  shows "(UpdateMessage (service_deps C blocked store) ctx inp w = (Ok m, w') \<longrightarrow>
      (\<exists>claims row content.
        ClaimsFromContext ctx = Some claims \<and> live_message (db_committed w) (ui_MessageID inp) = Some row \<and>
        can_edit (db_committed w) claims row \<and>
        tb_messages (db_committed w') =
          map (\<lambda>r. if messages_id r = ui_MessageID inp \<and> messages_deleted_at r = None
                   then r\<lparr>messages_content := content, messages_updated_at := db_now w\<rparr> else r)
            (tb_messages (db_committed w)))) \<and>
    (DeleteMessage (service_deps C blocked store) ctx roomID messageID w = (Ok b, w') \<longrightarrow>
      (\<exists>claims row.
        ClaimsFromContext ctx = Some claims \<and> live_message (db_committed w) messageID = Some row \<and>
        can_delete (db_committed w) claims row \<and>
        tb_messages (db_committed w') =
          map (\<lambda>r. if messages_id r = messageID \<and> messages_deleted_at r = None
                   then r\<lparr>messages_deleted_at := Some (db_now w), messages_deleted_by := Some (cl_ID claims)\<rparr>
                   else r)
            (tb_messages (db_committed w))))"
proof (intro conjI impI)
  assume "UpdateMessage (service_deps C blocked store) ctx inp w = (Ok m, w')"
  then show "\<exists>claims row content.
        ClaimsFromContext ctx = Some claims \<and> live_message (db_committed w) (ui_MessageID inp) = Some row \<and>
        can_edit (db_committed w) claims row \<and>
        tb_messages (db_committed w') =
          map (\<lambda>r. if messages_id r = ui_MessageID inp \<and> messages_deleted_at r = None
                   then r\<lparr>messages_content := content, messages_updated_at := db_now w\<rparr> else r)
            (tb_messages (db_committed w))"
    using assms by (rule service.UpdateMessage_Inr) blast
next
  assume "DeleteMessage (service_deps C blocked store) ctx roomID messageID w = (Ok b, w')"
  then show "\<exists>claims row.
        ClaimsFromContext ctx = Some claims \<and> live_message (db_committed w) messageID = Some row \<and>
        can_delete (db_committed w) claims row \<and>
        tb_messages (db_committed w') =
          map (\<lambda>r. if messages_id r = messageID \<and> messages_deleted_at r = None
                   then r\<lparr>messages_deleted_at := Some (db_now w), messages_deleted_by := Some (cl_ID claims)\<rparr>
                   else r)
            (tb_messages (db_committed w))"
    using assms by (rule service.DeleteMessage_Inr) blast
qed

text \<open>The owner of the community, user 7, deletes a message of user 8 that user 9 could not.\<close>

theorem message_changes_authorised_witness:
  "let w = (sample_world [])\<lparr>db_committed := sample_tables\<lparr>tb_messages := [text_row 20 1 8 ''hi'']\<rparr>\<rparr>;
       r = DeleteMessage sample_deps (signed_in 7 ''user'') 1 20 w in
   fst r = Ok True \<and> map messages_deleted_by (tb_messages (db_committed (snd r))) = [Some 7] \<and>
   (\<exists>claims row. ClaimsFromContext (signed_in 7 ''user'') = Some claims \<and> can_delete (db_committed w) claims row) \<and>
   isl (fst (DeleteMessage sample_deps (signed_in 9 ''user'') 1 20 w))"
proof -
  let ?w = "(sample_world [])\<lparr>db_committed := sample_tables\<lparr>tb_messages := [text_row 20 1 8 ''hi'']\<rparr>\<rparr>"
  let ?run = "DeleteMessage sample_deps (signed_in 7 ''user'') 1 20 ?w"
  have run: "fst ?run = Ok True" "map messages_deleted_by (tb_messages (db_committed (snd ?run))) = [Some 7]"
    "isl (fst (DeleteMessage sample_deps (signed_in 9 ''user'') 1 20 ?w))"
    by code_simp+
  from run(1) obtain w' where del: "?run = (Ok True, w')" by (cases ?run) auto
  have tx: "db_tx ?w = None" by (simp add: sample_world_def)
  from conjunct2[OF message_changes_authorised[OF tx], THEN mp, OF del[unfolded sample_deps_def]]
  have "\<exists>claims row. ClaimsFromContext (signed_in 7 ''user'') = Some claims \<and> can_delete (db_committed ?w) claims row"
    by blast
  with run show ?thesis by (simp add: Let_def)
qed

text \<open>C24: The access rules are exact. With a database that answers, the policy admits a caller to
  reading, to writing and to changing what is in a room exactly when the rules \<open>may_read\<close>, \<open>may_write\<close> and
  \<open>may_mutate\<close> do, and leaves the database alone.\<close>

theorem access_policy_exact:
  assumes "quiet w ctx claims"
  shows "(\<exists>room. EnsureReadAccess ctx roomID w = (Ok room, w)) =
      (\<exists>room. find_room (db_committed w) roomID = Some room \<and> may_read (db_committed w) claims room) \<and>
    (\<exists>room. EnsureWriteAccess ctx roomID w = (Ok room, w)) =
      (\<exists>room. find_room (db_committed w) roomID = Some room \<and> may_write (db_committed w) claims room) \<and>
    (ensureMutateAccess ctx claims room w = (Ok (), w)) = may_mutate (db_committed w) claims room"
  using EnsureReadAccess_decides[OF assms, of roomID] ensureWriteAccessFor_decides[OF assms, of roomID]
    ensureMutateAccess_decides[OF assms, of room] RequireAuth_ok[OF assms]
  by (auto simp: decides_def EnsureWriteAccess_def split: if_splits)

theorem access_policy_exact_witness:
  "(\<exists>room. EnsureReadAccess (signed_in 8 ''user'') 2 (sample_world []) = (Ok room, sample_world [])) =
     (\<exists>room. find_room sample_tables 2 = Some room \<and>
        may_read sample_tables \<lparr>cl_ID = 8, cl_Role = ''user'', cl_TokenType = [], cl_CredentialsVersion = None,
          cl_ExpiresAt = 0\<rparr> room)"
  using access_policy_exact[of "sample_world []" "signed_in 8 ''user''" _ 2]
  by (simp add: quiet_def sample_world_def signed_in_def ClaimsFromContext_def)

lemma dm_rules:
  assumes "rm_Type room = RoomTypeDM" "\<not> in_room t (PolicyRoomID room) (cl_ID claims)"
  shows "\<not> may_read t claims room" "\<not> may_write t claims room" "\<not> may_mutate t claims room"
  using assms by (auto simp: may_read_def may_write_def may_mutate_def takes_part_def)

lemma isl_fstI: "(\<And>x w'. m w = (Ok x, w') \<Longrightarrow> False) \<Longrightarrow> isl (fst (m w))"
  by (cases "m w"; cases "fst (m w)") auto

text \<open>C25: A DM is private. Nobody who is not a member of a DM reads it, writes into it or changes what
  is in it, administrators included, and no statement that fails opens it.\<close>

theorem dm_closed_to_outsiders:
  assumes "db_tx w = None" "ClaimsFromContext ctx = Some claims"
    and "find_room (db_committed w) roomID = Some room" "rm_Type room = RoomTypeDM"
    and "\<not> in_room (db_committed w) (PolicyRoomID room) (cl_ID claims)"
  shows "isl (fst (EnsureReadAccess ctx roomID w)) \<and> isl (fst (EnsureWriteAccess ctx roomID w)) \<and>
    isl (fst (ensureMutateAccess ctx claims room w))"
proof (intro conjI isl_fstI)
  note no = dm_rules[OF assms(4,5)]
  show False if "EnsureReadAccess ctx roomID w = (Ok r, w')" for r w'
    using EnsureReadAccess_Inr[OF that assms(1,2)] no assms(3) by simp
  show False if "ensureMutateAccess ctx claims room w = (Ok u, w')" for u w'
    using ensureMutateAccess_Inr[OF that assms(1,2)] no by simp
  show False if run: "EnsureWriteAccess ctx roomID w = (Ok r, w')" for r w'
  proof -
    from run obtain a v where "ensureWriteAccessFor ctx claims roomID w = (Ok a, v)"
      using assms(2) by (auto simp: EnsureWriteAccess_def bindP_liftR_Inr RequireAuth_Inr_iff bindP_Inr_iff)
    with ensureWriteAccessFor_Inr[OF this assms(1,2)] no assms(3) show False by simp
  qed
qed

theorem dm_closed_to_outsiders_witness:
  "isl (fst (EnsureReadAccess (signed_in 9 ''admin'') 2 (sample_world [])))"
proof -
  let ?room = "\<lparr>rm_ParentRoomID = None, rm_ThreadCreatorID = None, rm_ThreadClosedAt = None, rm_ID = 2,
            rm_Name = [], rm_Type = RoomTypeDM, rm_CreatedAt = 0, rm_UpdatedAt = 0\<rparr>"
  have room: "find_room (db_committed (sample_world [])) 2 = Some ?room" by code_simp
  have "\<not> in_room sample_tables 2 9" by code_simp
  then show ?thesis
    using dm_closed_to_outsiders[OF _ _ room, of "signed_in 9 ''admin''"]
    by (simp add: sample_world_def signed_in_def ClaimsFromContext_def PolicyRoomID_def)
qed

end
