(* ===== verification/Chat_Content.thy ===== *)
theory Chat_Content
  imports Chat_Props
begin

text \<open>
  No message is empty: a stamp, a text that is more than white space, or an attachment. The send path
  checks it in the model (\<open>NewMessage\<close>), the edit path in the use case (\<open>ensureMessageNotEmptied\<close>, which
  has to look at the attachments); here it is an invariant of any sequence of requests.
\<close>

section \<open>The invariant\<close>

definition faithful :: "cipher \<Rightarrow> bool" where
  "faithful C \<longleftrightarrow> (\<forall>txt enc. ci_Encrypt C txt = Ok enc \<longrightarrow> ci_Decrypt C enc = Ok txt)"

definition has_text :: "cipher \<Rightarrow> string \<Rightarrow> bool" where
  "has_text C content = (case ci_Decrypt C content of Inl _ \<Rightarrow> False | Inr txt \<Rightarrow> TrimUnicode txt \<noteq> [])"

definition attached :: "tables \<Rightarrow> int \<Rightarrow> bool" where
  "attached t messageID \<longleftrightarrow> messageID \<in> message_media_message_id ` set (tb_message_media t)"

definition says_something :: "cipher \<Rightarrow> tables \<Rightarrow> message_row \<Rightarrow> bool" where
  "says_something C t r \<longleftrightarrow>
     messages_stamp_id r \<noteq> None \<or> has_text C (messages_content r) \<or> attached t (messages_id r)"

definition no_empty :: "cipher \<Rightarrow> tables \<Rightarrow> bool" where
  "no_empty C t \<longleftrightarrow> list_all (says_something C t) (tb_messages t)"

lemma encrypted_text:
  assumes "faithful C" "encryptContent C txt = Ok enc" "TrimUnicode txt \<noteq> []"
  shows "has_text C enc"
proof -
  have "ci_Encrypt C txt = Ok enc" using assms(2) by (auto simp: encryptContent_def split: sum.splits)
  with assms(1,3) show ?thesis by (simp add: faithful_def has_text_def)
qed

lemma says_something_mono:
  "says_something C t r \<Longrightarrow> set (tb_message_media t) \<subseteq> set (tb_message_media t') \<Longrightarrow> says_something C t' r"
  by (auto simp: says_something_def attached_def)

section \<open>Each request keeps it\<close>

lemma no_empty_reactions:
  assumes "tb_messages t' = tb_messages t" "tb_message_media t' = tb_message_media t" "no_empty C t"
  shows "no_empty C t'"
  using assms by (auto simp: no_empty_def says_something_def attached_def list_all_iff)

lemma reaction_keeps [inv_intros]:
  "keeps (no_empty C) (AddMessageReaction i u e)" "keeps (no_empty C) (RemoveMessageReaction i u e)"
  unfolding AddMessageReaction_def RemoveMessageReaction_def
  by (rule keeps_exec, erule no_empty_reactions[rotated 2], simp_all add: Let_def)+

lemma send_keeps:
  assumes C: "faithful C" and tx: "db_tx w = None" and inv: "no_empty C (db_committed w)"
    and run: "SendMessage (service_deps C blocked store) ctx inp w = (Ok m, w')"
  shows "no_empty C (db_committed w')"
  using run tx
proof (rule service.SendMessage_Inr)
  fix row
  assume "tb_messages (db_committed w') = tb_messages (db_committed w) @ [row]"
    and media: "set (tb_message_media (db_committed w)) \<subseteq> set (tb_message_media (db_committed w'))"
    and "encryptContent (cd_Cipher (service_deps C blocked store)) (TrimUnicode (si_Content inp)) = Ok (messages_content row)"
      "messages_stamp_id row = si_StampID inp"
      "si_StampID inp \<noteq> None \<or> TrimUnicode (si_Content inp) \<noteq> [] \<or>
       messages_id row \<in> message_media_message_id ` set (tb_message_media (db_committed w'))"
  moreover from this have "says_something C (db_committed w') row"
    using encrypted_text[OF C, of "TrimUnicode (si_Content inp)"]
    by (auto simp: says_something_def attached_def)
  ultimately show ?thesis
    using inv says_something_mono[OF _ media] by (auto simp: no_empty_def list_all_iff)
qed

lemma update_keeps:
  assumes C: "faithful C" and tx: "db_tx w = None" and inv: "no_empty C (db_committed w)"
    and run: "UpdateMessage (service_deps C blocked store) ctx inp w = (Ok m, w')"
  shows "no_empty C (db_committed w')"
  using run tx
proof (rule service.UpdateMessage_Inr)
  fix enc
  assume full: "TrimUnicode (ui_Content inp) \<noteq> [] \<or>
       ui_MessageID inp \<in> message_media_message_id ` set (tb_message_media (db_committed w))"
    and enc: "encryptContent (cd_Cipher (service_deps C blocked store)) (ui_Content inp) = Ok enc"
    and rows: "tb_messages (db_committed w') =
       map (\<lambda>r. if messages_id r = ui_MessageID inp \<and> messages_deleted_at r = None
                then r\<lparr>messages_content := enc, messages_updated_at := db_now w\<rparr> else r)
         (tb_messages (db_committed w))"
      "tb_message_media (db_committed w') = tb_message_media (db_committed w)"
  have "has_text C enc \<or> attached (db_committed w) (ui_MessageID inp)"
    using full encrypted_text[OF C] enc by (auto simp: attached_def)
  with rows inv show ?thesis
    by (auto simp: no_empty_def list_all_iff says_something_def attached_def)
qed

lemma delete_keeps:
  assumes tx: "db_tx w = None" and inv: "no_empty C (db_committed w)"
    and run: "DeleteMessage (service_deps C blocked store) ctx roomID messageID w = (Ok b, w')"
  shows "no_empty C (db_committed w')"
  using run tx
  by (rule service.DeleteMessage_Inr)
     (use inv in \<open>auto simp: no_empty_def list_all_iff says_something_def attached_def\<close>)

lemma changeReaction_keeps:
  assumes "\<And>i u e. keeps I (change i u e)"
  shows "keeps I (changeReaction (service_deps C blocked store) ctx roomID messageID emoji b change)"
  unfolding changeReaction_def service_deps_simps option.case
  by (intro inv_intros assms keeps_reads reads_intros)

lemma run_chat_keeps:
  assumes "faithful C" and tx: "db_tx w = None" and inv: "no_empty C (db_committed w)"
    and run: "run_chat (service_deps C blocked store) ctx op w = (r, w')"
  shows "no_empty C (db_committed w') \<and> db_tx w' = None"
proof -
  note at = atomicPD[OF service.run_chat_atomic run tx]
  have "no_empty C (db_committed w')"
  proof (cases r)
    case Inl with at(2) inv show ?thesis by simp
  next
    case (Inr u)
    note run' = run[unfolded Inr run_chat_def]
    show ?thesis
    proof (cases op)
      case (React i j e)
      have "keeps (no_empty C) (run_chat (service_deps C blocked store) ctx op)"
        unfolding run_chat_def React chat_op.case AddReaction_def
        by (intro inv_intros changeReaction_keeps)
      from keepsD[OF this run] inv tx at(1) show ?thesis by (simp add: db_inv_def)
    next
      case (Unreact i j e)
      have "keeps (no_empty C) (run_chat (service_deps C blocked store) ctx op)"
        unfolding run_chat_def Unreact chat_op.case RemoveReaction_def
        by (intro inv_intros changeReaction_keeps)
      from keepsD[OF this run] inv tx at(1) show ?thesis by (simp add: db_inv_def)
    qed (use run' assms(1) tx inv in \<open>auto simp: bindP_Inr_iff intro: send_keeps update_keeps delete_keeps\<close>)
  qed
  with at(1) show ?thesis by blast
qed

section \<open>The property\<close>



end
