(* ===== verification/Chat_Threads.thy ===== *)
theory Chat_Threads
  imports Chat_Props
begin

text \<open>
  Threads of community and course rooms: the queries of infra/mysql/chat_thread_repository.go and
  \<open>ThreadService\<close> of usecase/chat/threads.go. A thread is a room below its parent, announced in the parent
  by a message that links to it. The event publisher and the message reader are configured, as
  cmd/server wires them.
\<close>

section \<open>Queries\<close>

record chat_thread =
  ct_Room :: room
  ct_MessageCount :: int
  ct_UnreadCount :: int
  ct_LastMessageAt :: "int option"

definition thread_messages :: "tables \<Rightarrow> int \<Rightarrow> message_row list" where
  "thread_messages t roomID =
     filter (\<lambda>m. messages_room_id m = roomID \<and> messages_deleted_at m = None) (tb_messages t)"

definition last_message_at :: "tables \<Rightarrow> int \<Rightarrow> int option" where
  "last_message_at t roomID =
     (let ts = map messages_created_at (thread_messages t roomID) in
      if ts = [] then None else Some (Max (set ts)))"

text \<open>What a viewer has not read of a thread: its position is kept with those of the course rooms.\<close>

definition thread_unread :: "tables \<Rightarrow> int \<Rightarrow> int \<Rightarrow> message_row list" where
  "thread_unread t roomID viewerID =
     unread_rows t roomID viewerID (NewUnreadOrigin (course_room_position t roomID viewerID) None)"

definition thread_of_row :: "tables \<Rightarrow> int \<Rightarrow> room_row \<Rightarrow> chat_thread" where
  "thread_of_row t viewerID r =
     \<lparr>ct_Room = room_of_row t r,
      ct_MessageCount = int (length (thread_messages t (rooms_id r))),
      ct_UnreadCount = int (length (thread_unread t (rooms_id r) viewerID)),
      ct_LastMessageAt = last_message_at t (rooms_id r)\<rparr>"

text \<open>\<open>FROM chat_threads t JOIN rooms r ON r.id = t.room_id\<close>.\<close>

definition thread_rows :: "tables \<Rightarrow> room_row list" where
  "thread_rows t = filter (\<lambda>r. rooms_id r \<in> chat_threads_room_id ` set (tb_chat_threads t)) (tb_rooms t)"

definition GetThread :: "int \<Rightarrow> int \<Rightarrow> ('o db, chat_thread option) proc" where
  "GetThread roomID viewerID = dbQuery (\<lambda>t.
     map_option (thread_of_row t viewerID) (List.find (\<lambda>r. rooms_id r = roomID) (thread_rows t)))"

text \<open>\<open>ORDER BY COALESCE(last message, created_at) DESC, id DESC LIMIT ? OFFSET ?\<close>.\<close>

definition thread_order :: "tables \<Rightarrow> room_row \<Rightarrow> int \<times> int" where
  "thread_order t r =
     (- (case last_message_at t (rooms_id r) of None \<Rightarrow> rooms_created_at r | Some at \<Rightarrow> at), - rooms_id r)"

definition ListThreads :: "int \<Rightarrow> int \<Rightarrow> int \<Rightarrow> int \<Rightarrow> ('o db, chat_thread list) proc" where
  "ListThreads parentID viewerID limit offset = dbQuery (\<lambda>t.
     map (thread_of_row t viewerID)
       (take (nat limit) (drop (nat offset)
          (sort_key (thread_order t) (filter (\<lambda>r. rooms_parent_room_id r = Some parentID) (thread_rows t))))))"

definition HasUnreadThreads :: "int \<Rightarrow> int \<Rightarrow> ('o db, bool) proc" where
  "HasUnreadThreads parentID viewerID = dbQuery (\<lambda>t.
     list_ex (\<lambda>r. rooms_parent_room_id r = Some parentID \<and> thread_unread t (rooms_id r) viewerID \<noteq> [])
       (thread_rows t))"

section \<open>The service\<close>

definition threadTitle :: "string \<Rightarrow> string result" where
  "threadTitle title =
     (let title = TrimUnicode title in
      if title = [] \<or> 100 < RuneCount title then Err (InvalidInput ''a title has 1 to 100 characters'')
      else Ok title)"

definition screenTitle :: "chat_deps \<Rightarrow> request_ctx \<Rightarrow> claims \<Rightarrow> room \<Rightarrow> string \<Rightarrow> (app, unit) proc" where
  "screenTitle D ctx claims room title =
     (if rm_Type room \<noteq> RoomTypeCourse then ret () else ScreenFor D ctx claims (PolicyRoomID room) title)"

definition has_threads :: "room \<Rightarrow> bool" where
  "has_threads room \<longleftrightarrow>
     rm_ParentRoomID room = None \<and> (rm_Type room = RoomTypeCommunity \<or> rm_Type room = RoomTypeCourse)"

text \<open>The text of the announcement.\<close>

definition thread_created_text :: string where
  "thread_created_text = utf8 [227, 130, 185, 227, 131, 172, 227, 131, 131, 227, 131, 137, 227, 130, 146,
     228, 189, 156, 230, 136, 144, 227, 129, 151, 227, 129, 190, 227, 129, 151, 227, 129, 159]"

definition insertThread :: "chat_deps \<Rightarrow> int \<Rightarrow> int \<Rightarrow> int \<Rightarrow> room \<Rightarrow> (app, room \<times> message) proc" where
  "insertThread D now userID parentID newRoom =
     bindP (SaveRoom newRoom) (\<lambda>room.
     bindP (CreateThread (rm_ID room) userID) (\<lambda>_.
     bindP (liftR (NewMessage now
              \<lparr>cp_RoomID = parentID, cp_UserID = userID, cp_ReplyToID = None, cp_Content = thread_created_text,
               cp_StampID = None, cp_MediaKeys = [], cp_AuthorRole = [], cp_CreatedAt = Some now,
               cp_UpdatedAt = Some now\<rparr>)) (\<lambda>m.
     bindP (SaveMessage (cd_Cipher D) (m\<lparr>ms_ThreadRoomID := Some (rm_ID room)\<rparr>)) (\<lambda>announcement.
     ret (room, announcement)))))"

definition threadCreate :: "chat_deps \<Rightarrow> request_ctx \<Rightarrow> int \<Rightarrow> string \<Rightarrow> (app, room) proc" where
  "threadCreate D ctx parentID title0 =
     bindP (liftR (threadTitle title0)) (\<lambda>title.
     bindP (liftR (RequireAuth ctx)) (\<lambda>claims.
     bindP (ensureWriteAccessFor ctx claims parentID) (\<lambda>access.
     let parent = wa_Room access in
     bindP (guardP (has_threads parent) (InvalidInput ''this room cannot have threads'')) (\<lambda>_.
     bindP (screenTitle D ctx claims parent title) (\<lambda>_.
     bindP nowP (\<lambda>now.
     bindP (runInTx (insertThread D now (cl_ID claims) parentID
              \<lparr>rm_ParentRoomID = Some parentID, rm_ThreadCreatorID = Some (cl_ID claims),
               rm_ThreadClosedAt = None, rm_ID = 0, rm_Name = title, rm_Type = rm_Type parent,
               rm_CreatedAt = now, rm_UpdatedAt = now\<rparr>)) (\<lambda>(room, announcement).
     bindP (publish (MessageSent parent announcement (cl_ID claims) (wa_MemberIDs access) False)) (\<lambda>_.
     ret room))))))))"

definition threadGet :: "request_ctx \<Rightarrow> int \<Rightarrow> (app, chat_thread option) proc" where
  "threadGet ctx threadID =
     bindP (liftR (RequireAuth ctx)) (\<lambda>claims.
     bindP (EnsureReadAccess ctx threadID) (\<lambda>room.
     bindP (guardP (rm_ParentRoomID room \<noteq> None) (InvalidInput ''no such thread'')) (\<lambda>_.
     GetThread threadID (cl_ID claims))))"

definition threadList :: "request_ctx \<Rightarrow> int \<Rightarrow> int \<Rightarrow> int \<Rightarrow> (app, chat_thread list) proc" where
  "threadList ctx parentID limit offset =
     bindP (liftR (RequireAuth ctx)) (\<lambda>claims.
     bindP (EnsureReadAccess ctx parentID) (\<lambda>room.
     bindP (guardP (has_threads room) (InvalidInput ''this room has no threads'')) (\<lambda>_.
     let limit = (if limit < 1 then 20 else if 50 < limit then 50 else limit) in
     bindP (guardP (0 \<le> offset) (InvalidInput ''offset must be nonnegative'')) (\<lambda>_.
     ListThreads parentID (cl_ID claims) limit offset))))"

definition threadHasUnread :: "request_ctx \<Rightarrow> int \<Rightarrow> (app, bool) proc" where
  "threadHasUnread ctx parentID =
     bindP (liftR (RequireAuth ctx)) (\<lambda>claims.
     bindP (EnsureReadAccess ctx parentID) (\<lambda>room.
     bindP (guardP (has_threads room) (InvalidInput ''this room has no threads'')) (\<lambda>_.
     HasUnreadThreads parentID (cl_ID claims))))"

definition threadCanManage :: "request_ctx \<Rightarrow> room \<Rightarrow> (app, bool) proc" where
  "threadCanManage ctx room =
     bindP (liftR (RequireAuth ctx)) (\<lambda>claims.
     if IsAdminRole (cl_Role claims) \<or> rm_ThreadCreatorID room = Some (cl_ID claims) then ret True
     else if rm_Type room = RoomTypeCommunity
     then bindP (GetCallerRoomRole ctx (PolicyRoomID room)) (\<lambda>role. ret (role = RoomUserRoleOwner))
     else ret False)"

text \<open>The new title, checked and screened; without one the old title stays.\<close>

definition newTitle :: "chat_deps \<Rightarrow> request_ctx \<Rightarrow> room \<Rightarrow> string option \<Rightarrow> (app, string) proc" where
  "newTitle D ctx room title =
     (case title of
        None \<Rightarrow> ret (rm_Name room)
      | Some title =>
          bindP (liftR (threadTitle title)) (\<lambda>name.
          bindP (liftR (RequireAuth ctx)) (\<lambda>claims.
          bindP (screenTitle D ctx claims room name) (\<lambda>_. ret name))))"

text \<open>The announcement in the parent room, to refresh it where it is shown.\<close>

definition threadCard :: "chat_deps \<Rightarrow> int \<Rightarrow> room \<Rightarrow> (app, (message \<times> room) option) proc" where
  "threadCard D threadID room =
     bindP (AnnouncementID threadID) (\<lambda>announcementID.
     if announcementID = 0 then ret None
     else bindP (GetMessageByID (cd_Cipher D) announcementID) (\<lambda>msg.
          bindP (GetRoomByID (PolicyRoomID room)) (\<lambda>parent.
          ret (case (msg, parent) of (Some m, Some p) \<Rightarrow> Some (m, p) | _ \<Rightarrow> None))))"

definition threadUpdate ::
  "chat_deps \<Rightarrow> request_ctx \<Rightarrow> int \<Rightarrow> string option \<Rightarrow> bool option \<Rightarrow> (app, chat_thread option) proc" where
  "threadUpdate D ctx threadID title closed =
     bindP (threadGet ctx threadID) (\<lambda>thread. case thread of
       None \<Rightarrow> throw (InvalidInput ''no such thread'')
     | Some thread \<Rightarrow>
         let room = ct_Room thread in
         bindP (EnsureWriteAccess ctx (PolicyRoomID room)) (\<lambda>_.
         bindP (threadCanManage ctx room) (\<lambda>ok.
         bindP (guardP ok (Forbidden ''not allowed to change the thread'')) (\<lambda>_.
         bindP (newTitle D ctx room title) (\<lambda>name.
         let isClosed = (case closed of None \<Rightarrow> rm_ThreadClosedAt room \<noteq> None | Some c \<Rightarrow> c) in
         bindP (threadCard D threadID room) (\<lambda>card.
         bindP (runInTx (UpdateThread threadID name isClosed)) (\<lambda>_.
         bindP (case card of None \<Rightarrow> ret () | Some (m, parent) \<Rightarrow> publish (MessageUpdated parent m (ms_UserID m) []))
           (\<lambda>_. threadGet ctx threadID))))))))"

definition threadDelete :: "request_ctx \<Rightarrow> int \<Rightarrow> (app, room) proc" where
  "threadDelete ctx threadID =
     bindP (liftR (RequireAdmin ctx)) (\<lambda>claims.
     bindP (GetRoomByID threadID) (\<lambda>room. case room of
       None \<Rightarrow> throw (NotFound ''no such thread'')
     | Some room \<Rightarrow>
         (case rm_ParentRoomID room of
            None \<Rightarrow> throw (NotFound ''no such thread'')
          | Some parentID \<Rightarrow>
              bindP (AnnouncementID threadID) (\<lambda>announcementID.
              bindP (runInTx (
                bindP (if announcementID = 0 then ret ()
                       else bindP (SoftDeleteMessage announcementID (cl_ID claims)) (\<lambda>_. ret ())) (\<lambda>_.
                bindP (DeleteRoom threadID) (\<lambda>_. ret ())))) (\<lambda>_.
              bindP (if announcementID = 0 then ret () else publish (MessageDeleted parentID announcementID)) (\<lambda>_.
              ret room))))))"

section \<open>Creating a thread\<close>

lemma thread_reads [reads_intros]:
  "reads (GetThread r u)" "reads (threadGet ctx r)" "reads (threadCanManage ctx room)"
  "reads (threadCard D r room)" "reads (ListThreads r u l off)" "reads (HasUnreadThreads r u)"
  "reads (threadList ctx r l off)" "reads (threadHasUnread ctx r)"
  unfolding GetThread_def threadGet_def threadCanManage_def threadCard_def ListThreads_def HasUnreadThreads_def
    threadList_def threadHasUnread_def Let_def
  by (intro reads_intros)+

lemma insertThread_contained [contained_intros]: "Db.contained (insertThread D now u p room)"
  unfolding insertThread_def SaveRoom_def CreateThread_def by (intro contained_intros)

lemma announcement_text: "TrimUnicode thread_created_text = thread_created_text" "thread_created_text \<noteq> []"
  by code_simp+

context chat_service
begin

lemma screenTitle_reads [reads_intros]: "reads (screenTitle D ctx claims room title)"
  unfolding screenTitle_def ScreenFor_def by (intro reads_intros screen_reads)

text \<open>Creating a thread is all or nothing: the room, its thread row and the announcement.\<close>

lemma threadCreate_atomic: "atomicP events (threadCreate D ctx parentID title)"
  unfolding threadCreate_def Let_def
  by (intro atomicP_bindP atomicP_then[OF atomicP_runInTx] insertThread_contained infallible_prod
      infallible_bindP infallible_publish infallible_ret reads_intros)

end

section \<open>Deleting a thread is not one transaction\<close>

text \<open>\<open>threadDelete\<close> runs the deletion of the announcement and of the room in \<open>RunInTx\<close>, and its comment
  says that they share the transaction; but \<open>SoftDeleteMessage\<close> uses the pool, not the transaction of the
  context. When the room cannot be deleted, the announcement is gone all the same. Here the statement
  that deletes the thread 3 of room 1 fails.\<close>

definition threaded_tables :: tables where
  "threaded_tables = sample_tables\<lparr>
     tb_rooms := tb_rooms sample_tables @ [(plain_room 3 RoomTypeCommunity)\<lparr>rooms_parent_room_id := Some 1\<rparr>],
     tb_chat_threads := [\<lparr>chat_threads_room_id = 3, chat_threads_created_by = Some 7, chat_threads_closed_at = None\<rparr>],
     tb_messages := [(text_row 22 1 7 ''new thread'')\<lparr>messages_thread_room_id := Some 3\<rparr>]\<rparr>"

lemma thread_delete_is_not_atomic:
  "let w = (sample_world [False, False, False, False, True])\<lparr>db_committed := threaded_tables\<rparr>;
       (r, w') = threadDelete (signed_in 9 ''admin'') 3 w in
   r = Err driver_error \<and> map messages_deleted_by (tb_messages (db_committed w')) = [Some 9] \<and>
   find_room (db_committed w') 3 \<noteq> None \<and> db_out w' = []"
  by code_simp

end
