(* ===== verification/Chat_Read.thy ===== *)
theory Chat_Read
  imports Chat_Threads
begin

text \<open>
  Read positions: usecase/room (mark_room_as_read.go, course_room_read.go, get_room_read_status.go) and the
  read receipts of usecase/chat/read.go. A position is kept in room_users for communities and DMs, and in
  course_room_reads for course rooms and threads; it only moves forward.
\<close>

section \<open>Marking as read (usecase/room)\<close>

definition resolveReadMessageID :: "int \<Rightarrow> int option \<Rightarrow> ('o db, int option) proc" where
  "resolveReadMessageID roomID requested =
     (case requested of
        None \<Rightarrow> GetLatestMessageID roomID
      | Some messageID \<Rightarrow>
          bindP (MessageExistsInRoom roomID messageID) (\<lambda>exists.
          if exists then ret requested
          else throw (InvalidInput ''lastReadMessageID does not belong to this room'')))"

definition MarkRoomAsRead :: "int \<Rightarrow> int \<Rightarrow> int option \<Rightarrow> ('o db, unit) proc" where
  "MarkRoomAsRead roomID userID lastReadMessageID =
     bindP (resolveReadMessageID roomID lastReadMessageID) (\<lambda>resolved.
     bindP nowP (\<lambda>now. UpdateLastRead roomID userID resolved now))"

definition MarkCourseRoomAsRead :: "int \<Rightarrow> int \<Rightarrow> int option \<Rightarrow> ('o db, unit) proc" where
  "MarkCourseRoomAsRead roomID userID lastReadMessageID =
     bindP (resolveReadMessageID roomID lastReadMessageID) (\<lambda>resolved.
     bindP nowP (\<lambda>now. UpsertLastRead roomID userID resolved now))"

record read_status =
  rs_LastReadAt :: "int option"
  rs_LastReadMessageID :: "int option"
  rs_UnreadCount :: int
  rs_PartnerLastReadAt :: "int option"

definition read_status_of :: "read_position option \<Rightarrow> int \<Rightarrow> read_status" where
  "read_status_of position unread =
     \<lparr>rs_LastReadAt = Option.bind position rp_LastReadAt,
      rs_LastReadMessageID = Option.bind position rp_LastReadMessageID,
      rs_UnreadCount = unread, rs_PartnerLastReadAt = None\<rparr>"

definition registeredAt :: "int \<Rightarrow> int \<Rightarrow> ('o db, int option) proc" where
  "registeredAt roomID userID =
     bindP (GetCourseByRoomID roomID) (\<lambda>course. case course of
       None \<Rightarrow> ret None
     | Some c \<Rightarrow> GetRegisteredAt userID (courses_id c))"

definition GetCourseRoomReadStatus :: "int \<Rightarrow> int \<Rightarrow> ('o db, read_status) proc" where
  "GetCourseRoomReadStatus roomID userID =
     bindP (GetCourseLastRead roomID userID) (\<lambda>position.
     bindP (if position = None then registeredAt roomID userID else ret None) (\<lambda>fallbackAt.
     bindP (CountUnreadMessages roomID userID (NewUnreadOrigin position fallbackAt)) (\<lambda>unreadCount.
     ret (read_status_of position unreadCount))))"

definition partnerLastReadAt :: "(int \<times> int option) list \<Rightarrow> int \<Rightarrow> int option" where
  "partnerLastReadAt membersLastReadAt userID =
     (case filter (\<lambda>m. fst m \<noteq> userID) membersLastReadAt of
        [m] \<Rightarrow> snd m
      | _ \<Rightarrow> None)"

definition GetRoomReadStatus :: "room \<Rightarrow> int \<Rightarrow> ('o db, read_status) proc" where
  "GetRoomReadStatus room userID =
     bindP (GetLastRead (rm_ID room) userID) (\<lambda>position.
     bindP (CountUnreadMessages (rm_ID room) userID (NewUnreadOrigin position None)) (\<lambda>unreadCount.
     if rm_Type room \<noteq> RoomTypeDM then ret (read_status_of position unreadCount)
     else bindP (GetMembersLastReadAt (rm_ID room)) (\<lambda>members.
          ret ((read_status_of position unreadCount)\<lparr>rs_PartnerLastReadAt := partnerLastReadAt members userID\<rparr>))))"

section \<open>Read receipts (usecase/chat/read.go)\<close>

definition kept_with_courses :: "room \<Rightarrow> bool" where
  "kept_with_courses room \<longleftrightarrow> rm_Type room = RoomTypeCourse \<or> rm_ParentRoomID room \<noteq> None"

definition MarkAsRead :: "request_ctx \<Rightarrow> int \<Rightarrow> int option \<Rightarrow> (app, unit) proc" where
  "MarkAsRead ctx roomID lastReadMessageID =
     bindP (liftR (RequireAuth ctx)) (\<lambda>claims.
     bindP (orFail (GetRoom roomID) (Errorf ''failed to get room'')) (\<lambda>room.
     bindP (if rm_ParentRoomID room \<noteq> None
            then bindP (EnsureReadAccess ctx roomID) (\<lambda>_. ret ()) else ret ()) (\<lambda>_.
     bindP (if kept_with_courses room
            then bindP (MarkCourseRoomAsRead roomID (cl_ID claims) lastReadMessageID) (\<lambda>_. ret [])
            else bindP (orFail (GetUserIDsByRoomID roomID) (Errorf ''failed to verify room membership''))
                   (\<lambda>memberIDs.
                 bindP (guardP (containsInt64 memberIDs (cl_ID claims)) not_a_member) (\<lambda>_.
                 bindP (MarkRoomAsRead roomID (cl_ID claims) lastReadMessageID) (\<lambda>_. ret memberIDs)))) (\<lambda>memberIDs.
     publish (RoomMarkedAsRead room (cl_ID claims) memberIDs)))))"

definition readStatus :: "room \<Rightarrow> int \<Rightarrow> (app, read_status) proc" where
  "readStatus room userID =
     (if kept_with_courses room then GetCourseRoomReadStatus (rm_ID room) userID
      else GetRoomReadStatus room userID)"

definition GetReadStatus :: "request_ctx \<Rightarrow> int \<Rightarrow> (app, read_status) proc" where
  "GetReadStatus ctx roomID =
     bindP (liftR (RequireAuth ctx)) (\<lambda>claims.
     bindP (EnsureReadAccess ctx roomID) (\<lambda>room.
     readStatus room (cl_ID claims)))"

definition ReadStatusOfAuthorizedRoom :: "request_ctx \<Rightarrow> room \<Rightarrow> (app, read_status) proc" where
  "ReadStatusOfAuthorizedRoom ctx room =
     bindP (liftR (RequireAuth ctx)) (\<lambda>claims. readStatus room (cl_ID claims))"

section \<open>Positions move forward\<close>

text \<open>The position of a user in a room, wherever it is kept; nothing read is below everything.\<close>

definition position_of :: "tables \<Rightarrow> room \<Rightarrow> int \<Rightarrow> read_position option" where
  "position_of t room userID =
     (if kept_with_courses room then course_room_position t (rm_ID room) userID
      else room_user_position t (rm_ID room) userID)"

definition no_later :: "read_position option \<Rightarrow> read_position option \<Rightarrow> bool" where
  "no_later p q \<longleftrightarrow>
     (case p of
        None \<Rightarrow> True
      | Some p \<Rightarrow>
          (case q of
             None \<Rightarrow> False
           | Some q \<Rightarrow>
               coalesce0 (rp_LastReadMessageID p) \<le> coalesce0 (rp_LastReadMessageID q) \<and>
               coalesce0 (rp_LastReadAt p) \<le> coalesce0 (rp_LastReadAt q)))"

lemma no_later_refl [simp]: "no_later p p"
  by (cases p) (simp_all add: no_later_def)

lemma no_later_trans: "no_later p q \<Longrightarrow> no_later q r \<Longrightarrow> no_later p r"
  by (auto simp: no_later_def split: option.splits)

text \<open>The positions stored are those of real messages and times: not negative.\<close>

definition positions_ok :: "tables \<Rightarrow> bool" where
  "positions_ok t \<longleftrightarrow>
     list_all (\<lambda>r. 0 \<le> coalesce0 (room_users_last_read_message_id r) \<and>
                   0 \<le> coalesce0 (room_users_last_read_at r)) (tb_room_users t) \<and>
     list_all (\<lambda>r. 0 \<le> coalesce0 (course_room_reads_last_read_message_id r)) (tb_course_room_reads t) \<and>
     list_all (\<lambda>m. 0 < messages_id m) (tb_messages t)"

lemma coalesce_advance [simp]:
  "coalesce0 (advanceLastReadMessageID col new) = max (coalesce0 col) (coalesce0 new)"
  by (simp add: advanceLastReadMessageID_def Let_def coalesce0_def)

lemma coalesce_Some [simp]: "coalesce0 (Some x) = x" "coalesce0 None = 0"
  by (simp_all add: coalesce0_def)

lemma find_map_keyed:
  assumes "\<And>r. P (f r) = P r"
  shows "List.find P (map f xs) = map_option f (List.find P xs)"
  using assms by (induction xs) auto

lemma find_append: "List.find P (xs @ ys) = (case List.find P xs of None \<Rightarrow> List.find P ys | Some x \<Rightarrow> Some x)"
  by (induction xs) auto

end
