(* ===== verification/Chat_Read_Props.thy ===== *)
theory Chat_Read_Props
  imports Chat_Read
begin

text \<open>
  The position up to which somebody has read a room never moves back, and marking a room as read leaves
  nothing unread.
\<close>

section \<open>The two updates on the tables\<close>

definition advanced_member :: "int \<Rightarrow> int \<Rightarrow> int option \<Rightarrow> int \<Rightarrow> room_user_row \<Rightarrow> room_user_row" where
  "advanced_member r u i now m =
     (if room_users_room_id m = r \<and> room_users_user_id m = u
      then m\<lparr>room_users_last_read_message_id := advanceLastReadMessageID (room_users_last_read_message_id m) i,
             room_users_last_read_at := Some (max (coalesce0 (room_users_last_read_at m)) now)\<rparr>
      else m)"

definition advanced_read :: "int \<Rightarrow> int \<Rightarrow> int option \<Rightarrow> int \<Rightarrow> course_room_read_row \<Rightarrow> course_room_read_row" where
  "advanced_read r u i now m =
     (if course_room_reads_room_id m = r \<and> course_room_reads_user_id m = u
      then m\<lparr>course_room_reads_last_read_message_id :=
               advanceLastReadMessageID (course_room_reads_last_read_message_id m) i,
             course_room_reads_last_read_at := max (course_room_reads_last_read_at m) now\<rparr>
      else m)"

definition new_read :: "int \<Rightarrow> int \<Rightarrow> int option \<Rightarrow> int \<Rightarrow> course_room_read_row" where
  "new_read r u i now =
     \<lparr>course_room_reads_room_id = r, course_room_reads_user_id = u,
      course_room_reads_last_read_message_id = i, course_room_reads_last_read_at = now\<rparr>"

definition set_read :: "int \<Rightarrow> int \<Rightarrow> int option \<Rightarrow> int \<Rightarrow> course_room_read_row list \<Rightarrow> course_room_read_row list" where
  "set_read r u i now rows =
     (if \<exists>m\<in>set rows. course_room_reads_room_id m = r \<and> course_room_reads_user_id m = u
      then map (advanced_read r u i now) rows else rows @ [new_read r u i now])"

lemma advanced_keys [simp]:
  "room_users_room_id (advanced_member r u i now m) = room_users_room_id m"
  "room_users_user_id (advanced_member r u i now m) = room_users_user_id m"
  "course_room_reads_room_id (advanced_read r u i now k) = course_room_reads_room_id k"
  "course_room_reads_user_id (advanced_read r u i now k) = course_room_reads_user_id k"
  by (simp_all add: advanced_member_def advanced_read_def)

lemma UpdateLastRead_Inr:
  assumes "UpdateLastRead r u i now w = (Ok x, w')"
  shows "db_committed w' = (db_committed w)\<lparr>tb_room_users :=
           map (advanced_member r u i now) (tb_room_users (db_committed w))\<rparr>"
  using assms by (auto simp: UpdateLastRead_def poolExec_def poolCall_def advanced_member_def[abs_def] split: if_splits)

lemma UpsertLastRead_Inr:
  assumes "UpsertLastRead r u i now w = (Ok x, w')"
  shows "db_committed w' = (db_committed w)\<lparr>tb_course_room_reads :=
           set_read r u i now (tb_course_room_reads (db_committed w))\<rparr>"
  using assms
  by (auto simp: UpsertLastRead_def poolCall_def set_read_def new_read_def advanced_read_def[abs_def] split: if_splits)

section \<open>What marking as read does\<close>

text \<open>The position the code settles on: that of a message of the room, or of the last one.\<close>

definition settled :: "tables \<Rightarrow> int \<Rightarrow> int option \<Rightarrow> int option \<Rightarrow> bool" where
  "settled t roomID requested i \<longleftrightarrow>
     (case requested of
        None \<Rightarrow> i = (let ids = room_message_ids t roomID in if ids = [] then None else Some (Max (set ids)))
      | Some j \<Rightarrow> i = Some j \<and> j \<in> set (room_message_ids t roomID))"

lemma resolve_Inr:
  "resolveReadMessageID r req w = (Ok i, w') \<Longrightarrow> settled (db_committed w) r req i"
  by (auto simp: resolveReadMessageID_def settled_def GetLatestMessageID_def MessageExistsInRoom_def
      room_message_ids_def bindP_Inr_iff query_Inr_iff throw_def split: option.splits if_splits)

lemma read_resolve [reads_intros]: "reads (resolveReadMessageID r req)"
  unfolding resolveReadMessageID_def GetLatestMessageID_def MessageExistsInRoom_def by (intro reads_intros)

lemma MarkAsRead_atomic: "atomicP events (MarkAsRead ctx roomID req)"
proof -
  have "atomicP events (MarkRoomAsRead r u i)" "atomicP events (MarkCourseRoomAsRead r u i)" for r u i
    unfolding MarkRoomAsRead_def MarkCourseRoomAsRead_def UpdateLastRead_def UpsertLastRead_def poolExec_def
    by (intro atomicP_bindP atomicP_calls reads_intros)+
  then show ?thesis
    unfolding MarkAsRead_def
    by (intro atomicP_bindP[of "liftR _"] atomicP_bindP[of "orFail _ _"] atomicP_bindP[of "if rm_ParentRoomID _ \<noteq> _ then _ else _"]
        atomicP_bindP[of "guardP _ _"] atomicP_then[of _ "if kept_with_courses _ then _ else _"] atomicP_then[of _ "MarkRoomAsRead _ _ _"]
        atomicP_then[of _ "MarkCourseRoomAsRead _ _ _"]
        atomicP_if infallible_publish infallible_ret reads_intros)
qed

lemma MarkAsRead_Inr:
  assumes run: "MarkAsRead ctx roomID req w = (Ok u, w')" and tx: "db_tx w = None"
  obtains (member) claims room i where "ClaimsFromContext ctx = Some claims"
      "find_room (db_committed w) roomID = Some room" "\<not> kept_with_courses room"
      "settled (db_committed w) roomID req i" "in_room (db_committed w) roomID (cl_ID claims)"
      "db_committed w' = (db_committed w)\<lparr>tb_room_users :=
         map (advanced_member roomID (cl_ID claims) i (db_now w)) (tb_room_users (db_committed w))\<rparr>"
  | (course) claims room i where "ClaimsFromContext ctx = Some claims"
      "find_room (db_committed w) roomID = Some room" "kept_with_courses room"
      "settled (db_committed w) roomID req i"
      "db_committed w' = (db_committed w)\<lparr>tb_course_room_reads :=
         set_read roomID (cl_ID claims) i (db_now w) (tb_course_room_reads (db_committed w))\<rparr>"
proof -
  from run obtain claims room v0 v v2 ms where claims: "ClaimsFromContext ctx = Some claims"
    and room: "GetRoom roomID w = (Ok room, v0)"
    and read: "(if rm_ParentRoomID room \<noteq> None then bindP (EnsureReadAccess ctx roomID) (\<lambda>_. ret ()) else ret ()) v0 = (Ok (), v)"
    and mark: "(if kept_with_courses room
            then bindP (MarkCourseRoomAsRead roomID (cl_ID claims) req) (\<lambda>_. ret [])
            else bindP (orFail (GetUserIDsByRoomID roomID) (Errorf ''failed to verify room membership''))
                   (\<lambda>memberIDs.
                 bindP (guardP (containsInt64 memberIDs (cl_ID claims)) not_a_member) (\<lambda>_.
                 bindP (MarkRoomAsRead roomID (cl_ID claims) req) (\<lambda>_. ret memberIDs)))) v = (Ok ms, v2)"
    and w': "db_committed w' = db_committed v2"
    by (auto simp: MarkAsRead_def bindP_liftR_Inr RequireAuth_Inr_iff bindP_Inr_iff publish_Inr_iff)
  have r: "reads (if rm_ParentRoomID room \<noteq> None then bindP (EnsureReadAccess ctx roomID) (\<lambda>_. ret ()) else ret ())"
    by (intro reads_intros)
  note v = readsD(1-3)[OF chat_queries_read(2) room] readsD(1-3)[OF r read]
  have found: "find_room (db_committed w) roomID = Some room"
    using service.find_room_Inr[OF room] tx by simp
  show thesis
  proof (cases "kept_with_courses room")
    case True
    with mark obtain i v1 where i: "resolveReadMessageID roomID req v = (Ok i, v1)"
      and up: "UpsertLastRead roomID (cl_ID claims) i (db_now v1) v1 = (Ok (), v2)"
      by (auto simp: MarkCourseRoomAsRead_def bindP_Inr_iff nowP_Inr_iff)
    from resolve_Inr[OF i] UpsertLastRead_Inr[OF up] readsD(1-3)[OF read_resolve i] v w' show thesis
      by (intro course[OF claims found True, of i]) simp_all
  next
    case False
    with mark obtain v0' i v1 where m: "GetUserIDsByRoomID roomID v = (Ok ms, v0')"
      and i: "resolveReadMessageID roomID req v0' = (Ok i, v1)"
      and up: "UpdateLastRead roomID (cl_ID claims) i (db_now v1) v1 = (Ok (), v2)"
      and "containsInt64 ms (cl_ID claims)"
      by (auto simp: MarkRoomAsRead_def bindP_Inr_iff nowP_Inr_iff split: if_splits)
    then have mem: "in_room (db_committed w) roomID (cl_ID claims)"
      using contains_members v by (auto simp: GetUserIDsByRoomID_def query_Inr_iff)
    note v0 = readsD(1-3)[OF chat_queries_read(5) m]
    from resolve_Inr[OF i] UpdateLastRead_Inr[OF up] readsD(1-3)[OF read_resolve i] v v0 w' show thesis
      by (intro member[OF claims found False, of i]) (simp_all add: mem)
  qed
qed

section \<open>Never back\<close>

lemma member_position:
  assumes "0 \<le> now" "positions_ok t"
  shows "no_later (room_user_position t r0 u0)
    (room_user_position (t\<lparr>tb_room_users := map (advanced_member r u i now) (tb_room_users t)\<rparr>) r0 u0)"
proof (cases "List.find (\<lambda>m. room_users_room_id m = r0 \<and> room_users_user_id m = u0) (tb_room_users t)")
  case None
  then show ?thesis by (simp add: room_user_position_def no_later_def)
next
  case (Some m)
  then have "m \<in> set (tb_room_users t)" by (auto simp: find_Some_iff)
  with assms(2) have "0 \<le> coalesce0 (room_users_last_read_message_id m)" "0 \<le> coalesce0 (room_users_last_read_at m)"
    by (auto simp: positions_ok_def list_all_iff)
  with Some show ?thesis
    by (simp add: room_user_position_def find_map_keyed) (simp add: no_later_def advanced_member_def)
qed

lemma course_position:
  "no_later (course_room_position t r0 u0)
     (course_room_position (t\<lparr>tb_course_room_reads := set_read r u i now (tb_course_room_reads t)\<rparr>) r0 u0)"
proof (cases "List.find (\<lambda>m. course_room_reads_room_id m = r0 \<and> course_room_reads_user_id m = u0) (tb_course_room_reads t)")
  case None
  then show ?thesis by (simp add: course_room_position_def no_later_def)
next
  case (Some m)
  then show ?thesis
    by (simp add: course_room_position_def set_read_def find_map_keyed find_append)
       (simp add: no_later_def advanced_read_def)
qed

lemma settled_nonneg:
  assumes "settled t r req i" "positions_ok t"
  shows "0 \<le> coalesce0 i"
proof (cases i)
  case (Some j)
  have pos: "0 < k" if "k \<in> set (room_message_ids t r)" for k
    using that assms(2) by (auto simp: positions_ok_def list_all_iff room_message_ids_def split: if_splits)
  have "j \<in> set (room_message_ids t r)"
    using assms(1) Some by (auto simp: settled_def Let_def split: option.splits if_splits)
  with pos Some show ?thesis by fastforce
qed simp

lemma positions_ok_marked:
  assumes "positions_ok t" "0 \<le> now" "0 \<le> coalesce0 i"
  shows "positions_ok (t\<lparr>tb_room_users := map (advanced_member r u i now) (tb_room_users t)\<rparr>)"
    "positions_ok (t\<lparr>tb_course_room_reads := set_read r u i now (tb_course_room_reads t)\<rparr>)"
  using assms by (auto simp: positions_ok_def list_all_iff advanced_member_def advanced_read_def set_read_def new_read_def)

lemma MarkAsRead_forward:
  assumes "db_tx w = None" "positions_ok (db_committed w)" "0 \<le> db_now w" "MarkAsRead ctx roomID req w = (res, w')"
  shows "no_later (position_of (db_committed w) room userID) (position_of (db_committed w') room userID) \<and>
    positions_ok (db_committed w') \<and> db_tx w' = None"
proof -
  note at = atomicPD[OF MarkAsRead_atomic assms(4,1)]
  show ?thesis
  proof (cases res)
    case Inl with at assms show ?thesis by simp
  next
    case (Inr u)
    from assms(4)[unfolded Inr] assms(1) show ?thesis
    proof (cases rule: MarkAsRead_Inr)
      case (member claims rm i)
      with assms(2,3) at(1) show ?thesis
        by (simp add: position_of_def member_position positions_ok_marked settled_nonneg)
           (simp add: course_room_position_def)
    next
      case (course claims rm i)
      with assms(2,3) at(1) show ?thesis
        by (simp add: position_of_def course_position positions_ok_marked settled_nonneg)
           (simp add: room_user_position_def)
    qed
  qed
qed

text \<open>Marks at any times the clock shows, by anybody, in any rooms.\<close>

definition run_marks :: "(request_ctx \<times> int \<times> int option \<times> nat) list \<Rightarrow> app \<Rightarrow> app" where
  "run_marks marks w =
     fold (\<lambda>(ctx, roomID, req, now) w. snd (MarkAsRead ctx roomID req (w\<lparr>db_now := int now\<rparr>))) marks w"

text \<open>C27: Reading never goes back. Whatever rooms are marked as read, by whom, up to which message and at
  whatever times - a second device that reports an older message, a clock that is set back, a statement
  that fails - nobody's position in any room moves back, in its message or in its time.\<close>

theorem read_position_never_moves_back:
  assumes "db_tx w = None" "positions_ok (db_committed w)"
  shows "no_later (position_of (db_committed w) room userID)
           (position_of (db_committed (run_marks marks w)) room userID)"
  using assms
proof (induction marks arbitrary: w)
  case (Cons m marks)
  obtain ctx r req now where m: "m = (ctx, r, req, now)" by (cases m) auto
  let ?v = "w\<lparr>db_now := int now\<rparr>"
  obtain res w' where run: "MarkAsRead ctx r req ?v = (res, w')" by fastforce
  from MarkAsRead_forward[OF _ _ _ run] Cons.prems
  have "no_later (position_of (db_committed w) room userID) (position_of (db_committed w') room userID)"
    "positions_ok (db_committed w')" "db_tx w' = None" by auto
  with Cons.IH[of w'] run show ?case by (auto simp: run_marks_def m intro: no_later_trans)
qed (simp add: run_marks_def)

text \<open>User 7 reads room 1 to its end, then a device behind reports nothing newer and an older clock.\<close>

definition two_messages :: app where
  "two_messages = (sample_world [])\<lparr>db_committed := sample_tables
     \<lparr>tb_messages := [text_row 20 1 7 ''hi'', (text_row 25 1 8 ''ho'')\<lparr>messages_created_at := 90\<rparr>]\<rparr>\<rparr>"

theorem read_position_never_moves_back_witness:
  "let marks = [(signed_in 7 ''user'', 1, None, 200), (signed_in 7 ''user'', 1, Some 20, 150)];
       room = room_of_row sample_tables (plain_room 1 RoomTypeCommunity);
       after = position_of (db_committed (run_marks marks two_messages)) room 7 in
   after = Some \<lparr>rp_LastReadMessageID = Some 25, rp_LastReadAt = Some 200\<rparr> \<and>
   no_later (position_of (db_committed two_messages) room 7) after"
proof -
  have "db_tx two_messages = None" "positions_ok (db_committed two_messages)" by code_simp+
  note ahead = read_position_never_moves_back[OF this]
  have "position_of (db_committed (run_marks
        [(signed_in 7 ''user'', 1, None, 200), (signed_in 7 ''user'', 1, Some 20, 150)] two_messages))
      (room_of_row sample_tables (plain_room 1 RoomTypeCommunity)) 7 =
      Some \<lparr>rp_LastReadMessageID = Some 25, rp_LastReadAt = Some 200\<rparr>"
    by code_simp
  with ahead show ?thesis unfolding Let_def by metis
qed

section \<open>Nothing left unread\<close>

lemma nothing_after:
  assumes "\<And>j. j \<in> set (room_message_ids t r) \<Longrightarrow> \<exists>i. rp_LastReadMessageID p = Some i \<and> j \<le> i"
  shows "unread_rows t r u (NewUnreadOrigin (Some p) fb) = []"
  using assms
  by (fastforce simp: unread_rows_def unreadAfter_def NewUnreadOrigin_def room_message_ids_def filter_empty_conv)

lemma settled_all:
  assumes "settled t r None i" "positions_ok t" "j \<in> set (room_message_ids t r)" "0 \<le> coalesce0 old"
  shows "\<exists>k. advanceLastReadMessageID old i = Some k \<and> j \<le> k" "\<exists>k. i = Some k \<and> j \<le> k"
proof -
  have "i = Some (Max (set (room_message_ids t r)))" "j \<le> Max (set (room_message_ids t r))" "0 < j"
    using assms(1-3) by (auto simp: settled_def Let_def positions_ok_def list_all_iff room_message_ids_def)
  then show "\<exists>k. i = Some k \<and> j \<le> k" "\<exists>k. advanceLastReadMessageID old i = Some k \<and> j \<le> k"
    by (auto simp: advanceLastReadMessageID_def Let_def)
qed

lemma member_read:
  assumes "settled t r None i" "positions_ok t" "in_room t r u"
  shows "\<exists>p. room_user_position (t\<lparr>tb_room_users := map (advanced_member r u i now) (tb_room_users t)\<rparr>) r u = Some p \<and>
    unread_rows t r u (NewUnreadOrigin (Some p) fb) = []"
proof -
  from assms(3) obtain m where m: "List.find (\<lambda>m. room_users_room_id m = r \<and> room_users_user_id m = u) (tb_room_users t) = Some m"
    by (cases "List.find (\<lambda>m. room_users_room_id m = r \<and> room_users_user_id m = u) (tb_room_users t)")
       (auto simp: find_None_iff in_room_def)
  then have "m \<in> set (tb_room_users t)" and k: "room_users_room_id m = r" "room_users_user_id m = u"
    by (auto simp: find_Some_iff)
  with assms(2) have "0 \<le> coalesce0 (room_users_last_read_message_id m)"
    by (auto simp: positions_ok_def list_all_iff)
  with m k settled_all(1)[OF assms(1,2)] show ?thesis
    by (simp add: room_user_position_def find_map_keyed advanced_member_def[of r u i now m] nothing_after)
qed

lemma course_read:
  assumes "settled t r None i" "positions_ok t"
  shows "\<exists>p. course_room_position (t\<lparr>tb_course_room_reads := set_read r u i now (tb_course_room_reads t)\<rparr>) r u = Some p \<and>
    unread_rows t r u (NewUnreadOrigin (Some p) fb) = []"
proof (cases "List.find (\<lambda>m. course_room_reads_room_id m = r \<and> course_room_reads_user_id m = u) (tb_course_room_reads t)")
  case None
  then have "\<not> (\<exists>m\<in>set (tb_course_room_reads t). course_room_reads_room_id m = r \<and> course_room_reads_user_id m = u)"
    by (simp add: find_None_iff)
  with None settled_all(2)[OF assms] show ?thesis
    by (simp add: course_room_position_def set_read_def find_append new_read_def nothing_after)
       (metis nothing_after read_position.select_convs(1) order_refl coalesce_Some(2))
next
  case (Some m)
  then have mem: "m \<in> set (tb_course_room_reads t)" and k: "course_room_reads_room_id m = r" "course_room_reads_user_id m = u"
    by (auto simp: find_Some_iff)
  with assms(2) have "0 \<le> coalesce0 (course_room_reads_last_read_message_id m)"
    by (auto simp: positions_ok_def list_all_iff)
  with Some mem k settled_all(1)[OF assms] show ?thesis
    by (auto simp: course_room_position_def set_read_def find_map_keyed advanced_read_def[of r u i now m] intro!: nothing_after)
qed

lemma unread_rows_cong: "tb_messages t' = tb_messages t \<Longrightarrow> unread_rows t' r u o' = unread_rows t r u o'"
  by (simp add: unread_rows_def)

lemma marked_position:
  assumes "db_tx w = None" "positions_ok (db_committed w)" "ClaimsFromContext ctx = Some claims"
    and "find_room (db_committed w) roomID = Some room" "MarkAsRead ctx roomID None w = (Ok u, w')"
  obtains p where "position_of (db_committed w') room (cl_ID claims) = Some p" "rm_ID room = roomID"
    "unread_rows (db_committed w') roomID (cl_ID claims) (NewUnreadOrigin (Some p) fb) = []" "db_tx w' = None"
proof -
  have r: "rm_ID room = roomID"
    using assms(4) by (auto simp: find_room_def room_of_row_def Let_def find_Some_iff)
  note tx = atomicPD(1)[OF MarkAsRead_atomic assms(5,1)]
  from assms(5,1) show thesis
  proof (cases rule: MarkAsRead_Inr)
    case (member c rm i)
    with assms(2-4) member_read[of "db_committed w" roomID i "cl_ID claims" "db_now w" fb] that r tx show thesis
      by (auto simp: position_of_def unread_rows_def)
  next
    case (course c rm i)
    with assms(2-4) course_read[of "db_committed w" roomID i "cl_ID claims" "db_now w" fb] that r tx show thesis
      by (auto simp: position_of_def unread_rows_def)
  qed
qed

text \<open>C28: Marking a room as read without naming a message reads it to its end: the read status that
  follows counts nothing unread, in every kind of room, also for somebody with no position before.\<close>

theorem mark_as_read_leaves_nothing_unread:
  assumes "db_tx w = None" "positions_ok (db_committed w)" "ClaimsFromContext ctx = Some claims"
    and "find_room (db_committed w) roomID = Some room" "MarkAsRead ctx roomID None w = (Ok (), w')"
    and "db_faults w' = []"
  shows "\<exists>s. readStatus room (cl_ID claims) w' = (Ok s, w') \<and> rs_UnreadCount s = 0"
  using assms(1-5)
proof (rule marked_position)
  fix p
  assume p: "position_of (db_committed w') room (cl_ID claims) = Some p" "rm_ID room = roomID"
    "unread_rows (db_committed w') roomID (cl_ID claims) (NewUnreadOrigin (Some p) None) = []" "db_tx w' = None"
  show ?thesis
  proof (cases "kept_with_courses room")
    case True
    with p assms(6) show ?thesis
      by (simp add: readStatus_def GetCourseRoomReadStatus_def GetCourseLastRead_def CountUnreadMessages_def
          position_of_def read_status_of_def)
  next
    case False
    with p assms(6) show ?thesis
      by (simp add: readStatus_def GetRoomReadStatus_def GetLastRead_def CountUnreadMessages_def
          GetMembersLastReadAt_def position_of_def read_status_of_def)
  qed
qed

theorem mark_as_read_leaves_nothing_unread_witness:
  "let r = MarkAsRead (signed_in 7 ''user'') 1 None two_messages;
       room = room_of_row sample_tables (plain_room 1 RoomTypeCommunity) in
   fst r = Ok () \<and> length (unread_rows (db_committed two_messages) 1 7 (NewUnreadOrigin None None)) = 1 \<and>
   (\<exists>s. readStatus room 7 (snd r) = (Ok s, snd r) \<and> rs_UnreadCount s = 0)"
proof -
  let ?r = "MarkAsRead (signed_in 7 ''user'') 1 None two_messages"
  let ?room = "room_of_row sample_tables (plain_room 1 RoomTypeCommunity)"
  have run: "fst ?r = Ok ()" "db_faults (snd ?r) = []"
    "length (unread_rows (db_committed two_messages) 1 7 (NewUnreadOrigin None None)) = 1"
    by code_simp+
  have pre: "db_tx two_messages = None" "positions_ok (db_committed two_messages)"
    "ClaimsFromContext (signed_in 7 ''user'') =
      Some \<lparr>cl_ID = 7, cl_Role = ''user'', cl_TokenType = [], cl_CredentialsVersion = None, cl_ExpiresAt = 0\<rparr>"
    "find_room (db_committed two_messages) 1 = Some ?room"
    by code_simp+
  have "MarkAsRead (signed_in 7 ''user'') 1 None two_messages = (Ok (), snd ?r)"
    using run(1) by (metis prod.collapse)
  from mark_as_read_leaves_nothing_unread[OF pre this run(2)] run(1,3) show ?thesis by (simp add: Let_def)
qed

end
