(* ===== verification/Community.thy ===== *)
theory Community
  imports Chat_Read
begin

text \<open>
  Communities and their members: usecase/community (create, update, update_community_members) and usecase/room
  (join_room.go, leave_community.go, get_or_create_dm_room.go, delete_orphaned_dm.go).
\<close>

section \<open>Creating and renaming\<close>

definition CommunityIcon :: string where
  "CommunityIcon = ''community-icons''"

definition HasSuffix :: "string \<Rightarrow> string \<Rightarrow> bool" where
  "HasSuffix s t \<longleftrightarrow> HasPrefix (rev s) (rev t)"

definition contentTypeFromKey :: "string \<Rightarrow> string" where
  "contentTypeFromKey key =
     (if HasSuffix key ''.jpg'' then ''image/jpeg''
      else if HasSuffix key ''.png'' then ''image/png''
      else if HasSuffix key ''.webp'' then ''image/webp''
      else if HasSuffix key ''.gif'' then ''image/gif''
      else ''application/octet-stream'')"

text \<open>The accepted icon, or none, and the object the acceptance has published.\<close>

definition acceptIcon ::
  "acceptor option \<Rightarrow> request_ctx \<Rightarrow> int \<Rightarrow> string option \<Rightarrow> (app, avatar_param option result \<times> string list) proc" where
  "acceptIcon uploads ctx userID avatarKey =
     (case avatarKey of
        None \<Rightarrow> ret (Ok None, [])
      | Some key \<Rightarrow>
          if key = [] then ret (Ok None, [])
          else tryP (sessionAccept uploads ctx CommunityIcon key) (\<lambda>r. case r of
                 Inl e \<Rightarrow> ret (Err e, [])
               | Inr stored \<Rightarrow>
                   ret (Ok (Some \<lparr>av_UploaderUserID = userID, av_StorageKey = stored,
                                  av_ContentType = contentTypeFromKey stored\<rparr>),
                        if stored \<noteq> key then [stored] else [])))"

definition CreateCommunity ::
  "acceptor option \<Rightarrow> request_ctx \<Rightarrow> string \<Rightarrow> string \<Rightarrow> string option \<Rightarrow> (app, community) proc" where
  "CreateCommunity uploads ctx name description avatarKey =
     bindP (liftR (RequireAuth ctx)) (\<lambda>claims.
     bindP (acceptIcon uploads ctx (cl_ID claims) avatarKey) (\<lambda>(avatar, created).
     discardOnError created (
       bindP (liftR avatar) (\<lambda>avatar.
       SaveCommunityWithRoom name description avatar (cl_ID claims)))))"

definition GetCommunity :: "request_ctx \<Rightarrow> int \<Rightarrow> (app, community option) proc" where
  "GetCommunity ctx communityID =
     bindP (liftR (RequireAuth ctx)) (\<lambda>_. GetCommunityByID communityID)"

definition AvatarKeyRemove :: string where
  "AvatarKeyRemove = ''none''"

definition ensureOwnerOrAdmin :: "claims \<Rightarrow> int \<Rightarrow> (app, unit) proc" where
  "ensureOwnerOrAdmin claims roomID =
     (if IsAdminRole (cl_Role claims) then ret ()
      else bindP (GetRoomUserRole roomID (cl_ID claims)) (\<lambda>role.
           guardP (role = RoomUserRoleOwner)
             (Errorf ''forbidden: only community owners or administrators can update the community'')))"

definition UpdateCommunity ::
  "acceptor option \<Rightarrow> request_ctx \<Rightarrow> int \<Rightarrow> string option \<Rightarrow> string option \<Rightarrow> string option \<Rightarrow> (app, community) proc" where
  "UpdateCommunity uploads ctx communityID name description avatarKey =
     bindP (liftR (RequireAuth ctx)) (\<lambda>claims.
     bindP (GetCommunityByID communityID) (\<lambda>c. case c of
       None \<Rightarrow> throw (Errorf ''community not found'')
     | Some c \<Rightarrow>
         bindP (ensureOwnerOrAdmin claims (cm_RoomID c)) (\<lambda>_.
         let c = c\<lparr>cm_Name := (case name of None \<Rightarrow> cm_Name c | Some n \<Rightarrow> n),
                   cm_Description := (case description of None \<Rightarrow> cm_Description c | Some d \<Rightarrow> d)\<rparr> in
         if avatarKey = Some AvatarKeyRemove
         then UpdateCommunityRow (c\<lparr>cm_AvatarMediaID := None\<rparr>) None
         else bindP (acceptIcon uploads ctx (cl_ID claims) avatarKey) (\<lambda>(avatar, created).
              discardOnError created (
                bindP (liftR avatar) (\<lambda>avatar. UpdateCommunityRow c avatar))))))"

section \<open>Joining and leaving (usecase/room)\<close>

definition JoinRoom :: "request_ctx \<Rightarrow> int \<Rightarrow> (app, bool) proc" where
  "JoinRoom ctx roomID =
     bindP (liftR (RequireAuth ctx)) (\<lambda>claims.
     bindP (GetRoomByID roomID) (\<lambda>room. case room of
       None \<Rightarrow> throw (Errorf ''room not found'')
     | Some room \<Rightarrow>
         bindP (guardP (rm_Type room = RoomTypeCommunity \<and> rm_ParentRoomID room = None)
                  (Errorf ''can only join community rooms'')) (\<lambda>_.
         bindP (AddUserToRoom roomID (cl_ID claims)) (\<lambda>_. ret True))))"

definition owner_count :: "(int \<times> string) list \<Rightarrow> nat" where
  "owner_count roles = length (filter (\<lambda>r. snd r = RoomUserRoleOwner) roles)"

definition leaveRoom :: "claims \<Rightarrow> int \<Rightarrow> (app, unit) proc" where
  "leaveRoom claims roomID =
     bindP (GetRoomByID roomID) (\<lambda>room. case room of
       None \<Rightarrow> throw (Errorf ''room not found'')
     | Some room \<Rightarrow>
         bindP (guardP (rm_Type room = RoomTypeCommunity) (Errorf ''can only leave community rooms'')) (\<lambda>_.
         bindP (LockRoomMemberRolesForUpdate roomID) (\<lambda>roles.
         case map_of roles (cl_ID claims) of
           None \<Rightarrow> throw (Errorf ''not a member of this community'')
         | Some leavingRole \<Rightarrow>
             bindP (guardP (\<not> (leavingRole = RoomUserRoleOwner \<and> owner_count roles = 1 \<and> 1 < length roles))
                      (Errorf ''cannot leave: you are the last owner'')) (\<lambda>_.
             if length roles = 1
             then bindP (DeleteRoom roomID) (\<lambda>deleted. guardP deleted (Errorf ''room not found''))
             else RemoveUserFromRoom roomID (cl_ID claims)))))"

definition LeaveCommunity :: "request_ctx \<Rightarrow> int \<Rightarrow> (app, bool) proc" where
  "LeaveCommunity ctx roomID =
     bindP (liftR (RequireAuth ctx)) (\<lambda>claims.
     bindP (runInTx (leaveRoom claims roomID)) (\<lambda>_. ret True))"

section \<open>DM rooms\<close>

definition ErrDMPartnerUnavailable :: go_error where
  "ErrDMPartnerUnavailable = Errorf ''the partner has left''"

definition GetOrCreateDMRoom :: "request_ctx \<Rightarrow> int \<Rightarrow> (app, room) proc" where
  "GetOrCreateDMRoom ctx userID2 =
     bindP (liftR (CallerID ctx)) (\<lambda>userID1.
     bindP (GetUserByID userID2) (\<lambda>partner.
     bindP (guardP (partner \<noteq> None) ErrDMPartnerUnavailable) (\<lambda>_.
     FindOrCreateDMRoom userID1 userID2)))"

definition deleteOrphaned :: "claims \<Rightarrow> int \<Rightarrow> (app, bool) proc" where
  "deleteOrphaned claims roomID =
     bindP (GetRoomByID roomID) (\<lambda>room. case room of
       None \<Rightarrow> throw (Errorf ''room not found'')
     | Some room \<Rightarrow>
         bindP (guardP (rm_Type room = RoomTypeDM) (Errorf ''forbidden: only DM rooms can be deleted'')) (\<lambda>_.
         bindP (LockRoomMemberRolesForUpdate roomID) (\<lambda>roles.
         bindP (guardP (map_of roles (cl_ID claims) \<noteq> None) not_a_member) (\<lambda>_.
         bindP (guardP (length roles = 1) (Errorf ''forbidden: cannot delete a room with an active partner'')) (\<lambda>_.
         DeleteRoom roomID)))))"

definition DeleteOrphanedDM :: "request_ctx \<Rightarrow> int \<Rightarrow> (app, bool) proc" where
  "DeleteOrphanedDM ctx roomID =
     bindP (liftR (RequireAuth ctx)) (\<lambda>claims. runInTx (deleteOrphaned claims roomID))"

section \<open>Changing the members (update_community_members.go)\<close>

text \<open>\<open>MemberAction\<close> is a string type of Go, with three constants.\<close>

definition MemberActionPromote :: string where "MemberActionPromote = ''promote''"
definition MemberActionDemote :: string where "MemberActionDemote = ''demote''"
definition MemberActionKick :: string where "MemberActionKick = ''kick''"

lemma member_actions_distinct [simp]:
  "MemberActionPromote \<noteq> MemberActionDemote" "MemberActionDemote \<noteq> MemberActionPromote"
  "MemberActionPromote \<noteq> MemberActionKick" "MemberActionKick \<noteq> MemberActionPromote"
  "MemberActionDemote \<noteq> MemberActionKick" "MemberActionKick \<noteq> MemberActionDemote"
  by (simp_all add: MemberActionPromote_def MemberActionDemote_def MemberActionKick_def)

type_synonym member_update = "int \<times> string"

definition members_doing :: "string \<Rightarrow> member_update list \<Rightarrow> int list" where
  "members_doing action updates = map fst (filter (\<lambda>u. snd u = action) updates)"

fun validateUpdates :: "int list \<Rightarrow> member_update list \<Rightarrow> unit result" where
  "validateUpdates seen [] = Ok ()"
| "validateUpdates seen ((userID, action) # updates) =
     (if action \<notin> {MemberActionPromote, MemberActionDemote, MemberActionKick}
      then Err (Errorf (''unknown member action '' @ action))
      else if userID \<in> set seen then Err (Errorf (''duplicate update for user '' @ Itoa userID))
      else validateUpdates (userID # seen) updates)"

text \<open>What an update makes of a role; a kick leaves none, which the code writes as the empty role.\<close>

definition resultRole :: "member_update list \<Rightarrow> int \<Rightarrow> string \<Rightarrow> string" where
  "resultRole updates userID currentRole =
     (case map_of (rev updates) userID of
        None \<Rightarrow> currentRole
      | Some action \<Rightarrow>
          if action = MemberActionPromote then RoomUserRoleOwner
          else if action = MemberActionDemote then RoomUserRoleMember
          else if action = MemberActionKick then [] else currentRole)"

definition validateAndSimulate :: "(int \<times> string) list \<Rightarrow> member_update list \<Rightarrow> unit result" where
  "validateAndSimulate roles updates =
     (case List.find (\<lambda>u. map_of roles (fst u) = None) updates of
        Some u \<Rightarrow> Err (Errorf (''user '' @ Itoa (fst u) @ '' is not a member of this community''))
      | None \<Rightarrow>
          if owner_count (map (\<lambda>(u, role). (u, resultRole updates u role)) roles) = 0
          then Err (Errorf ''at least one owner must remain in the community'') else Ok ())"

definition applyUpdates :: "claims \<Rightarrow> int \<Rightarrow> member_update list \<Rightarrow> (app, unit) proc" where
  "applyUpdates claims roomID updates =
     bindP (LockRoomMemberRolesForUpdate roomID) (\<lambda>roles.
     bindP (guardP (IsAdminRole (cl_Role claims) \<or> map_of roles (cl_ID claims) = Some RoomUserRoleOwner)
              (Errorf ''forbidden: only community owners or administrators can update members'')) (\<lambda>_.
     bindP (guardP (IsAdminRole (cl_Role claims) \<or> (cl_ID claims, MemberActionKick) \<notin> set updates)
              (Errorf ''cannot kick yourself; use leave instead'')) (\<lambda>_.
     bindP (liftR (validateAndSimulate roles updates)) (\<lambda>_.
     bindP (SetRoomUserRoles roomID (members_doing MemberActionPromote updates) RoomUserRoleOwner) (\<lambda>_.
     bindP (SetRoomUserRoles roomID (members_doing MemberActionDemote updates) RoomUserRoleMember) (\<lambda>_.
     RemoveUsersFromRoom roomID (members_doing MemberActionKick updates)))))))"

definition UpdateCommunityMembers :: "request_ctx \<Rightarrow> int \<Rightarrow> member_update list \<Rightarrow> (app, int) proc" where
  "UpdateCommunityMembers ctx communityID updates =
     bindP (liftR (RequireAuth ctx)) (\<lambda>claims.
     bindP (GetCommunityByID communityID) (\<lambda>c. case c of
       None \<Rightarrow> throw (Errorf ''community not found'')
     | Some c \<Rightarrow>
         bindP (liftR (validateUpdates [] updates)) (\<lambda>_.
         bindP (runInTx (applyUpdates claims (cm_RoomID c) updates)) (\<lambda>_. ret (cm_RoomID c)))))"

end
