(* ===== verification/Community_Members.thy ===== *)
theory Community_Members
  imports Community Db_Chunks
begin

text \<open>
  The members of communities: the invariant that every community has an owner and nobody is a member twice,
  the statements that keep it, the roles of a room as a map, and what a change of the members makes of it.
\<close>

section \<open>The invariant\<close>

definition has_owner :: "tables \<Rightarrow> int \<Rightarrow> bool" where
  "has_owner t roomID \<longleftrightarrow>
     list_ex (\<lambda>r. room_users_room_id r = roomID \<and> room_users_role r = RoomUserRoleOwner) (tb_room_users t)"

definition membership :: "room_user_row \<Rightarrow> int \<times> int" where
  "membership r = (room_users_room_id r, room_users_user_id r)"

text \<open>Communities are the rooms of that type that are no threads.\<close>

definition is_community :: "room_row \<Rightarrow> bool" where
  "is_community r \<longleftrightarrow> rooms_type r = RoomTypeCommunity \<and> rooms_parent_room_id r = None"

text \<open>Every community has an owner, nobody is a member twice, and the counter of the IDs is ahead.\<close>

definition communities_ok :: "tables \<Rightarrow> bool" where
  "communities_ok t \<longleftrightarrow>
     list_all (\<lambda>r. is_community r \<longrightarrow> has_owner t (rooms_id r)) (tb_rooms t) \<and>
     distinct (map membership (tb_room_users t)) \<and>
     list_all (\<lambda>r. room_users_room_id r < tb_next_id t) (tb_room_users t) \<and>
     list_all (\<lambda>r. rooms_id r < tb_next_id t) (tb_rooms t)"

lemma has_owner_iff:
  "has_owner t r \<longleftrightarrow> (\<exists>m\<in>set (tb_room_users t). room_users_room_id m = r \<and> room_users_role m = RoomUserRoleOwner)"
  by (auto simp: has_owner_def list_ex_iff)

lemma communities_okD:
  assumes "communities_ok t"
  shows "r \<in> set (tb_rooms t) \<Longrightarrow> is_community r \<Longrightarrow> has_owner t (rooms_id r)"
    "distinct (map membership (tb_room_users t))"
    "m \<in> set (tb_room_users t) \<Longrightarrow> room_users_room_id m < tb_next_id t"
    "r \<in> set (tb_rooms t) \<Longrightarrow> rooms_id r < tb_next_id t"
  using assms by (auto simp: communities_ok_def list_all_iff)

lemma communities_okI:
  assumes "\<And>r. r \<in> set (tb_rooms t) \<Longrightarrow> is_community r \<Longrightarrow> has_owner t (rooms_id r)"
    "distinct (map membership (tb_room_users t))"
    "\<And>m. m \<in> set (tb_room_users t) \<Longrightarrow> room_users_room_id m < tb_next_id t"
    "\<And>r. r \<in> set (tb_rooms t) \<Longrightarrow> rooms_id r < tb_next_id t"
  shows "communities_ok t"
  using assms by (auto simp: communities_ok_def list_all_iff)

lemma in_room_membership: "in_room t r u \<longleftrightarrow> (r, u) \<in> membership ` set (tb_room_users t)"
  by (auto simp: in_room_def membership_def)

section \<open>The statements keep it\<close>

text \<open>Statements that touch neither the members nor which rooms are communities.\<close>

lemma communities_ok_cong:
  assumes "communities_ok t" "tb_room_users t' = tb_room_users t" "tb_next_id t \<le> tb_next_id t'"
    "\<And>r. r \<in> set (tb_rooms t') \<Longrightarrow>
      \<exists>q\<in>set (tb_rooms t). rooms_id q = rooms_id r \<and> (is_community r \<longrightarrow> is_community q)"
  shows "communities_ok t'"
proof (rule communities_okI)
  note ok = communities_okD[OF assms(1)]
  show "has_owner t' (rooms_id r)" if r: "r \<in> set (tb_rooms t')" "is_community r" for r
  proof -
    from assms(4)[OF r(1)] r(2) obtain q where q: "q \<in> set (tb_rooms t)" "is_community q" "rooms_id q = rooms_id r" by blast
    show ?thesis using ok(1)[OF q(1,2)] by (simp add: has_owner_iff assms(2) q(3))
  qed
  show "distinct (map membership (tb_room_users t'))" using ok(2) assms(2) by simp
  show "room_users_room_id m < tb_next_id t'" if "m \<in> set (tb_room_users t')" for m
    using ok(3)[of m] that assms(2,3) by fastforce
  show "rooms_id r < tb_next_id t'" if "r \<in> set (tb_rooms t')" for r
    using assms(4)[OF that] ok(4) assms(3) by fastforce
qed

text \<open>One more member.\<close>

lemma communities_ok_member:
  assumes "communities_ok t"
  shows "communities_ok (insert_room_user now r u role t)"
proof (cases "has_room t r \<and> has_account t u \<and> \<not> in_room t r u")
  case True
  note ok = communities_okD[OF assms]
  from True have "r < tb_next_id t" using ok(4) by (auto simp: has_room_def)
  with True ok show ?thesis
    by (intro communities_okI) (auto simp: insert_room_user_def has_owner_iff in_room_membership membership_def)
next
  case False
  then show ?thesis by (simp only: insert_room_user_def if_False assms)
qed

text \<open>Deleting rooms takes their members with them and no others.\<close>

lemma cascade_rooms_simps:
  "tb_room_users (cascade_rooms going t) = filter (\<lambda>r. room_users_room_id r \<notin> set going) (tb_room_users t)"
  "tb_rooms (cascade_rooms going t) = filter (\<lambda>r. rooms_id r \<notin> set going) (tb_rooms t)"
  "tb_next_id (cascade_rooms going t) = tb_next_id t"
  "tb_user_accounts (cascade_rooms going t) = tb_user_accounts t"
  "tb_users (cascade_rooms going t) = tb_users t"
  by (simp_all add: cascade_rooms_def cascade_messages_def Let_def)

lemma communities_ok_cascade:
  assumes "communities_ok t"
  shows "communities_ok (cascade_rooms going t)"
proof (rule communities_okI)
  note ok = communities_okD[OF assms] note c = cascade_rooms_simps[of going t]
  show "has_owner (cascade_rooms going t) (rooms_id r)"
    if "r \<in> set (tb_rooms (cascade_rooms going t))" "is_community r" for r
    using that ok(1)[of r] by (auto simp: c has_owner_iff)
  show "distinct (map membership (tb_room_users (cascade_rooms going t)))"
    using ok(2) by (simp add: c distinct_map_filter)
qed (use communities_okD(3,4)[OF assms] in \<open>auto simp: cascade_rooms_simps\<close>)

text \<open>The members of one room change: others keep their owners, and this one has one.\<close>

lemma communities_ok_members:
  assumes "communities_ok t" "tb_rooms t' = tb_rooms t" "tb_next_id t' = tb_next_id t"
    "distinct (map membership (tb_room_users t'))"
    "\<And>q. q \<noteq> r \<Longrightarrow> has_owner t q \<Longrightarrow> has_owner t' q"
    "has_owner t r \<Longrightarrow> has_owner t' r"
    "\<And>m. m \<in> set (tb_room_users t') \<Longrightarrow> \<exists>m'\<in>set (tb_room_users t). room_users_room_id m' = room_users_room_id m"
  shows "communities_ok t'"
proof (rule communities_okI)
  note ok = communities_okD[OF assms(1)]
  show "has_owner t' (rooms_id q)" if "q \<in> set (tb_rooms t')" "is_community q" for q
    using assms(5)[of "rooms_id q"] assms(6) ok(1)[of q] that assms(2) by (cases "rooms_id q = r") auto
  show "room_users_room_id m < tb_next_id t'" if "m \<in> set (tb_room_users t')" for m
  proof -
    from assms(7)[OF that] obtain m' where "m' \<in> set (tb_room_users t)" "room_users_room_id m' = room_users_room_id m" by blast
    with ok(3)[of m'] show ?thesis by (simp add: assms(3))
  qed
qed (use assms communities_okD(4)[OF assms(1)] in auto)

section \<open>The roles of a room as a map\<close>

definition role_map :: "tables \<Rightarrow> int \<Rightarrow> int \<Rightarrow> string option" where
  "role_map t roomID = map_of (member_roles t roomID)"

text \<open>What an update means: a new role, or no membership any more.\<close>

fun apply_update :: "member_update \<Rightarrow> (int \<Rightarrow> string option) \<Rightarrow> int \<Rightarrow> string option" where
  "apply_update (userID, action) m =
     (if action = MemberActionPromote then m(userID \<mapsto> RoomUserRoleOwner)
      else if action = MemberActionDemote then m(userID \<mapsto> RoomUserRoleMember)
      else m(userID := None))"

lemma distinct_members:
  assumes "distinct (map membership (tb_room_users t))"
  shows "distinct (map fst (member_roles t r))"
proof -
  have "distinct (map membership rows) \<Longrightarrow>
      distinct (map room_users_user_id (filter (\<lambda>m. room_users_room_id m = r) rows))" for rows
    by (auto simp: distinct_map inj_on_def membership_def)
  from this[OF assms] show ?thesis by (simp add: member_roles_def room_user_rows_def comp_def)
qed

lemma role_map_Some:
  assumes "role_map t r u = Some x"
  obtains m where "m \<in> set (tb_room_users t)" "room_users_room_id m = r" "room_users_user_id m = u"
    "room_users_role m = x"
  using map_of_SomeD[OF assms[unfolded role_map_def]]
  by (auto simp: member_roles_def room_user_rows_def)

lemma role_map_has_owner: "role_map t r u = Some RoomUserRoleOwner \<Longrightarrow> has_owner t r"
  by (erule role_map_Some) (auto simp: has_owner_iff)

lemma role_map_set:
  "role_map (set_role_where (\<lambda>m. room_users_room_id m = r \<and> room_users_user_id m \<in> S) x t) q u =
     (if q = r \<and> u \<in> S then map_option (\<lambda>_. x) (role_map t q u) else role_map t q u)"
proof -
  have "map_of (map (\<lambda>m. (room_users_user_id m, room_users_role m)) (filter (\<lambda>m. room_users_room_id m = q)
      (map (\<lambda>m. if room_users_room_id m = r \<and> room_users_user_id m \<in> S then m\<lparr>room_users_role := x\<rparr> else m) rows))) u =
    (if q = r \<and> u \<in> S then map_option (\<lambda>_. x)
       (map_of (map (\<lambda>m. (room_users_user_id m, room_users_role m)) (filter (\<lambda>m. room_users_room_id m = q) rows)) u)
     else map_of (map (\<lambda>m. (room_users_user_id m, room_users_role m)) (filter (\<lambda>m. room_users_room_id m = q) rows)) u)"
    for rows
  proof (induction rows)
    case (Cons m rows)
    then show ?case
      by (cases "room_users_room_id m = q"; cases "room_users_user_id m = u";
          cases "q = r"; cases "u \<in> S") simp_all
  qed simp
  from this[of "tb_room_users t"] show ?thesis
    by (simp add: role_map_def member_roles_def room_user_rows_def set_role_where_def)
qed

lemma role_map_delete:
  "role_map (delete_room_users_where (\<lambda>m. room_users_room_id m = r \<and> room_users_user_id m \<in> S) t) q u =
     (if q = r \<and> u \<in> S then None else role_map t q u)"
proof -
  have "map_of (map (\<lambda>m. (room_users_user_id m, room_users_role m)) (filter (\<lambda>m. room_users_room_id m = q)
      (filter (\<lambda>m. \<not> (room_users_room_id m = r \<and> room_users_user_id m \<in> S)) rows))) u =
    (if q = r \<and> u \<in> S then None
     else map_of (map (\<lambda>m. (room_users_user_id m, room_users_role m)) (filter (\<lambda>m. room_users_room_id m = q) rows)) u)"
    for rows by (induction rows) auto
  from this[of "tb_room_users t"] show ?thesis
    by (simp add: role_map_def member_roles_def room_user_rows_def delete_room_users_where_def)
qed

lemma fold_apply_update:
  assumes "distinct (map fst updates)"
  shows "fold apply_update updates m u =
    (case map_of updates u of None \<Rightarrow> m u | Some a \<Rightarrow> apply_update (u, a) m u)"
  using assms
proof (induction updates arbitrary: m)
  case (Cons p updates)
  obtain v a where p: "p = (v, a)" by fastforce
  from Cons.prems p have "map_of updates v = None" by (simp add: map_of_eq_None_iff)
  with Cons p show ?case by (auto split: option.splits)
qed simp

text \<open>What \<open>applyUpdates\<close> leaves.\<close>

definition members_after :: "int \<Rightarrow> member_update list \<Rightarrow> tables \<Rightarrow> tables" where
  "members_after r updates t =
     delete_room_users_where
       (\<lambda>m. room_users_room_id m = r \<and> room_users_user_id m \<in> set (members_doing MemberActionKick updates))
     (set_role_where
       (\<lambda>m. room_users_room_id m = r \<and> room_users_user_id m \<in> set (members_doing MemberActionDemote updates))
       RoomUserRoleMember
     (set_role_where
       (\<lambda>m. room_users_room_id m = r \<and> room_users_user_id m \<in> set (members_doing MemberActionPromote updates))
       RoomUserRoleOwner t))"

lemma in_members_doing:
  assumes "distinct (map fst updates)"
  shows "u \<in> set (members_doing a updates) \<longleftrightarrow> map_of updates u = Some a"
  using assms by (force simp: members_doing_def map_of_eq_Some_iff)

lemma validateUpdates_Inr:
  "validateUpdates seen updates = Inr () \<longleftrightarrow>
     distinct (map fst updates) \<and> fst ` set updates \<inter> set seen = {} \<and>
     snd ` set updates \<subseteq> {MemberActionPromote, MemberActionDemote, MemberActionKick}"
  by (induction seen updates rule: validateUpdates.induct) auto

lemma validateAndSimulate_Inr:
  "validateAndSimulate roles updates = Inr () \<longleftrightarrow>
     fst ` set updates \<subseteq> dom (map_of roles) \<and>
     owner_count (map (\<lambda>(u, role). (u, resultRole updates u role)) roles) \<noteq> 0"
proof (cases "List.find (\<lambda>u. map_of roles (fst u) = None) updates")
  case None
  then have "fst ` set updates \<subseteq> dom (map_of roles)" by (auto simp: find_None_iff dom_def)
  with None show ?thesis by (simp add: validateAndSimulate_def)
next
  case (Some p)
  then have "p \<in> set updates" "map_of roles (fst p) = None" by (auto simp: find_Some_iff)
  then have "\<not> fst ` set updates \<subseteq> dom (map_of roles)" by auto
  with Some show ?thesis by (simp add: validateAndSimulate_def)
qed

lemma role_map_steps:
  "role_map (members_after r updates t) q u =
    (if q \<noteq> r then role_map t q u
     else if u \<in> set (members_doing MemberActionKick updates) then None
     else if u \<in> set (members_doing MemberActionDemote updates) then
       map_option (\<lambda>_. RoomUserRoleMember) (role_map t q u)
     else if u \<in> set (members_doing MemberActionPromote updates) then
       map_option (\<lambda>_. RoomUserRoleOwner) (role_map t q u)
     else role_map t q u)"
  by (auto simp: members_after_def role_map_delete role_map_set option.map_comp comp_def)

lemma role_map_after:
  assumes "validateUpdates [] updates = Inr ()" "fst ` set updates \<subseteq> dom (role_map t r)"
  shows "role_map (members_after r updates t) q =
    (if q = r then fold apply_update updates (role_map t r) else role_map t q)"
proof
  fix u
  from assms(1) have d: "distinct (map fst updates)"
    and known: "snd ` set updates \<subseteq> {MemberActionPromote, MemberActionDemote, MemberActionKick}"
    by (simp_all add: validateUpdates_Inr)
  show "role_map (members_after r updates t) q u =
      (if q = r then fold apply_update updates (role_map t r) else role_map t q) u"
  proof (cases "map_of updates u")
    case None
    then show ?thesis
      by (simp add: role_map_steps in_members_doing[OF d] fold_apply_update[OF d])
  next
    case (Some a)
    from map_of_SomeD[OF Some] known assms(2)
    have "a = MemberActionPromote \<or> a = MemberActionDemote \<or> a = MemberActionKick" and "u \<in> dom (role_map t r)"
      by force+
    moreover from this(2) obtain x where "role_map t r u = Some x" by blast
    ultimately show ?thesis using Some
      by (elim disjE)
         (simp_all add: role_map_steps in_members_doing[OF d] fold_apply_update[OF d])
  qed
qed

section \<open>The transactions\<close>

lemma set_role_where_twice:
  assumes "\<And>m. P (m\<lparr>room_users_role := x\<rparr>) = P m"
  shows "set_role_where P x (set_role_where P' x t) = set_role_where (\<lambda>m. P' m \<or> P m) x t"
proof -
  have "(\<lambda>m. if P m then m\<lparr>room_users_role := x\<rparr> else m) \<circ> (\<lambda>m. if P' m then m\<lparr>room_users_role := x\<rparr> else m) =
      (\<lambda>m. if P' m \<or> P m then m\<lparr>room_users_role := x\<rparr> else m)"
    by (auto simp: fun_eq_iff assms)
  then show ?thesis by (simp add: set_role_where_def)
qed

lemma delete_where_twice:
  "delete_room_users_where P (delete_room_users_where P' t) = delete_room_users_where (\<lambda>m. P' m \<or> P m) t"
  by (simp add: delete_room_users_where_def)

lemma tx_valid_SetRoomUserRoles [tx_wp]:
  "tx_valid (\<lambda>t. Q () (set_role_where (\<lambda>m. room_users_room_id m = r \<and> room_users_user_id m \<in> set us) x t))
     (SetRoomUserRoles r us x) Q"
  unfolding SetRoomUserRoles_def
  by (rule tx_valid_inChunks)
     (simp_all add: fun_eq_iff set_role_where_twice conj_disj_distribL, simp add: set_role_where_def)

lemma tx_valid_RemoveUsersFromRoom [tx_wp]:
  "tx_valid (\<lambda>t. Q () (delete_room_users_where (\<lambda>m. room_users_room_id m = r \<and> room_users_user_id m \<in> set us) t))
     (RemoveUsersFromRoom r us) Q"
  unfolding RemoveUsersFromRoom_def
  by (rule tx_valid_inChunks)
     (simp_all add: fun_eq_iff delete_where_twice conj_disj_distribL, simp add: delete_room_users_where_def)

lemma tx_valid_lock [tx_wp]: "tx_valid (\<lambda>t. Q (member_roles t r) t) (LockRoomMemberRolesForUpdate r) Q"
  by (auto simp: tx_valid_def LockRoomMemberRolesForUpdate_def txQuery_def query_Inr_iff split: if_splits)

lemma contained_lock [contained_intros]: "Db.contained (LockRoomMemberRolesForUpdate r)"
  by (rule contained_reads)
     (auto simp: reads_def LockRoomMemberRolesForUpdate_def txQuery_def readsD[OF reads_query(1)] split: if_splits)

lemma tx_valid_DeleteRoom [tx_wp]:
  "tx_valid (\<lambda>t. Q False t \<and> (\<forall>going. Q True (cascade_rooms going t))) (DeleteRoom r) Q"
  unfolding DeleteRoom_def by (rule tx_valid_weaken, rule tx_wp) (auto split: if_splits)

lemma tx_valid_GetRoomByID [tx_wp]: "tx_valid (\<lambda>t. Q (find_room t r) t) (GetRoomByID r) Q"
  unfolding GetRoomByID_def by (rule tx_wp)

lemma tx_valid_RemoveUserFromRoom [tx_wp]:
  "tx_valid (\<lambda>t. Q () (delete_room_users_where (\<lambda>m. room_users_room_id m = r \<and> room_users_user_id m = u) t))
     (RemoveUserFromRoom r u) Q"
  unfolding RemoveUserFromRoom_def by (rule tx_wp)

text \<open>What the transaction of \<open>UpdateCommunityMembers\<close> does.\<close>

lemma applyUpdates_valid:
  "tx_valid (\<lambda>t. t = t0) (applyUpdates claims r updates)
     (\<lambda>_ t. t = members_after r updates t0 \<and>
        (IsAdminRole (cl_Role claims) \<or> role_map t0 r (cl_ID claims) = Some RoomUserRoleOwner) \<and>
        validateAndSimulate (member_roles t0 r) updates = Inr ())"
  unfolding applyUpdates_def
  by (rule tx_valid_weaken, (rule tx_wp)+) (auto simp: members_after_def role_map_def)

lemma UpdateCommunityMembers_Inr:
  assumes "UpdateCommunityMembers ctx cid updates w = (Inr r, w')" "db_tx w = None"
  obtains claims where "ClaimsFromContext ctx = Some claims" "validateUpdates [] updates = Inr ()"
    "db_committed w' = members_after r updates (db_committed w)"
    "IsAdminRole (cl_Role claims) \<or> role_map (db_committed w) r (cl_ID claims) = Some RoomUserRoleOwner"
    "validateAndSimulate (member_roles (db_committed w) r) updates = Inr ()"
proof -
  from assms obtain claims where c: "ClaimsFromContext ctx = Some claims" "validateUpdates [] updates = Inr ()"
    and run: "runInTx (applyUpdates claims r updates) (db_tick w) = (Inr (), w')"
    by (auto simp: UpdateCommunityMembers_def bindP_liftR_Inr RequireAuth_Inr_iff bindP_Inr_iff GetCommunityByID_def
        query_Inr_iff throw_def ret_def liftR_def split: option.splits)
  from runInTx_valid[OF run applyUpdates_valid[of "db_committed w"]] c
  show thesis by (intro that) auto
qed

text \<open>The simulation of the code says the truth: an owner remains.\<close>

lemma owner_after:
  assumes "validateUpdates [] updates = Inr ()" "validateAndSimulate (member_roles t r) updates = Inr ()"
    and keys: "distinct (map membership (tb_room_users t))"
  shows "RoomUserRoleOwner \<in> ran (role_map (members_after r updates t) r)"
proof -
  from assms(1) have d: "distinct (map fst updates)" by (simp add: validateUpdates_Inr)
  then have rev: "map_of (rev updates) = map_of updates" by (simp add: map_of_inject_set rev_map[symmetric])
  from assms(2) obtain u role where mem: "(u, role) \<in> set (member_roles t r)"
    and res: "resultRole updates u role = RoomUserRoleOwner"
    by (auto simp: validateAndSimulate_Inr owner_count_def filter_empty_conv)
  then have before: "role_map t r u = Some role"
    using distinct_members[OF keys] by (simp add: role_map_def)
  have sub: "fst ` set updates \<subseteq> dom (role_map t r)"
    using assms(2) by (simp add: validateAndSimulate_Inr role_map_def)
  have "a = MemberActionPromote \<or> a = MemberActionDemote \<or> a = MemberActionKick" if "map_of updates u = Some a" for a
    using assms(1) map_of_SomeD[OF that] by (force simp: validateUpdates_Inr)
  then have "role_map (members_after r updates t) r u = Some RoomUserRoleOwner"
    unfolding role_map_after[OF assms(1) sub, of r] using before res
    by (auto simp: fold_apply_update[OF d] resultRole_def rev RoomUserRoleOwner_def RoomUserRoleMember_def
        split: option.splits if_splits)
  then show ?thesis by (rule ranI)
qed

lemma membership_role [simp]: "membership (r\<lparr>room_users_role := x\<rparr>) = membership r"
  by (simp add: membership_def)

lemma members_after_simps:
  "tb_rooms (members_after r updates t) = tb_rooms t" "tb_next_id (members_after r updates t) = tb_next_id t"
  "tb_user_accounts (members_after r updates t) = tb_user_accounts t"
  by (simp_all add: members_after_def delete_room_users_where_def set_role_where_def)

lemma membership_set_role:
  "map membership (tb_room_users (set_role_where P x t)) = map membership (tb_room_users t)"
  by (simp add: set_role_where_def)

lemma membership_delete:
  "distinct (map membership (tb_room_users t)) \<Longrightarrow>
   distinct (map membership (tb_room_users (delete_room_users_where P t)))"
  "m \<in> set (tb_room_users (delete_room_users_where P t)) \<Longrightarrow> membership m \<in> set (map membership (tb_room_users t))"
  by (auto simp: delete_room_users_where_def distinct_map_filter)

lemma members_after_ok:
  assumes "communities_ok t" "has_owner (members_after r updates t) r"
  shows "communities_ok (members_after r updates t)"
proof (rule communities_ok_members[OF assms(1), of _ r])
  show "distinct (map membership (tb_room_users (members_after r updates t)))"
    using communities_okD(2)[OF assms(1)] by (simp add: members_after_def membership_delete membership_set_role)
  show "has_owner (members_after r updates t) q" if "q \<noteq> r" "has_owner t q" for q
    using that by (force simp: members_after_def delete_room_users_where_def set_role_where_def has_owner_iff)
  show "\<exists>m'\<in>set (tb_room_users t). room_users_room_id m' = room_users_room_id m"
    if "m \<in> set (tb_room_users (members_after r updates t))" for m
  proof -
    have "membership m \<in> set (map membership (tb_room_users t))"
      using membership_delete(2)[OF that[unfolded members_after_def]] by (simp only: membership_set_role)
    then show ?thesis by (auto simp: membership_def)
  qed
qed (simp_all add: members_after_simps assms(2))

section \<open>A change of the members\<close>

text \<open>C30: Changing the members of a community is the specified function of its roles. When
  \<open>UpdateCommunityMembers\<close> succeeds, the caller was an administrator or an owner; the roles of the room are
  the old ones with the updates applied in their order (promoted, demoted or gone), every other room is as
  it was, nothing but the members has changed, and an owner remains.\<close>

theorem members_update_refines:
  assumes "db_tx w = None" "distinct (map membership (tb_room_users (db_committed w)))"
    and "UpdateCommunityMembers ctx communityID updates w = (Ok roomID, w')"
  shows "\<exists>claims.
      ClaimsFromContext ctx = Some claims \<and>
      (IsAdminRole (cl_Role claims) \<or>
       role_map (db_committed w) roomID (cl_ID claims) = Some RoomUserRoleOwner) \<and>
      role_map (db_committed w') =
        (role_map (db_committed w))(roomID := fold apply_update updates (role_map (db_committed w) roomID)) \<and>
      RoomUserRoleOwner \<in> ran (role_map (db_committed w') roomID) \<and>
      db_committed w' = (db_committed w)\<lparr>tb_room_users := tb_room_users (db_committed w')\<rparr>"
  using assms(3,1)
proof (rule UpdateCommunityMembers_Inr)
  fix claims
  assume c: "ClaimsFromContext ctx = Some claims" "validateUpdates [] updates = Inr ()"
    and after: "db_committed w' = members_after roomID updates (db_committed w)"
    and may: "IsAdminRole (cl_Role claims) \<or> role_map (db_committed w) roomID (cl_ID claims) = Some RoomUserRoleOwner"
    and sim: "validateAndSimulate (member_roles (db_committed w) roomID) updates = Inr ()"
  have roles: "role_map (db_committed w') =
      (role_map (db_committed w))(roomID := fold apply_update updates (role_map (db_committed w) roomID))"
    using role_map_after[OF c(2), of "db_committed w" roomID] sim
    by (auto simp: after validateAndSimulate_Inr role_map_def fun_eq_iff)
  show ?thesis
    using c(1) may roles owner_after[OF c(2) sim assms(2)] by (auto simp: after members_after_def set_role_where_def
        delete_room_users_where_def)
qed

text \<open>A community of room 1 whose owner 7 hands it to the member 8 and becomes a member.\<close>

definition club_world :: app where
  "club_world = (sample_world [])\<lparr>db_committed := sample_tables\<lparr>
     tb_communities := [\<lparr>communities_id = 25, communities_room_id = 1, communities_name = ''club'',
       communities_description = [], communities_avatar_media_id = None\<rparr>]\<rparr>\<rparr>"

theorem members_update_refines_witness:
  "let updates = [(7, MemberActionDemote), (8, MemberActionPromote)];
       r = UpdateCommunityMembers (signed_in 7 ''user'') 25 updates club_world;
       before = role_map (db_committed club_world); after = role_map (db_committed (snd r)) in
   fst r = Ok 1 \<and> after = before(1 := fold apply_update updates (before 1)) \<and>
   map after [1, 2] = [[7 \<mapsto> RoomUserRoleMember, 8 \<mapsto> RoomUserRoleOwner], before 2]"
proof -
  let ?updates = "[(7, MemberActionDemote), (8, MemberActionPromote)]"
  let ?r = "UpdateCommunityMembers (signed_in 7 ''user'') 25 ?updates club_world"
  have pre: "db_tx club_world = None" "distinct (map membership (tb_room_users (db_committed club_world)))"
    and res: "fst ?r = Ok 1" by code_simp+
  then have "UpdateCommunityMembers (signed_in 7 ''user'') 25 ?updates club_world = (Ok 1, snd ?r)"
    by (metis prod.collapse)
  from members_update_refines[OF pre this]
  have roles: "role_map (db_committed (snd ?r)) = (role_map (db_committed club_world))
      (1 := fold apply_update ?updates (role_map (db_committed club_world) 1))" by blast
  have "member_roles (db_committed club_world) 1 = [(7, RoomUserRoleOwner), (8, RoomUserRoleMember)]" by code_simp
  then have "fold apply_update ?updates (role_map (db_committed club_world) 1) =
      [7 \<mapsto> RoomUserRoleMember, 8 \<mapsto> RoomUserRoleOwner]"
    by (simp add: role_map_def fun_eq_iff)
  with roles res show ?thesis by (simp add: Let_def)
qed

end
