(* ===== verification/Community_Props.thy ===== *)
theory Community_Props
  imports Community_Members
begin

text \<open>
  The operations on communities and DM rooms keep the invariant of Community_Members, in whatever order
  they are requested.
\<close>

section \<open>Every operation keeps the invariant\<close>

text \<open>The accounts are part of it: a community is given to somebody who has one.\<close>

definition community_inv :: "account_row list \<Rightarrow> tables \<Rightarrow> bool" where
  "community_inv accounts t \<longleftrightarrow> communities_ok t \<and> tb_user_accounts t = accounts"

lemma has_account_cong: "tb_user_accounts t = accounts \<Longrightarrow> has_account t u \<longleftrightarrow> u \<in> user_accounts_user_id ` set accounts"
  by (simp add: has_account_def)

lemma community_inv_cong:
  assumes "community_inv accounts t" "tb_room_users t' = tb_room_users t" "tb_next_id t \<le> tb_next_id t'"
    "tb_user_accounts t' = tb_user_accounts t"
    "\<And>r. r \<in> set (tb_rooms t') \<Longrightarrow>
      \<exists>q\<in>set (tb_rooms t). rooms_id q = rooms_id r \<and> (is_community r \<longrightarrow> is_community q)"
  shows "community_inv accounts t'"
  using assms communities_ok_cong[of t t'] by (simp add: community_inv_def)

lemma community_inv_member:
  "community_inv accounts t \<Longrightarrow> community_inv accounts (insert_room_user now r u role t)"
  by (simp add: community_inv_def communities_ok_member) (simp add: insert_room_user_def)

lemma community_inv_cascade: "community_inv accounts t \<Longrightarrow> community_inv accounts (cascade_rooms going t)"
  by (simp add: community_inv_def communities_ok_cascade cascade_rooms_simps)

text \<open>A new room that is no community; a new community with its owner.\<close>

lemma community_inv_room:
  assumes "community_inv accounts t" "rooms_id row = tb_next_id t" "\<not> is_community row"
  shows "community_inv accounts (t\<lparr>tb_next_id := tb_next_id t + 1, tb_rooms := tb_rooms t @ [row]\<rparr>)"
  unfolding community_inv_def
proof
  note ok = communities_okD[OF conjunct1[OF assms(1)[unfolded community_inv_def]]]
  show "communities_ok (t\<lparr>tb_next_id := tb_next_id t + 1, tb_rooms := tb_rooms t @ [row]\<rparr>)"
    using ok assms(2,3) by (intro communities_okI) (auto simp: has_owner_iff intro: less_trans[OF _ less_add_one] dest: ok(1,3,4))
qed (use assms(1) in \<open>simp add: community_inv_def\<close>)

lemma community_inv_create:
  assumes "community_inv accounts t" "u \<in> user_accounts_user_id ` set accounts" "rooms_id row = tb_next_id t"
  shows "community_inv accounts (insert_room_user now (tb_next_id t) u RoomUserRoleOwner
    (t\<lparr>tb_next_id := tb_next_id t + 1, tb_rooms := tb_rooms t @ [row]\<rparr>))"
proof -
  from assms(1) have acc: "tb_user_accounts t = accounts" and "communities_ok t" by (simp_all add: community_inv_def)
  note ok = communities_okD[OF this(2)]
  let ?t' = "t\<lparr>tb_next_id := tb_next_id t + 1, tb_rooms := tb_rooms t @ [row], tb_room_users := tb_room_users t @
       [\<lparr>room_users_room_id = tb_next_id t, room_users_user_id = u, room_users_role = RoomUserRoleOwner,
         room_users_created_at = now, room_users_last_read_message_id = None, room_users_last_read_at = None\<rparr>]\<rparr>"
  have "\<not> in_room t (tb_next_id t) u" using ok(3) by (force simp: in_room_def)
  then have new: "insert_room_user now (tb_next_id t) u RoomUserRoleOwner
      (t\<lparr>tb_next_id := tb_next_id t + 1, tb_rooms := tb_rooms t @ [row]\<rparr>) =
    ?t'"
    using assms(2,3) acc by (simp add: insert_room_user_def has_room_def has_account_def in_room_def)
  have fresh: "(tb_next_id t, u) \<notin> membership ` set (tb_room_users t)"
    using ok(3) by (force simp: membership_def)
  show ?thesis
    unfolding new community_inv_def
  proof (intro conjI communities_okI)
    fix r
    assume "r \<in> set (tb_rooms (?t'))" "is_community r"
    then show "has_owner ?t' (rooms_id r)"
      using ok(1)[of r] assms(3) by (auto simp: has_owner_iff)
  next
    show "distinct (map membership (tb_room_users ?t'))"
      using ok(2) fresh by (simp add: membership_def)
  qed (use acc assms(3) in \<open>auto dest: ok(3,4)\<close>)
qed

text \<open>A member leaves who is not the last owner among others.\<close>

lemma owner_stays:
  assumes "distinct (map membership (tb_room_users t))" "has_owner t r"
    and "map_of (member_roles t r) u = Some role" "length (member_roles t r) \<noteq> 1"
    and "\<not> (role = RoomUserRoleOwner \<and> owner_count (member_roles t r) = 1 \<and> 1 < length (member_roles t r))"
  shows "has_owner (delete_room_users_where (\<lambda>m. room_users_room_id m = r \<and> room_users_user_id m = u) t) r"
proof -
  let ?roles = "member_roles t r"
  have d: "distinct (map fst ?roles)" using assms(1) by (rule distinct_members)
  have "\<exists>v. v \<noteq> u \<and> (v, RoomUserRoleOwner) \<in> set ?roles"
  proof (rule ccontr)
    assume "\<not> ?thesis"
    then have own: "(v, x) \<in> set ?roles \<Longrightarrow> x = RoomUserRoleOwner \<Longrightarrow> v = u" for v x by blast
    from assms(2) obtain m where "m \<in> set (tb_room_users t)" "room_users_room_id m = r" "room_users_role m = RoomUserRoleOwner"
      by (auto simp: has_owner_iff)
    then have "(room_users_user_id m, RoomUserRoleOwner) \<in> set ?roles"
      by (force simp: member_roles_def room_user_rows_def)
    with own have mem: "(u, RoomUserRoleOwner) \<in> set ?roles" by blast
    from map_of_is_SomeI[OF d this] assms(3) have role: "role = RoomUserRoleOwner" by (simp only: option.inject)
    have "filter (\<lambda>p. snd p = RoomUserRoleOwner) ?roles = filter (\<lambda>p. p = (u, RoomUserRoleOwner)) ?roles"
      by (rule filter_cong[OF refl]) (metis own prod.collapse snd_conv)
    also have "length \<dots> = 1"
    proof -
      have "{p. p = (u, RoomUserRoleOwner)} \<inter> set ?roles = {(u, RoomUserRoleOwner)}" using mem by auto
      then show ?thesis using d by (simp add: distinct_map distinct_length_filter)
    qed
    finally have "owner_count ?roles = 1" by (simp add: owner_count_def)
    moreover from mem assms(4) have "1 < length ?roles" by (cases ?roles) auto
    ultimately show False using assms(5) role by blast
  qed
  then show ?thesis
    by (force simp: has_owner_iff delete_room_users_where_def member_roles_def room_user_rows_def)
qed

section \<open>The operations\<close>

lemma community_contained [contained_intros]:
  "Db.contained (SaveRoom rm)" "Db.contained (DeleteRoom r)" "Db.contained (insert_media u k c)"
  "Db.contained (SetRoomUserRoles r us x)" "Db.contained (RemoveUsersFromRoom r us)"
  "Db.contained (RemoveUserFromRoom r u)" "Db.contained (GetRoomByID r)"
  unfolding SaveRoom_def DeleteRoom_def insert_media_def SetRoomUserRoles_def RemoveUsersFromRoom_def
    RemoveUserFromRoom_def GetRoomByID_def
  by (intro contained_intros)+

lemma tx_valid_SaveRoom [tx_wp]:
  "tx_valid (\<lambda>t. \<forall>row. rooms_id row = tb_next_id t \<longrightarrow> rooms_type row = rm_Type rm \<longrightarrow>
       rooms_parent_room_id row = rm_ParentRoomID rm \<longrightarrow>
       Q (rm\<lparr>rm_ID := tb_next_id t\<rparr>) (t\<lparr>tb_next_id := tb_next_id t + 1, tb_rooms := tb_rooms t @ [row]\<rparr>))
     (SaveRoom rm) Q"
  unfolding SaveRoom_def by (rule tx_valid_weaken, rule tx_wp) (auto split: if_splits)

lemma tx_valid_insert_media [tx_wp]:
  "tx_valid (\<lambda>t. \<forall>x ms. Q x (t\<lparr>tb_next_id := tb_next_id t + 1, tb_media := ms\<rparr>)) (insert_media u k c) Q"
  unfolding insert_media_def by (rule tx_valid_weaken, rule tx_wp) (auto split: if_splits)

lemma find_or_create_dm_stable: "stable (community_inv accounts) (FindOrCreateDMRoom u v)"
proof -
  have "tx_valid (community_inv accounts) (find_or_create_dm a b) (\<lambda>_. community_inv accounts)" for a b
    unfolding find_or_create_dm_def
    by (rule tx_valid_weaken, (rule tx_wp)+)
       (auto simp: is_community_def new_room_def intro!: community_inv_member community_inv_room)
  moreover have "Db.contained (find_or_create_dm a b)" for a b
    unfolding find_or_create_dm_def by (intro contained_intros)
  ultimately show ?thesis unfolding FindOrCreateDMRoom_def by (intro stable_runInTx)
qed

lemma community_inv_media:
  "community_inv accounts t \<Longrightarrow> community_inv accounts (t\<lparr>tb_next_id := tb_next_id t + 1, tb_media := ms\<rparr>)"
  by (erule community_inv_cong) auto

lemma save_community_stable:
  assumes "u \<in> user_accounts_user_id ` set accounts"
  shows "stable (community_inv accounts) (SaveCommunityWithRoom name descr avatar u)"
  unfolding SaveCommunityWithRoom_def
proof (rule stable_runInTx, goal_cases)
  case 2
  have last: "community_inv accounts (t\<lparr>tb_next_id := tb_next_id t + 1, tb_communities := cs\<rparr>)"
    if "community_inv accounts t" for t cs by (rule community_inv_cong[OF that]) auto
  have icon: "community_inv accounts (insert_room_user n (tb_next_id t + 1) u RoomUserRoleOwner
      (t\<lparr>tb_media := ms, tb_next_id := 2 + tb_next_id t, tb_rooms := tb_rooms t @ [row]\<rparr>))"
    if "community_inv accounts t" "rooms_id row = tb_next_id t + 1" for t ms row n
    using community_inv_create[OF community_inv_media[OF that(1)] assms, of row ms n] that(2)
    by (simp add: add.commute)
  show ?case
    by (rule tx_valid_weaken, (rule tx_wp)+)
       (auto simp: new_room_def intro!: last icon community_inv_create assms)
qed (intro contained_intros)

lemma update_row_stable: "stable (community_inv accounts) (UpdateCommunityRow c avatar)"
  unfolding UpdateCommunityRow_def
proof (rule stable_bindP, rule stable_reads[OF reads_basic(5)], rule stable_runInTx, goal_cases)
  case (2 now)
  show ?case
    by (rule tx_valid_weaken, (rule tx_wp)+)
       (auto elim!: community_inv_cong simp: is_community_def, blast+)
qed (intro contained_intros)

lemma leave_stable: "stable (community_inv accounts) (LeaveCommunity ctx r)"
proof -
  have left: "community_inv accounts
      (delete_room_users_where (\<lambda>m. room_users_room_id m = r \<and> room_users_user_id m = u) t)"
    if "community_inv accounts t" "map_of (member_roles t r) u = Some role" "length (member_roles t r) \<noteq> 1"
      "\<not> (role = RoomUserRoleOwner \<and> owner_count (member_roles t r) = 1 \<and> 1 < length (member_roles t r))"
    for t u role
    unfolding community_inv_def
  proof
    from that(1) have ok: "communities_ok t" by (simp add: community_inv_def)
    show "communities_ok (delete_room_users_where (\<lambda>m. room_users_room_id m = r \<and> room_users_user_id m = u) t)"
      using owner_stays[OF communities_okD(2)[OF ok] _ that(2-4)] communities_okD(2)[OF ok]
      by (intro communities_ok_members[OF ok, of _ r])
         (auto simp: delete_room_users_where_def distinct_map_filter has_owner_iff)
  qed (use that(1) in \<open>simp add: community_inv_def delete_room_users_where_def\<close>)
  have "tx_valid (community_inv accounts) (leaveRoom claims r) (\<lambda>_. community_inv accounts)" for claims
    unfolding leaveRoom_def
    by (rule tx_valid_weaken, (rule tx_wp)+) (auto intro: left community_inv_cascade)
  then show ?thesis
    unfolding LeaveCommunity_def leaveRoom_def
    by (intro stable_intros stable_runInTx contained_intros)
qed

lemma members_stable: "stable (community_inv accounts) (UpdateCommunityMembers ctx cid updates)"
proof (rule stableI)
  fix w r and w' :: app
  assume run: "UpdateCommunityMembers ctx cid updates w = (r, w')" and tx: "db_tx w = None"
    and inv: "community_inv accounts (db_committed w)"
  have atom: "atomicP (\<lambda>_. ()) (UpdateCommunityMembers ctx cid updates)"
    unfolding UpdateCommunityMembers_def applyUpdates_def GetCommunityByID_def
    by (intro atomicP_bindP atomicP_option atomicP_then[OF atomicP_runInTx] infallible_ret atomicP_reads
        contained_intros reads_intros)
  show "db_tx w' = None \<and> community_inv accounts (db_committed w')"
  proof (cases r)
    case (Inl e)
    with atomicPD[OF atom run tx] inv show ?thesis by simp
  next
    case (Inr roomID)
    from run[unfolded Inr] tx obtain claims where v: "validateUpdates [] updates = Inr ()"
      and after: "db_committed w' = members_after roomID updates (db_committed w)"
      and sim: "validateAndSimulate (member_roles (db_committed w) roomID) updates = Inr ()"
      by (rule UpdateCommunityMembers_Inr)
    from inv have ok: "communities_ok (db_committed w)" by (simp add: community_inv_def)
    from owner_after[OF v sim communities_okD(2)[OF ok]]
    have owner: "has_owner (members_after roomID updates (db_committed w)) roomID"
      by (auto simp: ran_def intro: role_map_has_owner)
    show ?thesis
      using atomicPD(1)[OF atom run tx] inv members_after_ok[OF ok owner]
      by (simp add: after community_inv_def members_after_simps)
  qed
qed

section \<open>Communities always have an owner\<close>

lemma accept_icon_stable: "stable I (acceptIcon (Some (\<lambda>ctx kind key. liftR (store kind key))) ctx u key)"
  unfolding acceptIcon_def sessionAccept_def option.case by (intro stable_intros)

lemma discardOnError_stable: "stable I m \<Longrightarrow> stable I (discardOnError keys m)"
  by (auto simp: stable_def discardOnError_def split: prod.splits sum.splits)

datatype community_op =
    CreateOp string string "string option"
  | UpdateOp int "string option" "string option" "string option"
  | JoinOp int
  | LeaveOp int
  | MembersOp int "member_update list"
  | OpenDMOp int
  | DeleteDMOp int

definition run_community_op ::
  "(string \<Rightarrow> string \<Rightarrow> string result) \<Rightarrow> request_ctx \<Rightarrow> community_op \<Rightarrow> (app, unit) proc" where
  "run_community_op store ctx op =
     (let uploads = Some (\<lambda>ctx kind key. liftR (store kind key)) in
      case op of
        CreateOp name descr key \<Rightarrow> bindP (CreateCommunity uploads ctx name descr key) (\<lambda>_. ret ())
      | UpdateOp cid name descr key \<Rightarrow> bindP (UpdateCommunity uploads ctx cid name descr key) (\<lambda>_. ret ())
      | JoinOp r \<Rightarrow> bindP (JoinRoom ctx r) (\<lambda>_. ret ())
      | LeaveOp r \<Rightarrow> bindP (LeaveCommunity ctx r) (\<lambda>_. ret ())
      | MembersOp cid updates \<Rightarrow> bindP (UpdateCommunityMembers ctx cid updates) (\<lambda>_. ret ())
      | OpenDMOp u \<Rightarrow> bindP (GetOrCreateDMRoom ctx u) (\<lambda>_. ret ())
      | DeleteDMOp r \<Rightarrow> bindP (DeleteOrphanedDM ctx r) (\<lambda>_. ret ()))"

text \<open>Requests one after the other, each with its caller and its time; the failing ones too.\<close>

definition run_community ::
  "(string \<Rightarrow> string \<Rightarrow> string result) \<Rightarrow> (request_ctx \<times> community_op \<times> int) list \<Rightarrow> app \<Rightarrow> app" where
  "run_community store requests w =
     fold (\<lambda>(ctx, op, now) w. snd (run_community_op store ctx op (w\<lparr>db_now := now\<rparr>))) requests w"

definition caller_has_account :: "tables \<Rightarrow> request_ctx \<Rightarrow> bool" where
  "caller_has_account t ctx \<longleftrightarrow>
     (case ClaimsFromContext ctx of None \<Rightarrow> True | Some c \<Rightarrow> has_account t (cl_ID c))"

lemma create_stable:
  assumes "\<And>claims. ClaimsFromContext ctx = Some claims \<Longrightarrow> cl_ID claims \<in> user_accounts_user_id ` set accounts"
  shows "stable (community_inv accounts)
    (CreateCommunity (Some (\<lambda>ctx kind key. liftR (store kind key))) ctx name descr key)"
proof (cases "ClaimsFromContext ctx")
  case None
  then show ?thesis
    by (simp add: CreateCommunity_def RequireAuth_def stable_def bindP_def liftR_def)
next
  case (Some claims)
  then have eq: "liftR (RequireAuth ctx) = ret claims" by (simp add: fun_eq_iff RequireAuth_def liftR_def ret_def)
  show ?thesis
    unfolding CreateCommunity_def eq bindP_ret
    by (intro stable_intros accept_icon_stable discardOnError_stable save_community_stable assms[OF Some])
qed

lemma community_op_stable:
  assumes "\<And>claims. ClaimsFromContext ctx = Some claims \<Longrightarrow> cl_ID claims \<in> user_accounts_user_id ` set accounts"
  shows "stable (community_inv accounts) (run_community_op store ctx op)"
proof -
  have orphan: "tx_valid (community_inv accounts) (deleteOrphaned claims r) (\<lambda>_. community_inv accounts)" for claims r
    unfolding deleteOrphaned_def
    by (rule tx_valid_weaken, (rule tx_wp)+) (auto intro: community_inv_cascade)
  have orphan_contained: "Db.contained (deleteOrphaned claims r)" for claims r
    unfolding deleteOrphaned_def by (intro contained_intros)
  have queries: "reads (GetCommunityByID cid)" "reads (ensureOwnerOrAdmin c r)" "reads (GetRoomByID r)"
    "reads (GetUserByID u)" for cid c r u
    unfolding GetCommunityByID_def ensureOwnerOrAdmin_def GetRoomUserRole_def GetRoomByID_def GetUserByID_def
    by (intro reads_intros)+
  have join: "stable (community_inv accounts) (AddUserToRoom r u)" for r u
    unfolding AddUserToRoom_def by (intro stable_intros stable_exec community_inv_member)
  show ?thesis
    unfolding run_community_op_def Let_def UpdateCommunity_def JoinRoom_def GetOrCreateDMRoom_def DeleteOrphanedDM_def
    by (cases op;
        simp only: community_op.case;
        intro stable_intros create_stable assms leave_stable members_stable find_or_create_dm_stable join
          queries[THEN stable_reads] update_row_stable accept_icon_stable discardOnError_stable
          stable_runInTx orphan orphan_contained)
qed

text \<open>C29: Every community has an owner. Whatever is asked - communities created and renamed, joined and left,
  members promoted, demoted and kicked, DM rooms opened and deleted - by whom, in which order and whichever
  statements fail, no community is ever left without an owner, and nobody becomes a member of a room twice.\<close>

theorem community_keeps_owner:
  assumes "db_tx w = None" "communities_ok (db_committed w)"
    and "list_all (\<lambda>(ctx, _). caller_has_account (db_committed w) ctx) requests"
  shows "communities_ok (db_committed (run_community store requests w))"
proof -
  let ?inv = "community_inv (tb_user_accounts (db_committed w))"
  have "db_tx v = None \<Longrightarrow> ?inv (db_committed v) \<Longrightarrow> ?inv (db_committed (run_community store requests v))" for v
    using assms(3)
  proof (induction requests arbitrary: v)
    case (Cons q requests)
    obtain ctx op now where q: "q = (ctx, op, now)" by (cases q) auto
    obtain r v' where run: "run_community_op store ctx op (v\<lparr>db_now := now\<rparr>) = (r, v')" by fastforce
    have "stable ?inv (run_community_op store ctx op)"
      using Cons.prems(3) by (intro community_op_stable) (auto simp: q caller_has_account_def has_account_def)
    from stableD[OF this run] Cons.prems have "db_tx v' = None" "?inv (db_committed v')" by auto
    with Cons run show ?case by (simp add: run_community_def q)
  qed (simp add: run_community_def)
  from this[of w] assms(1,2) show ?thesis by (simp add: community_inv_def)
qed

text \<open>User 7 founds a club, 8 joins it; 7 may not leave alone, promotes 8 and then leaves.\<close>

definition club_requests :: "(request_ctx \<times> community_op \<times> int) list" where
  "club_requests =
     [(signed_in 7 ''user'', CreateOp ''club'' [] None, 200), (signed_in 8 ''user'', JoinOp 30, 210),
      (signed_in 7 ''user'', LeaveOp 30, 220), (signed_in 7 ''user'', MembersOp 31 [(8, MemberActionPromote)], 230),
      (signed_in 7 ''user'', LeaveOp 30, 240)]"

theorem community_keeps_owner_witness:
  "let t = db_committed (run_community (\<lambda>kind key. Ok key) club_requests (sample_world [])) in
   communities_ok t \<and> member_roles t 30 = [(8, RoomUserRoleOwner)]"
proof -
  have pre: "db_tx (sample_world []) = None" "communities_ok (db_committed (sample_world []))"
    "list_all (\<lambda>(ctx, _). caller_has_account (db_committed (sample_world [])) ctx) club_requests"
    by code_simp+
  have "member_roles (db_committed (run_community (\<lambda>kind key. Ok key) club_requests (sample_world []))) 30 =
      [(8, RoomUserRoleOwner)]"
    by code_simp
  with community_keeps_owner[OF pre, of "\<lambda>kind key. Ok key"] show ?thesis by (simp add: Let_def)
qed

section \<open>A DM with oneself\<close>

text \<open>\<open>GetOrCreateDMRoom\<close> does not ask whether the partner is the caller. \<open>FindOrCreateDMRoom\<close> then looks for a DM
  room the caller is in twice over, which every DM room of the caller is: user 7 asking for a DM with
  themselves is given the DM of 7 and 8, and would write there.\<close>

lemma dm_with_oneself:
  "let r = GetOrCreateDMRoom (signed_in 7 ''user'') 7 (sample_world []) in
   map_sum id rm_ID (fst r) = Inr 2 \<and> map fst (member_roles (db_committed (snd r)) 2) = [7, 8]"
  by code_simp

end
