(* ===== verification/User_Store.thy ===== *)
theory User_Store
  imports Room_Store User_Session
begin

text \<open>
  Accounts in the database: infra/mysql/user_repository.go and the profile of infra/mysql/profile_repository.go.
  An account is a row of \<open>users\<close>, which stays for ever, and one of \<open>user_accounts\<close>, which goes with the personal
  data. Texts are compared by the collation of the database: two texts are equal when their keys are, and the
  key is the parameter \<open>C\<close>. The lists of the administrators' pages and the prefix search are left out.
\<close>

section \<open>Reading\<close>

type_synonym collation = "string \<Rightarrow> string"

text \<open>\<open>userFrom\<close> and \<open>visibleUserCond\<close>.\<close>

definition user_rows :: "tables \<Rightarrow> (user_row \<times> account_row) list" where
  "user_rows t = [(u, a). u \<leftarrow> tb_users t, a \<leftarrow> tb_user_accounts t, user_accounts_user_id a = users_id u]"

definition visible :: "user_row \<Rightarrow> bool" where
  "visible u \<longleftrightarrow> users_status u \<noteq> StatusDeactivated"

text \<open>\<open>scanUser\<close>, \<open>scanUserAccount\<close>, \<open>scanUserCredentials\<close>.\<close>

definition scanUser :: "user_row \<times> account_row \<Rightarrow> user" where
  "scanUser row = (case row of (u, a) \<Rightarrow>
     \<lparr>us_ID = users_id u, us_AccountID = user_accounts_account_id a, us_Name = user_accounts_name a,
      us_Role = user_accounts_role a, us_Status = users_status u\<rparr>)"

definition scanUserAccount :: "user_row \<times> account_row \<Rightarrow> user_account" where
  "scanUserAccount row =
     user.extend (scanUser row) \<lparr>ua_Email = user_accounts_email (snd row)\<rparr>"

definition scanUserCredentials :: "user_row \<times> account_row \<Rightarrow> user_credentials" where
  "scanUserCredentials row =
     user_account.extend (scanUserAccount row)
       \<lparr>uc_HashedPassword = user_accounts_hashed_password (snd row),
        uc_CredentialsVersion = user_accounts_credentials_version (snd row)\<rparr>"

definition mu_GetUserByID :: "int \<Rightarrow> ('o db, user option) proc" where
  "mu_GetUserByID i = dbQuery (\<lambda>t.
     map_option scanUser (List.find (\<lambda>(u, a). users_id u = i \<and> visible u) (user_rows t)))"

definition mu_GetUsersByIDs :: "int list \<Rightarrow> ('o db, user list) proc" where
  "mu_GetUsersByIDs ids =
     (if ids = [] then ret []
      else dbQuery (\<lambda>t. map scanUser (filter (\<lambda>(u, a). users_id u \<in> set ids \<and> visible u) (user_rows t))))"

definition mu_GetUserAccountByID :: "int \<Rightarrow> ('o db, user_account option) proc" where
  "mu_GetUserAccountByID i = dbQuery (\<lambda>t.
     map_option scanUserAccount (List.find (\<lambda>(u, a). users_id u = i) (user_rows t)))"

definition mu_GetUserAccountsByIDs :: "int list \<Rightarrow> ('o db, user_account list) proc" where
  "mu_GetUserAccountsByIDs ids =
     (if ids = [] then ret []
      else dbQuery (\<lambda>t. map scanUserAccount (filter (\<lambda>(u, a). users_id u \<in> set ids) (user_rows t))))"

definition mu_FindByEmail :: "collation \<Rightarrow> string \<Rightarrow> ('o db, user option) proc" where
  "mu_FindByEmail C email = poolQuery (\<lambda>t.
     map_option scanUser (List.find (\<lambda>(u, a). C (user_accounts_email a) = C email) (user_rows t)))"

definition mu_FindCredentialsByEmail :: "collation \<Rightarrow> string \<Rightarrow> ('o db, user_credentials option) proc" where
  "mu_FindCredentialsByEmail C email = poolQuery (\<lambda>t.
     map_option scanUserCredentials (List.find (\<lambda>(u, a). C (user_accounts_email a) = C email) (user_rows t)))"

definition mu_GetCredentialsByID :: "int \<Rightarrow> ('o db, user_credentials option) proc" where
  "mu_GetCredentialsByID i = dbQuery (\<lambda>t.
     map_option scanUserCredentials (List.find (\<lambda>(u, a). users_id u = i) (user_rows t)))"

definition ErrNoRows :: go_error where
  "ErrNoRows = Errorf ''sql: no rows in result set''"

definition account_of :: "tables \<Rightarrow> int \<Rightarrow> account_row option" where
  "account_of t i = List.find (\<lambda>a. user_accounts_user_id a = i) (tb_user_accounts t)"

definition mu_GetCredentialsVersionByID :: "int \<Rightarrow> ('o db, int) proc" where
  "mu_GetCredentialsVersionByID i = dbCall (\<lambda>t.
     (case account_of t i of None \<Rightarrow> Err ErrNoRows | Some a \<Rightarrow> Ok (user_accounts_credentials_version a), t))"

section \<open>Writing\<close>

text \<open>The unique keys of \<open>user_accounts\<close>; \<open>translateUserWriteError\<close> hides which address is taken.\<close>

definition taken :: "collation \<Rightarrow> (account_row \<Rightarrow> string) \<Rightarrow> tables \<Rightarrow> int \<Rightarrow> string \<Rightarrow> bool" where
  "taken C col t i x \<longleftrightarrow>
     list_ex (\<lambda>a. user_accounts_user_id a \<noteq> i \<and> C (col a) = C x) (tb_user_accounts t)"

definition account_id_taken :: go_error where
  "account_id_taken = Errorf ''account_id is already taken''"

definition set_users :: "(user_row \<Rightarrow> bool) \<Rightarrow> (user_row \<Rightarrow> user_row) \<Rightarrow> tables \<Rightarrow> tables" where
  "set_users P f t = t\<lparr>tb_users := map (\<lambda>u. if P u then f u else u) (tb_users t)\<rparr>"

definition set_accounts :: "(account_row \<Rightarrow> bool) \<Rightarrow> (account_row \<Rightarrow> account_row) \<Rightarrow> tables \<Rightarrow> tables" where
  "set_accounts P f t = t\<lparr>tb_user_accounts := map (\<lambda>a. if P a then f a else a) (tb_user_accounts t)\<rparr>"

text \<open>\<open>UPDATE users u JOIN user_accounts a\<close>: nothing happens to somebody without personal data.\<close>

definition mu_UpdateUser :: "collation \<Rightarrow> user \<Rightarrow> ('o db, unit) proc" where
  "mu_UpdateUser C u =
     bindP nowP (\<lambda>now. dbCall (\<lambda>t.
       if \<not> (has_user t (us_ID u) \<and> has_account t (us_ID u)) then (Ok (), t)
       else if taken C user_accounts_account_id t (us_ID u) (us_AccountID u) then (Err account_id_taken, t)
       else (Ok (),
         set_users (\<lambda>r. users_id r = us_ID u) (\<lambda>r. r\<lparr>users_status := us_Status u\<rparr>)
          (set_accounts (\<lambda>a. user_accounts_user_id a = us_ID u)
            (\<lambda>a. a\<lparr>user_accounts_account_id := us_AccountID u, user_accounts_name := us_Name u,
                   user_accounts_role := us_Role u, user_accounts_updated_at := now\<rparr>) t))))"

definition updateCredentials :: "collation \<Rightarrow> int \<Rightarrow> user_credentials \<Rightarrow> ('o db, unit) proc" where
  "updateCredentials C now c =
     inTx (bindP (dbCall (\<lambda>t.
         if \<not> has_account t (us_ID c) then (Ok (), t)
         else if taken C user_accounts_account_id t (us_ID c) (us_AccountID c) then (Err account_id_taken, t)
         else if taken C user_accounts_email t (us_ID c) (ua_Email c) then (Err (Errorf ''email update failed''), t)
         else (Ok (), set_accounts (\<lambda>a. user_accounts_user_id a = us_ID c)
           (\<lambda>a. a\<lparr>user_accounts_account_id := us_AccountID c, user_accounts_name := us_Name c,
                  user_accounts_email := ua_Email c,
                  user_accounts_credentials_version := user_accounts_credentials_version a +
                    (if C (user_accounts_hashed_password a) \<noteq> C (uc_HashedPassword c) then 1 else 0),
                  user_accounts_hashed_password := uc_HashedPassword c,
                  user_accounts_role := us_Role c, user_accounts_updated_at := now\<rparr>) t))) (\<lambda>_.
       dbExec (set_users (\<lambda>r. users_id r = us_ID c) (\<lambda>r. r\<lparr>users_status := us_Status c\<rparr>))))"

text \<open>The two rows of a new account.\<close>

definition createUser :: "collation \<Rightarrow> int \<Rightarrow> user_credentials \<Rightarrow> ('o db, int) proc" where
  "createUser C now c =
     inTx (bindP (dbCall (\<lambda>t. (Ok (tb_next_id t), t\<lparr>tb_next_id := tb_next_id t + 1, tb_users := tb_users t @
              [\<lparr>users_id = tb_next_id t, users_status = us_Status c, users_deactivated_at = None,
                users_deleted_at = None, users_created_at = now\<rparr>]\<rparr>))) (\<lambda>i.
       bindP (dbCall (\<lambda>t.
         if taken C user_accounts_account_id t i (us_AccountID c) then (Err account_id_taken, t)
         else if taken C user_accounts_email t i (ua_Email c)
         then (Err (Errorf ''registration failed: check your input''), t)
         else (Ok (), t\<lparr>tb_user_accounts := tb_user_accounts t @
            [\<lparr>user_accounts_user_id = i, user_accounts_name = us_Name c, user_accounts_role = us_Role c,
              user_accounts_credentials_version = 0, user_accounts_last_active_at = None,
              user_accounts_account_id = us_AccountID c, user_accounts_email = ua_Email c,
              user_accounts_hashed_password = uc_HashedPassword c, user_accounts_updated_at = now\<rparr>]\<rparr>))) (\<lambda>_.
       ret i)))"

text \<open>\<open>SaveCredentials\<close>: the credentials without an ID are new ones, and are given one.\<close>

definition mu_SaveCredentials :: "collation \<Rightarrow> user_credentials \<Rightarrow> ('o db, int) proc" where
  "mu_SaveCredentials C c =
     bindP nowP (\<lambda>now.
       if us_ID c = 0 then createUser C now c
       else bindP (updateCredentials C now c) (\<lambda>_. ret (us_ID c)))"

section \<open>The stages of leaving\<close>

record user_lifecycle =
  lc_Status :: user_status
  lc_DeactivatedAt :: "int option"

text \<open>In seconds.\<close>

definition AccountDeletionGracePeriod :: int where
  "AccountDeletionGracePeriod = 15 * 24 * 3600"

definition GracePeriodExpired :: "int \<Rightarrow> user_lifecycle \<Rightarrow> bool" where
  "GracePeriodExpired now l \<longleftrightarrow>
     lc_Status l = StatusDeactivated \<and>
     (case lc_DeactivatedAt l of None \<Rightarrow> False | Some at \<Rightarrow> \<not> now < at + AccountDeletionGracePeriod)"

definition mu_DeactivateUser :: "int \<Rightarrow> int \<Rightarrow> ('o db, bool) proc" where
  "mu_DeactivateUser i at = dbCall (\<lambda>t.
     if has_account t i \<and> list_ex (\<lambda>u. users_id u = i \<and> users_status u = StatusActive) (tb_users t)
     then (Ok True,
       set_users (\<lambda>u. users_id u = i \<and> users_status u = StatusActive)
           (\<lambda>u. u\<lparr>users_status := StatusDeactivated, users_deactivated_at := Some at\<rparr>)
         (set_accounts (\<lambda>a. user_accounts_user_id a = i)
           (\<lambda>a. a\<lparr>user_accounts_credentials_version := user_accounts_credentials_version a + 1\<rparr>) t))
     else (Ok False, t))"

definition mu_ReactivateUser :: "int \<Rightarrow> ('o db, bool) proc" where
  "mu_ReactivateUser i = dbCall (\<lambda>t.
     (Ok (list_ex (\<lambda>u. users_id u = i \<and> users_status u = StatusDeactivated) (tb_users t)),
      set_users (\<lambda>u. users_id u = i \<and> users_status u = StatusDeactivated)
        (\<lambda>u. u\<lparr>users_status := StatusActive, users_deactivated_at := None\<rparr>) t))"

definition mu_LockUserLifecycle :: "int \<Rightarrow> ('o db, user_lifecycle option) proc" where
  "mu_LockUserLifecycle i = dbQuery (\<lambda>t.
     map_option (\<lambda>u. \<lparr>lc_Status = users_status u, lc_DeactivatedAt = users_deactivated_at u\<rparr>)
       (List.find (\<lambda>u. users_id u = i) (tb_users t)))"

text \<open>\<open>ORDER BY deactivated_at ASC, id ASC LIMIT ?\<close>.\<close>

definition due :: "int \<Rightarrow> user_row \<Rightarrow> bool" where
  "due before u \<longleftrightarrow>
     users_status u = StatusDeactivated \<and>
     (case users_deactivated_at u of None \<Rightarrow> False | Some at \<Rightarrow> at \<le> before)"

definition due_ids :: "int \<Rightarrow> nat \<Rightarrow> tables \<Rightarrow> int list" where
  "due_ids before limit t =
     map users_id (take limit (sort_key (\<lambda>u. (the (users_deactivated_at u), users_id u)) (filter (due before) (tb_users t))))"

definition mu_ListUserIDsToPurge :: "int \<Rightarrow> nat \<Rightarrow> ('o db, int list) proc" where
  "mu_ListUserIDsToPurge before limit = dbQuery (due_ids before limit)"

text \<open>\<open>DELETE FROM user_accounts\<close> with what belongs to the account by its foreign keys (db/migrations/086 to 101
  and 124): the posts with the replies below them, memberships, profile, media with their uses, blocks on both
  sides, timetable, mentions, read positions and the records of the NG words. Messages and reactions stay.\<close>

definition cascade_media :: "int list \<Rightarrow> tables \<Rightarrow> tables" where
  "cascade_media ms t =
     t\<lparr>tb_media := filter (\<lambda>m. media_id m \<notin> set ms) (tb_media t),
       tb_message_media := filter (\<lambda>l. message_media_media_id l \<notin> set ms) (tb_message_media t),
       tb_communities := map (\<lambda>c. case communities_avatar_media_id c of
            Some m \<Rightarrow> if m \<in> set ms then c\<lparr>communities_avatar_media_id := None\<rparr> else c
          | None \<Rightarrow> c) (tb_communities t),
       tb_profiles := map (\<lambda>p. case profiles_avatar_media_id p of
            Some m \<Rightarrow> if m \<in> set ms then p\<lparr>profiles_avatar_media_id := None\<rparr> else p
          | None \<Rightarrow> p) (tb_profiles t)\<rparr>"

text \<open>The replies go with the post: each round adds the replies to what is going.\<close>

fun with_replies :: "nat \<Rightarrow> post_row list \<Rightarrow> int list \<Rightarrow> int list" where
  "with_replies 0 ps going = going"
| "with_replies (Suc n) ps going =
     with_replies n ps
       (going @ [posts_id p. p \<leftarrow> ps, posts_id p \<notin> set going,
                  case posts_parent_id p of None \<Rightarrow> False | Some q \<Rightarrow> q \<in> set going])"

definition cascade_posts :: "int list \<Rightarrow> tables \<Rightarrow> tables" where
  "cascade_posts going t = t\<lparr>tb_posts := filter (\<lambda>p. posts_id p \<notin> set going) (tb_posts t)\<rparr>"

definition posts_going :: "int \<Rightarrow> tables \<Rightarrow> int list" where
  "posts_going i t =
     with_replies (length (tb_posts t)) (tb_posts t) (map posts_id (filter (\<lambda>p. posts_user_id p = i) (tb_posts t)))"

definition cascade_account :: "int \<Rightarrow> tables \<Rightarrow> tables" where
  "cascade_account i t =
     (let t = cascade_posts (posts_going i t)
                (cascade_media (map media_id (filter (\<lambda>m. media_uploader_user_id m = i) (tb_media t))) t) in
      t\<lparr>tb_user_accounts := filter (\<lambda>a. user_accounts_user_id a \<noteq> i) (tb_user_accounts t),
        tb_room_users := filter (\<lambda>r. room_users_user_id r \<noteq> i) (tb_room_users t),
        tb_profiles := filter (\<lambda>p. profiles_user_id p \<noteq> i) (tb_profiles t),
        tb_blocks := filter (\<lambda>(a, b). a \<noteq> i \<and> b \<noteq> i) (tb_blocks t),
        tb_timetables := filter (\<lambda>e. timetables_user_id e \<noteq> i) (tb_timetables t),
        tb_user_settings := filter (\<lambda>((u, _), _). u \<noteq> i) (tb_user_settings t),
        tb_message_mentions := filter (\<lambda>m. message_mentions_user_id m \<noteq> i) (tb_message_mentions t),
        tb_course_room_reads := filter (\<lambda>r. course_room_reads_user_id r \<noteq> i) (tb_course_room_reads t),
        tb_ng_word_hits := filter (\<lambda>h. ng_word_hits_user_id h \<noteq> i) (tb_ng_word_hits t)\<rparr>)"

definition mu_PurgeUser :: "int \<Rightarrow> int \<Rightarrow> ('o db, bool) proc" where
  "mu_PurgeUser i at =
     bindP (dbCall (\<lambda>t. if has_account t i then (Ok True, cascade_account i t) else (Ok False, t))) (\<lambda>affected.
     if \<not> affected then ret False
     else bindP (dbExec (set_users (\<lambda>u. users_id u = i)
                   (\<lambda>u. u\<lparr>users_status := StatusDeleted, users_deleted_at := Some at\<rparr>))) (\<lambda>_. ret True))"

section \<open>Traces of activity\<close>

definition mu_DeleteActivityHistory :: "int \<Rightarrow> ('o db, unit) proc" where
  "mu_DeleteActivityHistory i =
     bindP (dbExec (\<lambda>t. t\<lparr>tb_user_activity_dates := filter (\<lambda>(u, _). u \<noteq> i) (tb_user_activity_dates t)\<rparr>)) (\<lambda>_.
     dbExec (\<lambda>t. t\<lparr>tb_user_activity_hours := filter (\<lambda>(u, _). u \<noteq> i) (tb_user_activity_hours t)\<rparr>))"

text \<open>Times within five minutes of the last one are not written.\<close>

definition mu_UpdateLastActiveAt :: "int \<Rightarrow> int \<Rightarrow> ('o db, unit) proc" where
  "mu_UpdateLastActiveAt i now = dbExec (set_accounts
     (\<lambda>a. user_accounts_user_id a = i \<and>
        (case user_accounts_last_active_at a of None \<Rightarrow> True | Some at \<Rightarrow> at < now - 300))
     (\<lambda>a. a\<lparr>user_accounts_last_active_at := Some now\<rparr>))"

definition mu_LogActivityDate :: "int \<Rightarrow> string \<Rightarrow> ('o db, unit) proc" where
  "mu_LogActivityDate i jstDate = dbExec (\<lambda>t.
     if has_account t i then t\<lparr>tb_user_activity_dates := List.insert (i, jstDate) (tb_user_activity_dates t)\<rparr> else t)"

definition mu_LogActivityHour :: "int \<Rightarrow> string \<Rightarrow> ('o db, unit) proc" where
  "mu_LogActivityHour i jstHour = dbExec (\<lambda>t.
     if has_account t i then t\<lparr>tb_user_activity_hours := List.insert (i, jstHour) (tb_user_activity_hours t)\<rparr> else t)"

section \<open>Profiles: infra/mysql/profile_repository.go\<close>

record profile =
  pf_UserID :: int
  pf_Bio :: string
  pf_AvatarMedia :: "int option"
  pf_CreatedAt :: int
  pf_UpdatedAt :: int

definition GetProfileByUserID :: "int \<Rightarrow> ('o db, profile option) proc" where
  "GetProfileByUserID i = dbQuery (\<lambda>t.
     map_option (\<lambda>p. \<lparr>pf_UserID = profiles_user_id p, pf_Bio = profiles_bio p,
         pf_AvatarMedia =
           (case profiles_avatar_media_id p of
              None \<Rightarrow> None
            | Some m \<Rightarrow> if m \<in> media_id ` set (tb_media t) then Some m else None),
         pf_CreatedAt = profiles_created_at p, pf_UpdatedAt = profiles_updated_at p\<rparr>)
       (List.find (\<lambda>p. profiles_user_id p = i) (tb_profiles t)))"

text \<open>\<open>INSERT ... ON DUPLICATE KEY UPDATE\<close>: \<open>f\<close> is the update of a row that is there.\<close>

definition upsert_profile :: "profile_row \<Rightarrow> (profile_row \<Rightarrow> profile_row) \<Rightarrow> ('o db, unit) proc" where
  "upsert_profile new f = dbCall (\<lambda>t.
     if list_ex (\<lambda>p. profiles_user_id p = profiles_user_id new) (tb_profiles t)
     then (Ok (), t\<lparr>tb_profiles := map (\<lambda>p. if profiles_user_id p = profiles_user_id new then f p else p) (tb_profiles t)\<rparr>)
     else if has_account t (profiles_user_id new)
     then (Ok (), t\<lparr>tb_profiles := tb_profiles t @ [new]\<rparr>)
     else (Err constraint_error, t))"

definition SaveProfile :: "profile \<Rightarrow> ('o db, unit) proc" where
  "SaveProfile p =
     upsert_profile
       \<lparr>profiles_user_id = pf_UserID p, profiles_bio = pf_Bio p, profiles_avatar_media_id = pf_AvatarMedia p,
        profiles_created_at = pf_CreatedAt p, profiles_updated_at = pf_UpdatedAt p\<rparr>
       (\<lambda>r. r\<lparr>profiles_bio := pf_Bio p, profiles_avatar_media_id := pf_AvatarMedia p,
             profiles_updated_at := pf_UpdatedAt p\<rparr>)"

definition SetAvatarMedia :: "int \<Rightarrow> int \<Rightarrow> ('o db, unit) proc" where
  "SetAvatarMedia i m =
     bindP nowP (\<lambda>now.
     upsert_profile
       \<lparr>profiles_user_id = i, profiles_bio = [], profiles_avatar_media_id = Some m,
        profiles_created_at = now, profiles_updated_at = now\<rparr>
       (\<lambda>r. r\<lparr>profiles_avatar_media_id := Some m, profiles_updated_at := now\<rparr>))"

definition ClearAvatarMedia :: "int \<Rightarrow> ('o db, unit) proc" where
  "ClearAvatarMedia i =
     bindP nowP (\<lambda>now. dbExec (\<lambda>t. t\<lparr>tb_profiles :=
       map (\<lambda>p. if profiles_user_id p = i
                then p\<lparr>profiles_avatar_media_id := None, profiles_updated_at := now\<rparr> else p) (tb_profiles t)\<rparr>))"

end
