(* ===== verification/Account_Service.thy ===== *)
theory Account_Service
  imports User_Store Community
begin

text \<open>
  Accounts and profiles: the rules of model/user.go, registration, changes by the owner and by administrators and
  freezing (usecase/user: create_user.go, update_user.go, freeze_user.go, unfreeze_user.go) and the profile
  (usecase/profile).
\<close>

section \<open>The rules (model/user.go)\<close>

definition MaxUserNameLength :: int where
  "MaxUserNameLength = 50"

definition MaxAccountIDLength :: int where
  "MaxAccountIDLength = 25"

definition account_id_char :: "char \<Rightarrow> bool" where
  "account_id_char c \<longleftrightarrow>
     in_range 0x61 0x7A c \<or> in_range 0x41 0x5A c \<or> in_range 0x30 0x39 c \<or> c = CHR ''_'' \<or> c = CHR ''-''"

definition ValidateAccountID :: "string \<Rightarrow> unit result" where
  "ValidateAccountID accountID =
     (if accountID = [] \<or> \<not> list_all account_id_char accountID
      then Err (Errorf ''a user ID has letters, digits, _ and - only'')
      else if MaxAccountIDLength < RuneCount accountID
      then Err (Errorf ''a user ID has at most 25 characters'') else Ok ())"

definition ValidateUserName :: "string \<Rightarrow> unit result" where
  "ValidateUserName name =
     (if MaxUserNameLength < RuneCount name then Err (Errorf ''a name has at most 50 characters'') else Ok ())"

record update_user_param =
  uu_AccountID :: "string option"
  uu_Name :: "string option"
  uu_Email :: "string option"
  uu_Password :: "string option"

text \<open>A field that is given is checked, then set.\<close>

definition set_field :: "('v \<Rightarrow> unit result) \<Rightarrow> ('v \<Rightarrow> 'u \<Rightarrow> 'u) \<Rightarrow> 'v option \<Rightarrow> 'u \<Rightarrow> 'u result" where
  "set_field check put v u =
     (case v of None \<Rightarrow> Ok u | Some x \<Rightarrow> andThen (check x) (\<lambda>_. Ok (put x u)))"

definition applyPublicUpdate :: "update_user_param \<Rightarrow> 'u user_scheme \<Rightarrow> 'u user_scheme result" where
  "applyPublicUpdate param u =
     andThen (set_field ValidateAccountID (\<lambda>x u. u\<lparr>us_AccountID := x\<rparr>) (uu_AccountID param) u)
       (set_field ValidateUserName (\<lambda>x u. u\<lparr>us_Name := x\<rparr>) (uu_Name param))"

definition applyAccountUpdate :: "update_user_param \<Rightarrow> 'u user_account_scheme \<Rightarrow> 'u user_account_scheme result" where
  "applyAccountUpdate param u =
     andThen (applyPublicUpdate param u)
       (set_field (\<lambda>_. Ok ()) (\<lambda>x u. u\<lparr>ua_Email := x\<rparr>) (uu_Email param))"

text \<open>\<open>User.UpdateProfile\<close> has no place for a password or an address.\<close>

definition User_UpdateProfile :: "update_user_param \<Rightarrow> user \<Rightarrow> user result" where
  "User_UpdateProfile param u =
     (if uu_Password param \<noteq> None
      then Err (Errorf ''password changes must go through UserCredentials.UpdateUser'')
      else if uu_Email param \<noteq> None then Err (Errorf ''email changes must go through UserAccount'')
      else applyPublicUpdate param u)"

definition Credentials_UpdateUser ::
  "bcrypt \<Rightarrow> string \<Rightarrow> update_user_param \<Rightarrow> user_credentials \<Rightarrow> user_credentials result" where
  "Credentials_UpdateUser B salt param c =
     andThen (applyAccountUpdate param c) (\<lambda>c.
     case uu_Password param of
       None \<Rightarrow> Ok c
     | Some password \<Rightarrow> andThen (bc_Generate B salt password) (\<lambda>hash. Ok (c\<lparr>uc_HashedPassword := hash\<rparr>)))"

record create_user_param =
  cu_AccountID :: string
  cu_Name :: string
  cu_Email :: string
  cu_Password :: string

text \<open>\<open>UserCredentials.CreateUser\<close> on empty credentials, with the role and the status that registration sets.\<close>

definition Credentials_CreateUser :: "bcrypt \<Rightarrow> string \<Rightarrow> create_user_param \<Rightarrow> user_credentials result" where
  "Credentials_CreateUser B salt param =
     andThen (ValidateAccountID (cu_AccountID param)) (\<lambda>_.
     andThen (ValidateUserName (cu_Name param)) (\<lambda>_.
     andThen (bc_Generate B salt (cu_Password param)) (\<lambda>hash.
     Ok \<lparr>us_ID = 0, us_AccountID = cu_AccountID param, us_Name = cu_Name param, us_Role = ''user'',
         us_Status = StatusActive, ua_Email = cu_Email param, uc_HashedPassword = hash,
         uc_CredentialsVersion = 0\<rparr>)))"

section \<open>Registration\<close>

definition checkOTP :: "'s email_otp_repo \<Rightarrow> string \<Rightarrow> string \<Rightarrow> ('s, unit) proc" where
  "checkOTP otpRepo email code =
     bindP (eo_FindLatestByEmail otpRepo email) (\<lambda>record.
     bindP (case record of
              None \<Rightarrow> ret ()
            | Some r \<Rightarrow> if eo_Code r \<noteq> code then eo_RecordFailure otpRepo email else ret ()) (\<lambda>_.
     guardP (map_option eo_Code record = Some code) (Errorf ''the code is invalid or has expired'')))"

definition CreateUser ::
  "bool \<Rightarrow> collation \<Rightarrow> bcrypt \<Rightarrow> string \<Rightarrow> ('o db, 'r) world email_otp_repo \<Rightarrow> create_user_param \<Rightarrow> string
     \<Rightarrow> (('o db, 'r) world, user_account) proc" where
  "CreateUser validationEnabled C B salt otpRepo param otp =
     bindP (if validationEnabled
            then bindP (liftR (ValidateUserEmail (cu_Email param))) (\<lambda>_.
                 bindP (liftR (ValidateUserPassword (cu_Password param))) (\<lambda>_.
                 checkOTP otpRepo (cu_Email param) otp))
            else ret ()) (\<lambda>_.
     bindP (onDb nowP) (\<lambda>now.
     bindP (liftR (Credentials_CreateUser B salt param)) (\<lambda>user.
     bindP (onDb (runInTx (
       bindP (mu_SaveCredentials C user) (\<lambda>i.
       bindP (SaveProfile \<lparr>pf_UserID = i, pf_Bio = [], pf_AvatarMedia = None, pf_CreatedAt = now, pf_UpdatedAt = now\<rparr>) (\<lambda>_.
       ret (user\<lparr>us_ID := i\<rparr>)))))) (\<lambda>user.
     bindP (if validationEnabled then tryP (eo_Delete otpRepo (cu_Email param)) (\<lambda>_. ret ()) else ret ()) (\<lambda>_.
     ret (user_account.truncate user))))))"

section \<open>Changes\<close>

text \<open>\<open>requireCurrentPassword\<close> is set for the owner of the account; administrators change without it.\<close>

definition UpdateUser ::
  "collation \<Rightarrow> bcrypt \<Rightarrow> string \<Rightarrow> request_ctx \<Rightarrow> int \<Rightarrow> update_user_param \<Rightarrow> string option \<Rightarrow> bool
     \<Rightarrow> ('o db, user_account) proc" where
  "UpdateUser C B salt ctx i param currentPassword requireCurrentPassword =
     bindP (liftR (if requireCurrentPassword then RequireSelfOrAdmin ctx i else RequireAdmin ctx)) (\<lambda>_.
     bindP (guardP (\<not> (requireCurrentPassword \<and> uu_Email param \<noteq> None))
              (Errorf ''the address cannot be changed'')) (\<lambda>_.
     bindP (liftR (case uu_Password param of None \<Rightarrow> Ok () | Some p \<Rightarrow> ValidateUserPassword p)) (\<lambda>_.
     bindP (mu_GetCredentialsByID i) (\<lambda>user. case user of
       None \<Rightarrow> throw (Errorf ''user not found'')
     | Some user \<Rightarrow>
         bindP (if requireCurrentPassword \<and> uu_Password param \<noteq> None
                then case currentPassword of
                       None \<Rightarrow> throw (Errorf ''enter the current password'')
                     | Some p \<Rightarrow>
                         if p = [] then throw (Errorf ''enter the current password'')
                         else guardP (bc_Compare B (uc_HashedPassword user) p)
                                (Errorf ''the current password is wrong'')
                else ret ()) (\<lambda>_.
         bindP (liftR (Credentials_UpdateUser B salt param user)) (\<lambda>user.
         bindP (mu_SaveCredentials C user) (\<lambda>_.
         ret (user_account.truncate user))))))))"

definition FreezeUser :: "collation \<Rightarrow> request_ctx \<Rightarrow> int \<Rightarrow> ('o db, bool) proc" where
  "FreezeUser C ctx i =
     bindP (liftR (RequireAdmin ctx)) (\<lambda>_.
     bindP (mu_GetUserByID i) (\<lambda>u. case u of
       None \<Rightarrow> throw (Errorf ''user not found'')
     | Some u \<Rightarrow>
         bindP (guardP (us_Status u \<noteq> StatusFrozen) (Errorf ''user is already frozen'')) (\<lambda>_.
         bindP (mu_UpdateUser C (u\<lparr>us_Status := StatusFrozen\<rparr>)) (\<lambda>_. ret True))))"

definition UnfreezeUser :: "collation \<Rightarrow> request_ctx \<Rightarrow> int \<Rightarrow> ('o db, bool) proc" where
  "UnfreezeUser C ctx i =
     bindP (liftR (RequireAdmin ctx)) (\<lambda>_.
     bindP (mu_GetUserByID i) (\<lambda>u. case u of
       None \<Rightarrow> throw (Errorf ''user not found'')
     | Some u \<Rightarrow>
         bindP (guardP (us_Status u = StatusFrozen) (Errorf ''user is not frozen'')) (\<lambda>_.
         bindP (mu_UpdateUser C (u\<lparr>us_Status := StatusActive\<rparr>)) (\<lambda>_. ret True))))"

section \<open>Profiles (usecase/profile)\<close>

definition Profile_UpdateProfile :: "int \<Rightarrow> string option \<Rightarrow> profile \<Rightarrow> profile" where
  "Profile_UpdateProfile now bio p =
     p\<lparr>pf_Bio := (case bio of None \<Rightarrow> pf_Bio p | Some b \<Rightarrow> b), pf_UpdatedAt := now\<rparr>"

definition empty_profile :: "int \<Rightarrow> int \<Rightarrow> profile" where
  "empty_profile i now =
     \<lparr>pf_UserID = i, pf_Bio = [], pf_AvatarMedia = None, pf_CreatedAt = now, pf_UpdatedAt = 0\<rparr>"

definition GetProfile :: "request_ctx \<Rightarrow> int \<Rightarrow> ('o db, profile option) proc" where
  "GetProfile ctx i = bindP (liftR (RequireAuth ctx)) (\<lambda>_. GetProfileByUserID i)"

text \<open>The profile with its new text, saved.\<close>

definition save_profile :: "int \<Rightarrow> string option \<Rightarrow> ('o db, profile) proc" where
  "save_profile i bio =
     bindP (GetProfileByUserID i) (\<lambda>p.
     bindP nowP (\<lambda>now.
     let p = Profile_UpdateProfile now bio (case p of None \<Rightarrow> empty_profile i now | Some p \<Rightarrow> p) in
     bindP (SaveProfile p) (\<lambda>_. ret p)))"

definition UpdateProfile :: "request_ctx \<Rightarrow> int \<Rightarrow> string option \<Rightarrow> ('o db, profile) proc" where
  "UpdateProfile ctx i bio = bindP (liftR (RequireSelfOrAdmin ctx i)) (\<lambda>_. save_profile i bio)"

definition UpdateMyProfile ::
  "collation \<Rightarrow> request_ctx \<Rightarrow> int \<Rightarrow> update_user_param \<Rightarrow> string option \<Rightarrow> ('o db, user \<times> profile) proc" where
  "UpdateMyProfile C ctx i param bio =
     bindP (liftR (RequireSelfOrAdmin ctx i)) (\<lambda>_.
     runInTx (
       bindP (mu_GetUserByID i) (\<lambda>u. case u of
         None \<Rightarrow> throw (Errorf ''user not found'')
       | Some u \<Rightarrow>
           bindP (liftR (User_UpdateProfile param u)) (\<lambda>u.
           bindP (mu_UpdateUser C u) (\<lambda>_.
           bindP (save_profile i bio) (\<lambda>p. ret (u, p)))))))"

definition Avatar :: string where
  "Avatar = ''avatars''"

definition SetAvatar :: "acceptor option \<Rightarrow> request_ctx \<Rightarrow> string \<Rightarrow> (app, profile option) proc" where
  "SetAvatar uploads ctx objectKey =
     bindP (liftR (CallerID ctx)) (\<lambda>userID.
     bindP (sessionAccept uploads ctx Avatar objectKey) (\<lambda>stored.
     discardOnError (if stored \<noteq> objectKey then [stored] else []) (
       runInTx (
         bindP (insert_media userID stored (contentTypeFromKey stored)) (\<lambda>mediaID.
         bindP (SetAvatarMedia userID mediaID) (\<lambda>_.
         GetProfileByUserID userID))))))"

definition DeleteAvatar :: "request_ctx \<Rightarrow> ('o db, profile option) proc" where
  "DeleteAvatar ctx =
     bindP (liftR (CallerID ctx)) (\<lambda>userID.
     bindP (ClearAvatarMedia userID) (\<lambda>_. GetProfileByUserID userID))"

end
