(* ===== verification/Post_Store.thy ===== *)
theory Post_Store
  imports Db_Logic Room_Store
begin

text \<open>
  Posts and their replies: model/post.go, the writing half of infra/mysql/post_repository.go and
  usecase/post/delete_post.go. A post keeps the number of the replies below it that can be seen; creating
  and deleting a post walks up its ancestors to correct their numbers, and the deletion of an account counts
  them anew.
\<close>

section \<open>Posts\<close>

record post =
  ps_ID :: int
  ps_Content :: string
  ps_CreatedAt :: int
  ps_UpdatedAt :: int
  ps_UserID :: int
  ps_ParentID :: "int option"
  ps_DeletedAt :: "int option"
  ps_ReplyCount :: int

definition find_post :: "post_row list \<Rightarrow> int \<Rightarrow> post_row option" where
  "find_post ps i = List.find (\<lambda>p. posts_id p = i) ps"

text \<open>\<open>WHERE id = ? AND deleted_at IS NULL\<close>.\<close>

definition live_post :: "post_row list \<Rightarrow> int \<Rightarrow> post_row option" where
  "live_post ps i = List.find (\<lambda>p. posts_id p = i \<and> posts_deleted_at p = None) ps"

definition post_of_row :: "post_row \<Rightarrow> post" where
  "post_of_row p =
     \<lparr>ps_ID = posts_id p, ps_Content = posts_content p, ps_CreatedAt = posts_created_at p,
      ps_UpdatedAt = posts_updated_at p, ps_UserID = posts_user_id p, ps_ParentID = posts_parent_id p,
      ps_DeletedAt = None, ps_ReplyCount = posts_reply_count p\<rparr>"

text \<open>\<open>appendVisiblePostAuthorFilter\<close>: authors of the block list of the request are not shown, nor are those who are
  leaving. In \<open>GetPostByID\<close> and \<open>GetPostsByIDs\<close>, \<open>blocked\<close> is the block list, or why there is none.\<close>

definition visible_author :: "int list \<Rightarrow> tables \<Rightarrow> int \<Rightarrow> bool" where
  "visible_author blocked t author \<longleftrightarrow>
     author \<notin> set blocked \<and>
     \<not> (\<exists>u\<in>set (tb_users t). users_id u = author \<and> users_status u = StatusDeactivated)"

definition GetPostByID :: "int list result \<Rightarrow> int \<Rightarrow> ('o db, post option) proc" where
  "GetPostByID blocked postID =
     bindP (liftR blocked) (\<lambda>blocked.
     poolQuery (\<lambda>t. map_option post_of_row
       (List.find (\<lambda>p. posts_id p = postID \<and> posts_deleted_at p = None \<and> visible_author blocked t (posts_user_id p))
          (tb_posts t))))"

definition GetPostsByIDs :: "int list result \<Rightarrow> int list \<Rightarrow> ('o db, post list) proc" where
  "GetPostsByIDs blocked ids =
     (if ids = [] then ret []
      else bindP (liftR blocked) (\<lambda>blocked.
        poolQuery (\<lambda>t. map post_of_row
          (filter (\<lambda>p. posts_id p \<in> set ids \<and> posts_deleted_at p = None \<and> visible_author blocked t (posts_user_id p))
             (tb_posts t)))))"

text \<open>A post of somebody who is leaving is shown as deleted when they left.\<close>

definition GetPostByIDIncludeDeleted :: "int \<Rightarrow> ('o db, post option) proc" where
  "GetPostByIDIncludeDeleted postID =
     poolQuery (\<lambda>t. Option.bind (find_post (tb_posts t) postID) (\<lambda>p.
       map_option (\<lambda>u. (post_of_row p)\<lparr>ps_DeletedAt :=
           (case posts_deleted_at p of
              Some at \<Rightarrow> Some at
            | None \<Rightarrow> if users_status u = StatusDeactivated then users_deactivated_at u else None)\<rparr>)
         (List.find (\<lambda>u. users_id u = posts_user_id p) (tb_users t))))"

section \<open>Walking up the ancestors\<close>

text \<open>The loop of \<open>createPost\<close> and \<open>deletePost\<close>: correct the number of a post, go on with its parent. It has no bound
  in the code; here \<open>n\<close> rounds at most, and the result says whether it came to its end.\<close>

definition set_count :: "(int \<Rightarrow> int) \<Rightarrow> int \<Rightarrow> tables \<Rightarrow> tables" where
  "set_count f i t =
     t\<lparr>tb_posts := map (\<lambda>p. if posts_id p = i then p\<lparr>posts_reply_count := f (posts_reply_count p)\<rparr> else p) (tb_posts t)\<rparr>"

fun walkUp :: "nat \<Rightarrow> (int \<Rightarrow> int) \<Rightarrow> int option \<Rightarrow> ('o db, bool) proc" where
  "walkUp n f None = ret True"
| "walkUp 0 f (Some i) = ret False"
| "walkUp (Suc n) f (Some i) =
     bindP (dbExec (set_count f i)) (\<lambda>_.
     bindP (dbQuery (\<lambda>t. map_option posts_parent_id (find_post (tb_posts t) i))) (\<lambda>row. case row of
       None \<Rightarrow> ret True
     | Some parent \<Rightarrow> walkUp n f parent))"

definition insert_post :: "post \<Rightarrow> int option \<Rightarrow> ('o db, int) proc" where
  "insert_post p parent = dbCall (\<lambda>t.
     if has_account t (ps_UserID p) \<and> (case parent of None \<Rightarrow> True | Some i \<Rightarrow> find_post (tb_posts t) i \<noteq> None)
     then (Ok (tb_next_id t), t\<lparr>tb_next_id := tb_next_id t + 1, tb_posts := tb_posts t @
            [\<lparr>posts_id = tb_next_id t, posts_content = ps_Content p, posts_created_at = ps_CreatedAt p,
              posts_updated_at = ps_UpdatedAt p, posts_user_id = ps_UserID p, posts_parent_id = parent,
              posts_deleted_at = None, posts_reply_count = 0\<rparr>]\<rparr>)
     else (Err constraint_error, t))"

definition valid_parent :: "int option \<Rightarrow> int option" where
  "valid_parent parent = (if parent = Some 0 then None else parent)"

text \<open>\<open>None\<close>: the walk is still going on after \<open>n\<close> rounds.\<close>

definition createPost :: "nat \<Rightarrow> post \<Rightarrow> ('o db, int option) proc" where
  "createPost n p =
     bindP (insert_post p (valid_parent (ps_ParentID p))) (\<lambda>i.
     bindP (walkUp n (\<lambda>c. c + 1) (valid_parent (ps_ParentID p))) (\<lambda>ended.
     ret (if ended then Some i else None)))"

definition CreatePostRow :: "nat \<Rightarrow> post \<Rightarrow> ('o db, int option) proc" where
  "CreatePostRow n p = inTx (createPost n p)"

text \<open>\<open>RowsAffected\<close> counts the rows that an update changes.\<close>

definition delete_post_row :: "int \<Rightarrow> int \<Rightarrow> ('o db, bool) proc" where
  "delete_post_row now i = dbCall (\<lambda>t.
     (Ok (\<exists>p\<in>set (tb_posts t). posts_id p = i \<and> (posts_deleted_at p \<noteq> Some now \<or> posts_updated_at p \<noteq> now)),
      t\<lparr>tb_posts := map (\<lambda>p. if posts_id p = i then p\<lparr>posts_deleted_at := Some now, posts_updated_at := now\<rparr> else p)
          (tb_posts t)\<rparr>))"

definition deletePost :: "nat \<Rightarrow> int \<Rightarrow> ('o db, bool option) proc" where
  "deletePost n i =
     bindP (dbQuery (\<lambda>t. Option.bind (live_post (tb_posts t) i) posts_parent_id)) (\<lambda>parent.
     bindP (dbQuery (\<lambda>t. case live_post (tb_posts t) i of None \<Rightarrow> 0 | Some p \<Rightarrow> posts_reply_count p)) (\<lambda>count.
     bindP nowP (\<lambda>now.
     bindP (delete_post_row now i) (\<lambda>affected.
     bindP (if affected then walkUp n (\<lambda>c. max 0 (c - (count + 1))) parent else ret True) (\<lambda>ended.
     ret (if ended then Some affected else None))))))"

definition DeletePostRow :: "nat \<Rightarrow> int \<Rightarrow> ('o db, bool option) proc" where
  "DeletePostRow n i = inTx (deletePost n i)"

text \<open>usecase/post/delete_post.go; \<open>allowAnyOwner\<close> is set for administrators.\<close>

definition DeletePost :: "nat \<Rightarrow> int list result \<Rightarrow> request_ctx \<Rightarrow> int \<Rightarrow> bool \<Rightarrow> ('o db, bool option) proc" where
  "DeletePost n blocked ctx postID allowAnyOwner =
     bindP (liftR (CallerID ctx)) (\<lambda>requesterID.
     bindP (GetPostByID blocked postID) (\<lambda>post. case post of
       None \<Rightarrow> throw (Errorf ''post not found'')
     | Some p \<Rightarrow>
         bindP (guardP (allowAnyOwner \<or> ps_UserID p = requesterID)
                  (Errorf ''forbidden: can only delete your own posts'')) (\<lambda>_.
         DeletePostRow n postID)))"

section \<open>Counting anew\<close>

text \<open>The ancestors of a post, the nearest first. A reply is younger than what it replies to; the check makes
  the recursion end on any table.\<close>

function above :: "post_row list \<Rightarrow> int \<Rightarrow> int list" where
  "above ps i =
     (case find_post ps i of
        None \<Rightarrow> []
      | Some p \<Rightarrow>
          (case posts_parent_id p of
             None \<Rightarrow> []
           | Some q \<Rightarrow> q # (if 0 \<le> q \<and> q < i then above ps q else [])))"
  by pat_completeness auto
termination
  by (relation "measure (\<lambda>(ps, i). nat i)") auto

declare above.simps [simp del]

text \<open>\<open>visible_descendants\<close>: the post and everything between it and the ancestor can be seen.\<close>

function visible_below :: "post_row list \<Rightarrow> int \<Rightarrow> int \<Rightarrow> bool" where
  "visible_below ps a i =
     (case find_post ps i of
        None \<Rightarrow> False
      | Some p \<Rightarrow>
          posts_deleted_at p = None \<and>
          (case posts_parent_id p of
             None \<Rightarrow> False
           | Some q \<Rightarrow> q = a \<or> (if 0 \<le> q \<and> q < i then visible_below ps a q else False)))"
  by pat_completeness auto
termination
  by (relation "measure (\<lambda>(ps, a, i). nat i)") auto

declare visible_below.simps [simp del]

definition visible_replies :: "post_row list \<Rightarrow> int \<Rightarrow> int" where
  "visible_replies ps a = int (length (filter (\<lambda>p. visible_below ps a (posts_id p)) ps))"

definition recount :: "int list \<Rightarrow> post_row list \<Rightarrow> post_row list" where
  "recount affected ps =
     map (\<lambda>p. if posts_id p \<in> set affected
              then p\<lparr>posts_reply_count := visible_replies ps (posts_id p)\<rparr> else p) ps"

definition ancestors_of_user :: "post_row list \<Rightarrow> int \<Rightarrow> int list" where
  "ancestors_of_user ps userID =
     concat (map (\<lambda>p. above ps (posts_id p)) (filter (\<lambda>p. posts_user_id p = userID) ps))"

definition DeletePostsByUserID :: "int \<Rightarrow> ('o db, unit) proc" where
  "DeletePostsByUserID userID =
     bindP nowP (\<lambda>now. dbExec (\<lambda>t. t\<lparr>tb_posts :=
       map (\<lambda>p. if posts_user_id p = userID \<and> posts_deleted_at p = None
                then p\<lparr>posts_deleted_at := Some now, posts_updated_at := now\<rparr> else p) (tb_posts t)\<rparr>))"

definition RecalculateReplyCountsAffectedByUser :: "int \<Rightarrow> ('o db, unit) proc" where
  "RecalculateReplyCountsAffectedByUser userID =
     dbExec (\<lambda>t. t\<lparr>tb_posts := recount (ancestors_of_user (tb_posts t) userID) (tb_posts t)\<rparr>)"

end
