(* ===== verification/Account_Deletion.thy ===== *)
theory Account_Deletion
  imports Account_Service Post_Store
begin

text \<open>
  Leaving (usecase/user/delete_user.go): the owner of an account gives notice and can come back for fifteen days,
  an administrator removes an account at once, and a daily run removes the accounts whose time is over. The two
  last share \<open>purge\<close>. \<open>retain\<close> is \<open>Retain\<close> of usecase/reportedmedia, which copies reported attachments between
  object stores: its result.
\<close>

section \<open>Handing over communities\<close>

text \<open>The members of each of the rooms, locked in the order of the rooms.\<close>

fun lock_rooms :: "int list \<Rightarrow> ('o db, (int \<times> (int \<times> string) list) list) proc" where
  "lock_rooms [] = ret []"
| "lock_rooms (r # rs) =
     bindP (LockRoomMemberRolesForUpdate r) (\<lambda>roles.
     bindP (lock_rooms rs) (\<lambda>rest. ret ((r, roles) # rest)))"

definition ownedCommunities :: "int \<Rightarrow> ('o db, (int \<times> (int \<times> string) list) list) proc" where
  "ownedCommunities userID =
     bindP (LockUserCommunityMembershipsForUpdate userID) (\<lambda>memberships.
     lock_rooms (sort (map fst (filter (\<lambda>(_, role). role = RoomUserRoleOwner) memberships))))"

definition isSoleOwnerAmongOthers :: "int \<Rightarrow> (int \<times> string) list \<Rightarrow> bool" where
  "isSoleOwnerAmongOthers userID roles \<longleftrightarrow>
     map_of roles userID = Some RoomUserRoleOwner \<and> 1 < length roles \<and>
     \<not> list_ex (\<lambda>(i, role). i \<noteq> userID \<and> role = RoomUserRoleOwner) roles"

text \<open>The rooms handed over, with their new owners.\<close>

fun handOverOwnerships :: "int \<Rightarrow> (int \<times> (int \<times> string) list) list \<Rightarrow> ('o db, (int \<times> int) list) proc" where
  "handOverOwnerships userID [] = ret []"
| "handOverOwnerships userID ((r, roles) # owned) =
     (if \<not> isSoleOwnerAmongOthers userID roles then handOverOwnerships userID owned
      else bindP (FindOwnerSuccessor r userID) (\<lambda>successor.
           bindP (guardP (successor \<noteq> 0) (Errorf ''no member to hand ownership to'')) (\<lambda>_.
           bindP (SetRoomUserRole r successor RoomUserRoleOwner) (\<lambda>_.
           bindP (handOverOwnerships userID owned) (\<lambda>rest. ret ((r, successor) # rest))))))"

text \<open>Rooms whose community cannot be found are left out of the notification.\<close>

fun handover_params :: "(int \<times> int) list \<Rightarrow> ('o db, (int \<times> int) list) proc" where
  "handover_params [] = ret []"
| "handover_params ((r, successor) # hs) =
     tryP (GetCommunityIDByRoomID r) (\<lambda>c.
     bindP (handover_params hs) (\<lambda>rest.
     ret (case c of Inr communityID \<Rightarrow> if communityID = 0 then rest else (successor, communityID) # rest
          | Inl _ \<Rightarrow> rest)))"

definition notifyNewOwners :: "(int \<times> int) list \<Rightarrow> (app, unit) proc" where
  "notifyNewOwners handovers =
     (if handovers = [] then ret ()
      else bindP (handover_params handovers) (\<lambda>params. publish (OwnersNotified params)))"

fun delete_lonely_rooms :: "(int \<times> (int \<times> string) list) list \<Rightarrow> ('o db, unit) proc" where
  "delete_lonely_rooms [] = ret ()"
| "delete_lonely_rooms ((r, roles) # owned) =
     bindP (if length roles \<le> 1 then bindP (DeleteRoom r) (\<lambda>_. ret ()) else ret ()) (\<lambda>_.
     delete_lonely_rooms owned)"

definition settleCommunities :: "int \<Rightarrow> ('o db, (int \<times> int) list) proc" where
  "settleCommunities userID =
     bindP (ownedCommunities userID) (\<lambda>owned.
     bindP (delete_lonely_rooms owned) (\<lambda>_.
     handOverOwnerships userID owned))"

section \<open>Removing the personal data\<close>

text \<open>infra/mysql/media_repository.go; the media of questions and answers are not in the model's tables.\<close>

definition ListStorageKeysByUploader :: "int \<Rightarrow> ('o db, string list) proc" where
  "ListStorageKeysByUploader userID = dbQuery (\<lambda>t.
     map media_storage_key (sort_key media_id (filter (\<lambda>m. media_uploader_user_id m = userID) (tb_media t))))"

record reportable_media =
  re_MediaID :: int
  re_StorageKey :: string
  re_ContentType :: string
  re_TargetID :: int

definition ListReportableMediaByUploader :: "int \<Rightarrow> ('o db, reportable_media list) proc" where
  "ListReportableMediaByUploader userID = dbQuery (\<lambda>t.
     [\<lparr>re_MediaID = media_id m, re_StorageKey = media_storage_key m, re_ContentType = media_content_type m,
       re_TargetID = message_media_message_id l\<rparr>.
        m \<leftarrow> tb_media t, media_uploader_user_id m = userID, l \<leftarrow> tb_message_media t, message_media_media_id l = media_id m])"

text \<open>Whether the account is gone, the objects to discard then and the communities handed over.\<close>

definition purge_body ::
  "(reportable_media list \<Rightarrow> unit result) \<Rightarrow> int \<Rightarrow> (user_lifecycle \<Rightarrow> bool)
     \<Rightarrow> ('o db, bool \<times> string list \<times> (int \<times> int) list) proc" where
  "purge_body retain userID allow =
     bindP (mu_LockUserLifecycle userID) (\<lambda>lifecycle. case lifecycle of
       None \<Rightarrow> ret (False, [], [])
     | Some l \<Rightarrow>
         if lc_Status l = StatusDeleted \<or> \<not> allow l then ret (False, [], [])
         else
           bindP (settleCommunities userID) (\<lambda>handovers.
           bindP (DeletePostsByUserID userID) (\<lambda>_.
           bindP (RecalculateReplyCountsAffectedByUser userID) (\<lambda>_.
           bindP (ListStorageKeysByUploader userID) (\<lambda>keys.
           bindP (ListReportableMediaByUploader userID) (\<lambda>reportable.
           bindP (liftR (retain reportable)) (\<lambda>_.
           bindP nowP (\<lambda>now.
           bindP (mu_PurgeUser userID now) (\<lambda>purged.
           if \<not> purged then ret (False, keys, handovers)
           else bindP (mu_DeleteActivityHistory userID) (\<lambda>_. ret (True, keys, handovers)))))))))))"

fun discard_all :: "string list \<Rightarrow> (app, unit) proc" where
  "discard_all [] = ret ()"
| "discard_all (key # keys) = bindP (publish (ObjectDiscarded key)) (\<lambda>_. discard_all keys)"

definition purge ::
  "(reportable_media list \<Rightarrow> unit result) \<Rightarrow> int \<Rightarrow> (user_lifecycle \<Rightarrow> bool) \<Rightarrow> (app, bool) proc" where
  "purge retain userID allow =
     bindP (runInTx (purge_body retain userID allow)) (\<lambda>(purged, keys, handovers).
     if purged
     then bindP (discard_all keys) (\<lambda>_. bindP (notifyNewOwners handovers) (\<lambda>_. ret True))
     else ret False)"

section \<open>The three ways out\<close>

definition deactivate_body :: "int \<Rightarrow> ('o db, bool \<times> (int \<times> int) list) proc" where
  "deactivate_body userID =
     bindP nowP (\<lambda>now.
     bindP (mu_DeactivateUser userID now) (\<lambda>deactivated.
     if \<not> deactivated then ret (False, [])
     else bindP (ownedCommunities userID) (\<lambda>owned.
          bindP (handOverOwnerships userID owned) (\<lambda>handovers. ret (True, handovers)))))"

definition DeleteMyAccount :: "request_ctx \<Rightarrow> (app, bool) proc" where
  "DeleteMyAccount ctx =
     bindP (liftR (RequireAuth ctx)) (\<lambda>claims.
     bindP (runInTx (deactivate_body (cl_ID claims))) (\<lambda>(deactivated, handovers).
     bindP (notifyNewOwners handovers) (\<lambda>_. ret deactivated)))"

definition DeleteUser :: "(reportable_media list \<Rightarrow> unit result) \<Rightarrow> request_ctx \<Rightarrow> int \<Rightarrow> (app, bool) proc" where
  "DeleteUser retain ctx i =
     bindP (liftR (RequireAdmin ctx)) (\<lambda>_. purge retain i (\<lambda>_. True))"

definition purgeBatchSize :: nat where
  "purgeBatchSize = 100"

text \<open>One round over the listed accounts: how many are gone, whether anything went forward, who failed and why.\<close>

fun purge_each ::
  "(reportable_media list \<Rightarrow> unit result) \<Rightarrow> int \<Rightarrow> int list \<Rightarrow> int \<times> bool \<times> int list \<times> go_error list
     \<Rightarrow> (app, int \<times> bool \<times> int list \<times> go_error list) proc" where
  "purge_each retain now [] st = ret st"
| "purge_each retain now (i # ids) (purged, progressed, failed, errs) =
     (if i \<in> set failed then purge_each retain now ids (purged, progressed, failed, errs)
      else tryP (purge retain i (GracePeriodExpired now)) (\<lambda>r. case r of
             Inl e \<Rightarrow> purge_each retain now ids (purged, progressed, failed @ [i], errs @ [e])
           | Inr ok \<Rightarrow> purge_each retain now ids (purged + (if ok then 1 else 0), True, failed, errs)))"

text \<open>The loop of \<open>PurgeExpiredAccounts\<close>, \<open>n\<close> rounds at most: \<open>None\<close> when it is still going on. The batch size is an
  argument.\<close>

fun purge_loop ::
  "nat \<Rightarrow> nat \<Rightarrow> (reportable_media list \<Rightarrow> unit result) \<Rightarrow> int \<Rightarrow> int \<times> int list \<times> go_error list
     \<Rightarrow> (app, (int \<times> go_error list) option) proc" where
  "purge_loop batch 0 retain now st = ret None"
| "purge_loop batch (Suc n) retain now (purged, failed, errs) =
     tryP (mu_ListUserIDsToPurge (now - AccountDeletionGracePeriod) (batch + length failed)) (\<lambda>r. case r of
       Inl e \<Rightarrow> ret (Some (purged, errs @ [e]))
     | Inr ids \<Rightarrow>
         bindP (purge_each retain now ids (purged, False, failed, errs)) (\<lambda>(purged, progressed, failed, errs).
         if length ids < batch + length failed \<or> \<not> progressed then ret (Some (purged, errs))
         else purge_loop batch n retain now (purged, failed, errs)))"

definition PurgeExpiredAccounts ::
  "nat \<Rightarrow> (reportable_media list \<Rightarrow> unit result) \<Rightarrow> int \<Rightarrow> (app, (int \<times> go_error list) option) proc" where
  "PurgeExpiredAccounts n retain now = purge_loop purgeBatchSize n retain now (0, [], [])"

end
