(* ===== verification/Account_Settle.thy ===== *)
theory Account_Settle
  imports Account_Deletion Community_Props
begin

text \<open>
  What \<open>settleCommunities\<close> and \<open>handOverOwnerships\<close> achieve: whoever leaves, every community that is still there
  has an owner who stays.
\<close>

section \<open>Weakest preconditions\<close>

lemma tx_valid_DeleteRoom_gone:
  "tx_valid (\<lambda>t. (\<not> has_room t r \<longrightarrow> Q False t) \<and>
      (\<forall>going. r \<in> set going \<longrightarrow> Q True (cascade_rooms going t))) (DeleteRoom r) Q"
proof -
  have "set going \<subseteq> set (with_threads n rs going)" for n rs and going :: "int list"
  proof (induction n arbitrary: going)
    case (Suc n)
    show ?case unfolding with_threads.simps by (rule subset_trans[OF _ Suc.IH]) simp
  qed simp
  from this[of "[r]"] have "r \<in> set (with_threads n rs [r])" for n rs by auto
  then show ?thesis
    unfolding DeleteRoom_def by (intro tx_valid_weaken[OF tx_valid_dbCall]) (auto split: if_splits)
qed

lemma reads_lock:
  "reads (LockRoomMemberRolesForUpdate r)" "reads (LockUserCommunityMembershipsForUpdate u)"
  by (auto simp: reads_def LockRoomMemberRolesForUpdate_def LockUserCommunityMembershipsForUpdate_def txQuery_def
      readsD[OF reads_query(1)] split: if_splits)

lemma tx_valid_memberships [tx_wp]:
  "tx_valid (\<lambda>t. Q (community_memberships t u) t) (LockUserCommunityMembershipsForUpdate u) Q"
  by (auto simp: tx_valid_def LockUserCommunityMembershipsForUpdate_def txQuery_def query_Inr_iff split: if_splits)

lemma tx_valid_lock_rooms: "tx_valid (\<lambda>t. Q (map (\<lambda>r. (r, member_roles t r)) rs) t) (lock_rooms rs) Q"
proof (induction rs arbitrary: Q)
  case Nil
  show ?case unfolding lock_rooms.simps list.map by (rule tx_wp)
next
  case (Cons r rs)
  show ?case
    unfolding lock_rooms.simps
    by (rule tx_valid_weaken, rule tx_wp, rule tx_wp, rule tx_wp, rule Cons.IH, rule tx_wp) simp
qed

definition owned_rooms :: "tables \<Rightarrow> int \<Rightarrow> int list" where
  "owned_rooms t u = sort (map fst (filter (\<lambda>(_, role). role = RoomUserRoleOwner) (community_memberships t u)))"

definition owned_roles :: "tables \<Rightarrow> int \<Rightarrow> (int \<times> (int \<times> string) list) list" where
  "owned_roles t u = map (\<lambda>r. (r, member_roles t r)) (owned_rooms t u)"

lemma tx_valid_ownedCommunities [tx_wp]: "tx_valid (\<lambda>t. Q (owned_roles t u) t) (ownedCommunities u) Q"
  unfolding ownedCommunities_def
  by (rule tx_valid_weaken, rule tx_wp, rule tx_valid_lock_rooms, rule tx_wp) (simp add: owned_roles_def owned_rooms_def)

section \<open>Empty rooms go\<close>

definition without_rooms :: "int set \<Rightarrow> tables \<Rightarrow> tables \<Rightarrow> bool" where
  "without_rooms G t t' \<longleftrightarrow>
     tb_rooms t' = filter (\<lambda>r. rooms_id r \<notin> G) (tb_rooms t) \<and>
     tb_room_users t' = filter (\<lambda>m. room_users_room_id m \<notin> G) (tb_room_users t) \<and>
     tb_next_id t' = tb_next_id t \<and> tb_users t' = tb_users t \<and> tb_user_accounts t' = tb_user_accounts t \<and>
     tb_posts t' = tb_posts t \<and> tb_media t' = tb_media t"

lemma without_none: "without_rooms {} t t"
  by (simp add: without_rooms_def)

lemma without_more:
  assumes "without_rooms G t t'"
  shows "without_rooms (G \<union> set going) t (cascade_rooms going t')"
  using assms unfolding without_rooms_def cascade_rooms_simps
  by (auto simp: cascade_rooms_def cascade_messages_def Let_def intro!: filter_cong)

lemma delete_lonely_valid:
  "tx_valid (\<lambda>t. \<forall>G t'. without_rooms G t t' \<longrightarrow>
       (\<forall>(r, roles)\<in>set owned. length roles \<le> 1 \<longrightarrow> \<not> has_room t' r) \<longrightarrow> Q () t')
     (delete_lonely_rooms owned) Q"
proof (induction owned)
  case Nil
  show ?case by (auto simp: tx_valid_def ret_def intro: without_none)
next
  case (Cons q owned)
  obtain r roles where q: "q = (r, roles)" by (cases q) auto
  let ?Q = "\<lambda>_ t. \<forall>G t'. without_rooms G t t' \<longrightarrow>
      (\<forall>(r, roles)\<in>set owned. length roles \<le> 1 \<longrightarrow> \<not> has_room t' r) \<longrightarrow> Q () t'"
  have compose: "without_rooms (G \<union> G') t t''" if "without_rooms G t t'" "without_rooms G' t' t''" for G G' t t' t''
    using that by (auto simp: without_rooms_def intro!: filter_cong)
  have gone: "\<not> has_room t'' r" if "without_rooms G t' t''" "\<not> has_room t' r" for G t' t''
    using that by (auto simp: without_rooms_def has_room_def)
  have step: "tx_valid (\<lambda>t. \<forall>G t'. without_rooms G t t' \<longrightarrow> (length roles \<le> 1 \<longrightarrow> \<not> has_room t' r) \<longrightarrow> ?Q () t')
      (if length roles \<le> 1 then bindP (DeleteRoom r) (\<lambda>_. ret ()) else ret ()) ?Q"
  proof (rule tx_valid_weaken, rule tx_wp, rule tx_wp, rule tx_wp, rule tx_valid_DeleteRoom_gone, rule tx_wp, goal_cases)
    case (1 t)
    have del: "without_rooms (set going) t (cascade_rooms going t)" for going
      using without_more[OF without_none, of going t] by simp
    have "\<not> has_room (cascade_rooms going t) r" if "r \<in> set going" for going
      using that by (auto simp: has_room_def cascade_rooms_simps)
    with 1 del without_none show ?case by (cases "length roles \<le> 1") blast+
  qed
  show ?case
    unfolding q delete_lonely_rooms.simps
  proof (rule tx_valid_weaken, rule tx_valid_bindP, rule Cons.IH, rule step, goal_cases)
    case (1 t)
    show ?case
    proof (intro allI impI)
      fix G t' G' t''
      assume a: "without_rooms G t t'" "length roles \<le> 1 \<longrightarrow> \<not> has_room t' r" "without_rooms G' t' t''"
        "\<forall>(r, roles)\<in>set owned. length roles \<le> 1 \<longrightarrow> \<not> has_room t'' r"
      from 1 compose[OF a(1,3)] a(2,4) gone[OF a(3)] show "Q () t''" by auto
    qed
  qed
qed

section \<open>The others get an owner\<close>

definition other_owner :: "tables \<Rightarrow> int \<Rightarrow> int \<Rightarrow> bool" where
  "other_owner t u r \<longleftrightarrow>
     (\<exists>m\<in>set (tb_room_users t). room_users_room_id m = r \<and> room_users_role m = RoomUserRoleOwner \<and>
        room_users_user_id m \<noteq> u)"

lemma successor_member:
  assumes "owner_successor t r u \<noteq> 0"
  shows "\<exists>m\<in>set (tb_room_users t). membership m = (r, owner_successor t r u) \<and> room_users_user_id m \<noteq> u"
proof -
  let ?ms = "filter (\<lambda>m. room_users_user_id m \<noteq> u \<and> has_user t (room_users_user_id m)) (room_user_rows t r)"
  from assms obtain m rest where m: "sort_key (successor_key t r) ?ms = m # rest"
    by (auto simp: owner_successor_def split: list.splits)
  then have "m \<in> set (sort_key (successor_key t r) ?ms)" by simp
  then have "m \<in> set ?ms" by simp
  with m show ?thesis by (auto simp: owner_successor_def membership_def room_user_rows_def)
qed

definition promoted :: "(int \<times> int) set \<Rightarrow> tables \<Rightarrow> tables" where
  "promoted S t = set_role_where (\<lambda>m. membership m \<in> S) RoomUserRoleOwner t"

lemma promoted_simps:
  "promoted {} t = t" "promoted S (promoted S' t) = promoted (S \<union> S') t"
  "map membership (tb_room_users (promoted S t)) = map membership (tb_room_users t)"
  by (auto simp: promoted_def set_role_where_def comp_def intro!: tables.fold_congs map_idI)

lemma promoted_frame [simp]:
  "tb_rooms (promoted S t) = tb_rooms t" "tb_next_id (promoted S t) = tb_next_id t" "tb_users (promoted S t) = tb_users t"
  "tb_user_accounts (promoted S t) = tb_user_accounts t" "tb_posts (promoted S t) = tb_posts t"
  "tb_media (promoted S t) = tb_media t"
  by (simp_all add: promoted_def set_role_where_def)

lemma promoted_owner: "other_owner t u r \<Longrightarrow> other_owner (promoted S t) u r"
  by (force simp: other_owner_def promoted_def set_role_where_def)

lemma promoted_member:
  assumes "m \<in> set (tb_room_users t)" "membership m = (r, s)" "(r, s) \<in> S" "s \<noteq> u"
  shows "other_owner (promoted S t) u r"
  unfolding other_owner_def
proof
  show "m\<lparr>room_users_role := RoomUserRoleOwner\<rparr> \<in> set (tb_room_users (promoted S t))"
    using assms by (force simp: promoted_def set_role_where_def)
qed (use assms in \<open>simp add: membership_def\<close>)

lemma handOver_valid:
  "tx_valid (\<lambda>t. \<forall>hs S.
       (\<forall>(r, roles)\<in>set owned. isSoleOwnerAmongOthers u roles \<longrightarrow> other_owner (promoted S t) u r) \<longrightarrow> Q hs (promoted S t))
     (handOverOwnerships u owned) Q"
proof (induction owned arbitrary: Q)
  case Nil
  show ?case
    by (auto simp: tx_valid_def ret_def promoted_simps dest!: spec[of _ "[]"] spec[of _ "{}"])
next
  case (Cons q owned)
  obtain r roles where q: "q = (r, roles)" by (cases q) auto
  have role: "set_role_where (\<lambda>m. room_users_room_id m = r \<and> room_users_user_id m = s) RoomUserRoleOwner t =
      promoted {(r, s)} t" for s t
    by (simp add: promoted_def membership_def)
  show ?case
    unfolding q handOverOwnerships.simps FindOwnerSuccessor_def SetRoomUserRole_def
  proof (rule tx_valid_weaken, rule tx_wp, rule Cons.IH, rule tx_wp, rule tx_wp, rule tx_wp, rule tx_wp, rule tx_wp, rule Cons.IH,
      rule tx_wp, rule tx_wp, rule tx_wp, goal_cases)
    case (1 t)
    then have Q: "\<And>hs S. (isSoleOwnerAmongOthers u roles \<longrightarrow> other_owner (promoted S t) u r) \<Longrightarrow>
        (\<forall>(r, roles)\<in>set owned. isSoleOwnerAmongOthers u roles \<longrightarrow> other_owner (promoted S t) u r) \<Longrightarrow>
        Q hs (promoted S t)" by simp
    let ?s = "owner_successor t r u"
    have got: "other_owner (promoted (S \<union> {(r, ?s)}) t) u r" if s: "?s \<noteq> 0" for S
    proof -
      from successor_member[OF s] obtain m where "m \<in> set (tb_room_users t)" "membership m = (r, ?s)" "?s \<noteq> u"
        by (auto simp: membership_def)
      then show ?thesis by (intro promoted_member) auto
    qed
    show ?case
      unfolding role promoted_simps using Q got by auto
  qed
qed

section \<open>Settled\<close>

text \<open>Every community that is there has an owner other than who leaves.\<close>

definition settled :: "int \<Rightarrow> tables \<Rightarrow> bool" where
  "settled u t \<longleftrightarrow> (\<forall>r\<in>set (tb_rooms t). is_community r \<longrightarrow> other_owner t u (rooms_id r))"

lemma sole_owner:
  assumes "communities_ok t" "r \<in> set (tb_rooms t)" "is_community r" "\<not> other_owner t u (rooms_id r)"
  shows "rooms_id r \<in> set (owned_rooms t u)"
    "length (member_roles t (rooms_id r)) \<le> 1 \<or> isSoleOwnerAmongOthers u (member_roles t (rooms_id r))"
proof -
  note ok = communities_okD[OF assms(1)]
  from ok(1)[OF assms(2,3)] assms(4) obtain m where m: "m \<in> set (tb_room_users t)" "room_users_room_id m = rooms_id r"
    "room_users_role m = RoomUserRoleOwner" "room_users_user_id m = u"
    by (auto simp: has_owner_iff other_owner_def)
  from m assms(2,3) have "(rooms_id r, RoomUserRoleOwner) \<in> set (community_memberships t u)"
    by (force simp: community_memberships_def is_community_def)
  then show "rooms_id r \<in> set (owned_rooms t u)" by (force simp: owned_rooms_def)
  from m have "(u, RoomUserRoleOwner) \<in> set (member_roles t (rooms_id r))"
    by (force simp: member_roles_def room_user_rows_def)
  then have "map_of (member_roles t (rooms_id r)) u = Some RoomUserRoleOwner"
    using distinct_members[OF ok(2)] by simp
  moreover have "\<not> list_ex (\<lambda>(i, role). i \<noteq> u \<and> role = RoomUserRoleOwner) (member_roles t (rooms_id r))"
    using assms(4) by (auto simp: list_ex_iff other_owner_def member_roles_def room_user_rows_def)
  ultimately show "length (member_roles t (rooms_id r)) \<le> 1 \<or> isSoleOwnerAmongOthers u (member_roles t (rooms_id r))"
    by (auto simp: isSoleOwnerAmongOthers_def)
qed

lemma settle_valid:
  assumes "communities_ok t0"
  shows "tx_valid (\<lambda>t. t = t0 \<and> (\<forall>hs G t1 S. without_rooms G t0 t1 \<longrightarrow> settled u (promoted S t1) \<longrightarrow> Q hs (promoted S t1)))
    (settleCommunities u) Q"
  unfolding settleCommunities_def
proof (rule tx_valid_weaken, rule tx_wp, rule tx_wp, rule handOver_valid, rule delete_lonely_valid, rule tx_wp, goal_cases)
  case (1 t)
  show ?case
  proof (intro allI impI)
    fix G t1 hs S
    assume w: "without_rooms G t t1"
      and gone: "\<forall>(r, roles)\<in>set (owned_roles t u). length roles \<le> 1 \<longrightarrow> \<not> has_room t1 r"
      and got: "\<forall>(r, roles)\<in>set (owned_roles t u). isSoleOwnerAmongOthers u roles \<longrightarrow> other_owner (promoted S t1) u r"
    have "settled u (promoted S t1)"
      unfolding settled_def
    proof (intro ballI impI)
      fix r assume r: "r \<in> set (tb_rooms (promoted S t1))" "is_community r"
      with w have r0: "r \<in> set (tb_rooms t0)" "rooms_id r \<notin> G" using 1 by (auto simp: without_rooms_def)
      show "other_owner (promoted S t1) u (rooms_id r)"
      proof (cases "other_owner t0 u (rooms_id r)")
        case True
        with w r0 1 have "other_owner t1 u (rooms_id r)" by (auto simp: other_owner_def without_rooms_def)
        then show ?thesis by (rule promoted_owner)
      next
        case False
        note sole = sole_owner[OF assms r0(1) r(2) False]
        have "(rooms_id r, member_roles t0 (rooms_id r)) \<in> set (owned_roles t u)"
          using sole(1) 1 by (auto simp: owned_roles_def)
        with gone got have "length (member_roles t0 (rooms_id r)) \<le> 1 \<longrightarrow> \<not> has_room t1 (rooms_id r)"
          "isSoleOwnerAmongOthers u (member_roles t0 (rooms_id r)) \<longrightarrow> other_owner (promoted S t1) u (rooms_id r)" by auto
        moreover have "has_room t1 (rooms_id r)" using r(1) by (simp add: has_room_def)
        ultimately show ?thesis using sole(2) by blast
      qed
    qed
    with 1 w show "Q hs (promoted S t1)" by blast
  qed
qed

end
