(* ===== verification/Post_Tree.thy ===== *)
theory Post_Tree
  imports Post_Store
begin

text \<open>
  Posts as a forest: the ancestors of a post, what lies between a post and an ancestor, and how creating and
  deleting a post changes what can be seen below its ancestors.
\<close>

section \<open>Well-formed tables\<close>

text \<open>IDs are positive and unique, and a reply is younger than the post it replies to, which is there.\<close>

definition forest :: "post_row list \<Rightarrow> bool" where
  "forest ps \<longleftrightarrow>
     distinct (map posts_id ps) \<and>
     list_all (\<lambda>p. 0 < posts_id p \<and>
       (case posts_parent_id p of None \<Rightarrow> True | Some q \<Rightarrow> q < posts_id p \<and> find_post ps q \<noteq> None)) ps"

lemma find_post_Some: "find_post ps i = Some p \<Longrightarrow> p \<in> set ps \<and> posts_id p = i"
  by (auto simp: find_post_def find_Some_iff)

lemma find_post_None: "find_post ps i = None \<longleftrightarrow> i \<notin> posts_id ` set ps"
  by (auto simp: find_post_def find_None_iff)

lemma find_post_member:
  assumes "distinct (map posts_id ps)" "p \<in> set ps"
  shows "find_post ps (posts_id p) = Some p"
  using assms unfolding find_post_def by (induction ps) auto

lemma forestD:
  assumes "forest ps" "find_post ps i = Some p"
  shows "0 < i" "posts_parent_id p = Some q \<Longrightarrow> 0 < q \<and> q < i \<and> find_post ps q \<noteq> None"
proof -
  have all: "0 < posts_id r \<and> (case posts_parent_id r of None \<Rightarrow> True | Some q \<Rightarrow> q < posts_id r \<and> find_post ps q \<noteq> None)"
    if "r \<in> set ps" for r
    using assms(1) that by (auto simp: forest_def list_all_iff)
  note p = find_post_Some[OF assms(2)]
  show "0 < i" using all[of p] p by simp
  show "0 < q \<and> q < i \<and> find_post ps q \<noteq> None" if q: "posts_parent_id p = Some q"
  proof -
    from all[of p] p q have "q < i" and some: "find_post ps q \<noteq> None" by auto
    moreover from some obtain r where "r \<in> set ps" "posts_id r = q" by (auto simp: find_post_None)
    with all[of r] have "0 < q" by auto
    ultimately show ?thesis by simp
  qed
qed

lemma above_forest:
  assumes "forest ps" "find_post ps i = Some p"
  shows "above ps i = (case posts_parent_id p of None \<Rightarrow> [] | Some q \<Rightarrow> q # above ps q)"
proof (cases "posts_parent_id p")
  case None
  then show ?thesis using assms(2) by (simp add: above.simps[of ps i])
next
  case (Some q)
  with forestD(2)[OF assms Some] assms(2) show ?thesis by (simp add: above.simps[of ps i])
qed

text \<open>Induction from the roots down.\<close>

lemma forest_induct [consumes 2, case_names root reply]:
  assumes "forest ps" "find_post ps i \<noteq> None"
    and "\<And>i p. find_post ps i = Some p \<Longrightarrow> posts_parent_id p = None \<Longrightarrow> P i"
    and "\<And>i p q. find_post ps i = Some p \<Longrightarrow> posts_parent_id p = Some q \<Longrightarrow> find_post ps q \<noteq> None \<Longrightarrow>
           0 < q \<Longrightarrow> q < i \<Longrightarrow> P q \<Longrightarrow> P i"
  shows "P i"
  using assms(2)
proof (induction "nat i" arbitrary: i rule: less_induct)
  case less
  then obtain p where p: "find_post ps i = Some p" by auto
  show ?case
  proof (cases "posts_parent_id p")
    case (Some q)
    note q = forestD(2)[OF assms(1) p Some]
    with less.hyps[of q] have "P q" by auto
    with assms(4)[OF p Some] q show ?thesis by blast
  qed (use assms(3)[OF p] in simp)
qed

lemma above_member:
  assumes "forest ps" "find_post ps i \<noteq> None"
  shows "a \<in> set (above ps i) \<Longrightarrow> a < i \<and> find_post ps a \<noteq> None"
  using assms by (induction rule: forest_induct) (auto simp: above_forest[OF assms(1)])

lemma distinct_above:
  assumes "forest ps" "find_post ps i \<noteq> None"
  shows "distinct (i # above ps i)"
  using assms
proof (induction rule: forest_induct)
  case (reply i p q)
  have up: "above ps i = q # above ps q" using reply by (simp add: above_forest[OF assms(1)])
  have "x < i" if "x \<in> set (q # above ps q)" for x
    using that reply above_member[OF assms(1), of q x] by auto
  with reply show ?case unfolding up by auto
qed (simp add: above_forest[OF assms(1)])

lemma length_above:
  assumes "forest ps" "find_post ps i \<noteq> None"
  shows "length (i # above ps i) \<le> length ps"
proof -
  have "set (i # above ps i) \<subseteq> set (map posts_id ps)"
    using above_member[OF assms] assms(2) by (auto simp: find_post_None)
  from card_mono[OF finite_set this] have "length (i # above ps i) \<le> card (set (map posts_id ps))"
    unfolding distinct_card[OF distinct_above[OF assms]] .
  also have "\<dots> \<le> length ps" using card_length[of "map posts_id ps"] by simp
  finally show ?thesis .
qed

text \<open>The ancestors of an ancestor are the rest of the ancestors.\<close>

lemma above_split:
  assumes "forest ps" "find_post ps i \<noteq> None" "d \<in> set (i # above ps i)"
  obtains xs where "i # above ps i = xs @ d # above ps d"
proof -
  have "d \<in> set (i # above ps i) \<longrightarrow> (\<exists>xs. i # above ps i = xs @ d # above ps d)"
    using assms(1,2)
  proof (induction rule: forest_induct)
    case (reply i p q)
    show ?case
    proof (intro impI)
      assume d: "d \<in> set (i # above ps i)"
      have up: "above ps i = q # above ps q" using reply by (simp add: above_forest[OF assms(1)])
      show "\<exists>xs. i # above ps i = xs @ d # above ps d"
      proof (cases "d = i")
        case False
        with d up reply obtain xs where "q # above ps q = xs @ d # above ps d" by auto
        with up have "i # above ps i = (i # xs) @ d # above ps d" by simp
        then show ?thesis by blast
      qed auto
    qed
  qed (auto simp: above_forest[OF assms(1)])
  with assms(3) that show thesis by blast
qed

lemma above_trans:
  assumes "forest ps" "find_post ps i \<noteq> None" "d \<in> set (i # above ps i)" "a \<in> set (above ps d)"
  shows "a \<in> set (above ps i)"
proof -
  from assms(1-3) obtain xs where "i # above ps i = xs @ d # above ps d" by (rule above_split)
  with assms(4) show ?thesis by (cases xs) auto
qed

section \<open>What lies between\<close>

definition live :: "post_row list \<Rightarrow> int \<Rightarrow> bool" where
  "live ps i \<longleftrightarrow> (case find_post ps i of None \<Rightarrow> False | Some p \<Rightarrow> posts_deleted_at p = None)"

text \<open>From a post up to an ancestor, which is not part of it.\<close>

definition path :: "post_row list \<Rightarrow> int \<Rightarrow> int \<Rightarrow> int list" where
  "path ps a i = takeWhile (\<lambda>x. x \<noteq> a) (i # above ps i)"

lemma visible_below_iff:
  assumes "forest ps" "find_post ps i \<noteq> None"
  shows "visible_below ps a i \<longleftrightarrow> a \<in> set (above ps i) \<and> list_all (live ps) (path ps a i)"
  using assms
proof (induction rule: forest_induct)
  case (root i p)
  then show ?case by (simp add: visible_below.simps[of ps a i] above_forest[OF assms(1)])
next
  case (reply i p q)
  have up: "above ps i = q # above ps q" using reply by (simp add: above_forest[OF assms(1)])
  have "a \<in> set (above ps i) \<Longrightarrow> a \<noteq> i"
    using above_member[OF assms(1), of i a] reply(1) by auto
  then show ?case
    using reply by (auto simp: visible_below.simps[of ps a i] up path_def live_def list_all_iff)
qed

lemma visible_below_found: "visible_below ps a i \<Longrightarrow> find_post ps i \<noteq> None"
  by (auto simp: visible_below.simps[of ps a i] split: option.splits)

lemma path_split:
  assumes "forest ps" "find_post ps i \<noteq> None" "d \<in> set (i # above ps i)" "a \<in> set (above ps d)"
  shows "path ps a i = path ps d i @ path ps a d"
proof -
  from assms(1-3) obtain xs where xs: "i # above ps i = xs @ d # above ps d" by (rule above_split)
  from distinct_above[OF assms(1,2)] xs have dist: "distinct (xs @ d # above ps d)" by metis
  with assms(4) have "a \<notin> set xs" "d \<notin> set xs" "a \<noteq> d" by auto
  moreover from this have "takeWhile (\<lambda>x. x \<noteq> d) (xs @ d # above ps d) = xs"
    by (auto simp: takeWhile_append2 takeWhile_tail)
  moreover from \<open>a \<notin> set xs\<close> have "takeWhile (\<lambda>x. x \<noteq> a) (xs @ ys) = xs @ takeWhile (\<lambda>x. x \<noteq> a) ys" for ys
    by (intro takeWhile_append2) auto
  ultimately show ?thesis unfolding path_def xs by simp
qed

lemma path_memberD:
  assumes "forest ps" "find_post ps i \<noteq> None" "a \<in> set (above ps i)" "x \<in> set (path ps a i)"
  shows "x \<in> set (i # above ps i)" "a \<in> set (above ps x)"
proof -
  show x: "x \<in> set (i # above ps i)" using assms(4) set_takeWhileD unfolding path_def by metis
  from assms(1,2) x obtain xs where xs: "i # above ps i = xs @ x # above ps x" by (rule above_split)
  from distinct_above[OF assms(1,2)] xs have dist: "distinct (xs @ x # above ps x)" by metis
  have "x \<noteq> a" using assms(4) set_takeWhileD unfolding path_def by metis
  have "a \<notin> set xs"
  proof
    assume "a \<in> set xs"
    then have "takeWhile (\<lambda>x. x \<noteq> a) (xs @ x # above ps x) = takeWhile (\<lambda>x. x \<noteq> a) xs" by simp
    with assms(4) xs have "x \<in> set xs" unfolding path_def by (metis set_takeWhileD)
    with dist show False by auto
  qed
  moreover have "a \<in> set (xs @ x # above ps x)" using assms(3) xs by (metis list.set_intros(2))
  ultimately show "a \<in> set (above ps x)" using \<open>x \<noteq> a\<close> by auto
qed

section \<open>Rows that change\<close>

definition parent_key :: "post_row \<Rightarrow> int \<times> int option" where
  "parent_key p = (posts_id p, posts_parent_id p)"

definition tree_key :: "post_row \<Rightarrow> (int \<times> int option) \<times> int option" where
  "tree_key p = (parent_key p, posts_deleted_at p)"

lemma find_post_keyed:
  assumes "map key ps = map key ps'" "\<And>p p'. key p = key p' \<Longrightarrow> posts_id p = posts_id p'"
  shows "rel_option (\<lambda>p p'. key p = key p') (find_post ps i) (find_post ps' i)"
proof -
  from assms(1) have "list_all2 (\<lambda>p p'. key p = key p') ps ps'"
    by (simp add: list_all2_conv_all_nth list_eq_iff_nth_eq)
  then show ?thesis unfolding find_post_def
    by (induction rule: list_all2_induct) (auto dest: assms(2))
qed

lemma same_parents:
  assumes "map parent_key ps = map parent_key ps'"
  shows "rel_option (\<lambda>p p'. parent_key p = parent_key p') (find_post ps i) (find_post ps' i)"
    "above ps i = above ps' i" "map posts_id ps = map posts_id ps'" "forest ps = forest ps'"
proof -
  have keys: "parent_key p = parent_key p' \<Longrightarrow> posts_id p = posts_id p' \<and> posts_parent_id p = posts_parent_id p'" for p p'
    by (simp add: parent_key_def)
  have found: "rel_option (\<lambda>p p'. parent_key p = parent_key p') (find_post ps i) (find_post ps' i)" for i
    by (rule find_post_keyed[OF assms]) (drule keys, simp)
  then show "rel_option (\<lambda>p p'. parent_key p = parent_key p') (find_post ps i) (find_post ps' i)" .
  show "above ps i = above ps' i"
  proof (induction "nat i" arbitrary: i rule: less_induct)
    case less
    show ?case
    proof (cases "find_post ps i")
      case None
      then show ?thesis using found[of i] by (simp add: above.simps[of _ i])
    next
      case (Some p)
      with found[of i] obtain p' where p': "find_post ps' i = Some p'" "parent_key p = parent_key p'"
        by (auto simp: option_rel_Some1)
      from keys[OF p'(2)] have "posts_parent_id p' = posts_parent_id p" by simp
      with Some p'(1) less show ?thesis
        by (cases "posts_parent_id p") (simp_all add: above.simps[of _ i])
    qed
  qed
  have "map fst (map parent_key ps) = map fst (map parent_key ps')" by (simp only: assms)
  then show ids: "map posts_id ps = map posts_id ps'" by (simp add: parent_key_def comp_def)
  have none: "find_post ps q = None \<longleftrightarrow> find_post ps' q = None" for q
    using found[of q] by (auto elim: option.rel_cases)
  define ok where "ok = (\<lambda>(i :: int, parent). 0 < i \<and> (case parent of None \<Rightarrow> True | Some q \<Rightarrow> q < i \<and> find_post ps q \<noteq> None))"
  have "forest ps \<longleftrightarrow> distinct (map posts_id ps) \<and> list_all ok (map parent_key ps)"
    by (simp add: forest_def list.pred_map comp_def ok_def parent_key_def)
  moreover have "forest ps' \<longleftrightarrow> distinct (map posts_id ps') \<and> list_all ok (map parent_key ps')"
    by (simp add: forest_def list.pred_map comp_def ok_def parent_key_def none cong: option.case_cong)
  ultimately show "forest ps = forest ps'" by (simp only: ids assms)
qed

lemma visible_replies_ids:
  "visible_replies ps a = int (length (filter (visible_below ps a) (map posts_id ps)))"
  by (simp add: visible_replies_def filter_map comp_def)

lemma same_tree:
  assumes "map tree_key ps = map tree_key ps'"
  shows "above ps i = above ps' i" "forest ps = forest ps'" "visible_replies ps a = visible_replies ps' a"
    "live ps i = live ps' i" "map posts_id ps = map posts_id ps'"
proof -
  have "map fst (map tree_key ps) = map fst (map tree_key ps')" by (simp only: assms)
  then have parents: "map parent_key ps = map parent_key ps'" by (simp add: tree_key_def comp_def)
  note same_parents(2-4)[OF this]
  then show "above ps i = above ps' i" "forest ps = forest ps'" "map posts_id ps = map posts_id ps'" by simp_all
  have keys: "tree_key p = tree_key p' \<Longrightarrow> posts_id p = posts_id p' \<and> posts_parent_id p = posts_parent_id p' \<and>
      posts_deleted_at p = posts_deleted_at p'" for p p'
    by (simp add: tree_key_def parent_key_def)
  have found: "rel_option (\<lambda>p p'. tree_key p = tree_key p') (find_post ps i) (find_post ps' i)" for i
    by (rule find_post_keyed[OF assms]) (drule keys, simp)
  have same: "find_post ps i = None \<and> find_post ps' i = None \<or>
      (\<exists>p p'. find_post ps i = Some p \<and> find_post ps' i = Some p' \<and>
        posts_parent_id p' = posts_parent_id p \<and> posts_deleted_at p' = posts_deleted_at p)" for i
    using found[of i] by (cases "find_post ps i"; cases "find_post ps' i") (auto dest: keys)
  show "live ps i = live ps' i" using same[of i] by (auto simp: live_def)
  have "visible_below ps a i = visible_below ps' a i" for a i
  proof (induction "nat i" arbitrary: i rule: less_induct)
    case less
    have IH: "visible_below ps a q = visible_below ps' a q" if "0 \<le> q" "q < i" for q
      using less[of q] that by simp
    from same[of i] show ?case
    proof (elim disjE exE conjE)
      fix p p' assume p: "find_post ps i = Some p" "find_post ps' i = Some p'"
        "posts_parent_id p' = posts_parent_id p" "posts_deleted_at p' = posts_deleted_at p"
      with IH show ?thesis
        by (cases "posts_parent_id p") (simp_all add: visible_below.simps[of _ a i])
    qed (simp add: visible_below.simps[of _ a i])
  qed
  then have "visible_below ps a = visible_below ps' a" by (simp add: fun_eq_iff)
  then show "visible_replies ps a = visible_replies ps' a"
    using same_parents(3)[OF parents] by (simp add: visible_replies_ids)
qed

section \<open>A new reply\<close>

text \<open>Everything between a new reply and the root can be seen, the root aside.\<close>

definition between_live :: "post_row list \<Rightarrow> int option \<Rightarrow> bool" where
  "between_live ps parent \<longleftrightarrow>
     (case parent of None \<Rightarrow> True | Some q \<Rightarrow> list_all (live ps) (butlast (q # above ps q)))"

lemma find_post_append:
  "find_post (ps @ qs) i = (case find_post ps i of None \<Rightarrow> find_post qs i | Some p \<Rightarrow> Some p)"
  by (induction ps) (auto simp: find_post_def)

lemma find_post_single [simp]: "find_post [e] i = (if posts_id e = i then Some e else None)"
  by (simp add: find_post_def)

definition chain :: "post_row list \<Rightarrow> int option \<Rightarrow> int list" where
  "chain ps parent = (case parent of None \<Rightarrow> [] | Some q \<Rightarrow> q # above ps q)"

lemma forest_snoc:
  assumes "forest ps" "0 < posts_id e" "\<forall>i\<in>posts_id ` set ps. i < posts_id e"
    "\<And>q. posts_parent_id e = Some q \<Longrightarrow> find_post ps q \<noteq> None"
  shows "forest (ps @ [e])"
proof -
  have "q < posts_id e" if "posts_parent_id e = Some q" for q
    using assms(4)[OF that] assms(3) by (auto simp: find_post_None)
  then show ?thesis
    using assms by (fastforce simp: forest_def list_all_iff find_post_append split: option.splits)
qed

lemma above_snoc:
  assumes "forest ps" "forest (ps @ [e])" "find_post ps i \<noteq> None"
  shows "above (ps @ [e]) i = above ps i"
  using assms(1,3)
proof (induction rule: forest_induct)
  case (reply i p q)
  then show ?case by (simp add: above_forest[OF assms(1)] above_forest[OF assms(2), of i p] find_post_append)
qed (simp add: above_forest[OF assms(1)] above_forest[OF assms(2)] find_post_append)

lemma live_snoc: "find_post ps i \<noteq> None \<Longrightarrow> live (ps @ [e]) i = live ps i"
  by (auto simp: live_def find_post_append)

lemma visible_snoc_old:
  assumes "forest ps" "forest (ps @ [e])" "find_post ps i \<noteq> None"
  shows "visible_below (ps @ [e]) a i = visible_below ps a i"
proof -
  have found: "find_post (ps @ [e]) i \<noteq> None" using assms(3) by (auto simp: find_post_append)
  have "live (ps @ [e]) x = live ps x" if "x \<in> set (path ps a i)" for x
  proof -
    have "x \<in> set (i # above ps i)" using that set_takeWhileD unfolding path_def by metis
    with above_member[OF assms(1,3)] assms(3) have "find_post ps x \<noteq> None" by auto
    then show ?thesis by (rule live_snoc)
  qed
  then show ?thesis
    unfolding visible_below_iff[OF assms(1,3)] visible_below_iff[OF assms(2) found]
    by (auto simp: above_snoc[OF assms] path_def list_all_iff)
qed

lemma visible_snoc_new:
  assumes "forest ps" "forest (ps @ [e])" "find_post ps (posts_id e) = None" "posts_deleted_at e = None"
    and "between_live ps (posts_parent_id e)"
  shows "visible_below (ps @ [e]) a (posts_id e) \<longleftrightarrow> a \<in> set (chain ps (posts_parent_id e))"
proof -
  have new: "find_post (ps @ [e]) (posts_id e) = Some e"
    using assms(3) by (simp add: find_post_append)
  show ?thesis
  proof (cases "posts_parent_id e")
    case None
    then show ?thesis
      using visible_below_iff[OF assms(2), of "posts_id e" a] above_forest[OF assms(2) new] new
      by (simp add: chain_def)
  next
    case (Some q)
    from forestD(2)[OF assms(2) new Some] have q: "q < posts_id e" "find_post (ps @ [e]) q \<noteq> None" by auto
    then have found: "find_post ps q \<noteq> None"
      by (auto simp: find_post_append split: option.splits if_splits)
    have up: "above (ps @ [e]) (posts_id e) = q # above ps q"
      using above_forest[OF assms(2) new] Some above_snoc[OF assms(1,2) found] by simp
    have "list_all (live (ps @ [e])) (path (ps @ [e]) a (posts_id e))" if a: "a \<in> set (q # above ps q)"
    proof -
      from split_list_first[OF a] obtain xs ys where xs: "q # above ps q = xs @ a # ys" "a \<notin> set xs" by blast
      then have "takeWhile (\<lambda>x. x \<noteq> a) (q # above ps q) = xs"
        by (metis (mono_tags, lifting) takeWhile_append2 takeWhile.simps(2) append_Nil2)
      moreover have "set xs \<subseteq> set (butlast (q # above ps q))" using xs(1) by (simp add: butlast_append)
      ultimately have "live ps x" if "x \<in> set (takeWhile (\<lambda>x. x \<noteq> a) (q # above ps q))" for x
        using assms(5) Some that by (auto simp: between_live_def list_all_iff)
      moreover have "find_post ps x \<noteq> None" if "x \<in> set (takeWhile (\<lambda>x. x \<noteq> a) (q # above ps q))" for x
        using set_takeWhileD[OF that] above_member[OF assms(1) found] found by auto
      ultimately have old: "live (ps @ [e]) x" if "x \<in> set (takeWhile (\<lambda>x. x \<noteq> a) (q # above ps q))" for x
        using that live_snoc by blast
      have "live (ps @ [e]) (posts_id e)" using new assms(4) by (simp add: live_def)
      with old show ?thesis by (auto simp: path_def up list_all_iff)
    qed
    then show ?thesis
      using visible_below_iff[OF assms(2), of "posts_id e" a] new by (auto simp: up chain_def Some)
  qed
qed

lemma visible_replies_snoc:
  assumes "forest ps" "forest (ps @ [e])" "find_post ps (posts_id e) = None" "posts_deleted_at e = None"
    and "between_live ps (posts_parent_id e)"
  shows "visible_replies (ps @ [e]) a =
    visible_replies ps a + (if a \<in> set (chain ps (posts_parent_id e)) then 1 else 0)"
proof -
  have "filter (\<lambda>p. visible_below (ps @ [e]) a (posts_id p)) ps = filter (\<lambda>p. visible_below ps a (posts_id p)) ps"
    by (rule filter_cong[OF refl], rule visible_snoc_old[OF assms(1,2)]) (unfold find_post_None, blast)
  then show ?thesis using visible_snoc_new[OF assms] by (simp add: visible_replies_def)
qed

section \<open>Posts that go\<close>

lemma visible_killed:
  assumes "forest ps" "map parent_key ps' = map parent_key ps" "\<And>x. live ps' x \<longleftrightarrow> live ps x \<and> x \<notin> D"
    and "find_post ps i \<noteq> None"
  shows "visible_below ps' a i \<longleftrightarrow> visible_below ps a i \<and> set (path ps a i) \<inter> D = {}"
proof -
  note same = same_parents[OF assms(2)]
  have f: "forest ps'" "find_post ps' i \<noteq> None"
    using same(1)[of i] same(4) assms(1,4) by (auto elim: option.rel_cases)
  show ?thesis
    unfolding visible_below_iff[OF f] visible_below_iff[OF assms(1,4)]
    by (auto simp: same(2) path_def list_all_iff assms(3))
qed

text \<open>What is not above them counts as before.\<close>

lemma visible_replies_elsewhere:
  assumes "forest ps" "map parent_key ps' = map parent_key ps" "\<And>x. live ps' x \<longleftrightarrow> live ps x \<and> x \<notin> D"
    and "\<And>x. x \<in> D \<Longrightarrow> find_post ps x \<noteq> None \<Longrightarrow> a \<notin> set (above ps x)"
  shows "visible_replies ps' a = visible_replies ps a"
proof -
  have "visible_below ps' a i \<longleftrightarrow> visible_below ps a i" if "i \<in> set (map posts_id ps)" for i
  proof -
    from that have found: "find_post ps i \<noteq> None" by (simp add: find_post_None)
    have "x \<notin> D" if v: "visible_below ps a i" and x: "x \<in> set (path ps a i)" for x
    proof -
      from v have "a \<in> set (above ps i)" by (simp add: visible_below_iff[OF assms(1) found])
      note on = path_memberD[OF assms(1) found this x]
      from on(1) above_member[OF assms(1) found] found have "find_post ps x \<noteq> None" by auto
      with on(2) assms(4) show ?thesis by blast
    qed
    then show ?thesis using visible_killed[OF assms(1-3) found, of a] by auto
  qed
  then have "filter (visible_below ps' a) (map posts_id ps) = filter (visible_below ps a) (map posts_id ps)"
    by (intro filter_cong) auto
  then show ?thesis using same_parents(3)[OF assms(2)] by (simp only: visible_replies_ids)
qed

lemma not_below_itself: "forest ps \<Longrightarrow> \<not> visible_below ps d d"
  using visible_below_found[of ps d d] visible_below_iff[of ps d d] distinct_above[of ps d] by auto

lemma visible_replies_above:
  assumes "forest ps" "map parent_key ps' = map parent_key ps" "\<And>x. live ps' x \<longleftrightarrow> live ps x \<and> x \<notin> {d}"
    and "visible_below ps a d"
  shows "visible_replies ps a = visible_replies ps' a + 1 + visible_replies ps d"
proof -
  let ?ids = "map posts_id ps"
  have d: "find_post ps d \<noteq> None" using assms(4) by (rule visible_below_found)
  with assms(1,4) have ad: "a \<in> set (above ps d)" and pd: "list_all (live ps) (path ps a d)"
    by (auto simp: visible_below_iff)
  have lost: "visible_below ps a i \<and> d \<in> set (path ps a i) \<longleftrightarrow> i = d \<or> visible_below ps d i"
    if "i \<in> set ?ids" for i
  proof -
    from that have i: "find_post ps i \<noteq> None" by (simp add: find_post_None)
    have dd: "d \<in> set (path ps a d)" using distinct_above[OF assms(1) d] ad by (auto simp: path_def)
    show ?thesis
    proof (cases "d \<in> set (i # above ps i)")
      case True
      note split = path_split[OF assms(1) i True ad]
      have "a \<in> set (above ps i)" by (rule above_trans[OF assms(1) i True ad])
      with True split dd pd show ?thesis
        by (auto simp: visible_below_iff[OF assms(1) i] path_def)
    next
      case False
      then show ?thesis
        using path_memberD(1)[OF assms(1) i, of a d] visible_below_iff[OF assms(1) i] by auto
    qed
  qed
  have "visible_below ps' a i \<longleftrightarrow> visible_below ps a i \<and> d \<notin> set (path ps a i)" if "i \<in> set ?ids" for i
    using visible_killed[OF assms(1-3), of i a] that by (auto simp: find_post_None)
  then have "filter (visible_below ps' a) ?ids = filter (\<lambda>i. visible_below ps a i \<and> d \<notin> set (path ps a i)) ?ids"
    by (intro filter_cong) auto
  moreover have "filter (\<lambda>i. visible_below ps a i \<and> d \<in> set (path ps a i)) ?ids = filter (\<lambda>i. i = d \<or> visible_below ps d i) ?ids"
    using lost by (intro filter_cong) auto
  moreover have "length (filter (visible_below ps a) ?ids) =
      length (filter (\<lambda>i. visible_below ps a i \<and> d \<notin> set (path ps a i)) ?ids) +
      length (filter (\<lambda>i. visible_below ps a i \<and> d \<in> set (path ps a i)) ?ids)"
  proof -
    have "length (filter P ids) = length (filter (\<lambda>i. P i \<and> \<not> Q i) ids) + length (filter (\<lambda>i. P i \<and> Q i) ids)"
      for P Q :: "int \<Rightarrow> bool" and ids by (induction ids) auto
    from this[of _ ?ids "\<lambda>i. d \<in> set (path ps a i)"] show ?thesis .
  qed
  moreover have "length (filter (\<lambda>i. i = d \<or> visible_below ps d i) ?ids) = 1 + length (filter (visible_below ps d) ?ids)"
  proof -
    have "distinct ids \<Longrightarrow> length (filter (\<lambda>i. i = d \<or> visible_below ps d i) ids) =
        (if d \<in> set ids then 1 else 0) + length (filter (visible_below ps d) ids)" for ids
      using not_below_itself[OF assms(1), of d] by (induction ids) auto
    from this[of ?ids] show ?thesis using assms(1) d by (simp add: forest_def find_post_None)
  qed
  ultimately show ?thesis
    using same_parents(3)[OF assms(2)] by (simp only: visible_replies_ids)
qed

end
