(* ===== verification/Post_Props.thy ===== *)
theory Post_Props
  imports Post_Tree
begin

text \<open>
  What the numbers of replies are worth: the walks up the ancestors end, and as long as nothing is written
  below a deleted post, every post shows exactly the number of the replies below it that can be seen.
\<close>

section \<open>The walk\<close>

definition bump :: "(int \<Rightarrow> int) \<Rightarrow> int list \<Rightarrow> tables \<Rightarrow> tables" where
  "bump f is t =
     t\<lparr>tb_posts := map (\<lambda>p. if posts_id p \<in> set is then p\<lparr>posts_reply_count := f (posts_reply_count p)\<rparr> else p) (tb_posts t)\<rparr>"

lemma bump_Nil [simp]: "bump f [] t = t"
  by (simp add: bump_def)

lemma bump_Cons: "i \<notin> set is \<Longrightarrow> bump f is (set_count f i t) = bump f (i # is) t"
  by (auto simp: bump_def set_count_def comp_def intro!: tables.fold_congs)

lemma key_bump [simp]: "tree_key (p\<lparr>posts_reply_count := c\<rparr>) = tree_key p"
  by (simp add: tree_key_def parent_key_def)

lemma map_same: "(\<And>p. key (f p) = key p) \<Longrightarrow> map key (map f ps) = map key ps"
  by simp

lemma bump_tree: "map tree_key (tb_posts (bump f is t)) = map tree_key (tb_posts t)"
  "map tree_key (tb_posts (set_count f i t)) = map tree_key (tb_posts t)"
  by (simp_all add: bump_def set_count_def)

lemma find_set_count:
  "map_option posts_parent_id (find_post (tb_posts (set_count f i t)) j) = map_option posts_parent_id (find_post (tb_posts t) j)"
proof -
  have "map_option posts_parent_id (find_post (map (\<lambda>p. if posts_id p = i then p\<lparr>posts_reply_count := f (posts_reply_count p)\<rparr> else p) ps) j)
      = map_option posts_parent_id (find_post ps j)" for ps
    by (induction ps) (auto simp: find_post_def)
  then show ?thesis by (simp add: set_count_def)
qed

lemma chain_same:
  assumes "map tree_key ps = map tree_key ps'"
  shows "chain ps cur = chain ps' cur"
  using same_tree(1)[OF assms] by (cases cur) (simp_all add: chain_def)

lemma walkUp_valid:
  "tx_valid (\<lambda>t. forest (tb_posts t) \<and> (\<forall>i. cur = Some i \<longrightarrow> find_post (tb_posts t) i \<noteq> None) \<and>
       length (chain (tb_posts t) cur) \<le> n \<and> Q True (bump f (chain (tb_posts t) cur) t))
     (walkUp n f cur) Q"
proof (induction n arbitrary: cur)
  case 0
  show ?case
  proof (cases cur)
    case None
    then show ?thesis by (auto simp: chain_def tx_valid_def ret_def)
  qed (simp add: chain_def tx_valid_def)
next
  case (Suc n)
  show ?case
  proof (cases cur)
    case None
    then show ?thesis by (auto simp: chain_def tx_valid_def ret_def)
  next
    case (Some i)
    show ?thesis
      unfolding Some walkUp.simps
    proof (rule tx_valid_weaken, rule tx_wp, rule tx_wp, rule tx_valid_option, rule tx_wp, rule Suc.IH, rule tx_wp, rule tx_wp,
        goal_cases)
      case (1 t)
      then have f: "forest (tb_posts t)" "find_post (tb_posts t) i \<noteq> None"
        and n: "length (i # above (tb_posts t) i) \<le> Suc n"
        and Q: "Q True (bump f (i # above (tb_posts t) i) t)"
        by (simp_all add: chain_def)
      from f(2) obtain p where p: "find_post (tb_posts t) i = Some p" by blast
      let ?t = "set_count f i t"
      note same = same_tree[OF bump_tree(2)[of f i t]]
      have up: "chain (tb_posts ?t) (posts_parent_id p) = above (tb_posts t) i"
        using above_forest[OF f(1) p] by (simp add: chain_def same split: option.splits)
      have "i \<notin> set (above (tb_posts t) i)" using distinct_above[OF f] by simp
      from bump_Cons[OF this, of f t] Q have "Q True (bump f (above (tb_posts t) i) ?t)" by simp
      moreover have "find_post (tb_posts ?t) q \<noteq> None" if "posts_parent_id p = Some q" for q
        using forestD(2)[OF f(1) p that] by (auto simp: find_post_None same(5)[symmetric] simp flip: set_map)
      moreover have "map_option posts_parent_id (find_post (tb_posts ?t) i) = Some (posts_parent_id p)"
        by (simp add: find_set_count p)
      ultimately show ?case using f(1) n by (auto simp: same up)
    qed
  qed
qed

section \<open>The operations\<close>

definition posts_ok :: "tables \<Rightarrow> bool" where
  "posts_ok t \<longleftrightarrow> forest (tb_posts t) \<and> 0 < tb_next_id t \<and> list_all (\<lambda>p. posts_id p < tb_next_id t) (tb_posts t)"

definition new_row :: "post \<Rightarrow> tables \<Rightarrow> post_row" where
  "new_row p t = \<lparr>posts_id = tb_next_id t, posts_content = ps_Content p, posts_created_at = ps_CreatedAt p,
     posts_updated_at = ps_UpdatedAt p, posts_user_id = ps_UserID p, posts_parent_id = valid_parent (ps_ParentID p),
     posts_deleted_at = None, posts_reply_count = 0\<rparr>"

definition added :: "post \<Rightarrow> tables \<Rightarrow> tables" where
  "added p t = t\<lparr>tb_next_id := tb_next_id t + 1, tb_posts := tb_posts t @ [new_row p t]\<rparr>"

lemma new_post_forest:
  assumes "posts_ok t" "\<And>q. valid_parent (ps_ParentID p) = Some q \<Longrightarrow> find_post (tb_posts t) q \<noteq> None"
  shows "forest (tb_posts t @ [new_row p t])" "find_post (tb_posts t) (tb_next_id t) = None"
proof -
  have fresh: "\<forall>i\<in>posts_id ` set (tb_posts t). i < tb_next_id t"
    using assms(1) by (auto simp: posts_ok_def list_all_iff)
  then show "find_post (tb_posts t) (tb_next_id t) = None" by (auto simp: find_post_None)
  show "forest (tb_posts t @ [new_row p t])"
    using assms fresh by (intro forest_snoc) (auto simp: posts_ok_def new_row_def)
qed

lemma chain_added:
  assumes "posts_ok t" "\<And>q. valid_parent (ps_ParentID p) = Some q \<Longrightarrow> find_post (tb_posts t) q \<noteq> None"
  shows "chain (tb_posts (added p t)) (valid_parent (ps_ParentID p)) = chain (tb_posts t) (valid_parent (ps_ParentID p))"
proof (cases "valid_parent (ps_ParentID p)")
  case (Some q)
  from assms(1) have "forest (tb_posts t)" by (simp add: posts_ok_def)
  from above_snoc[OF this new_post_forest(1)[of t p, OF assms] assms(2)[OF Some]] Some
  show ?thesis by (simp add: chain_def added_def)
qed (simp add: chain_def)

lemma length_chain:
  assumes "forest ps" "\<And>q. cur = Some q \<Longrightarrow> find_post ps q \<noteq> None"
  shows "length (chain ps cur) \<le> length ps"
  using length_above[OF assms(1)] assms(2) by (auto simp: chain_def split: option.split)

lemma createPost_valid:
  assumes "posts_ok t0" "length (tb_posts t0) \<le> n"
  shows "tx_valid (\<lambda>t. t = t0) (createPost n p) (\<lambda>r t.
    r = Some (tb_next_id t0) \<and>
    (\<forall>q. valid_parent (ps_ParentID p) = Some q \<longrightarrow> find_post (tb_posts t0) q \<noteq> None) \<and>
    t = bump (\<lambda>c. c + 1) (chain (tb_posts t0) (valid_parent (ps_ParentID p))) (added p t0))"
  unfolding createPost_def insert_post_def
proof (rule tx_valid_weaken, rule tx_wp, rule tx_wp, rule tx_wp, rule walkUp_valid, rule tx_wp, goal_cases)
  case (1 t)
  show ?case
  proof (intro allI impI)
    fix i t' assume "(if has_account t (ps_UserID p) \<and> (case valid_parent (ps_ParentID p) of None \<Rightarrow> True | Some i \<Rightarrow> find_post (tb_posts t) i \<noteq> None)
        then (Ok (tb_next_id t), t\<lparr>tb_next_id := tb_next_id t + 1, tb_posts := tb_posts t @
            [\<lparr>posts_id = tb_next_id t, posts_content = ps_Content p, posts_created_at = ps_CreatedAt p,
              posts_updated_at = ps_UpdatedAt p, posts_user_id = ps_UserID p, posts_parent_id = valid_parent (ps_ParentID p),
              posts_deleted_at = None, posts_reply_count = 0\<rparr>]\<rparr>)
        else (Err constraint_error, t)) = (Inr i, t')"
    with 1 have i: "i = tb_next_id t0" and t': "t' = added p t0"
      and found: "\<And>q. valid_parent (ps_ParentID p) = Some q \<Longrightarrow> find_post (tb_posts t0) q \<noteq> None"
      by (auto simp: added_def new_row_def split: if_splits option.splits)
    have f: "forest (tb_posts t0)" using assms(1) by (simp add: posts_ok_def)
    have "forest (tb_posts (added p t0))" using new_post_forest(1)[of t0 p, OF assms(1) found] by (simp add: added_def)
    moreover have "find_post (tb_posts (added p t0)) q \<noteq> None" if "valid_parent (ps_ParentID p) = Some q" for q
      using found[OF that] by (auto simp: added_def find_post_append)
    moreover have "length (chain (tb_posts (added p t0)) (valid_parent (ps_ParentID p))) \<le> n"
      using length_chain[of _ "valid_parent (ps_ParentID p)", OF f found] assms(2)
      by (simp add: chain_added[of t0 p, OF assms(1) found])
    ultimately show "forest (tb_posts t') \<and>
        (\<forall>i. valid_parent (ps_ParentID p) = Some i \<longrightarrow> find_post (tb_posts t') i \<noteq> None) \<and>
        length (chain (tb_posts t') (valid_parent (ps_ParentID p))) \<le> n \<and>
        (if True then Some i else None) = Some (tb_next_id t0) \<and>
        (\<forall>q. valid_parent (ps_ParentID p) = Some q \<longrightarrow> find_post (tb_posts t0) q \<noteq> None) \<and>
        bump (\<lambda>c. c + 1) (chain (tb_posts t') (valid_parent (ps_ParentID p))) t' =
        bump (\<lambda>c. c + 1) (chain (tb_posts t0) (valid_parent (ps_ParentID p))) (added p t0)"
      using found i t' by (simp add: chain_added[of t0 p, OF assms(1) found])
  qed
qed

text \<open>What deleting a post leaves, with the number it shows and its parent if it can be seen.\<close>

definition gone :: "int \<Rightarrow> int \<Rightarrow> tables \<Rightarrow> tables" where
  "gone now i t =
     t\<lparr>tb_posts := map (\<lambda>p. if posts_id p = i then p\<lparr>posts_deleted_at := Some now, posts_updated_at := now\<rparr> else p)
        (tb_posts t)\<rparr>"

definition parent_of :: "post_row list \<Rightarrow> int \<Rightarrow> int option" where
  "parent_of ps i = Option.bind (live_post ps i) posts_parent_id"

definition shown_count :: "post_row list \<Rightarrow> int \<Rightarrow> int" where
  "shown_count ps i = (case live_post ps i of None \<Rightarrow> 0 | Some p \<Rightarrow> posts_reply_count p)"

lemma gone_parents: "map parent_key (tb_posts (gone now i t)) = map parent_key (tb_posts t)"
  by (simp add: gone_def parent_key_def)

lemma live_post_find:
  assumes "forest ps"
  shows "live_post ps i = (if live ps i then find_post ps i else None)"
proof -
  have "distinct (map posts_id ps) \<Longrightarrow> live_post ps i = (if live ps i then find_post ps i else None)"
  proof (induction ps)
    case (Cons a ps)
    show ?case
    proof (cases "posts_id a = i")
      case True
      from Cons.prems have "posts_id a \<notin> posts_id ` set ps" by simp
      with True have "posts_id x \<noteq> i" if "x \<in> set ps" for x using that by (metis imageI)
      then have "find (\<lambda>p. posts_id p = i \<and> posts_deleted_at p = None) ps = None"
        by (auto simp: find_None_iff)
      with True show ?thesis by (auto simp: live_post_def live_def find_post_def)
    next
      case False
      with Cons show ?thesis by (simp add: live_post_def live_def find_post_def)
    qed
  qed (simp add: live_post_def live_def find_post_def)
  with assms show ?thesis by (simp add: forest_def)
qed

lemma find_same_ids:
  assumes "map posts_id ps = map posts_id ps'"
  shows "find_post ps q = None \<longleftrightarrow> find_post ps' q = None"
  unfolding find_post_None set_map[symmetric] assms ..

lemma parent_found:
  assumes "forest ps" "parent_of ps i = Some q"
  shows "find_post ps q \<noteq> None"
proof -
  from assms(2) obtain p where "find_post ps i = Some p" "posts_parent_id p = Some q"
    by (auto simp: parent_of_def live_post_find[OF assms(1)] bind_eq_Some_conv split: if_splits)
  from forestD(2)[OF assms(1) this] show ?thesis by simp
qed

lemma chain_parents: "map parent_key ps = map parent_key ps' \<Longrightarrow> chain ps cur = chain ps' cur"
proof -
  assume keys: "map parent_key ps = map parent_key ps'"
  have "above ps q = above ps' q" for q by (rule same_parents(2)[OF keys])
  then show ?thesis by (cases cur) (simp_all add: chain_def)
qed

lemma deletePost_valid:
  assumes "posts_ok t0" "length (tb_posts t0) \<le> n"
  shows "tx_valid (\<lambda>t. t = t0) (deletePost n i) (\<lambda>r t. \<exists>now affected. r = Some affected \<and>
    (affected \<or> \<not> live (tb_posts t0) i) \<and>
    t = (if affected
         then bump (\<lambda>c. max 0 (c - (shown_count (tb_posts t0) i + 1))) (chain (tb_posts t0) (parent_of (tb_posts t0) i)) (gone now i t0)
         else gone now i t0))"
  unfolding deletePost_def delete_post_row_def parent_of_def[symmetric] shown_count_def[symmetric] gone_def[symmetric]
proof (rule tx_valid_weaken, rule tx_wp, rule tx_wp, rule tx_wp, rule tx_wp, rule tx_wp, rule tx_wp, rule tx_wp,
    rule walkUp_valid, rule tx_wp, rule tx_wp, rule tx_wp, rule tx_wp, rule tx_wp, goal_cases)
  case (1 t)
  have f: "forest (tb_posts t0)" using assms(1) by (simp add: posts_ok_def)
  have g: "forest (tb_posts (gone now i t0))" for now
    using same_parents(4)[OF gone_parents] f by simp
  have found: "find_post (tb_posts (gone now j t0)) q \<noteq> None" if "parent_of (tb_posts t0) i' = Some q" for q now j i'
    using parent_found[OF f that] find_same_ids[OF same_parents(3)[OF gone_parents[of now j t0]], of q] by (simp only: simp_thms)
  have len: "length (chain (tb_posts t0) (parent_of (tb_posts t0) i)) \<le> n"
    using length_chain[of "tb_posts t0" "parent_of (tb_posts t0) i", OF f parent_found[OF f]] assms(2)
    by (rule order_trans)
  have same: "chain (tb_posts (gone now i t0)) cur = chain (tb_posts t0) cur" for now cur
    by (rule chain_parents[OF gone_parents])
  have dead: "\<not> live (tb_posts t0) i"
    if "\<forall>p\<in>set (tb_posts t0). posts_id p = i \<longrightarrow> posts_deleted_at p = Some now \<and> posts_updated_at p = now" for now
    using that find_post_Some[of "tb_posts t0" i] by (auto simp: live_def split: option.splits)
  from 1 show ?case
    by (intro allI impI conjI exI) (auto simp: g found len same simp del: not_None_eq dest: dead)
qed

section \<open>The numbers are right\<close>

definition counts_exact :: "tables \<Rightarrow> bool" where
  "counts_exact t \<longleftrightarrow>
     list_all (\<lambda>p. posts_reply_count p = visible_replies (tb_posts t) (posts_id p)) (tb_posts t)"

lemma counts_exactI:
  assumes "\<And>p. p \<in> set (tb_posts t) \<Longrightarrow> posts_reply_count p = visible_replies (tb_posts t) (posts_id p)"
  shows "counts_exact t"
  using assms by (simp add: counts_exact_def list_all_iff)

lemma counts_exactD: "counts_exact t \<Longrightarrow> p \<in> set (tb_posts t) \<Longrightarrow> posts_reply_count p = visible_replies (tb_posts t) (posts_id p)"
  by (simp add: counts_exact_def list_all_iff)

text \<open>Numbers that change do not change what can be seen.\<close>

lemma counts_exact_bump:
  assumes "\<And>p. p \<in> set (tb_posts t) \<Longrightarrow>
    (if posts_id p \<in> set is then f (posts_reply_count p) else posts_reply_count p) = visible_replies (tb_posts t) (posts_id p)"
  shows "counts_exact (bump f is t)"
proof (rule counts_exactI)
  fix p assume "p \<in> set (tb_posts (bump f is t))"
  then obtain p0 where p0: "p0 \<in> set (tb_posts t)" "posts_id p = posts_id p0"
    "posts_reply_count p = (if posts_id p0 \<in> set is then f (posts_reply_count p0) else posts_reply_count p0)"
    by (auto simp: bump_def)
  then show "posts_reply_count p = visible_replies (tb_posts (bump f is t)) (posts_id p)"
    using assms[OF p0(1)] same_tree(3)[OF bump_tree(1), of f "is" t] by simp
qed

lemma create_exact:
  assumes "posts_ok t" "counts_exact t" "between_live (tb_posts t) (valid_parent (ps_ParentID p))"
    and "\<And>q. valid_parent (ps_ParentID p) = Some q \<Longrightarrow> find_post (tb_posts t) q \<noteq> None"
  shows "counts_exact (bump (\<lambda>c. c + 1) (chain (tb_posts t) (valid_parent (ps_ParentID p))) (added p t))"
proof (rule counts_exact_bump)
  fix r assume r: "r \<in> set (tb_posts (added p t))"
  let ?e = "new_row p t" let ?ps = "tb_posts t"
  have f: "forest ?ps" using assms(1) by (simp add: posts_ok_def)
  note new = new_post_forest[of t p, OF assms(1,4)]
  have e: "posts_id ?e = tb_next_id t" "posts_deleted_at ?e = None" "posts_parent_id ?e = valid_parent (ps_ParentID p)"
    "posts_reply_count ?e = 0" by (simp_all add: new_row_def)
  have count: "visible_replies (?ps @ [?e]) a = visible_replies ?ps a +
      (if a \<in> set (chain ?ps (valid_parent (ps_ParentID p))) then 1 else 0)" for a
    using visible_replies_snoc[OF f new(1)] new(2) assms(3) by (simp add: e)
  have none: "a \<noteq> tb_next_id t" if "a \<in> set (above ?ps i)" "find_post ?ps i \<noteq> None" for a i
    using above_member[OF f that(2,1)] new(2) by auto
  have "\<not> visible_below ?ps (tb_next_id t) i" for i
  proof
    assume v: "visible_below ?ps (tb_next_id t) i"
    note found = visible_below_found[OF v]
    from v none[OF _ found] show False unfolding visible_below_iff[OF f found] by blast
  qed
  then have "visible_replies ?ps (tb_next_id t) = 0" by (simp add: visible_replies_def)
  moreover have "tb_next_id t \<notin> set (chain ?ps (valid_parent (ps_ParentID p)))"
  proof (cases "valid_parent (ps_ParentID p)")
    case (Some q)
    note q = assms(4)[OF Some]
    from q new(2) have "q \<noteq> tb_next_id t" by auto
    moreover have "tb_next_id t \<notin> set (above ?ps q)" using none[OF _ q, of "tb_next_id t"] by blast
    ultimately show ?thesis using Some by (simp add: chain_def)
  qed (simp add: chain_def)
  ultimately show "(if posts_id r \<in> set (chain ?ps (valid_parent (ps_ParentID p))) then posts_reply_count r + 1 else posts_reply_count r) =
      visible_replies (tb_posts (added p t)) (posts_id r)"
    using r counts_exactD[OF assms(2)] count by (auto simp: added_def e)
qed

lemma between_live_path:
  assumes "between_live ps (Some q)" "a \<in> set (q # above ps q)" "x \<in> set (takeWhile (\<lambda>x. x \<noteq> a) (q # above ps q))"
  shows "live ps x"
proof -
  from split_list_first[OF assms(2)] obtain xs ys where xs: "q # above ps q = xs @ a # ys" "a \<notin> set xs" by blast
  then have "takeWhile (\<lambda>x. x \<noteq> a) (q # above ps q) = xs"
    by (metis (mono_tags, lifting) takeWhile_append2 takeWhile.simps(2) append_Nil2)
  moreover have "set xs \<subseteq> set (butlast (q # above ps q))" using xs(1) by (simp add: butlast_append)
  ultimately show ?thesis using assms(1,3) by (auto simp: between_live_def list_all_iff)
qed

lemma live_gone:
  assumes "forest (tb_posts t)"
  shows "live (tb_posts (gone now i t)) x \<longleftrightarrow> live (tb_posts t) x \<and> x \<notin> {i}"
proof -
  have "find_post (map (\<lambda>p. if posts_id p = i then p\<lparr>posts_deleted_at := Some now, posts_updated_at := now\<rparr> else p) ps) x =
      map_option (\<lambda>p. if posts_id p = i then p\<lparr>posts_deleted_at := Some now, posts_updated_at := now\<rparr> else p) (find_post ps x)" for ps
    by (induction ps) (auto simp: find_post_def)
  then show ?thesis
    using find_post_Some[of "tb_posts t" x] by (auto simp: live_def gone_def split: option.splits)
qed

lemma delete_exact:
  assumes "posts_ok t" "counts_exact t" "between_live (tb_posts t) (parent_of (tb_posts t) i)"
  shows "counts_exact (bump (\<lambda>c. max 0 (c - (shown_count (tb_posts t) i + 1))) (chain (tb_posts t) (parent_of (tb_posts t) i)) (gone now i t))"
    and "\<not> live (tb_posts t) i \<Longrightarrow> counts_exact (gone now i t)"
proof -
  let ?ps = "tb_posts t" let ?ps' = "tb_posts (gone now i t)"
  have f: "forest ?ps" using assms(1) by (simp add: posts_ok_def)
  have row: "\<exists>p0\<in>set ?ps. posts_id p = posts_id p0 \<and> posts_reply_count p = posts_reply_count p0" if "p \<in> set ?ps'" for p
    using that by (force simp: gone_def)
  note lg = live_gone[OF f, of now i] note pk = gone_parents[of now i t]
  show dead: "counts_exact (gone now i t)" if "\<not> live ?ps i"
  proof (rule counts_exactI)
    fix p assume p: "p \<in> set ?ps'"
    have "visible_replies ?ps' (posts_id p) = visible_replies ?ps (posts_id p)"
      using visible_replies_elsewhere[OF f pk, of "{}"] lg that by auto
    with row[OF p] counts_exactD[OF assms(2)] show "posts_reply_count p = visible_replies ?ps' (posts_id p)" by auto
  qed
  show "counts_exact (bump (\<lambda>c. max 0 (c - (shown_count ?ps i + 1))) (chain ?ps (parent_of ?ps i)) (gone now i t))"
  proof (cases "live ?ps i")
    case False
    then have "parent_of ?ps i = None" by (simp add: parent_of_def live_post_find[OF f])
    with dead[OF False] show ?thesis by (simp add: chain_def)
  next
    case True
    then obtain d where d: "find_post ?ps i = Some d" by (auto simp: live_def split: option.splits)
    with True have par: "parent_of ?ps i = posts_parent_id d" and shown: "shown_count ?ps i = visible_replies ?ps i"
      using counts_exactD[OF assms(2), of d] find_post_Some[OF d]
      by (auto simp: parent_of_def shown_count_def live_post_find[OF f])
    have up: "chain ?ps (posts_parent_id d) = above ?ps i"
      using above_forest[OF f d] by (simp add: chain_def split: option.split)
    have vis: "visible_below ?ps a i" if a: "a \<in> set (above ?ps i)" for a
    proof -
      from a up obtain q where q: "posts_parent_id d = Some q" "above ?ps i = q # above ?ps q"
        by (auto simp: chain_def split: option.splits)
      with assms(3) par a between_live_path[of ?ps q a] True show ?thesis
        by (auto simp: visible_below_iff[OF f, of i a] d path_def list_all_iff)
    qed
    show ?thesis
    proof (rule counts_exact_bump)
      fix p assume p: "p \<in> set ?ps'"
      from row[OF p] counts_exactD[OF assms(2)]
      have c: "posts_reply_count p = visible_replies ?ps (posts_id p)" by auto
      have "0 \<le> visible_replies ?ps' (posts_id p)" by (simp add: visible_replies_def)
      moreover have "visible_replies ?ps (posts_id p) = visible_replies ?ps' (posts_id p) + 1 + visible_replies ?ps i"
        if "posts_id p \<in> set (above ?ps i)"
        by (rule visible_replies_above[OF f pk lg vis[OF that]])
      moreover have "visible_replies ?ps' (posts_id p) = visible_replies ?ps (posts_id p)" if "posts_id p \<notin> set (above ?ps i)"
        using that by (intro visible_replies_elsewhere[OF f pk lg]) auto
      ultimately show "(if posts_id p \<in> set (chain ?ps (parent_of ?ps i))
          then max 0 (posts_reply_count p - (shown_count ?ps i + 1)) else posts_reply_count p) = visible_replies ?ps' (posts_id p)"
        by (auto simp: par up shown c)
    qed
  qed
qed

text \<open>The posts of an account go, and the numbers above them are counted anew.\<close>

definition posts_gone :: "int \<Rightarrow> int \<Rightarrow> tables \<Rightarrow> tables" where
  "posts_gone now userID t = t\<lparr>tb_posts :=
     map (\<lambda>p. if posts_user_id p = userID \<and> posts_deleted_at p = None
              then p\<lparr>posts_deleted_at := Some now, posts_updated_at := now\<rparr> else p) (tb_posts t)\<rparr>"

definition recounted :: "int \<Rightarrow> tables \<Rightarrow> tables" where
  "recounted userID t = t\<lparr>tb_posts := recount (ancestors_of_user (tb_posts t) userID) (tb_posts t)\<rparr>"

lemma posts_gone_parents: "map parent_key (tb_posts (posts_gone now u t)) = map parent_key (tb_posts t)"
  by (simp add: posts_gone_def parent_key_def)

lemma recounted_tree: "map tree_key (tb_posts (recounted u t)) = map tree_key (tb_posts t)"
  by (simp add: recounted_def recount_def)

lemma live_posts_gone:
  assumes "forest (tb_posts t)"
  shows "live (tb_posts (posts_gone now u t)) x \<longleftrightarrow>
    live (tb_posts t) x \<and> x \<notin> {i. \<exists>p. find_post (tb_posts t) i = Some p \<and> posts_user_id p = u}"
proof -
  have "find_post (map (\<lambda>p. if posts_user_id p = u \<and> posts_deleted_at p = None
          then p\<lparr>posts_deleted_at := Some now, posts_updated_at := now\<rparr> else p) ps) x =
      map_option (\<lambda>p. if posts_user_id p = u \<and> posts_deleted_at p = None
          then p\<lparr>posts_deleted_at := Some now, posts_updated_at := now\<rparr> else p) (find_post ps x)" for ps
    by (induction ps) (auto simp: find_post_def)
  then show ?thesis by (auto simp: live_def posts_gone_def split: option.splits)
qed

lemma leave_exact:
  assumes "posts_ok t" "counts_exact t"
  shows "counts_exact (recounted u (posts_gone now u t))"
proof (rule counts_exactI)
  let ?ps = "tb_posts t" let ?t' = "posts_gone now u t" let ?ps' = "tb_posts ?t'"
  have f: "forest ?ps" using assms(1) by (simp add: posts_ok_def)
  fix p assume "p \<in> set (tb_posts (recounted u ?t'))"
  then obtain p' where p': "p' \<in> set ?ps'" "posts_id p = posts_id p'"
    and c: "posts_reply_count p = (if posts_id p' \<in> set (ancestors_of_user ?ps' u)
              then visible_replies ?ps' (posts_id p') else posts_reply_count p')"
    by (auto simp: recounted_def recount_def)
  from p'(1) obtain p0 where p0: "p0 \<in> set ?ps" "posts_id p' = posts_id p0" "posts_reply_count p' = posts_reply_count p0"
    by (force simp: posts_gone_def)
  have "visible_replies ?ps' (posts_id p') = visible_replies ?ps (posts_id p')"
    if "posts_id p' \<notin> set (ancestors_of_user ?ps' u)"
  proof (rule visible_replies_elsewhere[OF f posts_gone_parents live_posts_gone[OF f]])
    fix x assume "x \<in> {i. \<exists>p. find_post ?ps i = Some p \<and> posts_user_id p = u}"
    then obtain r where r: "find_post ?ps x = Some r" "posts_user_id r = u" by blast
    let ?kill = "\<lambda>p. if posts_user_id p = u \<and> posts_deleted_at p = None
        then p\<lparr>posts_deleted_at := Some now, posts_updated_at := now\<rparr> else p"
    from find_post_Some[OF r(1)] have "?kill r \<in> set ?ps'" by (simp add: posts_gone_def)
    moreover have "posts_id (?kill r) = x" "posts_user_id (?kill r) = u" using find_post_Some[OF r(1)] r(2) by simp_all
    ultimately have "\<exists>r'\<in>set ?ps'. posts_id r' = x \<and> posts_user_id r' = u" by blast
    with that have "posts_id p' \<notin> set (above ?ps' x)" by (auto simp: ancestors_of_user_def)
    then show "posts_id p' \<notin> set (above ?ps x)" by (simp add: same_parents(2)[OF posts_gone_parents])
  qed
  with c p' p0 counts_exactD[OF assms(2) p0(1)]
  show "posts_reply_count p = visible_replies (tb_posts (recounted u ?t')) (posts_id p)"
    unfolding same_tree(3)[OF recounted_tree] by auto
qed

section \<open>Operations one after the other\<close>

datatype post_op = NewPost post | RemovePost int | LeaveUser int

text \<open>Whether every walk of the operation came to its end within \<open>n\<close> rounds.\<close>

definition leave_posts :: "int \<Rightarrow> ('o db, unit) proc" where
  "leave_posts userID =
     bindP (DeletePostsByUserID userID) (\<lambda>_. RecalculateReplyCountsAffectedByUser userID)"

definition run_post_op :: "nat \<Rightarrow> post_op \<Rightarrow> ('o db, bool) proc" where
  "run_post_op n op =
     (case op of
        NewPost p \<Rightarrow> bindP (CreatePostRow n p) (\<lambda>i. ret (i \<noteq> None))
      | RemovePost i \<Rightarrow> bindP (DeletePostRow n i) (\<lambda>deleted. ret (deleted \<noteq> None))
      | LeaveUser u \<Rightarrow> bindP (runInTx (leave_posts u)) (\<lambda>_. ret True))"

fun run_posts :: "nat \<Rightarrow> (post_op \<times> int) list \<Rightarrow> 'o db \<Rightarrow> bool result list \<times> 'o db" where
  "run_posts n [] w = ([], w)"
| "run_posts n ((op, now) # ops) w =
     (let (r, v) = run_post_op n op (w\<lparr>db_now := now\<rparr>); (rs, w') = run_posts n ops v in (r # rs, w'))"

text \<open>Nothing is written or deleted below a post that is deleted itself; the root of the thread may be.\<close>

definition guarded :: "tables \<Rightarrow> post_op \<Rightarrow> bool" where
  "guarded t op \<longleftrightarrow>
     (case op of
        NewPost p \<Rightarrow> between_live (tb_posts t) (valid_parent (ps_ParentID p))
      | RemovePost i \<Rightarrow> between_live (tb_posts t) (parent_of (tb_posts t) i)
      | LeaveUser u \<Rightarrow> True)"

fun guarded_run :: "nat \<Rightarrow> (post_op \<times> int) list \<Rightarrow> 'o db \<Rightarrow> bool" where
  "guarded_run n [] w \<longleftrightarrow> True"
| "guarded_run n ((op, now) # ops) w \<longleftrightarrow>
     guarded (db_committed w) op \<and> guarded_run n ops (snd (run_post_op n op (w\<lparr>db_now := now\<rparr>)))"

text \<open>What an operation may do to the posts.\<close>

definition post_step :: "post_op \<Rightarrow> tables \<Rightarrow> tables \<Rightarrow> bool" where
  "post_step op t t' \<longleftrightarrow>
     posts_ok t' \<and> length (tb_posts t') \<le> length (tb_posts t) + 1 \<and>
     (counts_exact t \<longrightarrow> guarded t op \<longrightarrow> counts_exact t')"

lemma post_step_refl: "posts_ok t \<Longrightarrow> post_step op t t"
  by (simp add: post_step_def)

lemma posts_ok_tree:
  assumes "posts_ok t" "map parent_key (tb_posts t') = map parent_key (tb_posts t)" "tb_next_id t' = tb_next_id t"
  shows "posts_ok t'" "length (tb_posts t') = length (tb_posts t)"
proof -
  note same = same_parents(3,4)[OF assms(2)]
  have iff: "posts_ok s \<longleftrightarrow> forest (tb_posts s) \<and> 0 < tb_next_id s \<and> (\<forall>i\<in>set (map posts_id (tb_posts s)). i < tb_next_id s)" for s
    by (simp add: posts_ok_def list_all_iff)
  show "posts_ok t'" using assms(1) unfolding iff same assms(3) .
  from arg_cong[OF assms(2), of length] show "length (tb_posts t') = length (tb_posts t)" by simp
qed

lemma tree_parents: "map tree_key ps' = map tree_key ps \<Longrightarrow> map parent_key ps' = map parent_key ps"
  by (drule arg_cong[of _ _ "map fst"]) (simp add: tree_key_def comp_def)

lemma bump_ok:
  assumes "posts_ok t"
  shows "posts_ok (bump f is t)" "length (tb_posts (bump f is t)) = length (tb_posts t)"
  using posts_ok_tree[OF assms tree_parents[OF bump_tree(1)[of f "is" t]]] by (simp_all add: bump_def)

lemma added_ok:
  assumes "posts_ok t" "\<And>q. valid_parent (ps_ParentID p) = Some q \<Longrightarrow> find_post (tb_posts t) q \<noteq> None"
  shows "posts_ok (added p t)"
  using new_post_forest(1)[of t p, OF assms] assms(1) by (auto simp: posts_ok_def added_def list_all_iff new_row_def)

lemma create_step:
  assumes "posts_ok t" "\<And>q. valid_parent (ps_ParentID p) = Some q \<Longrightarrow> find_post (tb_posts t) q \<noteq> None"
  shows "post_step (NewPost p) t (bump (\<lambda>c. c + 1) (chain (tb_posts t) (valid_parent (ps_ParentID p))) (added p t))"
  using bump_ok[OF added_ok[of t p, OF assms]] create_exact[OF assms(1) _ _ assms(2)]
  by (simp add: post_step_def guarded_def) (simp add: added_def)

lemma delete_step:
  assumes "posts_ok t" "affected \<or> \<not> live (tb_posts t) i"
  shows "post_step (RemovePost i) t
    (if affected
     then bump (\<lambda>c. max 0 (c - (shown_count (tb_posts t) i + 1))) (chain (tb_posts t) (parent_of (tb_posts t) i)) (gone now i t)
     else gone now i t)"
proof -
  have next_id: "tb_next_id (gone now i t) = tb_next_id t" by (simp add: gone_def)
  note ok = posts_ok_tree[OF assms(1) gone_parents next_id]
  show ?thesis
    using ok bump_ok[OF ok(1)] delete_exact[OF assms(1)] assms(2)
    by (cases affected) (simp_all add: post_step_def guarded_def)
qed

lemma leave_step:
  assumes "posts_ok t"
  shows "post_step (LeaveUser u) t (recounted u (posts_gone now u t))"
proof -
  have next_id: "tb_next_id (recounted u (posts_gone now u t)) = tb_next_id t"
    by (simp add: recounted_def posts_gone_def)
  have "map parent_key (tb_posts (recounted u (posts_gone now u t))) = map parent_key (tb_posts t)"
    using tree_parents[OF recounted_tree] posts_gone_parents by (rule trans)
  from posts_ok_tree[OF assms this next_id] leave_exact[OF assms] show ?thesis by (simp add: post_step_def)
qed

lemma leave_valid:
  "tx_valid (\<lambda>t. t = t0) (leave_posts u) (\<lambda>_ t. \<exists>now. t = recounted u (posts_gone now u t0))"
  unfolding leave_posts_def DeletePostsByUserID_def RecalculateReplyCountsAffectedByUser_def
  by (rule tx_valid_weaken, (rule tx_wp)+) (auto simp: recounted_def posts_gone_def)

text \<open>An operation is one transaction: it fails and leaves the posts alone, or it ends and does its step.\<close>

lemma post_tx:
  assumes "bindP (inTx body) (\<lambda>x. ret (ended x)) w = (r, w')" "Db.contained body"
    and "tx_valid (\<lambda>t. t = db_committed w) body Q" "db_tx w = None" "posts_ok (db_committed w)"
    and "\<And>x t. Q x t \<Longrightarrow> ended x \<and> post_step op (db_committed w) t"
  shows "db_tx w' = None \<and> post_step op (db_committed w) (db_committed w') \<and> r \<noteq> Inr False"
proof -
  have tx: "inTx body w = runInTx body w" using assms(4) by (simp add: inTx_def)
  show ?thesis
    using assms(1)
  proof (cases rule: bindP_cases)
    case (stop e)
    note run = stop(1)[unfolded tx]
    from atomicPD[where out = "\<lambda>_. ()", OF atomicP_runInTx[OF assms(2)] run assms(4)] stop(2) post_step_refl[OF assms(5)]
    show ?thesis by simp
  next
    case (go x v)
    note run = go(1)[unfolded tx]
    from go(2) have r: "r = Inr (ended x)" "w' = v" by (simp_all add: ret_def)
    from atomicPD(1)[where out = "\<lambda>_. ()", OF atomicP_runInTx[OF assms(2)] run assms(4)]
    have "db_tx v = None" .
    with assms(6)[OF runInTx_valid[OF run assms(3) refl]] r show ?thesis by simp
  qed
qed

lemma walkUp_contained: "Db.contained (walkUp n f cur)"
proof (induction n arbitrary: cur)
  case 0
  show ?case by (cases cur) (simp_all only: walkUp.simps, (intro contained_intros)+)
next
  case (Suc n)
  show ?case
  proof (cases cur)
    case None
    show ?thesis unfolding None walkUp.simps by (intro contained_intros)
  next
    case (Some i)
    show ?thesis unfolding Some walkUp.simps by (intro contained_intros Suc.IH)
  qed
qed

lemma run_post_op_step:
  assumes "run_post_op n op w = (r, w')" "db_tx w = None" "posts_ok (db_committed w)"
    "length (tb_posts (db_committed w)) \<le> n"
  shows "db_tx w' = None \<and> post_step op (db_committed w) (db_committed w') \<and> r \<noteq> Inr False"
proof (cases op)
  case (NewPost p)
  have contained: "Db.contained (createPost n p)"
    unfolding createPost_def insert_post_def by (intro contained_intros walkUp_contained)
  have "bindP (inTx (createPost n p)) (\<lambda>x. ret (x \<noteq> None)) w = (r, w')"
    using assms(1) by (simp only: NewPost run_post_op_def post_op.case CreatePostRow_def)
  then show ?thesis
    by (rule post_tx[OF _ contained createPost_valid[OF assms(3,4)] assms(2,3)])
       (auto simp: NewPost intro!: create_step assms(3))
next
  case (RemovePost i)
  have contained: "Db.contained (deletePost n i)"
    unfolding deletePost_def delete_post_row_def by (intro contained_intros walkUp_contained)
  have "bindP (inTx (deletePost n i)) (\<lambda>x. ret (x \<noteq> None)) w = (r, w')"
    using assms(1) by (simp only: RemovePost run_post_op_def post_op.case DeletePostRow_def)
  then show ?thesis
    by (rule post_tx[OF _ contained deletePost_valid[OF assms(3,4)] assms(2,3)])
       (auto simp: RemovePost intro!: delete_step assms(3))
next
  case (LeaveUser u)
  have contained: "Db.contained (leave_posts u)"
    unfolding leave_posts_def DeletePostsByUserID_def RecalculateReplyCountsAffectedByUser_def
    by (intro contained_intros)
  have "bindP (inTx (leave_posts u)) (\<lambda>x. ret True) w = (r, w')"
    using assms(1,2) by (simp add: LeaveUser run_post_op_def bindP_def inTx_def)
  then show ?thesis
    by (rule post_tx[OF _ contained leave_valid assms(2,3)])
       (auto simp: LeaveUser intro!: leave_step assms(3))
qed

section \<open>What the walks and the numbers promise\<close>

lemma post_stepD:
  assumes "post_step op t t'"
  shows "posts_ok t'" "length (tb_posts t') \<le> length (tb_posts t) + 1"
    "counts_exact t \<Longrightarrow> guarded t op \<Longrightarrow> counts_exact t'"
  using assms by (simp_all add: post_step_def)

text \<open>User 7 writes, 8 and 9 reply; the third statement of the second reply fails once.\<close>

definition thread_world :: "unit db" where
  "thread_world =
     \<lparr>db_now = 0,
      db_committed = no_tables\<lparr>tb_next_id := 1, tb_user_accounts := map (\<lambda>u.
        \<lparr>user_accounts_user_id = u, user_accounts_name = ''name'', user_accounts_role = ''student'',
         user_accounts_credentials_version = 0, user_accounts_last_active_at = None, user_accounts_account_id = Itoa u,
         user_accounts_email = Itoa u, user_accounts_hashed_password = ''hash'', user_accounts_updated_at = 0\<rparr>) [7, 8, 9]\<rparr>,
      db_tx = None, db_faults = [False, False, False, False, False, True], db_out = ()\<rparr>"

definition writes :: "int \<Rightarrow> int option \<Rightarrow> post_op" where
  "writes u parent = NewPost \<lparr>ps_ID = 0, ps_Content = ''text'', ps_CreatedAt = 10, ps_UpdatedAt = 10, ps_UserID = u,
     ps_ParentID = parent, ps_DeletedAt = None, ps_ReplyCount = 0\<rparr>"

definition thread_ops :: "(post_op \<times> int) list" where
  "thread_ops = [(writes 7 None, 10), (writes 8 (Some 1), 11), (writes 8 (Some 1), 12), (writes 9 (Some 2), 13),
     (writes 9 (Some 1), 14), (RemovePost 3, 15), (LeaveUser 8, 16)]"

definition shown :: "unit db \<Rightarrow> (int \<times> int) list" where
  "shown w = map (\<lambda>p. (posts_id p, posts_reply_count p)) (tb_posts (db_committed w))"

text \<open>C31: The loops that walk up the ancestors of a post have no bound in the code, and they end: whatever posts
  are created and deleted, by whom, in which order and whichever statements fail, no walk takes more rounds
  than there are posts.\<close>

theorem post_walks_end:
  assumes "db_tx w = None" "posts_ok (db_committed w)" "length (tb_posts (db_committed w)) + length ops \<le> n"
  shows "Inr False \<notin> set (fst (run_posts n ops w))"
  using assms
proof (induction n ops w rule: run_posts.induct)
  case (2 n op now ops w)
  obtain r v where run: "run_post_op n op (w\<lparr>db_now := now\<rparr>) = (r, v)" by fastforce
  from run_post_op_step[OF run] "2.prems"
  have v: "db_tx v = None" "post_step op (db_committed w) (db_committed v)" "r \<noteq> Inr False" by simp_all
  from "2.IH"[OF run[symmetric] refl v(1) post_stepD(1)[OF v(2)]] post_stepD(2)[OF v(2)] "2.prems"(3) v(3)
  show ?case by (simp add: run split: prod.split) fastforce
qed simp

theorem post_walks_end_witness:
  "let rs = fst (run_posts 7 thread_ops thread_world) in
   map_sum (\<lambda>_. ()) id (rs ! 1) = Inl () \<and> rs ! 3 = Inr True \<and> Inr False \<notin> set rs"
proof -
  have pre: "db_tx thread_world = None" "posts_ok (db_committed thread_world)"
    "length (tb_posts (db_committed thread_world)) + length thread_ops \<le> 7" by code_simp+
  have "map_sum (\<lambda>_. ()) id (fst (run_posts 7 thread_ops thread_world) ! 1) = Inl ()"
    "fst (run_posts 7 thread_ops thread_world) ! 3 = Inr True" by code_simp+
  with post_walks_end[OF pre] show ?thesis by (simp add: Let_def)
qed

text \<open>C32: The number of replies a post shows is the number of the replies below it that can be seen: reached
  through posts none of which is deleted. Created replies, deleted ones and the posts of accounts that leave keep
  it so, as long as nothing is written or deleted below a reply that is deleted itself.\<close>

theorem reply_counts_stay_exact:
  assumes "db_tx w = None" "posts_ok (db_committed w)" "length (tb_posts (db_committed w)) + length ops \<le> n"
    and "counts_exact (db_committed w)" "guarded_run n ops w"
  shows "counts_exact (db_committed (snd (run_posts n ops w)))"
  using assms
proof (induction n ops w rule: run_posts.induct)
  case (2 n op now ops w)
  obtain r v where run: "run_post_op n op (w\<lparr>db_now := now\<rparr>) = (r, v)" by fastforce
  from run_post_op_step[OF run] "2.prems"
  have v: "db_tx v = None" "post_step op (db_committed w) (db_committed v)" by simp_all
  from post_stepD(3)[OF v(2)] "2.prems"(4,5) have "counts_exact (db_committed v)" "guarded_run n ops v"
    by (simp_all add: run)
  with "2.IH"[OF run[symmetric] refl v(1) post_stepD(1)[OF v(2)]] post_stepD(2)[OF v(2)] "2.prems"(3)
  show ?case by (auto simp: run split: prod.split)
qed simp

theorem reply_counts_stay_exact_witness:
  "let w = snd (run_posts 7 thread_ops thread_world) in counts_exact (db_committed w) \<and> shown w = [(1, 1), (2, 0), (3, 0), (4, 0)]"
proof -
  have pre: "db_tx thread_world = None" "posts_ok (db_committed thread_world)"
    "length (tb_posts (db_committed thread_world)) + length thread_ops \<le> 7"
    "counts_exact (db_committed thread_world)" "guarded_run 7 thread_ops thread_world" by code_simp+
  have "shown (snd (run_posts 7 thread_ops thread_world)) = [(1, 1), (2, 0), (3, 0), (4, 0)]" by code_simp
  with reply_counts_stay_exact[OF pre] show ?thesis by (simp add: Let_def)
qed

text \<open>Below a deleted reply the numbers go wrong. The root has two replies, 2 and 4, and 2 has one, 3. Deleting 2
  takes 2 and 3 off the root's number; deleting 3 afterwards takes 3 off once more, and the root shows no reply
  although 4 is there.\<close>

lemma deleted_twice:
  "let ops = [(writes 7 None, 10), (writes 8 (Some 1), 11), (writes 9 (Some 2), 12), (writes 9 (Some 1), 13),
              (RemovePost 2, 14), (RemovePost 3, 15)];
       t = db_committed (snd (run_posts 6 ops (thread_world\<lparr>db_faults := []\<rparr>))) in
   map posts_reply_count (filter (\<lambda>p. posts_id p = 1) (tb_posts t)) = [0] \<and> visible_replies (tb_posts t) 1 = 1"
  by code_simp

end
