(* ===== verification/Post_Cascade.thy ===== *)
theory Post_Cascade
  imports Account_Deletion Post_Props
begin

text \<open>
  The posts that go with an account: its own posts with all replies below them. What remains is still a forest,
  and when the posts of the account were deleted before, every remaining number is still right.
\<close>

section \<open>Which posts go\<close>

definition reply_step :: "post_row list \<Rightarrow> int list \<Rightarrow> int list" where
  "reply_step ps going =
     going @ [posts_id p. p \<leftarrow> ps, posts_id p \<notin> set going,
               case posts_parent_id p of None \<Rightarrow> False | Some q \<Rightarrow> q \<in> set going]"

lemma with_replies_step: "with_replies (Suc n) ps going = reply_step ps (with_replies n ps going)"
proof -
  have go: "with_replies (Suc n) ps going = with_replies n ps (reply_step ps going)" for n going
    by (simp only: with_replies.simps reply_step_def)
  show ?thesis
  proof (induction n arbitrary: going)
    case 0
    show ?case by (simp only: go with_replies.simps(1))
  next
    case (Suc n)
    show ?case unfolding go[of "Suc n"] Suc.IH go[of n, symmetric] ..
  qed
qed

declare with_replies.simps(2) [simp del]

lemma with_replies_mono: "m \<le> n \<Longrightarrow> set (with_replies m ps going) \<subseteq> set (with_replies n ps going)"
proof (induction n)
  case (Suc n)
  have "set (with_replies n ps going) \<subseteq> set (with_replies (Suc n) ps going)"
    unfolding with_replies_step by (auto simp: reply_step_def)
  with Suc show ?case by (auto simp: le_Suc_eq)
qed simp

lemma with_replies_sound:
  assumes "forest ps" "x \<in> set (with_replies n ps going)"
  shows "set (x # above ps x) \<inter> set going \<noteq> {}"
  using assms(2)
proof (induction n arbitrary: x)
  case (Suc n)
  show ?case
  proof (cases "x \<in> set (with_replies n ps going)")
    case False
    with Suc.prems obtain p q where p: "p \<in> set ps" "posts_id p = x" "posts_parent_id p = Some q"
      and q: "q \<in> set (with_replies n ps going)"
      unfolding with_replies_step by (auto simp: reply_step_def split: option.splits)
    from p assms(1) have "find_post ps x = Some p" using find_post_member[of ps p] by (simp add: forest_def)
    with p have "above ps x = q # above ps q" by (simp add: above_forest[OF assms(1)])
    with Suc.IH[OF q] show ?thesis by auto
  qed (rule Suc.IH)
qed simp

lemma with_replies_complete:
  assumes "forest ps" "find_post ps x \<noteq> None" "set (x # above ps x) \<inter> set going \<noteq> {}"
  shows "x \<in> set (with_replies (length (above ps x)) ps going)"
  using assms
proof (induction rule: forest_induct)
  case (root i p)
  then show ?case by (simp add: above_forest[OF assms(1)])
next
  case (reply i p q)
  have up: "above ps i = q # above ps q" using reply by (simp add: above_forest[OF assms(1)])
  show ?case
  proof (cases "i \<in> set going")
    case True
    with with_replies_mono[of 0 "length (above ps i)" ps going] show ?thesis by auto
  next
    case False
    with reply.prems up have "set (q # above ps q) \<inter> set going \<noteq> {}" by auto
    with reply have "q \<in> set (with_replies (length (above ps q)) ps going)" by blast
    with reply(1,2) find_post_Some[OF reply(1)] show ?thesis
      unfolding up list.size add_Suc_right add_0_right with_replies_step by (auto simp: reply_step_def)
  qed
qed

lemma going_iff:
  assumes "forest ps" "find_post ps x \<noteq> None"
  shows "x \<in> set (with_replies (length ps) ps going) \<longleftrightarrow> set (x # above ps x) \<inter> set going \<noteq> {}"
proof -
  have "length (above ps x) \<le> length ps" using length_above[OF assms] by simp
  from with_replies_mono[OF this, of ps going] with_replies_complete[OF assms, of going]
    with_replies_sound[OF assms(1), of x "length ps" going]
  show ?thesis by blast
qed

section \<open>What remains\<close>

definition remaining :: "int list \<Rightarrow> post_row list \<Rightarrow> post_row list" where
  "remaining roots ps = filter (\<lambda>p. posts_id p \<notin> set (with_replies (length ps) ps roots)) ps"

lemma find_filtered:
  "find_post (filter (\<lambda>p. posts_id p \<notin> G) ps) i = (if i \<in> G then None else find_post ps i)"
  by (induction ps) (auto simp: find_post_def)

lemma find_remaining:
  assumes "forest ps"
  shows "find_post (remaining roots ps) i =
    (if find_post ps i \<noteq> None \<and> set (i # above ps i) \<inter> set roots = {} then find_post ps i else None)"
proof (cases "find_post ps i = None")
  case False
  then show ?thesis
    by (simp add: remaining_def find_filtered going_iff[OF assms False] del: not_None_eq)
qed (simp add: remaining_def find_filtered)

lemma remaining_forest:
  assumes "forest ps"
  shows "forest (remaining roots ps)"
  unfolding forest_def
proof
  show "distinct (map posts_id (remaining roots ps))"
    using assms by (simp add: remaining_def forest_def distinct_map_filter)
  have "0 < posts_id p \<and> (case posts_parent_id p of None \<Rightarrow> True
      | Some q \<Rightarrow> q < posts_id p \<and> find_post (remaining roots ps) q \<noteq> None)"
    if p: "p \<in> set (remaining roots ps)" for p
  proof -
    from p have in_ps: "p \<in> set ps" and stays: "posts_id p \<notin> set (with_replies (length ps) ps roots)"
      by (simp_all add: remaining_def)
    have f: "find_post ps (posts_id p) = Some p" using find_post_member[OF _ in_ps] assms by (simp add: forest_def)
    with stays have clean: "set (posts_id p # above ps (posts_id p)) \<inter> set roots = {}"
      using going_iff[OF assms, of "posts_id p" roots] by auto
    show ?thesis
    proof (cases "posts_parent_id p")
      case None
      then show ?thesis using forestD(1)[OF assms f] by simp
    next
      case (Some q)
      from clean have "set (q # above ps q) \<inter> set roots = {}" by (auto simp: above_forest[OF assms f] Some)
      with forestD[OF assms f] Some show ?thesis by (simp add: find_remaining[OF assms])
    qed
  qed
  then show "list_all (\<lambda>p. 0 < posts_id p \<and> (case posts_parent_id p of None \<Rightarrow> True
      | Some q \<Rightarrow> q < posts_id p \<and> find_post (remaining roots ps) q \<noteq> None)) (remaining roots ps)"
    by (simp add: list_all_iff)
qed

lemma above_remaining:
  assumes "forest ps" "find_post (remaining roots ps) i \<noteq> None"
  shows "above (remaining roots ps) i = above ps i"
  using remaining_forest[OF assms(1), of roots] assms(2)
proof (induction rule: forest_induct)
  case (root i p)
  then have "find_post ps i = Some p" by (simp add: find_remaining[OF assms(1)] split: if_splits)
  with root show ?case
    by (simp add: above_forest[OF assms(1)] above_forest[OF remaining_forest[OF assms(1)], of roots])
next
  case (reply i p q)
  then have "find_post ps i = Some p" by (simp add: find_remaining[OF assms(1)] split: if_splits)
  with reply show ?case
    by (simp add: above_forest[OF assms(1)] above_forest[OF remaining_forest[OF assms(1)], of roots])
qed

text \<open>What is below something that goes goes, so nothing that goes can be seen from what stays - provided it was
  deleted first.\<close>

lemma visible_remaining:
  assumes "forest ps" "\<And>x. x \<in> set roots \<Longrightarrow> \<not> live ps x"
    and a: "find_post (remaining roots ps) a \<noteq> None" and i: "find_post ps i \<noteq> None"
  shows "visible_below ps a i \<longleftrightarrow>
    find_post (remaining roots ps) i \<noteq> None \<and> visible_below (remaining roots ps) a i"
proof (cases "find_post (remaining roots ps) i \<noteq> None")
  case True
  note f = remaining_forest[OF assms(1), of roots]
  have "live (remaining roots ps) x = live ps x" if "x \<in> set (i # above ps i)" for x
  proof -
    from that True above_remaining[OF assms(1) True] above_member[OF f True]
    have "find_post (remaining roots ps) x \<noteq> None" by auto
    then show ?thesis by (auto simp: live_def find_remaining[OF assms(1)] split: if_splits)
  qed
  then have "list_all (live (remaining roots ps)) (path ps a i) = list_all (live ps) (path ps a i)"
    unfolding path_def by (intro list.pred_cong refl) (blast dest: set_takeWhileD)
  with True show ?thesis
    by (simp add: visible_below_iff[OF f True] visible_below_iff[OF assms(1) i] path_def
        above_remaining[OF assms(1) True] del: not_None_eq)
next
  case False
  have "\<not> visible_below ps a i"
  proof
    assume "visible_below ps a i"
    then have up: "a \<in> set (above ps i)" and lives: "list_all (live ps) (path ps a i)"
      by (simp_all add: visible_below_iff[OF assms(1) i])
    from False i obtain x where x: "x \<in> set (i # above ps i)" "x \<in> set roots"
      by (auto simp: find_remaining[OF assms(1)] split: if_splits)
    from up have "a \<in> set (i # above ps i)" by simp
    from above_split[OF assms(1) i this] obtain xs where xs: "i # above ps i = xs @ a # above ps a" .
    with distinct_above[OF assms(1) i] have "a \<notin> set xs" by auto
    then have "path ps a i = xs"
      unfolding path_def xs by (subst takeWhile_append2) auto
    with lives assms(2)[OF x(2)] have "x \<notin> set xs" by (auto simp: list_all_iff)
    with x(1) have "x \<in> set (a # above ps a)" unfolding xs by auto
    with a x(2) show False by (auto simp: find_remaining[OF assms(1)] split: if_splits)
  qed
  with False show ?thesis by blast
qed

lemma remaining_counts:
  assumes "forest ps" "\<And>x. x \<in> set roots \<Longrightarrow> \<not> live ps x" "p \<in> set (remaining roots ps)"
  shows "visible_replies (remaining roots ps) (posts_id p) = visible_replies ps (posts_id p)"
proof -
  let ?a = "posts_id p"
  have a: "find_post (remaining roots ps) ?a \<noteq> None" using assms(3) by (auto simp: find_post_None)
  have "filter (\<lambda>p. visible_below (remaining roots ps) ?a (posts_id p)) (remaining roots ps) =
      filter (\<lambda>p. visible_below ps ?a (posts_id p)) ps"
    unfolding remaining_def[of roots ps] filter_filter
  proof (rule filter_cong[OF refl], fold remaining_def)
    fix r assume r: "r \<in> set ps"
    then have i: "find_post ps (posts_id r) \<noteq> None" by (auto simp: find_post_None)
    show "(posts_id r \<notin> set (with_replies (length ps) ps roots) \<and>
        visible_below (remaining roots ps) ?a (posts_id r)) = visible_below ps ?a (posts_id r)"
      using visible_remaining[OF assms(1,2) a i] going_iff[OF assms(1) i, of roots] i
      by (auto simp: find_remaining[OF assms(1)])
  qed
  then show ?thesis by (simp only: visible_replies_def)
qed

end
