(* ===== verification/Account_Deletion_Props.thy ===== *)
theory Account_Deletion_Props
  imports Account_Settle Post_Cascade
begin

text \<open>
  What leaving does and leaves alone: nothing of a removed account stays, nobody is removed before their time,
  communities keep their owners and posts their numbers, and the daily run ends.
\<close>

section \<open>The invariant\<close>

text \<open>IDs are unique, and exactly those who are not deleted have personal data.\<close>

definition accounts_ok :: "tables \<Rightarrow> bool" where
  "accounts_ok t \<longleftrightarrow>
     distinct (map users_id (tb_users t)) \<and>
     distinct (map user_accounts_user_id (tb_user_accounts t)) \<and>
     list_all (\<lambda>u. has_account t (users_id u) = (users_status u \<noteq> StatusDeleted)) (tb_users t)"

definition leaving_inv :: "tables \<Rightarrow> bool" where
  "leaving_inv t \<longleftrightarrow> accounts_ok t \<and> communities_ok t \<and> posts_ok t \<and> counts_exact t"

text \<open>Nothing that belongs to the account is there.\<close>

definition nothing_left :: "int \<Rightarrow> tables \<Rightarrow> bool" where
  "nothing_left i t \<longleftrightarrow>
     \<not> has_account t i \<and>
     list_all (\<lambda>p. posts_user_id p \<noteq> i) (tb_posts t) \<and>
     list_all (\<lambda>m. room_users_user_id m \<noteq> i) (tb_room_users t) \<and>
     list_all (\<lambda>p. profiles_user_id p \<noteq> i) (tb_profiles t) \<and>
     list_all (\<lambda>m. media_uploader_user_id m \<noteq> i) (tb_media t) \<and>
     list_all (\<lambda>(a, b). a \<noteq> i \<and> b \<noteq> i) (tb_blocks t) \<and>
     list_all (\<lambda>e. timetables_user_id e \<noteq> i) (tb_timetables t) \<and>
     list_all (\<lambda>((u, _), _). u \<noteq> i) (tb_user_settings t) \<and>
     list_all (\<lambda>m. message_mentions_user_id m \<noteq> i) (tb_message_mentions t) \<and>
     list_all (\<lambda>r. course_room_reads_user_id r \<noteq> i) (tb_course_room_reads t) \<and>
     list_all (\<lambda>h. ng_word_hits_user_id h \<noteq> i) (tb_ng_word_hits t) \<and>
     list_all (\<lambda>(u, _). u \<noteq> i) (tb_user_activity_dates t) \<and>
     list_all (\<lambda>(u, _). u \<noteq> i) (tb_user_activity_hours t)"

section \<open>The last statements of \<open>purge\<close>\<close>

definition mark_deleted :: "int \<Rightarrow> int \<Rightarrow> tables \<Rightarrow> tables" where
  "mark_deleted i now =
     set_users (\<lambda>u. users_id u = i) (\<lambda>u. u\<lparr>users_status := StatusDeleted, users_deleted_at := Some now\<rparr>)"

definition forget_activity :: "int \<Rightarrow> tables \<Rightarrow> tables" where
  "forget_activity i t =
     t\<lparr>tb_user_activity_dates := filter (\<lambda>(u, _). u \<noteq> i) (tb_user_activity_dates t),
       tb_user_activity_hours := filter (\<lambda>(u, _). u \<noteq> i) (tb_user_activity_hours t)\<rparr>"

definition erased :: "int \<Rightarrow> int \<Rightarrow> tables \<Rightarrow> tables" where
  "erased i now t = forget_activity i (mark_deleted i now (cascade_account i t))"

lemma cascade_account_simps:
  "tb_user_accounts (cascade_account i t) = filter (\<lambda>a. user_accounts_user_id a \<noteq> i) (tb_user_accounts t)"
  "tb_room_users (cascade_account i t) = filter (\<lambda>r. room_users_user_id r \<noteq> i) (tb_room_users t)"
  "tb_posts (cascade_account i t) = remaining (map posts_id (filter (\<lambda>p. posts_user_id p = i) (tb_posts t))) (tb_posts t)"
  "tb_rooms (cascade_account i t) = tb_rooms t" "tb_next_id (cascade_account i t) = tb_next_id t"
  "tb_users (cascade_account i t) = tb_users t"
  by (simp_all add: cascade_account_def cascade_posts_def cascade_media_def posts_going_def remaining_def Let_def)

lemma erased_simps [simp]:
  "tb_user_accounts (erased i now t) = filter (\<lambda>a. user_accounts_user_id a \<noteq> i) (tb_user_accounts t)"
  "tb_room_users (erased i now t) = filter (\<lambda>r. room_users_user_id r \<noteq> i) (tb_room_users t)"
  "tb_posts (erased i now t) = remaining (map posts_id (filter (\<lambda>p. posts_user_id p = i) (tb_posts t))) (tb_posts t)"
  "tb_rooms (erased i now t) = tb_rooms t" "tb_next_id (erased i now t) = tb_next_id t"
  "tb_users (erased i now t) = map (\<lambda>u. if users_id u = i
     then u\<lparr>users_status := StatusDeleted, users_deleted_at := Some now\<rparr> else u) (tb_users t)"
  by (simp_all add: erased_def forget_activity_def mark_deleted_def set_users_def cascade_account_simps)

lemma erased_nothing_left: "nothing_left i (erased i now t)"
proof -
  have "posts_id p \<in> set (posts_going i t')" if "p \<in> set (tb_posts t')" "posts_user_id p = i" for p t'
    using that with_replies_mono[of 0 "length (tb_posts t')" "tb_posts t'"
        "map posts_id (filter (\<lambda>p. posts_user_id p = i) (tb_posts t'))"]
    by (auto simp: posts_going_def)
  then have posts: "list_all (\<lambda>p. posts_user_id p \<noteq> i) (tb_posts (erased i now t))"
    by (auto simp: list_all_iff remaining_def posts_going_def)
  note defs = erased_def forget_activity_def mark_deleted_def set_users_def cascade_account_def cascade_posts_def
    cascade_media_def Let_def
  show ?thesis
    unfolding nothing_left_def
  proof (intro conjI)
    show "\<not> has_account (erased i now t) i" by (auto simp: has_account_def)
    show "list_all (\<lambda>p. posts_user_id p \<noteq> i) (tb_posts (erased i now t))" by (rule posts)
    have "tb_media (erased i now t) =
        filter (\<lambda>m. media_id m \<notin> set (map media_id (filter (\<lambda>m. media_uploader_user_id m = i) (tb_media t)))) (tb_media t)"
      by (simp add: defs)
    then show "list_all (\<lambda>m. media_uploader_user_id m \<noteq> i) (tb_media (erased i now t))" by (auto simp: list_all_iff)
    show "list_all (\<lambda>(a, b). a \<noteq> i \<and> b \<noteq> i) (tb_blocks (erased i now t))" by (simp add: defs list_all_iff)
    show "list_all (\<lambda>(u, _). u \<noteq> i) (tb_user_activity_dates (erased i now t))" by (simp add: defs list_all_iff)
    show "list_all (\<lambda>(u, _). u \<noteq> i) (tb_user_activity_hours (erased i now t))" by (simp add: defs list_all_iff)
  qed (simp_all add: defs list_all_iff)
qed

section \<open>The invariant is kept\<close>

lemma posts_ok_posts: "posts_ok t \<longleftrightarrow> forest (tb_posts t) \<and> 0 < tb_next_id t \<and>
    list_all (\<lambda>p. posts_id p < tb_next_id t) (tb_posts t)"
  by (rule posts_ok_def)

text \<open>The tables before the account goes: its communities are settled, its posts are deleted and counted anew.\<close>

definition ready :: "int \<Rightarrow> tables \<Rightarrow> tables \<Rightarrow> bool" where
  "ready i t0 t \<longleftrightarrow>
     (\<exists>G t1 S now. without_rooms G t0 t1 \<and> settled i (promoted S t1) \<and>
        t = recounted i (posts_gone now i (promoted S t1)))"

lemma posts_only [simp]:
  "tb_rooms (posts_gone now i t) = tb_rooms t" "tb_room_users (posts_gone now i t) = tb_room_users t"
  "tb_next_id (posts_gone now i t) = tb_next_id t" "tb_users (posts_gone now i t) = tb_users t"
  "tb_user_accounts (posts_gone now i t) = tb_user_accounts t" "tb_media (posts_gone now i t) = tb_media t"
  "tb_rooms (recounted i t) = tb_rooms t" "tb_room_users (recounted i t) = tb_room_users t"
  "tb_next_id (recounted i t) = tb_next_id t" "tb_users (recounted i t) = tb_users t"
  "tb_user_accounts (recounted i t) = tb_user_accounts t" "tb_media (recounted i t) = tb_media t"
  by (simp_all add: posts_gone_def recounted_def)

lemma ready_frame:
  assumes "ready i t0 t"
  shows "tb_users t = tb_users t0" "tb_user_accounts t = tb_user_accounts t0" "tb_next_id t = tb_next_id t0"
    "tb_media t = tb_media t0" "settled i t" "set (tb_rooms t) \<subseteq> set (tb_rooms t0)"
    "set (map membership (tb_room_users t)) \<subseteq> set (map membership (tb_room_users t0))"
proof -
  from assms obtain G t1 S now where r: "without_rooms G t0 t1" "settled i (promoted S t1)"
    "t = recounted i (posts_gone now i (promoted S t1))" by (auto simp: ready_def)
  then show "tb_users t = tb_users t0" "tb_user_accounts t = tb_user_accounts t0" "tb_next_id t = tb_next_id t0"
    "tb_media t = tb_media t0" "settled i t" "set (tb_rooms t) \<subseteq> set (tb_rooms t0)"
    by (auto simp: without_rooms_def settled_def other_owner_def)
  have "map membership (tb_room_users t) = map membership (tb_room_users t1)" using r(3) by (simp add: promoted_simps)
  with r(1) show "set (map membership (tb_room_users t)) \<subseteq> set (map membership (tb_room_users t0))"
    by (auto simp: without_rooms_def)
qed

lemma gone_posts_dead:
  assumes "p \<in> set (tb_posts (recounted i (posts_gone now i t)))" "posts_user_id p = i"
  shows "posts_deleted_at p \<noteq> None"
proof -
  let ?ps = "tb_posts (posts_gone now i t)"
  let ?f = "\<lambda>r. if posts_id r \<in> set (ancestors_of_user ?ps i)
      then r\<lparr>posts_reply_count := visible_replies ?ps (posts_id r)\<rparr> else r"
  have "tb_posts (recounted i (posts_gone now i t)) = map ?f ?ps"
    by (simp add: recounted_def recount_def)
  with assms(1) have "p \<in> ?f ` set ?ps" by (simp only: list.set_map)
  then obtain r where r: "p = ?f r" "r \<in> set ?ps" by (rule imageE)
  have "posts_user_id (?f r) = posts_user_id r" "posts_deleted_at (?f r) = posts_deleted_at r" for r by simp_all
  with r(1) assms(2) have same: "posts_user_id r = i" "posts_deleted_at p = posts_deleted_at r" by metis+
  let ?g = "\<lambda>p. if posts_user_id p = i \<and> posts_deleted_at p = None
      then p\<lparr>posts_deleted_at := Some now, posts_updated_at := now\<rparr> else p"
  have "?ps = map ?g (tb_posts t)" by (simp add: posts_gone_def)
  with r(2) have "r \<in> ?g ` set (tb_posts t)" by (simp only: list.set_map)
  then obtain q where q: "r = ?g q" by (rule imageE)
  show ?thesis using same(1) unfolding same(2) q by (simp split: if_splits)
qed

lemma ready_posts:
  assumes "ready i t0 t" "posts_ok t0" "counts_exact t0"
  shows "posts_ok t" "counts_exact t"
    "x \<in> set (map posts_id (filter (\<lambda>p. posts_user_id p = i) (tb_posts t))) \<Longrightarrow> \<not> live (tb_posts t) x"
proof -
  from assms(1) obtain G t1 S now where "without_rooms G t0 t1" and t: "t = recounted i (posts_gone now i (promoted S t1))"
    by (auto simp: ready_def)
  then have t2: "tb_posts (promoted S t1) = tb_posts t0" "tb_next_id (promoted S t1) = tb_next_id t0"
    by (simp_all add: without_rooms_def)
  let ?t2 = "promoted S t1"
  from assms(2,3) t2 have ok: "posts_ok ?t2" and exact: "counts_exact ?t2" by (simp_all add: posts_ok_def counts_exact_def)
  have keys: "map parent_key (tb_posts t) = map parent_key (tb_posts ?t2)"
    unfolding t by (rule trans[OF tree_parents[OF recounted_tree] posts_gone_parents])
  have next_id: "tb_next_id t = tb_next_id ?t2" by (simp add: t)
  show okt: "posts_ok t" by (rule posts_ok_tree(1)[OF ok keys next_id])
  show "counts_exact t" unfolding t by (rule leave_exact[OF ok exact])
  show "\<not> live (tb_posts t) x" if "x \<in> set (map posts_id (filter (\<lambda>p. posts_user_id p = i) (tb_posts t)))" for x
  proof -
    from that obtain p where p: "p \<in> set (tb_posts t)" "posts_user_id p = i" "posts_id p = x" by auto
    with t have "posts_deleted_at p \<noteq> None" using gone_posts_dead[of p i now ?t2] by simp
    moreover have "find_post (tb_posts t) x = Some p"
      using find_post_member[OF _ p(1)] okt p(3) by (simp add: posts_ok_def forest_def)
    ultimately show ?thesis by (simp add: live_def)
  qed
qed

lemma erased_inv:
  assumes "ready i t0 t" "leaving_inv t0"
  shows "leaving_inv (erased i now t)"
proof -
  from assms(2) have acc: "accounts_ok t0" and com: "communities_ok t0" and "posts_ok t0" "counts_exact t0"
    by (simp_all add: leaving_inv_def)
  note frame = ready_frame[OF assms(1)] and posts = ready_posts[OF assms(1) this(3,4)]
  have f: "forest (tb_posts t)" using posts(1) by (simp add: posts_ok_def)
  have "map users_id (tb_users (erased i now t)) = map users_id (tb_users t0)" by (simp add: frame)
  moreover have "distinct (map user_accounts_user_id (tb_user_accounts (erased i now t)))"
    using acc by (simp add: accounts_ok_def frame distinct_map_filter)
  moreover have "list_all (\<lambda>u. has_account (erased i now t) (users_id u) = (users_status u \<noteq> StatusDeleted)) (tb_users (erased i now t))"
    using acc by (auto simp: accounts_ok_def frame list_all_iff has_account_def)
  ultimately have "accounts_ok (erased i now t)" using acc by (simp only: accounts_ok_def)
  moreover have "communities_ok (erased i now t)"
  proof (rule communities_okI)
    note ok = communities_okD[OF com]
    show "has_owner (erased i now t) (rooms_id r)" if "r \<in> set (tb_rooms (erased i now t))" "is_community r" for r
      using frame(5) that by (auto simp: settled_def other_owner_def has_owner_iff)
    show "rooms_id r < tb_next_id (erased i now t)" if "r \<in> set (tb_rooms (erased i now t))" for r
      using that frame(6) ok(4) by (auto simp: frame(3))
    show "room_users_room_id m < tb_next_id (erased i now t)" if "m \<in> set (tb_room_users (erased i now t))" for m
    proof -
      from that frame(7) obtain m' where "m' \<in> set (tb_room_users t0)" "membership m' = membership m" by fastforce
      with ok(3)[of m'] show ?thesis by (simp add: membership_def frame(3))
    qed
    from assms(1) obtain G t1 S where "without_rooms G t0 t1" "tb_room_users t = tb_room_users (promoted S t1)"
      by (auto simp: ready_def)
    then have "distinct (map membership (tb_room_users t))"
      using ok(2) by (simp add: promoted_simps without_rooms_def distinct_map_filter)
    then show "distinct (map membership (tb_room_users (erased i now t)))" by (simp add: distinct_map_filter)
  qed
  moreover have "posts_ok (erased i now t)"
    using posts(1) remaining_forest[OF f] by (auto simp: posts_ok_def list_all_iff remaining_def)
  moreover have "counts_exact (erased i now t)"
  proof (rule counts_exactI)
    fix p assume p: "p \<in> set (tb_posts (erased i now t))"
    then have "p \<in> set (tb_posts t)" by (simp add: remaining_def)
    with counts_exactD[OF posts(2)] have "posts_reply_count p = visible_replies (tb_posts t) (posts_id p)" by simp
    with remaining_counts[OF f posts(3) p[unfolded erased_simps]]
    show "posts_reply_count p = visible_replies (tb_posts (erased i now t)) (posts_id p)" by simp
  qed
  ultimately show ?thesis by (simp add: leaving_inv_def)
qed

section \<open>The transaction of \<open>purge\<close>\<close>

lemma tx_valid_PurgeUser [tx_wp]:
  "tx_valid (\<lambda>t. (has_account t i \<longrightarrow> Q True (mark_deleted i at (cascade_account i t))) \<and>
      (\<not> has_account t i \<longrightarrow> Q False t)) (mu_PurgeUser i at) Q"
  unfolding mu_PurgeUser_def mark_deleted_def
  by (rule tx_valid_weaken, (rule tx_wp)+) (auto split: if_splits)

lemma tx_valid_DeleteActivityHistory [tx_wp]:
  "tx_valid (\<lambda>t. Q () (forget_activity i t)) (mu_DeleteActivityHistory i) Q"
  unfolding mu_DeleteActivityHistory_def forget_activity_def
  by (rule tx_valid_weaken, (rule tx_wp)+) simp

lemma tx_valid_posts_go [tx_wp]:
  "tx_valid (\<lambda>t. \<forall>now. Q () (posts_gone now i t)) (DeletePostsByUserID i) Q"
  "tx_valid (\<lambda>t. Q () (recounted i t)) (RecalculateReplyCountsAffectedByUser i) Q"
  unfolding DeletePostsByUserID_def posts_gone_def RecalculateReplyCountsAffectedByUser_def recounted_def
  by (rule tx_valid_weaken, (rule tx_wp)+, simp)+

definition lifecycle :: "tables \<Rightarrow> int \<Rightarrow> user_lifecycle option" where
  "lifecycle t i = map_option (\<lambda>u. \<lparr>lc_Status = users_status u, lc_DeactivatedAt = users_deactivated_at u\<rparr>)
     (List.find (\<lambda>u. users_id u = i) (tb_users t))"

definition stored_keys :: "int \<Rightarrow> tables \<Rightarrow> string list" where
  "stored_keys i t = map media_storage_key (sort_key media_id (filter (\<lambda>m. media_uploader_user_id m = i) (tb_media t)))"

lemma lifecycle_account:
  assumes "accounts_ok t" "lifecycle t i = Some l" "lc_Status l \<noteq> StatusDeleted"
  shows "has_account t i"
proof -
  from assms(2) obtain u where u: "List.find (\<lambda>u. users_id u = i) (tb_users t) = Some u" "lc_Status l = users_status u"
    by (auto simp: lifecycle_def)
  from u(1) have "u \<in> set (tb_users t)" "users_id u = i" by (auto simp: find_Some_iff)
  with u(2) assms(1,3) show ?thesis by (auto simp: accounts_ok_def list_all_iff)
qed

definition may_go :: "(user_lifecycle \<Rightarrow> bool) \<Rightarrow> tables \<Rightarrow> int \<Rightarrow> bool" where
  "may_go allow t i \<longleftrightarrow> (\<exists>l. lifecycle t i = Some l \<and> lc_Status l \<noteq> StatusDeleted \<and> allow l)"

text \<open>Somebody was removed whom \<open>allow\<close> let go.\<close>

definition removal :: "int \<Rightarrow> (user_lifecycle \<Rightarrow> bool) \<Rightarrow> tables \<Rightarrow> tables \<Rightarrow> bool" where
  "removal i allow t0 t \<longleftrightarrow>
     (\<exists>t1 now. ready i t0 t1 \<and> t = erased i now t1) \<and> may_go allow t0 i"

lemma purge_body_valid:
  assumes "leaving_inv t0"
  shows "tx_valid (\<lambda>t. t = t0) (purge_body retain i allow) (\<lambda>(purged, keys, _) t.
    if purged then removal i allow t0 t \<and> keys = stored_keys i t0 else t = t0 \<and> \<not> may_go allow t0 i)"
    (is "tx_valid _ _ ?Q")
proof -
  from assms have acc: "accounts_ok t0" and com: "communities_ok t0" by (simp_all add: leaving_inv_def)
  have rest: "tx_valid (\<lambda>t. \<exists>G t1 S. without_rooms G t0 t1 \<and> settled i (promoted S t1) \<and> t = promoted S t1 \<and>
        has_account t0 i \<and> may_go allow t0 i)
      (bindP (DeletePostsByUserID i) (\<lambda>_. bindP (RecalculateReplyCountsAffectedByUser i) (\<lambda>_.
       bindP (ListStorageKeysByUploader i) (\<lambda>keys. bindP (ListReportableMediaByUploader i) (\<lambda>reportable.
       bindP (liftR (retain reportable)) (\<lambda>_. bindP nowP (\<lambda>now. bindP (mu_PurgeUser i now) (\<lambda>purged.
       if \<not> purged then ret (False, keys, hs)
       else bindP (mu_DeleteActivityHistory i) (\<lambda>_. ret (True, keys, hs)))))))))) ?Q" for hs
    unfolding ListStorageKeysByUploader_def ListReportableMediaByUploader_def
  proof (rule tx_valid_weaken, (rule tx_wp)+, elim exE conjE, goal_cases)
    case (1 t G t1 S)
    then have ready: "ready i t0 (recounted i (posts_gone now i t))" for now by (auto simp: ready_def)
    note frame = ready_frame[OF ready]
    have "removal i allow t0 (erased i n (recounted i (posts_gone now i t)))" for n now
      using ready 1 by (auto simp: removal_def)
    with 1 frame show ?case by (simp add: has_account_def stored_keys_def erased_def[symmetric])
  qed
  show ?thesis
    unfolding purge_body_def mu_LockUserLifecycle_def lifecycle_def[symmetric]
  proof (rule tx_valid_weaken, rule tx_wp, rule tx_valid_option, rule tx_wp, rule tx_wp, rule tx_wp, rule tx_wp, rule rest,
      rule settle_valid[OF com], rule tx_wp, goal_cases)
    case (1 t)
    then show ?case using lifecycle_account[OF acc] by (auto simp: may_go_def)
  qed
qed

section \<open>After the transaction\<close>

lemma runInTx_out:
  assumes "Db.contained body" "runInTx body w = (r, w')"
  shows "db_out w' = db_out w"
proof -
  obtain q v where body: "body ((db_tick w)\<lparr>db_tx := Some (db_committed w)\<rparr>) = (q, v)" by fastforce
  with containedD(3)[OF assms(1) body] assms(2) show ?thesis
    by (cases q) (auto simp: runInTx_eq split: if_splits)
qed

lemma discard_all_run: "discard_all keys w = (Ok (), w\<lparr>db_out := db_out w @ map ObjectDiscarded keys\<rparr>)"
  by (induction keys arbitrary: w) (simp_all add: ret_def bindP_def publish_def)

lemma handover_params_run:
  "\<exists>ps v. handover_params hs (w :: 'o db) = (Ok ps, v) \<and> db_committed v = db_committed w \<and> db_tx v = db_tx w \<and> db_out v = db_out w"
proof (induction hs arbitrary: w)
  case (Cons h hs)
  obtain r s where h: "h = (r, s)" by (cases h) auto
  obtain c v where c: "GetCommunityIDByRoomID r w = (c, v)" by fastforce
  have "reads (GetCommunityIDByRoomID r :: ('o db, int) proc)" unfolding GetCommunityIDByRoomID_def by (intro reads_intros)
  note frame = readsD[OF this c]
  from Cons.IH[of v] obtain ps v' where "handover_params hs v = (Ok ps, v')" "db_committed v' = db_committed v"
    "db_tx v' = db_tx v" "db_out v' = db_out v" by blast
  then show ?case by (simp add: h tryP_def c bindP_def ret_def frame)
qed (simp add: ret_def)

lemma notifyNewOwners_run:
  "\<exists>ns v. notifyNewOwners hs w = (Ok (), v) \<and> db_committed v = db_committed w \<and> db_tx v = db_tx w \<and>
     db_out v = db_out w @ map OwnersNotified ns"
proof (cases "hs = []")
  case True
  then show ?thesis by (auto simp: notifyNewOwners_def ret_def intro: exI[of _ "[]"])
next
  case False
  from handover_params_run[of hs w] obtain ps v where "handover_params hs w = (Ok ps, v)" "db_committed v = db_committed w"
    "db_tx v = db_tx w" "db_out v = db_out w" by blast
  with False show ?thesis
    by (auto simp: notifyNewOwners_def bindP_def publish_def intro: exI[of _ "[ps]"])
qed

lemma contained_lock_rooms [contained_intros]: "Db.contained (lock_rooms rs)"
proof (induction rs)
  case Nil
  show ?case unfolding lock_rooms.simps by (intro contained_intros)
next
  case (Cons r rs)
  show ?case unfolding lock_rooms.simps by (intro contained_intros Cons.IH)
qed

lemma contained_delete_lonely_rooms [contained_intros]: "Db.contained (delete_lonely_rooms owned)"
proof (induction owned)
  case Nil
  show ?case unfolding delete_lonely_rooms.simps by (intro contained_intros)
next
  case (Cons q owned)
  then show ?case by (cases q) (simp only: delete_lonely_rooms.simps, intro contained_intros)
qed

lemma contained_handOverOwnerships [contained_intros]: "Db.contained (handOverOwnerships u owned)"
proof (induction owned)
  case Nil
  show ?case unfolding handOverOwnerships.simps by (intro contained_intros)
next
  case (Cons q owned)
  then show ?case
    by (cases q) (simp only: handOverOwnerships.simps FindOwnerSuccessor_def SetRoomUserRole_def, intro contained_intros)
qed

lemma contained_ownedCommunities [contained_intros]: "Db.contained (ownedCommunities u)"
  unfolding ownedCommunities_def by (intro contained_intros contained_reads[OF reads_lock(2)])

lemma purge_contained: "Db.contained (purge_body retain i allow)"
  unfolding purge_body_def mu_LockUserLifecycle_def settleCommunities_def DeletePostsByUserID_def
    RecalculateReplyCountsAffectedByUser_def ListStorageKeysByUploader_def ListReportableMediaByUploader_def
    mu_PurgeUser_def mu_DeleteActivityHistory_def
  by (intro contained_intros)

text \<open>The whole of it: somebody is gone and their objects are discarded, or nothing has happened.\<close>

lemma purge_run:
  assumes "purge retain i allow w = (r, w')" "db_tx w = None" "leaving_inv (db_committed w)"
  shows "db_tx w' = None \<and>
    (if r = Inr True
     then removal i allow (db_committed w) (db_committed w') \<and>
       (\<exists>ns. db_out w' = db_out w @ map ObjectDiscarded (stored_keys i (db_committed w)) @ map OwnersNotified ns)
     else db_committed w' = db_committed w \<and> db_out w' = db_out w \<and>
       (r = Inr False \<longrightarrow> \<not> may_go allow (db_committed w) i))"
  using assms(1)[unfolded purge_def]
proof (cases rule: bindP_cases)
  case (stop e)
  note a = atomicPD[where out = "\<lambda>x. x", OF atomicP_runInTx[OF purge_contained] stop(1) assms(2)]
  then show ?thesis using stop(2) by simp
next
  case (go x v)
  obtain purged keys hs where x: "x = (purged, keys, hs)" by (cases x) auto
  from go(1) have run: "runInTx (purge_body retain i allow) w = (Inr (purged, keys, hs), v)" by (simp add: x)
  note a = atomicPD(1)[where out = "\<lambda>x. x", OF atomicP_runInTx[OF purge_contained] run assms(2)]
  from runInTx_valid[OF run purge_body_valid[OF assms(3)] refl]
  have post: "if purged then removal i allow (db_committed w) (db_committed v) \<and> keys = stored_keys i (db_committed w)
      else db_committed v = db_committed w \<and> \<not> may_go allow (db_committed w) i" by simp
  have out: "db_out v = db_out w" using runInTx_out[OF purge_contained run] .
  show ?thesis
  proof (cases purged)
    case False
    with go(2) post a out show ?thesis by (auto simp: x ret_def)
  next
    case True
    from notifyNewOwners_run[of hs "v\<lparr>db_out := db_out v @ map ObjectDiscarded keys\<rparr>"] obtain ns u
      where "notifyNewOwners hs (v\<lparr>db_out := db_out v @ map ObjectDiscarded keys\<rparr>) = (Ok (), u)"
        "db_committed u = db_committed v" "db_tx u = db_tx v"
        "db_out u = db_out v @ map ObjectDiscarded keys @ map OwnersNotified ns" by auto
    with go(2) True post a out show ?thesis
      by (auto simp: x bindP_def discard_all_run ret_def)
  qed
qed

section \<open>What a removal does to the others\<close>

definition expired :: "int \<Rightarrow> user_row \<Rightarrow> bool" where
  "expired now u \<longleftrightarrow>
     GracePeriodExpired now \<lparr>lc_Status = users_status u, lc_DeactivatedAt = users_deactivated_at u\<rparr>"

text \<open>Whoever is not due keeps their row and their personal data.\<close>

definition spared :: "int \<Rightarrow> tables \<Rightarrow> tables \<Rightarrow> bool" where
  "spared now t t' \<longleftrightarrow>
     list_all (\<lambda>u. \<not> expired now u \<longrightarrow>
       u \<in> set (tb_users t') \<and> account_of t' (users_id u) = account_of t (users_id u)) (tb_users t)"

lemma spared_refl: "spared now t t"
  by (simp add: spared_def list_all_iff)

lemma spared_trans: "spared now t t' \<Longrightarrow> spared now t' t'' \<Longrightarrow> spared now t t''"
  by (auto simp: spared_def list_all_iff)

lemma removalD:
  assumes "removal i allow t t'" "leaving_inv t"
  shows "leaving_inv t'" "nothing_left i t'" "may_go allow t i"
    "\<exists>now. tb_users t' = map (\<lambda>u. if users_id u = i
       then u\<lparr>users_status := StatusDeleted, users_deleted_at := Some now\<rparr> else u) (tb_users t)"
    "tb_user_accounts t' = filter (\<lambda>a. user_accounts_user_id a \<noteq> i) (tb_user_accounts t)"
proof -
  from assms(1) obtain t1 now where r: "ready i t t1" "t' = erased i now t1" by (auto simp: removal_def)
  show "leaving_inv t'" unfolding r(2) by (rule erased_inv[OF r(1) assms(2)])
  show "nothing_left i t'" unfolding r(2) by (rule erased_nothing_left)
  show "may_go allow t i" using assms(1) by (simp add: removal_def)
  show "\<exists>now. tb_users t' = map (\<lambda>u. if users_id u = i
       then u\<lparr>users_status := StatusDeleted, users_deleted_at := Some now\<rparr> else u) (tb_users t)"
    "tb_user_accounts t' = filter (\<lambda>a. user_accounts_user_id a \<noteq> i) (tb_user_accounts t)"
    using ready_frame(1,2)[OF r(1)] by (auto simp: r(2))
qed

lemma account_of_filter:
  "j \<noteq> i \<Longrightarrow> List.find (\<lambda>a. user_accounts_user_id a = j) (filter (\<lambda>a. user_accounts_user_id a \<noteq> i) as) =
    List.find (\<lambda>a. user_accounts_user_id a = j) as"
  by (induction as) auto

lemma lifecycle_member:
  assumes "accounts_ok t" "u \<in> set (tb_users t)"
  shows "lifecycle t (users_id u) = Some \<lparr>lc_Status = users_status u, lc_DeactivatedAt = users_deactivated_at u\<rparr>"
proof -
  have "distinct (map users_id us) \<Longrightarrow> u \<in> set us \<Longrightarrow> List.find (\<lambda>v. users_id v = users_id u) us = Some u" for us
    by (induction us) auto
  with assms show ?thesis by (simp add: lifecycle_def accounts_ok_def)
qed

lemma may_go_expired:
  "accounts_ok t \<Longrightarrow> u \<in> set (tb_users t) \<Longrightarrow> may_go (GracePeriodExpired now) t (users_id u) = expired now u"
  by (auto simp: may_go_def lifecycle_member expired_def GracePeriodExpired_def)

text \<open>How many are on their way out.\<close>

definition leaving :: "tables \<Rightarrow> nat" where
  "leaving t = length (filter (\<lambda>u. users_status u = StatusDeactivated) (tb_users t))"

lemma length_filter_map_le: "(\<And>v. P (f v) \<Longrightarrow> P v) \<Longrightarrow> length (filter P (map f us)) \<le> length (filter P us)"
  by (induction us) auto

lemma length_filter_map_less:
  assumes "u \<in> set us" "P u" "\<not> P (f u)" "\<And>v. P (f v) \<Longrightarrow> P v"
  shows "length (filter P (map f us)) < length (filter P us)"
  using assms(1)
proof (induction us)
  case (Cons v us)
  show ?case
  proof (cases "u = v")
    case True
    with assms(2,3) length_filter_map_le[of P f us, OF assms(4)] show ?thesis by simp
  next
    case False
    with Cons assms(4)[of v] show ?thesis by auto
  qed
qed simp

lemma removal_expired:
  assumes "removal i (GracePeriodExpired now) t t'" "leaving_inv t"
  shows "spared now t t'" "leaving t' < leaving t"
    "\<And>u. u \<in> set (tb_users t) \<Longrightarrow> users_id u \<noteq> i \<Longrightarrow> u \<in> set (tb_users t')"
proof -
  note r = removalD[OF assms]
  from assms(2) have acc: "accounts_ok t" by (simp add: leaving_inv_def)
  from r(4) obtain at where users: "tb_users t' = map (\<lambda>u. if users_id u = i
       then u\<lparr>users_status := StatusDeleted, users_deleted_at := Some at\<rparr> else u) (tb_users t)" by blast
  show stays: "u \<in> set (tb_users t')" if "u \<in> set (tb_users t)" "users_id u \<noteq> i" for u
    using that by (force simp: users)
  have "users_id u \<noteq> i" if "u \<in> set (tb_users t)" "\<not> expired now u" for u
    using that r(3) may_go_expired[OF acc, of u now] by auto
  then show "spared now t t'"
    using stays by (auto simp: spared_def list_all_iff account_of_def r(5) account_of_filter)
  from r(3) obtain l where l: "lifecycle t i = Some l" "GracePeriodExpired now l" by (auto simp: may_go_def)
  from l(1) obtain u where find: "List.find (\<lambda>u. users_id u = i) (tb_users t) = Some u"
    and st: "lc_Status l = users_status u" by (auto simp: lifecycle_def)
  from find have u: "u \<in> set (tb_users t)" "users_id u = i" by (auto simp: find_Some_iff)
  from l(2) st have gone: "users_status u = StatusDeactivated" by (simp add: GracePeriodExpired_def)
  show "leaving t' < leaving t"
    unfolding leaving_def users by (rule length_filter_map_less[OF u(1)]) (auto simp: u gone split: if_splits)
qed

section \<open>The daily run\<close>

lemma due_expired: "due (now - AccountDeletionGracePeriod) u = expired now u"
  by (auto simp: due_def expired_def GracePeriodExpired_def split: option.split)

lemma due_ids_facts:
  assumes "accounts_ok t"
  shows "distinct (due_ids before limit t)"
    "j \<in> set (due_ids (now - AccountDeletionGracePeriod) limit t) \<Longrightarrow>
       \<exists>u\<in>set (tb_users t). users_id u = j \<and> expired now u"
proof -
  let ?us = "\<lambda>before. sort_key (\<lambda>u. (the (users_deactivated_at u), users_id u)) (filter (due before) (tb_users t))"
  have "mset (?us before) = mset (filter (due before) (tb_users t))" for before by simp
  then have "distinct (map users_id (?us before)) = distinct (map users_id (filter (due before) (tb_users t)))" for before
    by (metis mset_eq_imp_distinct_iff mset_map)
  then have "distinct (map users_id (?us before))" using assms by (simp add: accounts_ok_def distinct_map_filter)
  then show "distinct (due_ids before limit t)"
    unfolding due_ids_def take_map[symmetric] by (rule distinct_take)
  show "\<exists>u\<in>set (tb_users t). users_id u = j \<and> expired now u"
    if "j \<in> set (due_ids (now - AccountDeletionGracePeriod) limit t)"
    using that by (auto simp: due_ids_def due_expired dest!: in_set_takeD)
qed

text \<open>One round: everybody it lists may go, and if it went forward there are fewer to go.\<close>

lemma purge_each_run:
  assumes "db_tx w = None" "leaving_inv (db_committed w)" "distinct ids"
    and "\<forall>j\<in>set ids. \<exists>u\<in>set (tb_users (db_committed w)). users_id u = j \<and> expired now u"
  shows "\<exists>purged' progressed' failed' errs' w'.
    purge_each retain now ids (purged, progressed, failed, errs) w = (Ok (purged', progressed', failed', errs'), w') \<and>
    db_tx w' = None \<and> leaving_inv (db_committed w') \<and> spared now (db_committed w) (db_committed w') \<and>
    leaving (db_committed w') \<le> leaving (db_committed w) \<and>
    (progressed' \<longrightarrow> \<not> progressed \<longrightarrow> leaving (db_committed w') < leaving (db_committed w))"
  using assms
proof (induction ids arbitrary: w purged progressed failed errs)
  case Nil
  then show ?case by (simp add: ret_def spared_refl)
next
  case (Cons i ids)
  show ?case
  proof (cases "i \<in> set failed")
    case True
    with Cons.IH[of w purged progressed failed errs] Cons.prems show ?thesis by simp
  next
    case False
    obtain r v where run: "purge retain i (GracePeriodExpired now) w = (r, v)" by fastforce
    note p = purge_run[OF run Cons.prems(1,2)]
    from Cons.prems(2) have acc: "accounts_ok (db_committed w)" by (simp add: leaving_inv_def)
    from Cons.prems(4) may_go_expired[OF acc] have may: "may_go (GracePeriodExpired now) (db_committed w) i" by auto
    show ?thesis
    proof (cases "r = Inr True")
      case True
      with p have rem: "removal i (GracePeriodExpired now) (db_committed w) (db_committed v)" and tx: "db_tx v = None"
        by simp_all
      note re = removal_expired[OF rem Cons.prems(2)] and inv = removalD(1)[OF rem Cons.prems(2)]
      from Cons.prems(3,4) re(3) have "\<forall>j\<in>set ids. \<exists>u\<in>set (tb_users (db_committed v)). users_id u = j \<and> expired now u"
        by fastforce
      from Cons.IH[OF tx inv _ this, of "purged + 1" True failed errs] Cons.prems(3) re(1,2) run False True
      show ?thesis by (auto simp: tryP_def intro: spared_trans)
    next
      case no: False
      with p have same: "db_committed v = db_committed w" "db_tx v = None" by simp_all
      from no p may obtain e where e: "r = Inl e" by (cases r) auto
      from Cons.IH[of v purged progressed "failed @ [i]" "errs @ [e]"] Cons.prems same run False e
      show ?thesis by (simp add: tryP_def)
    qed
  qed
qed

lemma purge_loop_run:
  assumes "db_tx w = None" "leaving_inv (db_committed w)" "leaving (db_committed w) < n"
  shows "\<exists>res w'. purge_loop batch n retain now (purged, failed, errs) w = (Ok (Some res), w') \<and>
    db_tx w' = None \<and> leaving_inv (db_committed w') \<and> spared now (db_committed w) (db_committed w')"
  using assms
proof (induction n arbitrary: w purged failed errs)
  case (Suc n)
  obtain r v where list: "mu_ListUserIDsToPurge (now - AccountDeletionGracePeriod) (batch + length failed) w = (r, v)"
    by fastforce
  have "reads (mu_ListUserIDsToPurge b l :: (app, int list) proc)" for b l
    unfolding mu_ListUserIDsToPurge_def by (intro reads_intros)
  note frame = readsD[OF this list]
  show ?case
  proof (cases r)
    case (Inl e)
    with list frame Suc.prems show ?thesis by (simp add: tryP_def ret_def spared_refl)
  next
    case (Inr ids)
    with list Suc.prems(1) have ids: "ids = due_ids (now - AccountDeletionGracePeriod) (batch + length failed) (db_committed w)"
      by (auto simp: mu_ListUserIDsToPurge_def query_Inr_iff db_view_def)
    from Suc.prems(2) have acc: "accounts_ok (db_committed w)" by (simp add: leaving_inv_def)
    have pre: "db_tx v = None" "leaving_inv (db_committed v)" "distinct ids"
      "\<forall>j\<in>set ids. \<exists>u\<in>set (tb_users (db_committed v)). users_id u = j \<and> expired now u"
      using frame Suc.prems due_ids_facts[OF acc] by (auto simp: ids)
    from purge_each_run[OF pre, of retain purged False failed errs]
    obtain purged' progressed' failed' errs' v' where each:
      "purge_each retain now ids (purged, False, failed, errs) v = (Ok (purged', progressed', failed', errs'), v')"
      "db_tx v' = None" "leaving_inv (db_committed v')" "spared now (db_committed v) (db_committed v')"
      "progressed' \<longrightarrow> leaving (db_committed v') < leaving (db_committed v)" by auto
    show ?thesis
    proof (cases "length ids < batch + length failed' \<or> \<not> progressed'")
      case True
      with list Inr each frame show ?thesis by (auto simp: tryP_def bindP_def ret_def)
    next
      case False
      with each(5) Suc.prems(3) frame have "leaving (db_committed v') < n" by simp
      from Suc.IH[OF each(2,3) this, of purged' failed' errs'] each(1,4) list Inr False frame
      show ?thesis by (auto simp: tryP_def bindP_def intro: spared_trans)
    qed
  qed
qed simp

end
