(* ===== verification/Account_Leave_Props.thy ===== *)
theory Account_Leave_Props
  imports Account_Deletion_Props
begin

text \<open>
  Sequences of people leaving, coming back and being removed, and the daily run: what they keep, whom they take
  and what is left of whom they take.
\<close>

section \<open>Giving notice and coming back\<close>

lemma leaving_inv_cong:
  assumes "leaving_inv t" "tb_room_users t' = tb_room_users t" "tb_rooms t' = tb_rooms t" "tb_next_id t' = tb_next_id t"
    "tb_posts t' = tb_posts t" "map users_id (tb_users t') = map users_id (tb_users t)"
    "map user_accounts_user_id (tb_user_accounts t') = map user_accounts_user_id (tb_user_accounts t)"
    "\<And>u'. u' \<in> set (tb_users t') \<Longrightarrow>
       \<exists>u\<in>set (tb_users t). users_id u = users_id u' \<and> (users_status u = StatusDeleted) = (users_status u' = StatusDeleted)"
  shows "leaving_inv t'"
proof -
  have ids: "has_account s i = (i \<in> set (map user_accounts_user_id (tb_user_accounts s)))" for s i
    by (auto simp: has_account_def)
  have "accounts_ok t" "communities_ok t" "posts_ok t" "counts_exact t" using assms(1) by (simp_all add: leaving_inv_def)
  moreover from this(1) have "accounts_ok t'"
    using assms(8) unfolding accounts_ok_def assms(6,7) list_all_iff ids by fastforce
  moreover have "communities_ok t'"
    by (rule communities_ok_cong[OF \<open>communities_ok t\<close>]) (auto simp: assms(2-4))
  ultimately show ?thesis by (simp add: leaving_inv_def posts_ok_def counts_exact_def assms(4,5))
qed

lemma leaving_inv_users:
  assumes "leaving_inv t" "\<And>u. P u \<Longrightarrow> users_id (f u) = users_id u"
    "\<And>u. P u \<Longrightarrow> (users_status (f u) = StatusDeleted) = (users_status u = StatusDeleted)"
  shows "leaving_inv (set_users P f t)"
  by (rule leaving_inv_cong[OF assms(1)]) (auto simp: set_users_def assms(2,3))

lemma leaving_inv_accounts:
  assumes "leaving_inv t" "\<And>a. user_accounts_user_id (f a) = user_accounts_user_id a"
  shows "leaving_inv (set_accounts P f t)"
  by (rule leaving_inv_cong[OF assms(1)]) (auto simp: set_accounts_def assms(2))

lemma leaving_inv_promoted:
  assumes "leaving_inv t"
  shows "leaving_inv (promoted S t)"
proof -
  have acc: "accounts_ok t" and com: "communities_ok t" and posts: "posts_ok t" "counts_exact t"
    using assms by (simp_all add: leaving_inv_def)
  note ok = communities_okD[OF com]
  have "communities_ok (promoted S t)"
  proof (rule communities_okI)
    show "has_owner (promoted S t) (rooms_id r)" if "r \<in> set (tb_rooms (promoted S t))" "is_community r" for r
    proof -
      from ok(1)[of r] that obtain m where "m \<in> set (tb_room_users t)" "room_users_room_id m = rooms_id r"
        "room_users_role m = RoomUserRoleOwner" by (auto simp: has_owner_iff)
      then show ?thesis
        unfolding has_owner_iff
        by (intro bexI[of _ "if membership m \<in> S then m\<lparr>room_users_role := RoomUserRoleOwner\<rparr> else m"])
           (auto simp: promoted_def set_role_where_def)
    qed
    show "distinct (map membership (tb_room_users (promoted S t)))" using ok(2) by (simp only: promoted_simps)
    show "room_users_room_id m < tb_next_id (promoted S t)" if "m \<in> set (tb_room_users (promoted S t))" for m
      using ok(3) that by (auto simp: promoted_def set_role_where_def)
    show "rooms_id r < tb_next_id (promoted S t)" if "r \<in> set (tb_rooms (promoted S t))" for r
      using ok(4) that by simp
  qed
  with acc posts show ?thesis
    by (simp add: leaving_inv_def accounts_ok_def has_account_def posts_ok_def counts_exact_def)
qed

lemma deactivate_valid: "tx_valid leaving_inv (deactivate_body i) (\<lambda>_. leaving_inv)"
  unfolding deactivate_body_def mu_DeactivateUser_def
proof (rule tx_valid_weaken, rule tx_wp, rule tx_wp, rule tx_wp, rule tx_wp, rule tx_wp, rule tx_wp, rule tx_wp,
    rule handOver_valid, rule tx_wp, rule tx_wp, rule tx_wp, goal_cases)
  case (1 t)
  then show ?case by (auto intro!: leaving_inv_users leaving_inv_accounts leaving_inv_promoted split: if_splits)
qed

lemma deactivate_contained: "Db.contained (deactivate_body i)"
  unfolding deactivate_body_def mu_DeactivateUser_def by (intro contained_intros)

lemma notify_stable [stable_intros]: "stable I (notifyNewOwners hs)"
proof (rule stableI)
  fix w r and w' :: app assume "notifyNewOwners hs w = (r, w')" "db_tx w = None" "I (db_committed w)"
  with notifyNewOwners_run[of hs w] show "db_tx w' = None \<and> I (db_committed w')" by auto
qed

lemma purge_stable: "stable leaving_inv (purge retain i allow)"
proof (rule stableI)
  fix w r w' assume "purge retain i allow w = (r, w')" "db_tx w = None" "leaving_inv (db_committed w)"
  with purge_run[OF this] removalD(1) show "db_tx w' = None \<and> leaving_inv (db_committed w')"
    by (auto split: if_splits)
qed

lemma purge_each_stable: "stable leaving_inv (purge_each retain now ids st)"
proof (induction ids arbitrary: st)
  case Nil
  show ?case by (simp only: purge_each.simps) (intro stable_intros)
next
  case (Cons i ids)
  obtain p g f e where st: "st = (p, g, f, e)" by (cases st)
  show ?case unfolding st purge_each.simps by (intro stable_intros purge_stable Cons.IH)
qed

lemma purge_loop_stable: "stable leaving_inv (purge_loop batch n retain now st)"
proof (induction n arbitrary: st)
  case 0
  show ?case by (simp only: purge_loop.simps) (intro stable_intros)
next
  case (Suc n)
  obtain p f e where st: "st = (p, f, e)" by (cases st)
  show ?case
    unfolding st purge_loop.simps mu_ListUserIDsToPurge_def
    by (intro stable_intros purge_each_stable Suc.IH)
qed

section \<open>Sequences\<close>

datatype leave_op =
    QuitOp request_ctx
  | ReturnOp int
  | RemoveOp request_ctx int
  | DailyOp nat

definition run_leave_op :: "(reportable_media list \<Rightarrow> unit result) \<Rightarrow> leave_op \<Rightarrow> (app, unit) proc" where
  "run_leave_op retain op =
     (case op of
        QuitOp ctx \<Rightarrow> bindP (DeleteMyAccount ctx) (\<lambda>_. ret ())
      | ReturnOp i \<Rightarrow> bindP (mu_ReactivateUser i) (\<lambda>_. ret ())
      | RemoveOp ctx i \<Rightarrow> bindP (DeleteUser retain ctx i) (\<lambda>_. ret ())
      | DailyOp n \<Rightarrow> bindP nowP (\<lambda>now. bindP (PurgeExpiredAccounts n retain now) (\<lambda>_. ret ())))"

definition run_leaves :: "(reportable_media list \<Rightarrow> unit result) \<Rightarrow> (leave_op \<times> int) list \<Rightarrow> app \<Rightarrow> app" where
  "run_leaves retain ops w = fold (\<lambda>(op, now) w. snd (run_leave_op retain op (w\<lparr>db_now := now\<rparr>))) ops w"

lemma leave_op_stable: "stable leaving_inv (run_leave_op retain op)"
proof -
  have kept: "leaving_inv t'" if "leaving_inv t" "(Ok b, set_users P f t) = (Inr x, t')"
    "\<And>u. P u \<Longrightarrow> users_id (f u) = users_id u"
    "\<And>u. P u \<Longrightarrow> (users_status (f u) = StatusDeleted) = (users_status u = StatusDeleted)" for t t' b x P f
    using leaving_inv_users[of t P f, OF that(1,3,4)] that(2) by simp
  have "stable leaving_inv (mu_ReactivateUser i :: (app, bool) proc)" for i
    unfolding mu_ReactivateUser_def by (rule stable_call, erule (1) kept) simp_all
  then show ?thesis
    unfolding run_leave_op_def DeleteMyAccount_def DeleteUser_def PurgeExpiredAccounts_def
    by (cases op; simp only: leave_op.case;
        intro stable_intros purge_stable purge_loop_stable stable_runInTx deactivate_contained deactivate_valid)
qed

section \<open>A run without failures\<close>

lemma due_ids_all:
  assumes "length (due_ids before limit t) < limit" "u \<in> set (tb_users t)" "due before u"
  shows "users_id u \<in> set (due_ids before limit t)"
proof -
  let ?us = "sort_key (\<lambda>u. (the (users_deactivated_at u), users_id u)) (filter (due before) (tb_users t))"
  from assms(1) have "take limit ?us = ?us" by (simp add: due_ids_def)
  moreover have "u \<in> set ?us" using assms(2,3) by simp
  ultimately show ?thesis unfolding due_ids_def by (metis imageI list.set_map)
qed

text \<open>Failures are only added.\<close>

lemma purge_each_failed:
  "purge_each retain now ids (purged, progressed, failed, errs) w = (Ok (purged', progressed', failed', errs'), w') \<Longrightarrow>
     (\<exists>fs es. failed' = failed @ fs \<and> errs' = errs @ es \<and> length fs = length es)"
proof (induction ids arbitrary: w purged progressed failed errs)
  case (Cons i ids)
  show ?case
  proof (cases "i \<in> set failed")
    case True
    with Cons show ?thesis by simp
  next
    case False
    obtain r v where run: "purge retain i (GracePeriodExpired now) w = (r, v)" by fastforce
    show ?thesis
    proof (cases r)
      case (Inl e)
      with Cons.prems run False
      have "purge_each retain now ids (purged, progressed, failed @ [i], errs @ [e]) v =
        (Ok (purged', progressed', failed', errs'), w')" by (simp add: tryP_def)
      from Cons.IH[OF this] obtain fs es where "failed' = failed @ i # fs" "errs' = errs @ e # es" "length fs = length es" by auto
      then show ?thesis by (intro exI[of _ "i # fs"] exI[of _ "e # es"]) simp
    next
      case (Inr ok)
      with Cons.prems run False
      have "purge_each retain now ids (purged + (if ok then 1 else 0), True, failed, errs) v =
        (Ok (purged', progressed', failed', errs'), w')" by (simp add: tryP_def)
      from Cons.IH[OF this] show ?thesis .
    qed
  qed
qed (simp add: ret_def)

text \<open>A round in which nobody new failed has removed everybody it listed.\<close>

lemma purge_each_clean:
  assumes "purge_each retain now ids (purged, progressed, [], errs) w = (Ok (purged', progressed', failed', errs'), w')"
    "db_tx w = None" "leaving_inv (db_committed w)" "distinct ids"
    and "\<forall>j\<in>set ids. \<exists>u\<in>set (tb_users (db_committed w)). users_id u = j \<and> expired now u"
    and "failed' = []"
  shows "errs' = errs \<and> progressed' = (progressed \<or> ids \<noteq> []) \<and>
    (\<forall>u\<in>set (tb_users (db_committed w')). expired now u \<longrightarrow> u \<in> set (tb_users (db_committed w)) \<and> users_id u \<notin> set ids)"
  using assms
proof (induction ids arbitrary: w purged progressed)
  case Nil
  then show ?case by (simp add: ret_def)
next
  case (Cons i ids)
  obtain r v where run: "purge retain i (GracePeriodExpired now) w = (r, v)" by fastforce
  note p = purge_run[OF run Cons.prems(2,3)]
  have acc: "accounts_ok (db_committed w)" using Cons.prems(3) by (simp add: leaving_inv_def)
  from Cons.prems(5) may_go_expired[OF acc] have may: "may_go (GracePeriodExpired now) (db_committed w) i" by auto
  have "r = Inr True"
  proof (rule ccontr)
    assume "r \<noteq> Inr True"
    with p may obtain e where e: "r = Inl e" by (cases r) auto
    with Cons.prems(1) run
    have "purge_each retain now ids (purged, progressed, [i], errs @ [e]) v = (Ok (purged', progressed', failed', errs'), w')"
      by (simp add: tryP_def)
    with purge_each_failed[OF this] Cons.prems(6) show False by simp
  qed
  with p have rem: "removal i (GracePeriodExpired now) (db_committed w) (db_committed v)" and tx: "db_tx v = None"
    by simp_all
  note re = removal_expired[OF rem Cons.prems(3)] and inv = removalD(1)[OF rem Cons.prems(3)]
  from removalD(4)[OF rem Cons.prems(3)] obtain at where users: "tb_users (db_committed v) = map (\<lambda>u. if users_id u = i
       then u\<lparr>users_status := StatusDeleted, users_deleted_at := Some at\<rparr> else u) (tb_users (db_committed w))" by blast
  have gone: "u \<in> set (tb_users (db_committed w)) \<and> users_id u \<noteq> i"
    if "u \<in> set (tb_users (db_committed v))" "expired now u" for u
    using that by (auto simp: users expired_def GracePeriodExpired_def split: if_splits)
  have rest: "\<forall>j\<in>set ids. \<exists>u\<in>set (tb_users (db_committed v)). users_id u = j \<and> expired now u"
    using Cons.prems(4,5) re(3) by fastforce
  have each: "purge_each retain now ids (purged + 1, True, [], errs) v = (Ok (purged', progressed', failed', errs'), w')"
    using Cons.prems(1) run \<open>r = Inr True\<close> by (simp add: tryP_def)
  from Cons.IH[OF each tx inv _ rest Cons.prems(6)] Cons.prems(4) gone show ?case by auto
qed

lemma purge_loop_failed:
  "purge_loop batch n retain now (purged, failed, errs) w = (Ok (Some (k, errs')), w') \<Longrightarrow>
     \<exists>es. errs' = errs @ es"
proof (induction n arbitrary: w purged failed errs)
  case (Suc n)
  obtain r v where list: "mu_ListUserIDsToPurge (now - AccountDeletionGracePeriod) (batch + length failed) w = (r, v)"
    by fastforce
  show ?case
  proof (cases r)
    case (Inl e)
    with list Suc.prems show ?thesis by (auto simp: tryP_def ret_def)
  next
    case (Inr ids)
    obtain q v' where each: "purge_each retain now ids (purged, False, failed, errs) v = (q, v')" by fastforce
    with list Inr Suc.prems obtain p g f e where q: "q = Ok (p, g, f, e)"
      by (cases q) (auto simp: tryP_def bindP_def)
    from purge_each_failed[OF each[unfolded q]] obtain es where e: "e = errs @ es" by blast
    show ?thesis
    proof (cases "length ids < batch + length f \<or> \<not> g")
      case True
      with list Inr each q e Suc.prems show ?thesis by (auto simp: tryP_def bindP_def ret_def)
    next
      case False
      with list Inr each q Suc.prems have "purge_loop batch n retain now (p, f, e) v' = (Ok (Some (k, errs')), w')"
        by (auto simp: tryP_def bindP_def)
      from Suc.IH[OF this] e show ?thesis by auto
    qed
  qed
qed (simp add: ret_def)

lemma purge_loop_clean:
  assumes "purge_loop batch n retain now (purged, [], []) w = (Ok (Some (k, [])), w')"
    "db_tx w = None" "leaving_inv (db_committed w)" "0 < batch"
  shows "\<forall>u\<in>set (tb_users (db_committed w')). \<not> expired now u"
  using assms
proof (induction n arbitrary: w purged)
  case (Suc n)
  obtain r v where list: "mu_ListUserIDsToPurge (now - AccountDeletionGracePeriod) batch w = (r, v)" by fastforce
  have "reads (mu_ListUserIDsToPurge b l :: (app, int list) proc)" for b l
    unfolding mu_ListUserIDsToPurge_def by (intro reads_intros)
  note frame = readsD[OF this list]
  from list Suc.prems(1) obtain ids where r: "r = Inr ids" by (cases r) (auto simp: tryP_def ret_def)
  with list Suc.prems(2) have ids: "ids = due_ids (now - AccountDeletionGracePeriod) batch (db_committed w)"
    by (auto simp: mu_ListUserIDsToPurge_def query_Inr_iff db_view_def)
  obtain q v' where each: "purge_each retain now ids (purged, False, [], []) v = (q, v')" by fastforce
  with list r Suc.prems(1) obtain p g f e where q: "q = Ok (p, g, f, e)"
    by (cases q) (auto simp: tryP_def bindP_def)
  note each = each[unfolded q]
  have "e = []"
  proof (cases "length ids < batch + length f \<or> \<not> g")
    case True
    with list r each Suc.prems(1) show ?thesis by (auto simp: tryP_def bindP_def ret_def)
  next
    case False
    with list r each Suc.prems(1) have "purge_loop batch n retain now (p, f, e) v' = (Ok (Some (k, [])), w')"
      by (auto simp: tryP_def bindP_def)
    from purge_loop_failed[OF this] show ?thesis by auto
  qed
  with purge_each_failed[OF each] have f: "f = []" by auto
  from Suc.prems(3) have acc: "accounts_ok (db_committed w)" by (simp add: leaving_inv_def)
  have pre: "db_tx v = None" "leaving_inv (db_committed v)" "distinct ids"
    "\<forall>j\<in>set ids. \<exists>u\<in>set (tb_users (db_committed v)). users_id u = j \<and> expired now u"
    using frame Suc.prems(2,3) due_ids_facts[OF acc] by (auto simp: ids)
  note clean = purge_each_clean[OF each pre f]
  show ?case
  proof (cases "length ids < batch \<or> \<not> g")
    case True
    with clean Suc.prems(4) have short: "length ids < batch" by auto
    from True f list r each Suc.prems(1) have "w' = v'" by (auto simp: tryP_def bindP_def ret_def)
    moreover have "users_id u \<in> set ids" if "u \<in> set (tb_users (db_committed w))" "expired now u" for u
      unfolding ids using short that by (intro due_ids_all) (simp_all add: ids due_expired)
    ultimately show ?thesis using clean frame by auto
  next
    case False
    with f \<open>e = []\<close> list r each Suc.prems(1) have "purge_loop batch n retain now (p, [], []) v' = (Ok (Some (k, [])), w')"
      by (auto simp: tryP_def bindP_def)
    moreover have "db_tx v' = None \<and> leaving_inv (db_committed v')"
      using stableD[OF purge_each_stable each pre(1,2)] by simp
    ultimately show ?thesis using Suc.IH Suc.prems(4) by blast
  qed
qed (simp add: ret_def)

section \<open>Who goes, and what is left\<close>

text \<open>Day 15 of a club whose owner 8 gave notice on day 0: 8 has a post with a reply of 7 below it, a picture and a
  profile. 9 gave notice on day 10.\<close>

definition day :: int where
  "day = 24 * 3600"

definition leaves_on :: "int \<Rightarrow> int \<Rightarrow> user_row" where
  "leaves_on u at = (plain_user u)\<lparr>users_status := StatusDeactivated, users_deactivated_at := Some at\<rparr>"

definition post_of :: "int \<Rightarrow> int \<Rightarrow> int option \<Rightarrow> int \<Rightarrow> post_row" where
  "post_of i u parent n = \<lparr>posts_id = i, posts_content = ''text'', posts_created_at = 0, posts_updated_at = 0,
     posts_user_id = u, posts_parent_id = parent, posts_deleted_at = None, posts_reply_count = n\<rparr>"

definition leave_world :: app where
  "leave_world = (sample_world [])\<lparr>db_now := 15 * day, db_committed := sample_tables\<lparr>
     tb_room_users := [member_row 1 8 RoomUserRoleOwner, member_row 1 7 RoomUserRoleMember],
     tb_users := [plain_user 7, leaves_on 8 0, leaves_on 9 (10 * day)],
     tb_posts := [post_of 22 8 None 1, post_of 23 7 (Some 22) 0, post_of 24 7 None 0],
     tb_profiles := [\<lparr>profiles_user_id = 8, profiles_bio = ''me'', profiles_avatar_media_id = Some 25,
       profiles_created_at = 0, profiles_updated_at = 0\<rparr>],
     tb_media := [\<lparr>media_id = 25, media_uploader_user_id = 8, media_storage_key = ''avatars/a.png'',
       media_content_type = ''image/png'', media_width = None, media_height = None\<rparr>]\<rparr>\<rparr>"

text \<open>C34: Nobody is removed before their time. The daily run ends, whichever statements fail, and whoever has not
  given notice, has come back or gave notice less than fifteen days ago keeps their row and their personal data.\<close>

theorem only_expired_accounts_go:
  assumes "db_tx w = None" "leaving_inv (db_committed w)" "leaving (db_committed w) < n"
  shows "\<exists>res w'. PurgeExpiredAccounts n retain now w = (Ok (Some res), w') \<and>
    spared now (db_committed w) (db_committed w')"
  using purge_loop_run[OF assms] unfolding PurgeExpiredAccounts_def by blast

theorem only_expired_accounts_go_witness:
  "let w = leave_world\<lparr>db_faults := [False, False, False, True]\<rparr>;
       w' = snd (PurgeExpiredAccounts 3 (\<lambda>_. Ok ()) (15 * day) w) in
   spared (15 * day) (db_committed w) (db_committed w') \<and> \<not> expired (15 * day) (leaves_on 9 (10 * day)) \<and>
   expired (15 * day) (leaves_on 8 0)"
proof -
  let ?w = "leave_world\<lparr>db_faults := [False, False, False, True]\<rparr>"
  have pre: "db_tx ?w = None" "leaving_inv (db_committed ?w)" "leaving (db_committed ?w) < 3" by code_simp+
  have "\<not> expired (15 * day) (leaves_on 9 (10 * day))" "expired (15 * day) (leaves_on 8 0)" by code_simp+
  with only_expired_accounts_go[OF pre, of "\<lambda>_. Ok ()" "15 * day"] show ?thesis by (auto simp: Let_def)
qed

text \<open>C35: A daily run that reports no error has removed everybody whose time was over, however many there are:
  the rounds of a hundred leave nobody out.\<close>

theorem clean_run_removes_all:
  assumes "db_tx w = None" "leaving_inv (db_committed w)"
    and "PurgeExpiredAccounts n retain now w = (Ok (Some (k, [])), w')"
  shows "\<forall>u\<in>set (tb_users (db_committed w')). \<not> expired now u"
  using purge_loop_clean[OF assms(3)[unfolded PurgeExpiredAccounts_def] assms(1,2)]
  by (simp add: purgeBatchSize_def)

theorem clean_run_removes_all_witness:
  "let (r, w') = PurgeExpiredAccounts 3 (\<lambda>_. Ok ()) (15 * day) leave_world in
   r = Ok (Some (1, [])) \<and> list_all (\<lambda>u. \<not> expired (15 * day) u) (tb_users (db_committed w'))"
proof -
  let ?run = "PurgeExpiredAccounts 3 (\<lambda>_. Ok ()) (15 * day) leave_world"
  have pre: "db_tx leave_world = None" "leaving_inv (db_committed leave_world)" by code_simp+
  have r: "fst ?run = Ok (Some (1, []))" by code_simp
  then have "?run = (Ok (Some (1, [])), snd ?run)" by (metis prod.collapse)
  from clean_run_removes_all[OF pre this] r show ?thesis by (simp add: list_all_iff split_beta)
qed

text \<open>C36: Whoever gives notice, comes back, is removed by an administrator or by the daily run, in which order and
  whichever statements fail: personal data are there for exactly the accounts that are not deleted, every
  community keeps an owner, and the numbers of replies stay those of the replies that can be seen.\<close>

theorem leaving_keeps_order:
  assumes "db_tx w = None" "leaving_inv (db_committed w)"
  shows "leaving_inv (db_committed (run_leaves retain ops w))"
  using assms
proof (induction ops arbitrary: w)
  case (Cons q ops)
  obtain op now where q: "q = (op, now)" by (cases q) auto
  obtain r v where run: "run_leave_op retain op (w\<lparr>db_now := now\<rparr>) = (r, v)" by fastforce
  from stableD[OF leave_op_stable this] Cons.prems have "db_tx v = None" "leaving_inv (db_committed v)" by simp_all
  from Cons.IH[OF this] show ?case by (simp add: run_leaves_def q run)
qed (simp add: run_leaves_def)

definition leave_ops :: "(leave_op \<times> int) list" where
  "leave_ops = [(QuitOp (signed_in 7 ''user''), 14 * day), (DailyOp 3, 15 * day), (ReturnOp 7, 16 * day),
     (RemoveOp (signed_in 1 ''admin'') 9, 16 * day)]"

theorem leaving_keeps_order_witness:
  "let t = db_committed (run_leaves (\<lambda>_. Ok ()) leave_ops leave_world) in
   leaving_inv t \<and> map users_status (tb_users t) = [StatusActive, StatusDeleted, StatusDeleted] \<and>
   member_roles t 1 = [(7, RoomUserRoleOwner)] \<and> map posts_id (tb_posts t) = [24]"
proof -
  have pre: "db_tx leave_world = None" "leaving_inv (db_committed leave_world)" by code_simp+
  let ?t = "db_committed (run_leaves (\<lambda>_. Ok ()) leave_ops leave_world)"
  have "(let t = ?t in (map users_status (tb_users t), member_roles t 1, map posts_id (tb_posts t))) =
      ([StatusActive, StatusDeleted, StatusDeleted], [(7, RoomUserRoleOwner)], [24])" by code_simp
  with leaving_keeps_order[OF pre, of "\<lambda>_. Ok ()" leave_ops] show ?thesis by (simp add: Let_def)
qed



section \<open>A failure in a full round\<close>

text \<open>The run stops when the list was shorter than its limit, but compares with a limit that has grown by the failures
  of this very round. Here rounds are of two and three accounts are due: the first one fails in its first
  statement, the second one is removed, and the run ends without having tried the third.\<close>

lemma failure_ends_the_run:
  "let w = leave_world\<lparr>db_faults := [False, True], db_committed := no_tables\<lparr>
         tb_users := [leaves_on 7 0, leaves_on 8 0, leaves_on 9 0], tb_user_accounts := map plain_account [7, 8, 9]\<rparr>\<rparr>;
       (r, w') = purge_loop 2 9 (\<lambda>_. Ok ()) (15 * day) (0, [], []) w in
   r = Ok (Some (1, [driver_error])) \<and>
   map users_id (filter (expired (15 * day)) (tb_users (db_committed w'))) = [7, 9]"
  by code_simp

section \<open>A status written back\<close>

text \<open>The owner of an account changes their name; between the reading of the account and the writing an administrator
  freezes it. The status that was read is written back.\<close>

lemma update_undoes_freeze:
  "let w = sample_world []; param = \<lparr>uu_AccountID = None, uu_Name = Some ''new'', uu_Email = None, uu_Password = None\<rparr>;
       (r, w1) = mu_GetCredentialsByID 7 w; (_, w2) = FreezeUser id (signed_in 1 ''admin'') 7 w1 in
   case r of Inl _ \<Rightarrow> False | Inr None \<Rightarrow> False
   | Inr (Some c) \<Rightarrow>
      (case applyAccountUpdate param c of Inl _ \<Rightarrow> False
       | Inr c \<Rightarrow> let w3 = snd (mu_SaveCredentials id c w2) in
           map users_status (tb_users (db_committed w2)) = [StatusFrozen, StatusActive, StatusActive] \<and>
           map users_status (tb_users (db_committed w3)) = [StatusActive, StatusActive, StatusActive])"
  by code_simp

end
