(* ===== verification/Account_Props.thy ===== *)
theory Account_Props
  imports Account_Service Db_Logic
begin

text \<open>
  What every stored account is, whatever the registrations and changes: a well-formed ID and a name that is not too
  long, and neither ID nor address are those of another account in the eyes of the collation.
\<close>

section \<open>Reading and joining\<close>

lemma stable_liftR:
  assumes "\<And>x. v = Inr x \<Longrightarrow> stable I (f x)"
  shows "stable I (bindP (liftR v) f)"
proof (cases v)
  case (Inl e)
  then have "bindP (liftR v) f = throw e" by (simp add: fun_eq_iff bindP_def liftR_def throw_def)
  then show ?thesis by (simp only: stable_basic)
next
  case (Inr x)
  then have "bindP (liftR v) f = f x" by (simp add: fun_eq_iff bindP_def liftR_def)
  with assms[OF Inr] show ?thesis by simp
qed

section \<open>Well-formed users\<close>

definition valid_user :: "'u user_scheme \<Rightarrow> bool" where
  "valid_user u \<longleftrightarrow> ValidateAccountID (us_AccountID u) = Ok () \<and> ValidateUserName (us_Name u) = Ok ()"

lemma set_field_Inr:
  "set_field check put v u = Inr u' \<longleftrightarrow>
     (case v of None \<Rightarrow> u' = u | Some x \<Rightarrow> check x = Ok () \<and> u' = put x u)"
  by (auto simp: set_field_def andThen_Inr_iff split: option.splits)

lemma applyPublicUpdate_valid:
  "applyPublicUpdate param u = Inr u' \<Longrightarrow> valid_user u \<Longrightarrow> valid_user u'"
  by (auto simp: applyPublicUpdate_def andThen_Inr_iff set_field_Inr valid_user_def split: option.splits)

lemma User_UpdateProfile_valid: "User_UpdateProfile param u = Inr u' \<Longrightarrow> valid_user u \<Longrightarrow> valid_user u'"
  by (auto simp: User_UpdateProfile_def applyPublicUpdate_valid split: if_splits)

lemma Credentials_UpdateUser_valid:
  assumes "Credentials_UpdateUser B salt param c = Inr c'" "valid_user c"
  shows "valid_user c'"
proof -
  from assms(1) obtain a where a: "applyAccountUpdate param c = Inr a"
    and c': "c' = a \<or> (\<exists>h. c' = a\<lparr>uc_HashedPassword := h\<rparr>)"
    by (auto simp: Credentials_UpdateUser_def andThen_Inr_iff split: option.splits)
  from a obtain p where "applyPublicUpdate param c = Inr p" "a = p \<or> (\<exists>e. a = p\<lparr>ua_Email := e\<rparr>)"
    by (auto simp: applyAccountUpdate_def andThen_Inr_iff set_field_Inr split: option.splits)
  with applyPublicUpdate_valid[OF this(1) assms(2)] c' show ?thesis by (auto simp: valid_user_def)
qed

lemma Credentials_CreateUser_valid: "Credentials_CreateUser B salt param = Inr c \<Longrightarrow> valid_user c"
  by (auto simp: Credentials_CreateUser_def andThen_Inr_iff valid_user_def)

section \<open>Well-formed tables\<close>

definition well_formed :: "account_row \<Rightarrow> bool" where
  "well_formed a \<longleftrightarrow>
     ValidateAccountID (user_accounts_account_id a) = Ok () \<and> ValidateUserName (user_accounts_name a) = Ok ()"

definition accounts_typed :: "collation \<Rightarrow> tables \<Rightarrow> bool" where
  "accounts_typed C t \<longleftrightarrow>
     list_all well_formed (tb_user_accounts t) \<and>
     distinct (map user_accounts_user_id (tb_user_accounts t)) \<and>
     distinct (map (\<lambda>a. C (user_accounts_account_id a)) (tb_user_accounts t)) \<and>
     distinct (map (\<lambda>a. C (user_accounts_email a)) (tb_user_accounts t)) \<and>
     list_all (\<lambda>a. user_accounts_user_id a < tb_next_id t) (tb_user_accounts t)"

lemma accounts_typed_cong:
  "accounts_typed C t \<Longrightarrow> tb_user_accounts t' = tb_user_accounts t \<Longrightarrow> tb_next_id t \<le> tb_next_id t' \<Longrightarrow> accounts_typed C t'"
  by (auto simp: accounts_typed_def list_all_iff)

text \<open>Writing a value nobody else has into the rows of one account keeps the values distinct.\<close>

lemma distinct_update_column:
  assumes "distinct (map key as)" "distinct (map col as)"
    and "\<And>a. key a = i \<Longrightarrow> col (f a) = x" "\<And>a. a \<in> set as \<Longrightarrow> key a \<noteq> i \<Longrightarrow> col a \<noteq> x"
  shows "distinct (map col (map (\<lambda>a. if key a = i then f a else a) as))"
  using assms(1,2,4)
proof (induction as)
  case (Cons a as)
  show ?case
  proof (cases "key a = i")
    case True
    have others: "key b \<noteq> i" if "b \<in> set as" for b using that True Cons.prems(1) by (auto simp: image_iff)
    then have "map (\<lambda>a. if key a = i then f a else a) as = as" by (simp add: map_idI)
    moreover have "x \<notin> col ` set as" using others Cons.prems(3) by auto
    ultimately show ?thesis using True Cons.prems(2) assms(3) by simp
  next
    case False
    have "col a \<noteq> col (if key b = i then f b else b)" if "b \<in> set as" for b
      using that False Cons.prems assms(3) by auto
    with False Cons show ?thesis by auto
  qed
qed simp

lemma not_takenD:
  "\<not> taken C col t i x \<Longrightarrow> a \<in> set (tb_user_accounts t) \<Longrightarrow> user_accounts_user_id a \<noteq> i \<Longrightarrow> C (col a) \<noteq> C x"
  by (auto simp: taken_def list_ex_iff)

lemma accounts_typed_update:
  assumes "accounts_typed C t"
    and keys: "\<And>a. user_accounts_user_id (f a) = user_accounts_user_id a"
    and row: "\<And>a. user_accounts_user_id a = i \<Longrightarrow> well_formed a \<Longrightarrow> well_formed (f a)"
    and acc: "\<And>a. user_accounts_user_id a = i \<Longrightarrow> user_accounts_account_id (f a) = x"
      "\<not> taken C user_accounts_account_id t i x"
    and mail: "(\<forall>a. user_accounts_email (f a) = user_accounts_email a) \<or>
      (\<exists>y. (\<forall>a. user_accounts_user_id a = i \<longrightarrow> user_accounts_email (f a) = y) \<and> \<not> taken C user_accounts_email t i y)"
  shows "accounts_typed C (set_accounts (\<lambda>a. user_accounts_user_id a = i) f t)"
proof -
  let ?as = "tb_user_accounts t"
  let ?g = "\<lambda>a. if user_accounts_user_id a = i then f a else a"
  note ok = assms(1)[unfolded accounts_typed_def]
  have "map user_accounts_user_id (map ?g ?as) = map user_accounts_user_id ?as" using keys by simp
  moreover have "distinct (map (\<lambda>a. C (user_accounts_account_id a)) (map ?g ?as))"
    by (rule distinct_update_column[where x = "C x"]) (use ok acc not_takenD in auto)
  moreover have "distinct (map (\<lambda>a. C (user_accounts_email a)) (map ?g ?as))"
    using mail
  proof
    assume "\<forall>a. user_accounts_email (f a) = user_accounts_email a"
    then have "map (\<lambda>a. C (user_accounts_email a)) (map ?g ?as) = map (\<lambda>a. C (user_accounts_email a)) ?as" by simp
    then show ?thesis using ok by (simp only:)
  next
    assume "\<exists>y. (\<forall>a. user_accounts_user_id a = i \<longrightarrow> user_accounts_email (f a) = y) \<and> \<not> taken C user_accounts_email t i y"
    then obtain y where "\<forall>a. user_accounts_user_id a = i \<longrightarrow> user_accounts_email (f a) = y"
      "\<not> taken C user_accounts_email t i y" by blast
    then show ?thesis by (intro distinct_update_column[where x = "C y"]) (use ok not_takenD in auto)
  qed
  moreover have "list_all well_formed (map ?g ?as)" using ok row by (auto simp: list_all_iff)
  moreover have "list_all (\<lambda>a. user_accounts_user_id a < tb_next_id t) (map ?g ?as)" using ok keys by (auto simp: list_all_iff)
  moreover have "tb_user_accounts (set_accounts (\<lambda>a. user_accounts_user_id a = i) f t) = map ?g ?as"
    "tb_next_id (set_accounts (\<lambda>a. user_accounts_user_id a = i) f t) = tb_next_id t"
    by (simp_all add: set_accounts_def)
  ultimately show ?thesis using ok by (simp only: accounts_typed_def)
qed

lemma accounts_typed_users [simp]: "accounts_typed C (set_users P f t) = accounts_typed C t"
  by (simp add: accounts_typed_def set_users_def)

section \<open>The statements\<close>

lemma update_user_row:
  assumes "accounts_typed C t" "valid_user u" "\<not> taken C user_accounts_account_id t (us_ID u) (us_AccountID u)"
  shows "accounts_typed C (set_accounts (\<lambda>a. user_accounts_user_id a = us_ID u)
    (\<lambda>a. a\<lparr>user_accounts_account_id := us_AccountID u, user_accounts_name := us_Name u,
           user_accounts_role := us_Role u, user_accounts_updated_at := now\<rparr>) t)"
  by (rule accounts_typed_update[where x = "us_AccountID u"])
     (use assms in \<open>auto simp: well_formed_def valid_user_def\<close>)

lemma update_credentials_row:
  assumes "accounts_typed C t" "valid_user c" "\<not> taken C user_accounts_account_id t (us_ID c) (us_AccountID c)"
    "\<not> taken C user_accounts_email t (us_ID c) (ua_Email c)"
  shows "accounts_typed C (set_accounts (\<lambda>a. user_accounts_user_id a = us_ID c)
           (\<lambda>a. a\<lparr>user_accounts_account_id := us_AccountID c, user_accounts_name := us_Name c,
                  user_accounts_email := ua_Email c,
                  user_accounts_credentials_version := user_accounts_credentials_version a +
                    (if C (user_accounts_hashed_password a) \<noteq> C (uc_HashedPassword c) then 1 else 0),
                  user_accounts_hashed_password := uc_HashedPassword c,
                  user_accounts_role := us_Role c, user_accounts_updated_at := now\<rparr>) t)"
proof (rule accounts_typed_update[where x = "us_AccountID c"])
  show "(\<forall>a. user_accounts_email (a\<lparr>user_accounts_account_id := us_AccountID c, user_accounts_name := us_Name c,
                  user_accounts_email := ua_Email c,
                  user_accounts_credentials_version := user_accounts_credentials_version a +
                    (if C (user_accounts_hashed_password a) \<noteq> C (uc_HashedPassword c) then 1 else 0),
                  user_accounts_hashed_password := uc_HashedPassword c,
                  user_accounts_role := us_Role c, user_accounts_updated_at := now\<rparr>) = user_accounts_email a) \<or>
      (\<exists>y. (\<forall>a. user_accounts_user_id a = us_ID c \<longrightarrow> user_accounts_email (a\<lparr>user_accounts_account_id := us_AccountID c,
                  user_accounts_name := us_Name c, user_accounts_email := ua_Email c,
                  user_accounts_credentials_version := user_accounts_credentials_version a +
                    (if C (user_accounts_hashed_password a) \<noteq> C (uc_HashedPassword c) then 1 else 0),
                  user_accounts_hashed_password := uc_HashedPassword c,
                  user_accounts_role := us_Role c, user_accounts_updated_at := now\<rparr>) = y) \<and>
          \<not> taken C user_accounts_email t (us_ID c) y)"
    using assms(4) by (intro disjI2 exI[of _ "ua_Email c"]) simp
qed (use assms in \<open>auto simp: well_formed_def valid_user_def\<close>)

lemma new_account_row:
  assumes "accounts_typed C t" "well_formed a" "user_accounts_user_id a = i" "i < tb_next_id t"
    "\<forall>b\<in>set (tb_user_accounts t). user_accounts_user_id b \<noteq> i"
    "\<not> taken C user_accounts_account_id t i (user_accounts_account_id a)"
    "\<not> taken C user_accounts_email t i (user_accounts_email a)"
  shows "accounts_typed C (t\<lparr>tb_user_accounts := tb_user_accounts t @ [a]\<rparr>)"
proof -
  have "C (col a) \<notin> (\<lambda>b. C (col b)) ` set (tb_user_accounts t)" if "\<not> taken C col t i (col a)" for col
    using not_takenD[OF that] assms(5) by (auto simp: image_iff) metis
  from this[OF assms(6)] this[OF assms(7)] assms(1-5) show ?thesis by (auto simp: accounts_typed_def)
qed

lemma mu_UpdateUser_stable: "valid_user u \<Longrightarrow> stable (accounts_typed C) (mu_UpdateUser C u)"
  unfolding mu_UpdateUser_def
  by (intro stable_intros stable_call) (auto split: if_splits intro: update_user_row)

lemma mu_UpdateUser_tx: "valid_user u \<Longrightarrow> tx_valid (accounts_typed C) (mu_UpdateUser C u) (\<lambda>_. accounts_typed C)"
  unfolding mu_UpdateUser_def
  by (rule tx_valid_weaken, (rule tx_wp)+) (auto split: if_splits intro: update_user_row)

lemma updateCredentials_tx:
  "valid_user c \<Longrightarrow> tx_valid (accounts_typed C) (updateCredentials C now c) (\<lambda>_. accounts_typed C)"
  unfolding updateCredentials_def
  by (rule tx_valid_weaken, (rule tx_wp)+) (auto split: if_splits intro: update_credentials_row)

lemma createUser_tx:
  "valid_user c \<Longrightarrow> tx_valid (accounts_typed C) (createUser C now c) (\<lambda>_. accounts_typed C)"
  unfolding createUser_def
proof (rule tx_valid_weaken, (rule tx_wp)+, goal_cases)
  case (1 t)
  define t' where "t' us = t\<lparr>tb_next_id := tb_next_id t + 1, tb_users := us\<rparr>" for us
  have "accounts_typed C (t' us)" "\<forall>b\<in>set (tb_user_accounts (t' us)). user_accounts_user_id b \<noteq> tb_next_id t"
    "tb_next_id (t' us) = tb_next_id t + 1" for us
    using 1(2) by (auto simp: t'_def accounts_typed_def list_all_iff)
  then show ?case
    using 1(1) by (auto simp: t'_def[symmetric] well_formed_def valid_user_def split: if_splits intro!: new_account_row)
qed

lemma save_tx: "valid_user c \<Longrightarrow> tx_valid (accounts_typed C) (mu_SaveCredentials C c) (\<lambda>_. accounts_typed C)"
  unfolding mu_SaveCredentials_def
  by (rule tx_valid_weaken, (rule tx_wp updateCredentials_tx createUser_tx | assumption)+) simp

lemma save_contained:
  "Db.contained (mu_SaveCredentials C c)" "Db.contained (mu_UpdateUser C u)"
  "Db.contained (createUser C now c)" "Db.contained (updateCredentials C now c)"
  unfolding mu_SaveCredentials_def createUser_def updateCredentials_def mu_UpdateUser_def
  by ((intro contained_intros contained_inTx)+)

lemma read_valid:
  assumes "accounts_typed C t"
  shows "(u, a) \<in> set (user_rows t) \<Longrightarrow> valid_user (scanUser (u, a))"
    "(u, a) \<in> set (user_rows t) \<Longrightarrow> valid_user (scanUserCredentials (u, a))"
  using assms
  by (auto simp: user_rows_def accounts_typed_def list_all_iff well_formed_def valid_user_def scanUser_def
      scanUserCredentials_def scanUserAccount_def user.defs user_account.defs)

definition valid_option :: "'u user_scheme option \<Rightarrow> bool" where
  "valid_option u \<longleftrightarrow> (case u of None \<Rightarrow> True | Some u \<Rightarrow> valid_user u)"

lemma find_valid:
  assumes "accounts_typed C t"
  shows "valid_option (map_option scanUser (List.find P (user_rows t)))"
    "valid_option (map_option scanUserCredentials (List.find P (user_rows t)))"
  using read_valid[OF assms]
  by (auto simp: valid_option_def find_Some_iff split: option.split) (metis nth_mem surj_pair)+

section \<open>The operations\<close>

lemma save_stable: "valid_user c \<Longrightarrow> stable (accounts_typed C) (mu_SaveCredentials C c)"
  unfolding mu_SaveCredentials_def createUser_def updateCredentials_def
  by (intro stable_intros stable_inTx save_contained(3,4)[unfolded createUser_def updateCredentials_def]
      createUser_tx[unfolded createUser_def] updateCredentials_tx[unfolded updateCredentials_def])

lemma freeze_stable:
  "stable (accounts_typed C) (FreezeUser C ctx i)" "stable (accounts_typed C) (UnfreezeUser C ctx i)"
proof -
  have "stable (accounts_typed C) (case_option (throw e) (\<lambda>u. bindP (guardP (P u) e') (\<lambda>_.
      bindP (mu_UpdateUser C (u\<lparr>us_Status := s\<rparr>)) (\<lambda>_. ret True))) u)" if "valid_option u" for u :: "user option" and e e' P s
    using that by (cases u) (auto simp: valid_option_def valid_user_def intro!: stable_intros mu_UpdateUser_stable)
  note step = stable_read[of _ valid_option, OF find_valid(1) this]
  show "stable (accounts_typed C) (FreezeUser C ctx i)" "stable (accounts_typed C) (UnfreezeUser C ctx i)"
    unfolding FreezeUser_def UnfreezeUser_def mu_GetUserByID_def
    by (rule stable_bindP[OF stable_reads[OF reads_basic(3)] step], assumption+)+
qed

lemma UpdateUser_stable: "stable (accounts_typed C) (UpdateUser C B salt ctx i param current required)"
proof -
  have step: "stable (accounts_typed C) (case_option (throw e) (\<lambda>c. bindP (m c) (\<lambda>_.
      bindP (liftR (Credentials_UpdateUser B salt param c)) (\<lambda>c.
      bindP (mu_SaveCredentials C c) (\<lambda>_. ret (user_account.truncate c))))) u)"
    if "valid_option u" "\<And>c. stable (accounts_typed C) (m c)" for u e and m :: "user_credentials \<Rightarrow> ('o db, unit) proc"
  proof (cases u)
    case None
    then show ?thesis by (simp add: stable_basic)
  next
    case (Some c)
    with that(1) have "valid_user c" by (simp add: valid_option_def)
    then show ?thesis unfolding Some option.case
      by - (rule stable_bindP[OF that(2)], rule stable_liftR, rule stable_bindP, rule save_stable,
        erule (1) Credentials_UpdateUser_valid, rule stable_basic)
  qed
  show ?thesis
    unfolding UpdateUser_def mu_GetCredentialsByID_def
    by (intro stable_bindP[OF stable_basic(3)] stable_bindP[OF stable_basic(4)]
        stable_read[of _ valid_option, OF find_valid(2)] step stable_if stable_option stable_basic)
qed

lemma valid_update_profile:
  "tx_valid (\<lambda>t. valid_user u \<and> accounts_typed C t) (mu_UpdateUser C u) (\<lambda>_. accounts_typed C)"
  using mu_UpdateUser_tx[of u C] by (cases "valid_user u") (auto simp: tx_valid_def)

lemma SaveProfile_tx: "tx_valid (accounts_typed C) (SaveProfile p) (\<lambda>_. accounts_typed C)"
  unfolding SaveProfile_def upsert_profile_def
  by (rule tx_valid_weaken, (rule tx_wp)+) (auto split: if_splits intro: accounts_typed_cong)

lemma save_profile_tx: "tx_valid (accounts_typed C) (save_profile i bio) (\<lambda>_. accounts_typed C)"
  unfolding save_profile_def GetProfileByUserID_def Let_def
  by (rule tx_valid_weaken, (rule tx_wp SaveProfile_tx)+) simp

lemma SaveProfile_contained: "Db.contained (SaveProfile p)" "Db.contained (save_profile i bio)"
  unfolding SaveProfile_def upsert_profile_def save_profile_def GetProfileByUserID_def
  by (intro contained_intros)+

lemma UpdateMyProfile_stable: "stable (accounts_typed C) (UpdateMyProfile C ctx i param bio)"
proof -
  have "tx_valid (accounts_typed C) (bindP (mu_GetUserByID i) (\<lambda>u. case u of
         None \<Rightarrow> throw (Errorf ''user not found'')
       | Some u \<Rightarrow>
           bindP (liftR (User_UpdateProfile param u)) (\<lambda>u.
           bindP (mu_UpdateUser C u) (\<lambda>_.
           bindP (save_profile i bio) (\<lambda>p. ret (u, p)))))) (\<lambda>_. accounts_typed C)"
    unfolding mu_GetUserByID_def
  proof (rule tx_valid_weaken, rule tx_wp, rule tx_valid_option, rule tx_wp, rule tx_wp, rule tx_wp, rule tx_wp,
      rule tx_wp, rule save_profile_tx, rule valid_update_profile, rule tx_wp, rule tx_wp, goal_cases)
    case (1 t)
    with find_valid(1)[OF 1, of "\<lambda>(u, a). users_id u = i \<and> visible u"] show ?case
      by (auto simp: valid_option_def User_UpdateProfile_valid split: option.splits)
  qed
  moreover have "Db.contained (bindP (mu_GetUserByID i) (\<lambda>u. case u of
         None \<Rightarrow> throw (Errorf ''user not found'')
       | Some u \<Rightarrow>
           bindP (liftR (User_UpdateProfile param u)) (\<lambda>u.
           bindP (mu_UpdateUser C u) (\<lambda>_.
           bindP (save_profile i bio) (\<lambda>p. ret (u, p))))))"
    unfolding mu_GetUserByID_def by (intro contained_intros save_contained SaveProfile_contained)
  ultimately show ?thesis
    unfolding UpdateMyProfile_def by (intro stable_bindP[OF stable_basic(3)] stable_runInTx)
qed

section \<open>Registration\<close>

text \<open>The registration codes are kept elsewhere: no call of their store touches the database. That is all registration
  needs of it here.\<close>

definition world_stable :: "(tables \<Rightarrow> bool) \<Rightarrow> (('o db, 'r) world, 'a) proc \<Rightarrow> bool" where
  "world_stable I m \<longleftrightarrow>
     (\<forall>s r s'. m s = (r, s') \<longrightarrow> db_tx (w_db s) = None \<longrightarrow> I (db_committed (w_db s)) \<longrightarrow>
        db_tx (w_db s') = None \<and> I (db_committed (w_db s')))"

lemma world_stableD:
  assumes "world_stable I m" "m s = (r, s')" "db_tx (w_db s) = None" "I (db_committed (w_db s))"
  shows "db_tx (w_db s') = None" "I (db_committed (w_db s'))"
  using assms unfolding world_stable_def by blast+

lemma world_stable_bindP:
  assumes "world_stable I m" "\<And>x. world_stable I (f x)"
  shows "world_stable I (bindP m f)"
  unfolding world_stable_def
proof (intro allI impI)
  fix s r s' assume "bindP m f s = (r, s')" and s: "db_tx (w_db s) = None" "I (db_committed (w_db s))"
  from this(1) show "db_tx (w_db s') = None \<and> I (db_committed (w_db s'))"
  proof (cases rule: bindP_cases)
    case (stop e)
    with world_stableD[OF assms(1) stop(1) s] show ?thesis by simp
  next
    case (go x v)
    from world_stableD[OF assms(2) go(2) world_stableD[OF assms(1) go(1) s]] show ?thesis by simp
  qed
qed

lemma world_stable_tryP:
  assumes "world_stable I m" "\<And>x. world_stable I (f x)"
  shows "world_stable I (tryP m f)"
  unfolding world_stable_def
proof (intro allI impI)
  fix s r s' assume "tryP m f s = (r, s')" and s: "db_tx (w_db s) = None" "I (db_committed (w_db s))"
  from this(1) obtain q v where "m s = (q, v)" "f q v = (r, s')" by (rule tryP_cases)
  from world_stableD[OF assms(2) this(2) world_stableD[OF assms(1) this(1) s]]
  show "db_tx (w_db s') = None \<and> I (db_committed (w_db s'))" by simp
qed

lemma world_stable_onDb: "stable I m \<Longrightarrow> world_stable I (onDb m)"
  unfolding world_stable_def onDb_def by (auto split: prod.splits dest: stableD)

lemma world_stable_keeps:
  "(\<And>s r s'. m s = (r, s') \<Longrightarrow> w_db s' = w_db s) \<Longrightarrow> world_stable I m"
  unfolding world_stable_def by simp

lemma world_stable_liftR:
  assumes "\<And>x. v = Inr x \<Longrightarrow> world_stable I (f x)"
  shows "world_stable I (bindP (liftR v) f)"
proof (cases v)
  case (Inl e)
  then show ?thesis by (auto simp: world_stable_def bindP_def liftR_def)
next
  case (Inr x)
  then have "bindP (liftR v) f = f x" by (simp add: fun_eq_iff bindP_def liftR_def)
  with assms[OF Inr] show ?thesis by simp
qed

lemma world_stable_basic: "world_stable I (ret x)" "world_stable I (throw e)" "world_stable I (guardP b e)" "world_stable I (liftR v)"
  by (auto simp: world_stable_def ret_def throw_def guardP_def liftR_def)

locale otp_store =
  fixes otp :: "('o db, 'r) world email_otp_repo"
  assumes find_keeps: "eo_FindLatestByEmail otp email s = (x, s') \<Longrightarrow> w_db s' = w_db s"
    and delete_keeps: "eo_Delete otp email s = (y, s') \<Longrightarrow> w_db s' = w_db s"
    and failure_keeps: "eo_RecordFailure otp email s = (y, s') \<Longrightarrow> w_db s' = w_db s"
begin

lemma checkOTP_keeps: "world_stable I (checkOTP otp email code)"
  unfolding checkOTP_def
proof (rule world_stable_bindP)
  show "world_stable I (eo_FindLatestByEmail otp email)" by (rule world_stable_keeps) (rule find_keeps)
  show "world_stable I (bindP (case r of None \<Rightarrow> ret ()
        | Some r \<Rightarrow> if eo_Code r \<noteq> code then eo_RecordFailure otp email else ret ()) (\<lambda>_.
      guardP (map_option eo_Code r = Some code) (Errorf ''the code is invalid or has expired'')))" for r
    by (rule world_stable_bindP; cases r)
       (auto intro!: world_stable_basic world_stable_keeps failure_keeps)
qed

lemma registration_keeps: "world_stable (accounts_typed C) (CreateUser enabled C B salt otp param code)"
proof -
  have tx: "stable (accounts_typed C) (runInTx (bindP (mu_SaveCredentials C user) (\<lambda>i.
      bindP (SaveProfile \<lparr>pf_UserID = i, pf_Bio = [], pf_AvatarMedia = None, pf_CreatedAt = now, pf_UpdatedAt = now\<rparr>) (\<lambda>_.
      ret (user\<lparr>us_ID := i\<rparr>)))))" if "valid_user user" for user :: user_credentials and now
  proof (rule stable_runInTx)
    show "tx_valid (accounts_typed C) (bindP (mu_SaveCredentials C user) (\<lambda>i.
      bindP (SaveProfile \<lparr>pf_UserID = i, pf_Bio = [], pf_AvatarMedia = None, pf_CreatedAt = now, pf_UpdatedAt = now\<rparr>) (\<lambda>_.
      ret (user\<lparr>us_ID := i\<rparr>)))) (\<lambda>_. accounts_typed C)"
      by (rule tx_wp, rule tx_wp, rule tx_wp, rule SaveProfile_tx, rule save_tx[OF that])
  qed (intro contained_intros save_contained SaveProfile_contained)
  have deleted: "world_stable I (if enabled then tryP (eo_Delete otp (cu_Email param)) (\<lambda>_. ret ()) else ret ())" for I
    by (cases enabled; simp only: if_True if_False; (rule world_stable_tryP, rule world_stable_keeps, erule delete_keeps)?;
        rule world_stable_basic)
  have check: "world_stable I (if enabled then bindP (liftR a) (\<lambda>_. bindP (liftR b) (\<lambda>_. checkOTP otp (cu_Email param) code))
      else ret ())" for I a b
    by (auto intro!: world_stable_liftR world_stable_basic checkOTP_keeps)
  show ?thesis
    unfolding CreateUser_def
    by (rule world_stable_bindP[OF check], rule world_stable_bindP[OF world_stable_onDb[OF stable_basic(5)]],
        rule world_stable_liftR, rule world_stable_bindP[OF world_stable_onDb[OF tx]],
        erule Credentials_CreateUser_valid, rule world_stable_bindP[OF deleted], rule world_stable_basic)
qed

end

text \<open>The store of the code: Redis.\<close>

definition liftOTP :: "'r conn email_otp_repo \<Rightarrow> ('d, 'r) world email_otp_repo" where
  "liftOTP repo =
     \<lparr>eo_Save = (\<lambda>otp. onRedis (eo_Save repo otp)), eo_FindLatestByEmail = (\<lambda>e. onRedis (eo_FindLatestByEmail repo e)),
      eo_Delete = (\<lambda>e. onRedis (eo_Delete repo e)), eo_RecordFailure = (\<lambda>e. onRedis (eo_RecordFailure repo e)),
      eo_TryBeginSend = (\<lambda>e. onRedis (eo_TryBeginSend repo e))\<rparr>"

interpretation redis_otp: otp_store "liftOTP (RedisEmailOTPRepository R)" for R
  by unfold_locales (auto simp: liftOTP_def onRedis_def split: prod.splits)

section \<open>Every sequence\<close>

datatype account_op =
    RegisterOp create_user_param string
  | ChangeOp request_ctx int update_user_param "string option" bool
  | ChangeMineOp request_ctx int update_user_param "string option"
  | FreezeOp request_ctx int
  | UnfreezeOp request_ctx int

definition run_account_op ::
  "bool \<Rightarrow> collation \<Rightarrow> bcrypt \<Rightarrow> string \<Rightarrow> ('r, 'v) redis \<Rightarrow> account_op \<Rightarrow> (('o db, 'r) world, unit) proc" where
  "run_account_op enabled C B salt R op =
     (case op of
        RegisterOp param otp \<Rightarrow>
          bindP (CreateUser enabled C B salt (liftOTP (RedisEmailOTPRepository R)) param otp) (\<lambda>_. ret ())
      | ChangeOp ctx i param current required \<Rightarrow>
          bindP (onDb (UpdateUser C B salt ctx i param current required)) (\<lambda>_. ret ())
      | ChangeMineOp ctx i param bio \<Rightarrow> bindP (onDb (UpdateMyProfile C ctx i param bio)) (\<lambda>_. ret ())
      | FreezeOp ctx i \<Rightarrow> bindP (onDb (FreezeUser C ctx i)) (\<lambda>_. ret ())
      | UnfreezeOp ctx i \<Rightarrow> bindP (onDb (UnfreezeUser C ctx i)) (\<lambda>_. ret ()))"

definition run_accounts ::
  "bool \<Rightarrow> collation \<Rightarrow> bcrypt \<Rightarrow> string \<Rightarrow> ('r, 'v) redis \<Rightarrow> account_op list \<Rightarrow> ('o db, 'r) world \<Rightarrow> ('o db, 'r) world" where
  "run_accounts enabled C B salt R ops s = fold (\<lambda>op s. snd (run_account_op enabled C B salt R op s)) ops s"

lemma account_op_stable: "world_stable (accounts_typed C) (run_account_op enabled C B salt R op)"
  unfolding run_account_op_def
  by (cases op; simp only: account_op.case;
      intro world_stable_bindP world_stable_basic world_stable_onDb redis_otp.registration_keeps
        UpdateUser_stable UpdateMyProfile_stable freeze_stable)

text \<open>C33: The type of an account. Whatever is asked - registrations, changes by owners and administrators, freezing
  and unfreezing -, with whichever statements and commands failing, every account that is stored has an ID of
  letters, digits, _ and - with at most 25 characters and a name of at most 50, and no two accounts have the same
  ID or the same address in the eyes of the collation.\<close>

theorem accounts_stay_typed:
  assumes "db_tx (w_db s) = None" "accounts_typed C (db_committed (w_db s))"
  shows "accounts_typed C (db_committed (w_db (run_accounts enabled C B salt R ops s)))"
  using assms
proof (induction ops arbitrary: s)
  case (Cons op ops)
  obtain r v where run: "run_account_op enabled C B salt R op s = (r, v)" by fastforce
  from Cons.IH[OF world_stableD[OF account_op_stable run Cons.prems]] show ?case by (simp add: run_accounts_def run)
qed (simp add: run_accounts_def)

text \<open>Ann registers; somebody else wants her ID with a small letter, then takes another one, changes it and wants the
  other ID again.\<close>

definition lower_a :: collation where
  "lower_a = map (\<lambda>c. if c = CHR ''A'' then CHR ''a'' else c)"

definition plain_bcrypt :: bcrypt where
  "plain_bcrypt = \<lparr>bc_Compare = (=), bc_Generate = (\<lambda>salt p. Ok p)\<rparr>"

definition new_param :: "string \<Rightarrow> string \<Rightarrow> create_user_param" where
  "new_param i email = \<lparr>cu_AccountID = i, cu_Name = ''name'', cu_Email = email, cu_Password = ''password''\<rparr>"

definition new_id :: "string \<Rightarrow> update_user_param" where
  "new_id i = \<lparr>uu_AccountID = Some i, uu_Name = None, uu_Email = None, uu_Password = None\<rparr>"

definition account_admin :: request_ctx where
  "account_admin = \<lparr>ctx_claims = Some \<lparr>cl_ID = 1, cl_Role = ''admin'', cl_TokenType = [], cl_CredentialsVersion = None,
     cl_ExpiresAt = 0\<rparr>, ctx_token = None\<rparr>"

definition account_ops :: "account_op list" where
  "account_ops = [RegisterOp (new_param ''Ann'' ''a'') [], RegisterOp (new_param ''ann'' ''b'') [],
     RegisterOp (new_param ''bob'' ''b'') [], ChangeOp account_admin 2 (new_id ''b b'') None False,
     ChangeOp account_admin 2 (new_id ''bo'') None False, ChangeOp account_admin 2 (new_id ''ann'') None False,
     FreezeOp account_admin 1]"

definition account_world :: "(unit db, unit ttl_state) world" where
  "account_world =
     \<lparr>w_db = \<lparr>db_now = 0, db_committed = no_tables, db_tx = None, db_faults = [], db_out = ()\<rparr>, w_redis = empty_conn\<rparr>"

theorem accounts_stay_typed_witness:
  "let t = db_committed (w_db (run_accounts False lower_a plain_bcrypt [] ttl_map account_ops account_world)) in
   accounts_typed lower_a t \<and> map user_accounts_account_id (tb_user_accounts t) = [''Ann'', ''bo''] \<and>
   map users_status (tb_users t) = [StatusFrozen, StatusActive]"
proof -
  have pre: "db_tx (w_db account_world) = None" "accounts_typed lower_a (db_committed (w_db account_world))"
    by (simp_all add: account_world_def accounts_typed_def no_tables_def)
  let ?t = "db_committed (w_db (run_accounts False lower_a plain_bcrypt [] ttl_map account_ops account_world))"
  have "map user_accounts_account_id (tb_user_accounts ?t) = [''Ann'', ''bo'']"
    "map users_status (tb_users ?t) = [StatusFrozen, StatusActive]" by code_simp+
  with accounts_stay_typed[OF pre] show ?thesis by (simp add: Let_def)
qed

end
