(* ===== verification/Ng_Word.thy ===== *)
theory Ng_Word
  imports Go_Text
begin

text \<open>
  The words that may not be written in the chats of courses: model/ng_word.go. A text is compared after its
  compatibility normalisation; \<open>Mask\<close> finds the places of the matches in the original text again.

  What is not in the repository or is a table of Unicode is a parameter, \<open>text_lib\<close>: the normalisation of
  golang.org/x/text, the table of \<open>unicode.ToLower\<close>, the regular expressions of package regexp, and the order in
  which \<open>sort.Slice\<close> leaves equal elements. A slice or an index out of range is \<open>None\<close>: the program panics.
\<close>

section \<open>The words\<close>

definition NGWordMatchWord :: string where
  "NGWordMatchWord = ''word''"

definition NGWordMatchRegex :: string where
  "NGWordMatchRegex = ''regex''"

definition MaxNGWordPatternChars :: int where
  "MaxNGWordPatternChars = 100"

definition MaxNGWords :: int where
  "MaxNGWords = 200"

record ng_word =
  nw_ID :: int
  nw_Pattern :: string
  nw_MatchType :: string
  nw_CreatedAt :: int

record ng_word_hit =
  nh_NGWordID :: "int option"
  nh_Pattern :: string
  nh_UserID :: int
  nh_RoomID :: "int option"
  nh_Source :: string
  nh_CreatedAt :: int

type_synonym span = "nat \<times> nat"

record 're text_lib =
  tl_NFKC :: "string \<Rightarrow> string"
  tl_NextBoundary :: "string \<Rightarrow> int"
  tl_ToLowerRune :: "int \<Rightarrow> int"
  tl_Compile :: "string \<Rightarrow> 're option"
  tl_MatchString :: "'re \<Rightarrow> string \<Rightarrow> bool"
  tl_FindAll :: "'re \<Rightarrow> string \<Rightarrow> span list"
  tl_Sort :: "span list \<Rightarrow> span list"

section \<open>Normalisation\<close>

text \<open>The UTF-8 bytes of a rune; what is no rune is \<open>RuneError\<close>.\<close>

definition encode_rune :: "int \<Rightarrow> string" where
  "encode_rune r =
     (let r = (if 0 \<le> r \<and> r \<le> 1114111 \<and> \<not> (55296 \<le> r \<and> r \<le> 57343) then r else RuneError) in
      map char_of
       (if r \<le> 127 then [r]
        else if r \<le> 2047 then [192 + r div 64, 128 + r mod 64]
        else if r \<le> 65535 then [224 + r div 4096, 128 + (r div 64) mod 64, 128 + r mod 64]
        else [240 + r div 262144, 128 + (r div 4096) mod 64, 128 + (r div 64) mod 64, 128 + r mod 64]))"

definition ToLowerText :: "'re text_lib \<Rightarrow> string \<Rightarrow> string" where
  "ToLowerText L s = concat (map (\<lambda>(r, _). encode_rune (tl_ToLowerRune L r)) (runes s))"

text \<open>The invisible characters U+200B, U+200C, U+200D, U+2060 and U+FEFF.\<close>

definition zeroWidth :: "string list" where
  "zeroWidth =
     [[CHR 0xE2, CHR 0x80, CHR 0x8B], [CHR 0xE2, CHR 0x80, CHR 0x8C], [CHR 0xE2, CHR 0x80, CHR 0x8D],
      [CHR 0xE2, CHR 0x81, CHR 0xA0], [CHR 0xEF, CHR 0xBB, CHR 0xBF]]"

fun remove_zero_width :: "string \<Rightarrow> string" where
  "remove_zero_width (a # b # c # s) =
     (if [a, b, c] \<in> set zeroWidth then remove_zero_width s else a # remove_zero_width (b # c # s))"
| "remove_zero_width s = s"

definition NormalizeForNGWord :: "'re text_lib \<Rightarrow> string \<Rightarrow> string" where
  "NormalizeForNGWord L s = ToLowerText L (remove_zero_width (tl_NFKC L s))"

section \<open>Registering and compiling\<close>

definition compileNGRegex :: "'re text_lib \<Rightarrow> string \<Rightarrow> 're option" where
  "compileNGRegex L pattern = tl_Compile L (''(?i)'' @ tl_NFKC L pattern)"

definition NewNGWord :: "'re text_lib \<Rightarrow> string \<Rightarrow> string \<Rightarrow> int \<Rightarrow> ng_word result" where
  "NewNGWord L pattern matchType now =
     (let pattern = TrimUnicode pattern;
          w = \<lparr>nw_ID = 0, nw_Pattern = pattern, nw_MatchType = matchType, nw_CreatedAt = now\<rparr> in
      if pattern = [] then Err (InvalidInput ''enter a word'')
      else if MaxNGWordPatternChars < RuneCount pattern then Err (InvalidInput ''at most 100 characters'')
      else if matchType = NGWordMatchWord then Ok w
      else if matchType = NGWordMatchRegex then
        (case compileNGRegex L pattern of
           None \<Rightarrow> Err (InvalidInput ''the regular expression is wrong'')
         | Some re \<Rightarrow>
             if tl_MatchString L re [] then Err (InvalidInput ''the regular expression matches everything'')
             else Ok w)
      else Err (InvalidInput ''unknown kind of match''))"

datatype 're compiled_form = Needle string | Regex 're

type_synonym 're matcher = "(ng_word \<times> 're compiled_form) list"

definition compile_word :: "'re text_lib \<Rightarrow> ng_word \<Rightarrow> 're compiled_form option" where
  "compile_word L w =
     (if nw_MatchType w = NGWordMatchRegex then map_option Regex (compileNGRegex L (nw_Pattern w))
      else let needle = NormalizeForNGWord L (nw_Pattern w) in
           if needle = [] then None else Some (Needle needle))"

text \<open>Broken rows are left out.\<close>

fun NewNGWordMatcher :: "'re text_lib \<Rightarrow> ng_word list \<Rightarrow> 're matcher" where
  "NewNGWordMatcher L [] = []"
| "NewNGWordMatcher L (w # ws) =
     (case compile_word L w of None \<Rightarrow> NewNGWordMatcher L ws | Some c \<Rightarrow> (w, c) # NewNGWordMatcher L ws)"

section \<open>Matching\<close>

definition form_matches :: "'re text_lib \<Rightarrow> string \<Rightarrow> 're compiled_form \<Rightarrow> bool" where
  "form_matches L normalized c =
     (case c of Regex re \<Rightarrow> tl_MatchString L re normalized | Needle n \<Rightarrow> indexOf normalized n \<noteq> None)"

definition Match :: "'re text_lib \<Rightarrow> 're matcher \<Rightarrow> string \<Rightarrow> ng_word option" where
  "Match L m text =
     (if text = [] then None
      else map_option fst (List.find (\<lambda>(w, c). form_matches L (NormalizeForNGWord L text) c) m))"

section \<open>Masking\<close>

definition NGWordMask :: string where
  "NGWordMask = [CHR 0xC3, CHR 0x97, CHR 0xC3, CHR 0x97, CHR 0xC3, CHR 0x97, CHR 0xC3, CHR 0x97]"

text \<open>\<open>s[a:b]\<close>.\<close>

definition slice :: "string \<Rightarrow> nat \<Rightarrow> nat \<Rightarrow> string option" where
  "slice s a b = (if a \<le> b \<and> b \<le> length s then Some (take (b - a) (drop a s)) else None)"

text \<open>The size of the segment at \<open>start\<close>.\<close>

definition segment_size :: "'re text_lib \<Rightarrow> string \<Rightarrow> nat \<Rightarrow> nat" where
  "segment_size L text start =
     (let size = tl_NextBoundary L (drop start text) in
      if size \<le> 0 then length text - start else nat size)"

lemma segment_size_pos: "start < length text \<Longrightarrow> 0 < segment_size L text start"
  by (simp add: segment_size_def Let_def)

text \<open>The normalised text, and for each of its bytes the segment of the original it comes from.\<close>

function segments :: "'re text_lib \<Rightarrow> string \<Rightarrow> nat \<Rightarrow> (string \<times> span list) option" where
  "segments L text start =
     (if start < length text then
        (let fin = start + segment_size L text start in
         case slice text start fin of
           None \<Rightarrow> None
         | Some piece \<Rightarrow>
             (let segment = NormalizeForNGWord L piece in
              case segments L text fin of
                None \<Rightarrow> None
              | Some (value, origins) \<Rightarrow>
                  Some (segment @ value, replicate (length segment) (start, fin) @ origins)))
      else Some ([], []))"
  by pat_completeness auto
termination
  by (relation "measure (\<lambda>(L, text, start). length text - start)")
     (auto simp: segment_size_pos diff_less_mono2)

text \<open>The occurrences of a word, also overlapping ones: the search goes on one rune after the last hit.\<close>

lemma needle_step:
  assumes "offset < length value" "indexOf (drop offset value) needle = Some i"
  shows "offset + i < length value" "0 < snd (decode_rune (drop (offset + i) value))"
proof -
  show less: "offset + i < length value"
  proof (cases "needle = []")
    case True
    then have "i = 0"
      using assms(2) by (cases "drop offset value") (auto simp: HasPrefix_def)
    with assms(1) show ?thesis by simp
  next
    case False
    with indexOf_less[OF assms(2)] assms(1) show ?thesis by simp
  qed
  then show "0 < snd (decode_rune (drop (offset + i) value))"
    using decode_rune_size[of "drop (offset + i) value"] by simp
qed

function needle_matches :: "string \<Rightarrow> string \<Rightarrow> nat \<Rightarrow> span list" where
  "needle_matches needle value offset =
     (if offset < length value then
        (case indexOf (drop offset value) needle of
           None \<Rightarrow> []
         | Some i \<Rightarrow>
             (let start = offset + i in
              (start, start + length needle) #
              needle_matches needle value (start + snd (decode_rune (drop start value)))))
      else [])"
  by pat_completeness auto
termination
proof (relation "measure (\<lambda>(needle, v, offset). length v - offset)", simp, goal_cases)
  case (1 needle v offset i start)
  with needle_step[of offset v needle i] show ?case by auto
qed

declare segments.simps [simp del] needle_matches.simps [simp del]

definition form_spans :: "'re text_lib \<Rightarrow> string \<Rightarrow> 're compiled_form \<Rightarrow> span list" where
  "form_spans L value c =
     (case c of Regex re \<Rightarrow> tl_FindAll L re value | Needle n \<Rightarrow> needle_matches n value 0)"

text \<open>The segment where a match starts and the one where it ends; \<open>None\<close> if \<open>origins\<close> is indexed out of range.\<close>

definition origin_span :: "span list \<Rightarrow> span \<Rightarrow> span option" where
  "origin_span origins m =
     (case m of (a, b) \<Rightarrow>
        if a < length origins \<and> b - 1 < length origins then Some (fst (origins ! a), snd (origins ! (b - 1)))
        else None)"

fun all_some :: "'a option list \<Rightarrow> 'a list option" where
  "all_some [] = Some []"
| "all_some (None # xs) = None"
| "all_some (Some x # xs) = map_option ((#) x) (all_some xs)"

text \<open>Overlapping spans become one; touching ones stay two.\<close>

fun merge_spans :: "span \<Rightarrow> span list \<Rightarrow> span list" where
  "merge_spans (s, e) [] = [(s, e)]"
| "merge_spans (s, e) ((s', e') # spans) =
     (if s' < e then merge_spans (s, if e < e' then e' else e) spans
      else (s, e) # merge_spans (s', e') spans)"

fun render :: "string \<Rightarrow> nat \<Rightarrow> span list \<Rightarrow> string option" where
  "render text offset [] = slice text offset (length text)"
| "render text offset ((s, e) # spans) =
     (case slice text offset s of
        None \<Rightarrow> None
      | Some kept \<Rightarrow> map_option (\<lambda>rest. kept @ NGWordMask @ rest) (render text e spans))"

definition match_spans :: "'re text_lib \<Rightarrow> 're matcher \<Rightarrow> string \<Rightarrow> span list" where
  "match_spans L m value = filter (\<lambda>(a, b). a < b) (concat (map (\<lambda>(w, c). form_spans L value c) m))"

definition Mask :: "'re text_lib \<Rightarrow> 're matcher \<Rightarrow> string \<Rightarrow> string option" where
  "Mask L m text =
     (if text = [] then Some text
      else (case segments L text 0 of
         None \<Rightarrow> None
       | Some (value, origins) \<Rightarrow>
           (case all_some (map (origin_span origins) (match_spans L m value)) of
              None \<Rightarrow> None
            | Some spans \<Rightarrow>
                if spans = [] then Some text
                else (case tl_Sort L spans of
                        [] \<Rightarrow> None
                      | s # ss \<Rightarrow> render text 0 (merge_spans s ss)))))"

end
