(* ===== verification/Ng_Guard.thy ===== *)
theory Ng_Guard
  imports Ng_Word Db Authz
begin

text \<open>
  The check of what is written against the registered words: infra/mysql/ng_word_repository.go, the guard with its
  cache (usecase/ngword/guard.go) and the administrators' page (usecase/ngword/admin.go). \<open>C\<close> is the collation of
  the unique key. The statistics of the hits are left out: they change nothing.
\<close>

section \<open>The repository\<close>

definition ErrDuplicateKey :: go_error where
  "ErrDuplicateKey = Errorf ''duplicate key''"

definition ErrNGWordLimit :: go_error where
  "ErrNGWordLimit = Errorf ''ng word limit reached''"

definition word_of_row :: "ng_word_row \<Rightarrow> ng_word" where
  "word_of_row r =
     \<lparr>nw_ID = ng_words_id r, nw_Pattern = ng_words_pattern r, nw_MatchType = ng_words_match_type r,
      nw_CreatedAt = ng_words_created_at r\<rparr>"

definition registered_words :: "tables \<Rightarrow> ng_word list" where
  "registered_words t = map word_of_row (sort_key ng_words_id (tb_ng_words t))"

definition ListNGWords :: "('o db, ng_word list) proc" where
  "ListNGWords = poolQuery registered_words"

text \<open>One statement counts and inserts. The ID of the new word is returned.\<close>

definition CreateNGWord :: "(string \<Rightarrow> string) \<Rightarrow> ng_word \<Rightarrow> int \<Rightarrow> ('o db, int) proc" where
  "CreateNGWord C w limit = poolCall (\<lambda>t.
     if \<not> int (length (tb_ng_words t)) < limit then (Err ErrNGWordLimit, t)
     else if list_ex (\<lambda>r. C (ng_words_match_type r) = C (nw_MatchType w) \<and>
                        C (ng_words_pattern r) = C (nw_Pattern w)) (tb_ng_words t)
     then (Err ErrDuplicateKey, t)
     else (Ok (tb_next_id t), t\<lparr>tb_next_id := tb_next_id t + 1, tb_ng_words := tb_ng_words t @
       [\<lparr>ng_words_id = tb_next_id t, ng_words_pattern = nw_Pattern w, ng_words_match_type = nw_MatchType w,
         ng_words_created_at = nw_CreatedAt w\<rparr>]\<rparr>))"

text \<open>The hits keep the copy of the pattern and lose the link to the word.\<close>

definition DeleteNGWord :: "int \<Rightarrow> ('o db, bool) proc" where
  "DeleteNGWord i = poolCall (\<lambda>t.
     (Ok (list_ex (\<lambda>r. ng_words_id r = i) (tb_ng_words t)),
      t\<lparr>tb_ng_words := filter (\<lambda>r. ng_words_id r \<noteq> i) (tb_ng_words t),
        tb_ng_word_hits := map (\<lambda>h. if ng_word_hits_ng_word_id h = Some i
          then h\<lparr>ng_word_hits_ng_word_id := None\<rparr> else h) (tb_ng_word_hits t)\<rparr>))"

definition hit_row :: "ng_word_hit \<Rightarrow> ng_word_hit_row" where
  "hit_row h =
     \<lparr>ng_word_hits_ng_word_id = nh_NGWordID h, ng_word_hits_pattern = nh_Pattern h,
      ng_word_hits_user_id = nh_UserID h, ng_word_hits_room_id = nh_RoomID h,
      ng_word_hits_source = nh_Source h, ng_word_hits_created_at = nh_CreatedAt h\<rparr>"

text \<open>The keys of the hit refer to a registered word and to an account that has its personal data.\<close>

definition RecordNGWordHit :: "ng_word_hit \<Rightarrow> ('o db, unit) proc" where
  "RecordNGWordHit h = poolCall (\<lambda>t.
     if list_ex (\<lambda>a. user_accounts_user_id a = nh_UserID h) (tb_user_accounts t) \<and>
        (case nh_NGWordID h of None \<Rightarrow> True | Some i \<Rightarrow> list_ex (\<lambda>r. ng_words_id r = i) (tb_ng_words t))
     then (Ok (), t\<lparr>tb_ng_word_hits := tb_ng_word_hits t @ [hit_row h]\<rparr>)
     else (Err (Errorf ''foreign key constraint fails''), t))"

section \<open>The cache of the guard\<close>

text \<open>In seconds.\<close>

definition cacheTTL :: int where
  "cacheTTL = 15"

record 're guard =
  gd_matcher :: "'re matcher option"
  gd_loadedAt :: int
  gd_version :: int

definition new_guard :: "'re guard" where
  "new_guard = \<lparr>gd_matcher = None, gd_loadedAt = 0, gd_version = 0\<rparr>"

text \<open>\<open>version\<close> is an \<open>uint64\<close>.\<close>

definition guard_Invalidate :: "'re guard \<Rightarrow> 're guard" where
  "guard_Invalidate g = g\<lparr>gd_matcher := None, gd_version := (gd_version g + 1) mod 2 ^ 64\<rparr>"

text \<open>\<open>current\<close> holds the lock twice: before it reads the words, and after. Here is what it does the first time, a
  matcher or the version it goes on with, ...\<close>

definition current_enter :: "int \<Rightarrow> 're guard \<Rightarrow> 're matcher + int" where
  "current_enter now g =
     (case gd_matcher g of
        Some m \<Rightarrow> if now - gd_loadedAt g < cacheTTL then Inl m else Inr (gd_version g)
      | None \<Rightarrow> Inr (gd_version g))"

text \<open>... and the second time, with what the reading gave.\<close>

definition current_leave ::
  "'re text_lib \<Rightarrow> int \<Rightarrow> int \<Rightarrow> ng_word list result \<Rightarrow> 're guard \<Rightarrow> 're matcher result \<times> 're guard" where
  "current_leave L now version words g =
     (case words of
        Inl e \<Rightarrow> (case gd_matcher g of Some m \<Rightarrow> (Ok m, g) | None \<Rightarrow> (Err e, g))
      | Inr ws \<Rightarrow>
          (let m = NewNGWordMatcher L ws in
           (Ok m, if version = gd_version g then g\<lparr>gd_matcher := Some m, gd_loadedAt := now\<rparr> else g)))"

section \<open>The check\<close>

record ('o, 're) ng_state =
  ng_db :: "'o db"
  ng_guard :: "'re guard"

definition onNgDb :: "('o db, 'a) proc \<Rightarrow> (('o, 're) ng_state, 'a) proc" where
  "onNgDb m s = (case m (ng_db s) of (r, w) \<Rightarrow> (r, s\<lparr>ng_db := w\<rparr>))"

definition current :: "'re text_lib \<Rightarrow> (('o, 're) ng_state, 're matcher) proc" where
  "current L s =
     (case current_enter (db_now (ng_db s)) (ng_guard s) of
        Inl m \<Rightarrow> (Ok m, s)
      | Inr version \<Rightarrow>
          tryP (onNgDb ListNGWords) (\<lambda>words s.
            (case current_leave L (db_now (ng_db s)) version words (ng_guard s) of
               (r, g) \<Rightarrow> (r, s\<lparr>ng_guard := g\<rparr>))) s)"

record masked_text =
  mt_Original :: string
  mt_Masked :: string

definition BlockedMessage :: string where
  "BlockedMessage = ''the text has words that may not be used''"

text \<open>The error of a blocked text, as the callers see it; its texts are the result of \<open>Screen\<close>.\<close>

definition blocked_error :: go_error where
  "blocked_error = InvalidInput BlockedMessage"

fun mask_all :: "'re text_lib \<Rightarrow> 're matcher \<Rightarrow> string list \<Rightarrow> masked_text list option" where
  "mask_all L m [] = Some []"
| "mask_all L m (t # ts) =
     (case Mask L m t of
        None \<Rightarrow> None
      | Some replacement \<Rightarrow>
          map_option (\<lambda>rest. if replacement \<noteq> t then \<lparr>mt_Original = t, mt_Masked = replacement\<rparr> # rest else rest)
            (mask_all L m ts))"

definition runtime_panic :: go_error where
  "runtime_panic = Errorf ''runtime error: index out of range''"

text \<open>\<open>None\<close> lets the texts pass, \<open>Some masked\<close> blocks them.\<close>

fun screen_each ::
  "'re text_lib \<Rightarrow> 're matcher \<Rightarrow> int \<Rightarrow> int option \<Rightarrow> string \<Rightarrow> string list \<Rightarrow> string list
     \<Rightarrow> (('o, 're) ng_state, masked_text list option) proc" where
  "screen_each L m userID roomID source texts [] = ret None"
| "screen_each L m userID roomID source texts (t # ts) =
     (case Match L m t of
        None \<Rightarrow> screen_each L m userID roomID source texts ts
      | Some hit \<Rightarrow>
          bindP (onNgDb nowP) (\<lambda>now.
          tryP (onNgDb (RecordNGWordHit
              \<lparr>nh_NGWordID = Some (nw_ID hit), nh_Pattern = nw_Pattern hit, nh_UserID = userID,
               nh_RoomID = roomID, nh_Source = source, nh_CreatedAt = now\<rparr>)) (\<lambda>_.
          case mask_all L m texts of None \<Rightarrow> throw runtime_panic | Some masked \<Rightarrow> ret (Some masked))))"

definition Screen ::
  "'re text_lib \<Rightarrow> int \<Rightarrow> int option \<Rightarrow> string \<Rightarrow> string list
     \<Rightarrow> (('o, 're) ng_state, masked_text list option) proc" where
  "Screen L userID roomID source texts =
     tryP (current L) (\<lambda>r. case r of
       Inl e \<Rightarrow> ret None
     | Inr m \<Rightarrow> screen_each L m userID roomID source texts texts)"

definition ng_ScreenFor ::
  "'re text_lib \<Rightarrow> claims option \<Rightarrow> int option \<Rightarrow> string \<Rightarrow> string list
     \<Rightarrow> (('o, 're) ng_state, masked_text list option) proc" where
  "ng_ScreenFor L claims roomID source texts =
     (case claims of
        None \<Rightarrow> ret None
      | Some c \<Rightarrow> if IsAdminRole (cl_Role c) then ret None else Screen L (cl_ID c) roomID source texts)"

section \<open>The administrators' page\<close>

definition Invalidate :: "(('o, 're) ng_state, unit) proc" where
  "Invalidate s = (Ok (), s\<lparr>ng_guard := guard_Invalidate (ng_guard s)\<rparr>)"

definition AdminList :: "request_ctx \<Rightarrow> (('o, 're) ng_state, ng_word list) proc" where
  "AdminList ctx = bindP (liftR (RequireAdmin ctx)) (\<lambda>_. onNgDb ListNGWords)"

definition AdminCreate ::
  "'re text_lib \<Rightarrow> (string \<Rightarrow> string) \<Rightarrow> request_ctx \<Rightarrow> string \<Rightarrow> string \<Rightarrow> (('o, 're) ng_state, ng_word) proc" where
  "AdminCreate L C ctx pattern matchType =
     bindP (liftR (RequireAdmin ctx)) (\<lambda>_.
     bindP (onNgDb nowP) (\<lambda>now.
     bindP (liftR (NewNGWord L pattern matchType now)) (\<lambda>w.
     tryP (onNgDb (CreateNGWord C w MaxNGWords)) (\<lambda>r. case r of
       Inl e \<Rightarrow>
         if e = ErrDuplicateKey then throw (InvalidInput ''this word is registered already'')
         else if e = ErrNGWordLimit then throw (InvalidInput ''there are as many words as may be'')
         else throw e
     | Inr i \<Rightarrow> bindP Invalidate (\<lambda>_. ret (w\<lparr>nw_ID := i\<rparr>))))))"

definition AdminDelete :: "request_ctx \<Rightarrow> int \<Rightarrow> (('o, 're) ng_state, bool) proc" where
  "AdminDelete ctx i =
     bindP (liftR (RequireAdmin ctx)) (\<lambda>_.
     bindP (onNgDb (DeleteNGWord i)) (\<lambda>deleted.
     bindP Invalidate (\<lambda>_. ret deleted)))"

end
