(* ===== verification/Ng_Word_Props.thy ===== *)
theory Ng_Word_Props
  imports Ng_Word "HOL-Library.Multiset"
begin

text \<open>
  \<open>Mask\<close> never panics, whatever the tx and the registered words are, and hides exactly the segments of the
  original in which a match starts, ends or lies.
\<close>

section \<open>What the libraries document\<close>

text \<open>A boundary lies in the tx, a regular expression matches inside the tx, and sorting permutes.\<close>

definition lib_ok :: "'re text_lib \<Rightarrow> bool" where
  "lib_ok L \<longleftrightarrow>
     (\<forall>s. tl_NextBoundary L s \<le> int (length s)) \<and>
     (\<forall>re s. list_all (\<lambda>(a, b). a \<le> b \<and> b \<le> length s) (tl_FindAll L re s)) \<and>
     (\<forall>xs. mset (tl_Sort L xs) = mset xs \<and> sorted (map fst (tl_Sort L xs)))"

lemma lib_okD:
  assumes "lib_ok L"
  shows "tl_NextBoundary L s \<le> int (length s)"
    "(a, b) \<in> set (tl_FindAll L re s) \<Longrightarrow> a \<le> b \<and> b \<le> length s"
    "mset (tl_Sort L xs) = mset xs" "sorted (map fst (tl_Sort L xs))"
  using assms by (fastforce simp: lib_ok_def list_all_iff)+

section \<open>Segments\<close>

definition origins_ok :: "nat \<Rightarrow> nat \<Rightarrow> span list \<Rightarrow> bool" where
  "origins_ok lo hi os \<longleftrightarrow> sorted (map fst os) \<and> (\<forall>(s, e)\<in>set os. lo \<le> s \<and> s < e \<and> e \<le> hi)"

lemma segments_ok:
  assumes "lib_ok L" "start \<le> length tx"
  shows "\<exists>val os. segments L tx start = Some (val, os) \<and> length os = length val \<and>
    origins_ok start (length tx) os"
  using assms
proof (induction L tx start rule: segments.induct)
  case (1 L tx start)
  note lib = \<open>lib_ok L\<close>
  show ?case
  proof (cases "start < length tx")
    case False
    then show ?thesis by (simp add: segments.simps[of L tx start] origins_ok_def)
  next
    case True
    let ?fin = "start + segment_size L tx start"
    have "tl_NextBoundary L (drop start tx) \<le> int (length tx - start)"
      using lib_okD(1)[OF lib, of "drop start tx"] by simp
    then have "segment_size L tx start \<le> length tx - start" by (auto simp: segment_size_def Let_def)
    with segment_size_pos[OF True] True have fin: "start < ?fin" "?fin \<le> length tx" by simp_all
    then have piece: "slice tx start ?fin = Some (take (segment_size L tx start) (drop start tx))"
      by (simp add: slice_def)
    from 1(1)[OF True refl piece refl lib] fin(2) obtain val os where
      rest: "segments L tx ?fin = Some (val, os)" "length os = length val" "origins_ok ?fin (length tx) os" by auto
    have "origins_ok start (length tx) (replicate n (start, ?fin) @ os)" for n
      using rest(3) fin by (fastforce simp: origins_ok_def sorted_append)
    with piece rest(1,2) show ?thesis
      by (simp add: segments.simps[of L tx start] True Let_def)
  qed
qed

section \<open>Matches lie in the normalised tx\<close>

lemma HasPrefix_length: "HasPrefix s p \<Longrightarrow> length p \<le> length s"
  by (auto simp: HasPrefix_iff)

lemma needle_matches_bound:
  "(a, b) \<in> set (needle_matches needle val offset) \<Longrightarrow> a \<le> b \<and> b \<le> length val"
proof (induction needle val offset rule: needle_matches.induct)
  case (1 needle val offset)
  note mem = 1(2)[unfolded needle_matches.simps[of needle val offset]]
  from mem have offset: "offset < length val" by (cases "offset < length val") simp_all
  with mem obtain i where i: "indexOf (drop offset val) needle = Some i"
    by (cases "indexOf (drop offset val) needle") simp_all
  let ?start = "offset + i"
  from mem offset i consider (hit) "(a, b) = (?start, ?start + length needle)"
    | (later) "(a, b) \<in> set (needle_matches needle val (?start + snd (decode_rune (drop ?start val))))"
    by (auto simp: Let_def)
  then show ?case
  proof cases
    case hit
    from indexOf_Some[OF i] have "HasPrefix (drop ?start val) needle" by (simp add: add.commute)
    from HasPrefix_length[OF this] needle_step(1)[OF offset i] hit show ?thesis by simp
  next
    case later
    with 1(1)[OF offset i refl] show ?thesis by simp
  qed
qed

lemma match_spans_bound:
  assumes "lib_ok L" "(a, b) \<in> set (match_spans L m val)"
  shows "a < b" "b \<le> length val"
proof -
  from assms(2) obtain w c where c: "(w, c) \<in> set m" "(a, b) \<in> set (form_spans L val c)" and less: "a < b"
    by (auto simp: match_spans_def)
  show "a < b" by (rule less)
  show "b \<le> length val"
    using c(2) lib_okD(2)[OF assms(1)] needle_matches_bound
    by (cases c) (auto simp: form_spans_def)
qed

lemma all_some_map: "(\<And>x. x \<in> set xs \<Longrightarrow> f x = Some (g x)) \<Longrightarrow> all_some (map f xs) = Some (map g xs)"
  by (induction xs) auto

definition to_origin :: "span list \<Rightarrow> span \<Rightarrow> span" where
  "to_origin origins m = (case m of (a, b) \<Rightarrow> (fst (origins ! a), snd (origins ! (b - 1))))"

lemma to_origin_bound:
  assumes "origins_ok lo hi os" "a < b" "b \<le> length os"
  shows "fst (to_origin os (a, b)) < snd (to_origin os (a, b))" "snd (to_origin os (a, b)) \<le> hi"
proof -
  have "fst (os ! a) \<le> fst (os ! (b - 1))"
    using assms by (simp add: origins_ok_def sorted_iff_nth_mono)
  moreover have "os ! (b - 1) \<in> set os" using assms by simp
  with assms(1) have "fst (os ! (b - 1)) < snd (os ! (b - 1))" "snd (os ! (b - 1)) \<le> hi"
    by (auto simp: origins_ok_def)
  ultimately show "fst (to_origin os (a, b)) < snd (to_origin os (a, b))" "snd (to_origin os (a, b)) \<le> hi"
    by (simp_all add: to_origin_def)
qed

section \<open>Merging and rendering\<close>

definition inside :: "span list \<Rightarrow> nat \<Rightarrow> bool" where
  "inside spans i \<longleftrightarrow> list_ex (\<lambda>(s, e). s \<le> i \<and> i < e) spans"

lemma inside_simps [simp]:
  "\<not> inside [] i" "inside ((s, e) # spans) i \<longleftrightarrow> s \<le> i \<and> i < e \<or> inside spans i"
  by (simp_all add: inside_def)

lemma inside_mset: "mset spans = mset spans' \<Longrightarrow> inside spans = inside spans'"
  by (auto simp: inside_def list_ex_iff fun_eq_iff dest: mset_eq_setD)

fun ordered :: "nat \<Rightarrow> nat \<Rightarrow> span list \<Rightarrow> bool" where
  "ordered lo hi [] \<longleftrightarrow> lo \<le> hi"
| "ordered lo hi ((s, e) # spans) \<longleftrightarrow> lo \<le> s \<and> s < e \<and> ordered e hi spans"

lemma merge_spans_ok:
  assumes "sorted (map fst ((s, e) # spans))" "list_all (\<lambda>(s, e). s < e \<and> e \<le> hi) ((s, e) # spans)" "lo \<le> s"
  shows "ordered lo hi (merge_spans (s, e) spans) \<and> inside (merge_spans (s, e) spans) = inside ((s, e) # spans)"
  using assms
proof (induction spans arbitrary: lo s e)
  case (Cons q spans)
  obtain s' e' where q: "q = (s', e')" by (cases q)
  show ?case
  proof (cases "s' < e")
    case True
    let ?e = "if e < e' then e' else e"
    have "ordered lo hi (merge_spans (s, ?e) spans) \<and> inside (merge_spans (s, ?e) spans) = inside ((s, ?e) # spans)"
      using Cons.prems by (intro Cons.IH) (auto simp: q)
    moreover have "inside ((s, ?e) # spans) = inside ((s, e) # q # spans)"
      using True Cons.prems by (auto simp: q fun_eq_iff)
    ultimately show ?thesis using True by (simp add: q)
  next
    case False
    with Cons.prems Cons.IH[of s' e' e] show ?thesis by (auto simp: q fun_eq_iff)
  qed
qed auto

text \<open>The tx cut at the spans; \<open>True\<close> for what is hidden.\<close>

fun pieces :: "string \<Rightarrow> nat \<Rightarrow> span list \<Rightarrow> (bool \<times> string) list" where
  "pieces tx offset [] = [(False, drop offset tx)]"
| "pieces tx offset ((s, e) # spans) =
     (False, take (s - offset) (drop offset tx)) # (True, take (e - s) (drop s tx)) # pieces tx e spans"

definition hidden :: "(bool \<times> string) list \<Rightarrow> string" where
  "hidden ps = concat (map (\<lambda>(cut, s). if cut then NGWordMask else s) ps)"

definition flags :: "(bool \<times> string) list \<Rightarrow> bool list" where
  "flags ps = concat (map (\<lambda>(cut, s). replicate (length s) cut) ps)"

lemma render_ok:
  assumes "ordered offset (length tx) spans"
  shows "render tx offset spans = Some (hidden (pieces tx offset spans))"
    "concat (map snd (pieces tx offset spans)) = drop offset tx"
    "flags (pieces tx offset spans) = map (inside spans) [offset..<length tx]"
  using assms
proof (induction spans arbitrary: offset)
  case Nil
  { case 1 then show ?case by (simp add: slice_def hidden_def) }
  { case 2 then show ?case by simp }
  { case 3 then show ?case by (simp add: flags_def map_replicate_const) }
next
  case (Cons q spans)
  obtain s e where q: "q = (s, e)" by (cases q)
  have le: "lo \<le> length tx" if "ordered lo (length tx) spans" for lo
    using that by (induction lo "length tx" spans rule: ordered.induct) auto
  { case 1
    with Cons.IH(1)[of e] le[of e] show ?case by (simp add: q slice_def hidden_def) }
  { case 2
    then have "take (s - offset) (drop offset tx) @ take (e - s) (drop s tx) @ drop e tx = drop offset tx"
      using le[of e] by (simp add: q) (metis (no_types) append_take_drop_id drop_drop le_add_diff_inverse2 less_imp_le)
    with Cons.IH(2)[of e] 2 show ?case by (simp add: q) }
  { case 3
    then have o: "offset \<le> s" "s < e" "e \<le> length tx" "ordered e (length tx) spans" using le[of e] by (auto simp: q)
    have late: "inside spans i \<Longrightarrow> e \<le> i" for i
      using o(4) by (induction e "length tx" spans arbitrary: e rule: ordered.induct) fastforce+
    have "[offset..<length tx] = [offset..<s] @ [s..<e] @ [e..<length tx]"
      using o by (metis less_imp_le order_trans upt_add_eq_append le_Suc_ex)
    moreover have "map (inside (q # spans)) [offset..<s] = replicate (s - offset) False"
      using o by (auto simp: q less_diff_conv dest!: late intro!: nth_equalityI)
    moreover have "map (inside (q # spans)) [s..<e] = replicate (e - s) True"
      by (auto simp: q intro!: nth_equalityI)
    moreover have "map (inside (q # spans)) [e..<length tx] = map (inside spans) [e..<length tx]" by (auto simp: q)
    moreover have "flags (pieces tx offset (q # spans)) =
        replicate (s - offset) False @ replicate (e - s) True @ flags (pieces tx e spans)"
      using o by (auto simp: q flags_def min_def)
    ultimately show ?case unfolding Cons.IH(3)[OF o(4)] by (simp only: map_append) }
qed

section \<open>Exactly the matches are hidden\<close>

definition covered :: "'re text_lib \<Rightarrow> 're matcher \<Rightarrow> string \<Rightarrow> nat \<Rightarrow> bool" where
  "covered L m tx i \<longleftrightarrow>
     (case segments L tx 0 of
        None \<Rightarrow> False
      | Some (val, origins) \<Rightarrow> inside (map (to_origin origins) (match_spans L m val)) i)"

lemma Mask_pieces:
  assumes "lib_ok L"
  shows "\<exists>ps. Mask L m tx = Some (hidden ps) \<and> concat (map snd ps) = tx \<and>
    flags ps = map (covered L m tx) [0..<length tx]"
proof -
  obtain val os where seg: "segments L tx 0 = Some (val, os)" "length os = length val" "origins_ok 0 (length tx) os"
    using segments_ok[OF assms, of 0 tx] by auto
  let ?ms = "match_spans L m val"
  let ?spans = "map (to_origin os) ?ms"
  note bound = match_spans_bound[OF assms, of _ _ m val]
  have origin: "origin_span os q = Some (to_origin os q)" if "q \<in> set ?ms" for q
    using that bound[of "fst q" "snd q"] seg(2) by (auto simp: origin_span_def to_origin_def split: prod.splits)
  have spans: "all_some (map (origin_span os) ?ms) = Some ?spans" using origin by (rule all_some_map)
  have ok: "list_all (\<lambda>(s, e). s < e \<and> e \<le> length tx) ?spans"
    using bound seg(2) to_origin_bound[OF seg(3)] by (force simp: list_all_iff)
  have cov: "covered L m tx = inside ?spans" by (simp add: covered_def seg(1) fun_eq_iff)
  show ?thesis
  proof (cases "tx = [] \<or> ?spans = []")
    case True
    have "?spans = []"
    proof (rule ccontr)
      assume "?spans \<noteq> []"
      with ok True show False by (cases ?spans) auto
    qed
    then have "Mask L m tx = Some tx" by (simp add: Mask_def seg(1) spans)
    moreover have "covered L m tx = (\<lambda>_. False)" using \<open>?spans = []\<close> by (simp add: cov fun_eq_iff)
    ultimately show ?thesis
      by (intro exI[of _ "[(False, tx)]"]) (simp add: hidden_def flags_def map_replicate_const)
  next
    case False
    obtain s e ss where sorted: "tl_Sort L ?spans = (s, e) # ss"
      using lib_okD(3)[OF assms, of ?spans] False by (cases "tl_Sort L ?spans") auto
    from lib_okD(3)[OF assms, of ?spans] sorted have perm: "mset ((s, e) # ss) = mset ?spans" by simp
    have "list_all (\<lambda>(s, e). s < e \<and> e \<le> length tx) ((s, e) # ss)"
      using ok mset_eq_setD[OF perm] by (simp only: list_all_iff)
    from merge_spans_ok[OF _ this, of 0] lib_okD(4)[OF assms, of ?spans] sorted
    have merged: "ordered 0 (length tx) (merge_spans (s, e) ss)" "inside (merge_spans (s, e) ss) = inside ((s, e) # ss)"
      by simp_all
    have "Mask L m tx = render tx 0 (merge_spans (s, e) ss)"
      using False seg(1) spans sorted by (simp add: Mask_def)
    with render_ok[OF merged(1)] merged(2) inside_mset[OF perm] show ?thesis
      by (intro exI[of _ "pieces tx 0 (merge_spans (s, e) ss)"]) (simp add: cov)
  qed
qed


text \<open>A library for samples: ASCII letters are made small, the segments are bytes, and there are no regular
  expressions.\<close>

definition sample_lib :: "unit text_lib" where
  "sample_lib =
     \<lparr>tl_NFKC = id, tl_NextBoundary = (\<lambda>s. if s = [] then 0 else 1),
      tl_ToLowerRune = (\<lambda>r. if 65 \<le> r \<and> r \<le> 90 then r + 32 else r), tl_Compile = (\<lambda>_. None),
      tl_MatchString = (\<lambda>_ _. False), tl_FindAll = (\<lambda>_ _. []), tl_Sort = sort_key fst\<rparr>"

lemma sample_lib_ok: "lib_ok sample_lib"
proof -
  have "1 \<le> length s" if "s \<noteq> []" for s :: string using that by (cases s) auto
  then show ?thesis by (simp add: lib_ok_def sample_lib_def)
qed

definition sample_word :: "int \<Rightarrow> string \<Rightarrow> ng_word" where
  "sample_word i p = \<lparr>nw_ID = i, nw_Pattern = p, nw_MatchType = NGWordMatchWord, nw_CreatedAt = 0\<rparr>"

definition sample_matcher :: "unit matcher" where
  "sample_matcher = NewNGWordMatcher sample_lib [sample_word 1 ''aba'', sample_word 2 ''x'']"

definition sample_text :: string where
  "sample_text = ''ok aBABa Xx.''"


end
