(* ===== verification/Ng_Guard_Props.thy ===== *)
theory Ng_Guard_Props
  imports Ng_Guard Ng_Word_Props
begin

text \<open>
  The cache of the guard never keeps words that are not registered any more, however the readings of many requests
  and the changes of administrators interleave, and a text is blocked exactly when it has a registered word.
\<close>

section \<open>One server, requests interleaved\<close>

text \<open>The registered words, the guard, the requests that are reading the words (with the version they noted and, once
  they have read, what), and the changes whose \<open>Invalidate\<close> is still to come. Changes and readings are statements of
  the database; everything else happens under the lock of the guard.\<close>

record 're guard_sys =
  gs_words :: "ng_word list"
  gs_guard :: "'re guard"
  gs_loads :: "(int \<times> ng_word list option) list"
  gs_pending :: nat
  gs_invalidations :: int

inductive guard_step :: "'re text_lib \<Rightarrow> 're guard_sys \<Rightarrow> 're guard_sys \<Rightarrow> bool" for L where
  enter: "current_enter now (gs_guard s) = Inr v \<Longrightarrow> guard_step L s (s\<lparr>gs_loads := (v, None) # gs_loads s\<rparr>)"
| read: "gs_loads s = xs @ (v, None) # ys \<Longrightarrow>
    guard_step L s (s\<lparr>gs_loads := xs @ (v, Some (gs_words s)) # ys\<rparr>)"
| leave: "gs_loads s = xs @ (v, Some ws) # ys \<Longrightarrow> current_leave L now v (Ok ws) (gs_guard s) = (r, g) \<Longrightarrow>
    guard_step L s (s\<lparr>gs_guard := g, gs_loads := xs @ ys\<rparr>)"
| fail: "gs_loads s = xs @ (v, None) # ys \<Longrightarrow> current_leave L now v (Err e) (gs_guard s) = (r, g) \<Longrightarrow>
    guard_step L s (s\<lparr>gs_guard := g, gs_loads := xs @ ys\<rparr>)"
| change: "guard_step L s (s\<lparr>gs_words := ws, gs_pending := Suc (gs_pending s)\<rparr>)"
| invalidate: "gs_pending s = Suc n \<Longrightarrow>
    guard_step L s (s\<lparr>gs_guard := guard_Invalidate (gs_guard s), gs_pending := n,
                       gs_invalidations := gs_invalidations s + 1\<rparr>)"

definition guard_start :: "ng_word list \<Rightarrow> 're guard_sys" where
  "guard_start ws = \<lparr>gs_words = ws, gs_guard = new_guard, gs_loads = [], gs_pending = 0, gs_invalidations = 0\<rparr>"

text \<open>With no change under way, what is kept and what will be kept are the registered words.\<close>

definition guard_inv :: "'re text_lib \<Rightarrow> 're guard_sys \<Rightarrow> bool" where
  "guard_inv L s \<longleftrightarrow> 0 \<le> gs_invalidations s \<and> (gs_invalidations s < 2 ^ 64 \<longrightarrow>
     gd_version (gs_guard s) = gs_invalidations s \<and>
     (\<forall>(v, ws)\<in>set (gs_loads s). v \<le> gs_invalidations s) \<and>
     (gs_pending s = 0 \<longrightarrow>
        (\<forall>m. gd_matcher (gs_guard s) = Some m \<longrightarrow> m = NewNGWordMatcher L (gs_words s)) \<and>
        (\<forall>(v, ws)\<in>set (gs_loads s). v = gs_invalidations s \<longrightarrow> ws = None \<or> ws = Some (gs_words s))))"

lemma enter_version: "current_enter now g = Inr v \<Longrightarrow> v = gd_version g"
  by (auto simp: current_enter_def split: option.splits if_splits)

lemma leave_guard:
  "current_leave L now v (Ok ws) g = (r, g') \<Longrightarrow>
     g' = (if v = gd_version g then g\<lparr>gd_matcher := Some (NewNGWordMatcher L ws), gd_loadedAt := now\<rparr> else g)"
  "current_leave L now v (Err e) g = (r, g') \<Longrightarrow> g' = g"
  by (auto simp: current_leave_def Let_def split: option.splits)

lemma guard_inv_step:
  assumes "guard_inv L s" "guard_step L s s'"
  shows "guard_inv L s'"
  using assms(2)
proof (cases rule: guard_step.cases)
  case (enter now v)
  with assms(1) enter_version[OF enter(2)] show ?thesis by (auto simp: guard_inv_def)
next
  case (read xs v ys)
  with assms(1) show ?thesis by (auto simp: guard_inv_def)
next
  case (leave xs v ws ys now r g)
  with assms(1) leave_guard(1)[OF leave(3)] show ?thesis by (auto simp: guard_inv_def)
next
  case (fail xs v ys now e r g)
  with assms(1) leave_guard(2)[OF fail(3)] show ?thesis by (auto simp: guard_inv_def)
next
  case (change ws)
  with assms(1) show ?thesis by (auto simp: guard_inv_def)
next
  case (invalidate n)
  with assms(1) show ?thesis by (fastforce simp: guard_inv_def guard_Invalidate_def)
qed

lemma guard_inv_steps:
  assumes "(guard_step L)\<^sup>*\<^sup>* (guard_start ws) s"
  shows "guard_inv L s"
  using assms
proof induction
  case base
  show ?case by (simp add: guard_inv_def guard_start_def new_guard_def)
next
  case (step s s')
  then show ?case using guard_inv_step by blast
qed

text \<open>C39: The cache of the words. Requests read the registered words while administrators change them, in any
  interleaving. As soon as the change is followed by its \<open>Invalidate\<close>, a request that comes in is checked against
  the words that are registered then, also when the database fails and the words kept are used in spite of their
  age: a reading that began before the change is not kept. (For less than 2 ^ 64 changes.)\<close>

theorem no_stale_words_kept:
  assumes "(guard_step L)\<^sup>*\<^sup>* (guard_start ws) s" "gs_invalidations s < 2 ^ 64" "gs_pending s = 0"
  shows "(current_enter now (gs_guard s) = Inl m \<longrightarrow> m = NewNGWordMatcher L (gs_words s)) \<and>
    (current_leave L now v (Err e) (gs_guard s) = (Ok m, g) \<longrightarrow> m = NewNGWordMatcher L (gs_words s))"
  using guard_inv_steps[OF assms(1)] assms(2,3)
  by (auto simp: guard_inv_def current_enter_def current_leave_def split: option.splits if_splits)

text \<open>A request reads the words while there are none; one is registered, and the first request comes back after that:
  what it read is not kept. The next request reads the word, and it is kept.\<close>

definition stale_load :: "unit guard_sys" where
  "stale_load = (guard_start [])\<lparr>gs_words := [sample_word 1 ''aba''], gs_pending := 1, gs_loads := [(0, Some [])]\<rparr>"

definition fresh_load :: "unit guard_sys" where
  "fresh_load = \<lparr>gs_words = [sample_word 1 ''aba''],
     gs_guard = \<lparr>gd_matcher = Some (NewNGWordMatcher sample_lib [sample_word 1 ''aba'']), gd_loadedAt = 7, gd_version = 1\<rparr>,
     gs_loads = [], gs_pending = 0, gs_invalidations = 1\<rparr>"

lemma guard_sample: "(guard_step sample_lib)\<^sup>*\<^sup>* (guard_start []) fresh_load"
proof -
  let ?ws = "[sample_word 1 ''aba'']"
  let ?a = "(guard_start [])\<lparr>gs_loads := [(0, None)]\<rparr> :: unit guard_sys"
  let ?b = "(guard_start [])\<lparr>gs_loads := [(0, Some [])]\<rparr> :: unit guard_sys"
  let ?c = "stale_load\<lparr>gs_guard := guard_Invalidate new_guard, gs_pending := 0, gs_invalidations := 1\<rparr>"
  let ?d = "?c\<lparr>gs_loads := []\<rparr>"
  let ?e = "?c\<lparr>gs_loads := [(1, None)]\<rparr>"
  let ?f = "?c\<lparr>gs_loads := [(1, Some ?ws)]\<rparr>"
  let ?step = "guard_step sample_lib"
  have "?step (guard_start []) ?a"
    using guard_step.enter[of 0 "guard_start [] :: unit guard_sys" 0 sample_lib]
    by (simp add: guard_start_def new_guard_def current_enter_def)
  moreover have "?step ?a ?b"
    using guard_step.read[of ?a "[]" 0 "[]" sample_lib] by (simp add: guard_start_def)
  moreover have "?step ?b stale_load"
    using guard_step.change[of sample_lib ?b ?ws] by (simp add: guard_start_def stale_load_def)
  moreover have "?step stale_load ?c"
    using guard_step.invalidate[of stale_load 0 sample_lib] by (simp add: guard_start_def stale_load_def)
  moreover have "?step ?c ?d"
    using guard_step.leave[of ?c "[]" 0 "[]" "[]" sample_lib 3]
    by (simp add: guard_start_def stale_load_def current_leave_def guard_Invalidate_def new_guard_def)
  moreover have "?step ?d ?e"
    using guard_step.enter[of 5 ?d 1 sample_lib]
    by (simp add: stale_load_def guard_start_def new_guard_def guard_Invalidate_def current_enter_def)
  moreover have "?step ?e ?f"
    using guard_step.read[of ?e "[]" 1 "[]" sample_lib] by (simp add: guard_start_def stale_load_def)
  moreover have "?step ?f fresh_load"
    using guard_step.leave[of ?f "[]" 1 ?ws "[]" sample_lib 7]
    by (simp add: guard_start_def stale_load_def fresh_load_def current_leave_def guard_Invalidate_def new_guard_def Let_def)
  ultimately show ?thesis
    by - ((rule converse_rtranclp_into_rtranclp, assumption)+, rule rtranclp.rtrancl_refl)
qed

theorem no_stale_words_kept_witness:
  "(guard_step sample_lib)\<^sup>*\<^sup>* (guard_start []) fresh_load \<and>
   (\<exists>m. current_enter 9 (gs_guard fresh_load) = Inl m \<and> m = NewNGWordMatcher sample_lib (gs_words fresh_load))"
proof -
  have pre: "gs_invalidations fresh_load < 2 ^ 64" "gs_pending fresh_load = 0" by (simp_all add: fresh_load_def)
  obtain m where m: "current_enter 9 (gs_guard fresh_load) = Inl m"
    by (simp add: fresh_load_def current_enter_def cacheTTL_def)
  with no_stale_words_kept[OF guard_sample pre, of 9 m] guard_sample show ?thesis by blast
qed

section \<open>What is blocked\<close>

text \<open>The text has a word that is registered.\<close>

definition forbidden :: "'re text_lib \<Rightarrow> tables \<Rightarrow> string \<Rightarrow> bool" where
  "forbidden L t tx \<longleftrightarrow> tx \<noteq> [] \<and>
     list_ex (\<lambda>w. case compile_word L w of None \<Rightarrow> False | Some c \<Rightarrow> form_matches L (NormalizeForNGWord L tx) c)
       (registered_words t)"

lemma find_compiled:
  "List.find (\<lambda>(w, c). P c) (NewNGWordMatcher L ws) \<noteq> None \<longleftrightarrow>
     list_ex (\<lambda>w. case compile_word L w of None \<Rightarrow> False | Some c \<Rightarrow> P c) ws"
  by (induction ws) (auto split: option.splits)

lemma Match_forbidden:
  "Match L (NewNGWordMatcher L (registered_words t)) tx \<noteq> None \<longleftrightarrow> forbidden L t tx"
  using find_compiled[of "form_matches L (NormalizeForNGWord L tx)" L "registered_words t"]
  by (auto simp: Match_def forbidden_def)

text \<open>What the guard keeps are the registered words.\<close>

definition guard_fresh :: "'re text_lib \<Rightarrow> ('o, 're) ng_state \<Rightarrow> bool" where
  "guard_fresh L s \<longleftrightarrow> db_tx (ng_db s) = None \<and>
     (\<forall>m. gd_matcher (ng_guard s) = Some m \<longrightarrow> m = NewNGWordMatcher L (registered_words (db_committed (ng_db s))))"

lemma poolCall_cases:
  assumes "poolCall stmt w = (r, w')" "db_tx w = None"
  obtains e where "r = Inl e" "db_committed w' = db_committed w" "db_tx w' = None"
    | x where "r = Inr x" "stmt (db_committed w) = (Inr x, db_committed w')" "db_tx w' = None" "\<not> db_next_faults w"
  using assms by (auto simp: poolCall_def split: if_splits prod.splits sum.splits)

text \<open>\<open>current\<close>: the matcher of the registered words, unless they cannot be read and none are kept.\<close>

lemma ListNGWords_run:
  assumes "db_tx w = None"
  shows "ListNGWords w =
    (if db_next_faults w then (Err driver_error, db_tick w) else (Ok (registered_words (db_committed w)), db_tick w))"
  using assms by (simp add: ListNGWords_def poolQuery_def poolCall_def db_tick_def)

lemma current_fresh:
  assumes "current L s = (r, s')" "guard_fresh L s"
  shows "guard_fresh L s'" "db_committed (ng_db s') = db_committed (ng_db s)"
    "r = Ok (NewNGWordMatcher L (registered_words (db_committed (ng_db s)))) \<or>
     (\<exists>e. r = Inl e) \<and> db_next_faults (ng_db s) \<and> gd_matcher (ng_guard s) = None"
proof -
  let ?M = "NewNGWordMatcher L (registered_words (db_committed (ng_db s)))"
  from assms(2) have tx: "db_tx (ng_db s) = None" and kept: "\<And>m. gd_matcher (ng_guard s) = Some m \<Longrightarrow> m = ?M"
    by (auto simp: guard_fresh_def)
  have "guard_fresh L s' \<and> db_committed (ng_db s') = db_committed (ng_db s) \<and>
    (r = Ok ?M \<or> (\<exists>e. r = Inl e) \<and> db_next_faults (ng_db s) \<and> gd_matcher (ng_guard s) = None)"
  proof (cases "current_enter (db_now (ng_db s)) (ng_guard s)")
    case (Inl m)
    then have "gd_matcher (ng_guard s) = Some m" by (auto simp: current_enter_def split: option.splits if_splits)
    with kept assms Inl show ?thesis by (auto simp: current_def)
  next
    case (Inr v)
    then have v: "v = gd_version (ng_guard s)" by (rule enter_version)
    let ?s = "s\<lparr>ng_db := db_tick (ng_db s)\<rparr>"
    show ?thesis
    proof (cases "db_next_faults (ng_db s)")
      case True
      with assms(1) Inr have "current_leave L (db_now (ng_db s)) v (Err driver_error) (ng_guard s) = (r, ng_guard s')"
        "ng_db s' = db_tick (ng_db s)"
        by (auto simp: current_def tryP_def onNgDb_def ListNGWords_run[OF tx] split: prod.splits)
      with True kept assms(2) leave_guard(2)[OF this(1)] show ?thesis
        by (auto simp: guard_fresh_def current_leave_def split: option.splits)
    next
      case False
      with assms(1) Inr have "current_leave L (db_now (ng_db s)) v (Ok (registered_words (db_committed (ng_db s)))) (ng_guard s) = (r, ng_guard s')"
        "ng_db s' = db_tick (ng_db s)"
        by (auto simp: current_def tryP_def onNgDb_def ListNGWords_run[OF tx] split: prod.splits)
      with v tx leave_guard(1)[OF this(1)] show ?thesis
        by (auto simp: guard_fresh_def current_leave_def Let_def)
    qed
  qed
  then show "guard_fresh L s'" "db_committed (ng_db s') = db_committed (ng_db s)"
    "r = Ok ?M \<or> (\<exists>e. r = Inl e) \<and> db_next_faults (ng_db s) \<and> gd_matcher (ng_guard s) = None" by simp_all
qed

text \<open>\<open>Screen\<close> does not panic, blocks when a text has a registered word, and writes hits only.\<close>

lemma RecordNGWordHit_registered:
  assumes "RecordNGWordHit h w = (r, w')" "db_tx w = None"
  shows "registered_words (db_committed w') = registered_words (db_committed w)" "db_tx w' = None"
proof -
  have "registered_words (db_committed w') = registered_words (db_committed w) \<and> db_tx w' = None"
    using assms(1)[unfolded RecordNGWordHit_def] assms(2)
  proof (cases rule: poolCall_cases)
    case (1 e)
    then show ?thesis by simp
  next
    case (2 x)
    from 2(2) have "tb_ng_words (db_committed w') = tb_ng_words (db_committed w)"
      by (simp split: if_split_asm) (drule sym, simp)
    with 2(3) show ?thesis by (simp add: registered_words_def)
  qed
  then show "registered_words (db_committed w') = registered_words (db_committed w)" "db_tx w' = None" by simp_all
qed

lemma guard_fresh_hit:
  assumes "onNgDb (RecordNGWordHit h) s = (r, s')" "guard_fresh L s"
  shows "guard_fresh L s'"
proof -
  obtain q w where run: "RecordNGWordHit h (ng_db s) = (q, w)" by fastforce
  with assms RecordNGWordHit_registered[OF run] show ?thesis by (auto simp: guard_fresh_def onNgDb_def)
qed

lemma mask_all_Some: "lib_ok L \<Longrightarrow> mask_all L m ts \<noteq> None"
proof (induction ts)
  case (Cons t ts)
  with Mask_pieces[of L m t] show ?case by auto
qed simp

lemma screen_each_run:
  assumes "screen_each L m userID roomID source texts ts s = (r, s')" "lib_ok L" "guard_fresh L s"
  shows "guard_fresh L s' \<and>
    (if \<exists>t\<in>set ts. Match L m t \<noteq> None then \<exists>masked. r = Ok (Some masked) else r = Ok None)"
  using assms(1)
proof (induction ts)
  case Nil
  with assms(3) show ?case by (simp add: ret_def)
next
  case (Cons t ts)
  show ?case
  proof (cases "Match L m t")
    case None
    with Cons show ?thesis by simp
  next
    case (Some hit)
    obtain masked where masked: "mask_all L m texts = Some masked" using mask_all_Some[OF assms(2)] by blast
    let ?h = "\<lparr>nh_NGWordID = Some (nw_ID hit), nh_Pattern = nw_Pattern hit, nh_UserID = userID,
        nh_RoomID = roomID, nh_Source = source, nh_CreatedAt = db_now (ng_db s)\<rparr>"
    obtain q v where rec: "onNgDb (RecordNGWordHit ?h) s = (q, v)" by fastforce
    have "onNgDb nowP s = (Ok (db_now (ng_db s)), s)" by (simp add: onNgDb_def nowP_def)
    with Cons.prems Some masked rec have "r = Ok (Some masked)" "s' = v"
      by (auto simp: tryP_def bindP_def ret_def)
    with guard_fresh_hit[OF rec assms(3)] Some show ?thesis by auto
  qed
qed

lemma Screen_run:
  assumes "Screen L userID roomID source texts s = (r, s')" "lib_ok L" "guard_fresh L s"
  shows "guard_fresh L s' \<and>
    (case r of
       Inl e \<Rightarrow> False
     | Inr None \<Rightarrow> (\<forall>t\<in>set texts. \<not> forbidden L (db_committed (ng_db s)) t) \<or>
         db_next_faults (ng_db s) \<and> gd_matcher (ng_guard s) = None
     | Inr (Some masked) \<Rightarrow> \<exists>t\<in>set texts. forbidden L (db_committed (ng_db s)) t)"
proof -
  obtain q v where cur: "current L s = (q, v)" by fastforce
  note fresh = current_fresh[OF cur assms(3)]
  show ?thesis
  proof (cases q)
    case (Inl e)
    with assms(1) cur fresh show ?thesis by (auto simp: Screen_def tryP_def ret_def)
  next
    case (Inr m)
    with fresh(3) have m: "m = NewNGWordMatcher L (registered_words (db_committed (ng_db s)))" by auto
    from assms(1) cur Inr have "screen_each L m userID roomID source texts texts v = (r, s')"
      by (simp add: Screen_def tryP_def)
    from screen_each_run[OF this assms(2) fresh(1)] show ?thesis
      unfolding m Match_forbidden by (auto split: if_splits)
  qed
qed

section \<open>Administrators and users, one after the other\<close>

datatype ng_op =
    NgCreate request_ctx string string
  | NgDelete request_ctx int
  | NgScreen "claims option" "int option" string "string list"

definition run_ng_op ::
  "'re text_lib \<Rightarrow> (string \<Rightarrow> string) \<Rightarrow> ng_op \<Rightarrow> (('o, 're) ng_state, unit) proc" where
  "run_ng_op L C op =
     (case op of
        NgCreate ctx pattern matchType \<Rightarrow> bindP (AdminCreate L C ctx pattern matchType) (\<lambda>_. ret ())
      | NgDelete ctx i \<Rightarrow> bindP (AdminDelete ctx i) (\<lambda>_. ret ())
      | NgScreen claims roomID source texts \<Rightarrow> bindP (ng_ScreenFor L claims roomID source texts) (\<lambda>_. ret ()))"

definition at_time :: "int \<Rightarrow> ('o, 're) ng_state \<Rightarrow> ('o, 're) ng_state" where
  "at_time now s = s\<lparr>ng_db := (ng_db s)\<lparr>db_now := now\<rparr>\<rparr>"

definition run_ng ::
  "'re text_lib \<Rightarrow> (string \<Rightarrow> string) \<Rightarrow> (ng_op \<times> int) list \<Rightarrow> ('o, 're) ng_state \<Rightarrow> ('o, 're) ng_state" where
  "run_ng L C ops s = fold (\<lambda>(op, now) s. snd (run_ng_op L C op (at_time now s))) ops s"

definition exempt :: "claims option \<Rightarrow> bool" where
  "exempt claims \<longleftrightarrow> (case claims of None \<Rightarrow> True | Some c \<Rightarrow> IsAdminRole (cl_Role c))"

lemma guard_fresh_time [simp]: "guard_fresh L (at_time now s) = guard_fresh L s"
  by (simp add: guard_fresh_def at_time_def)

text \<open>A change that fails leaves the words alone, one that succeeds empties the cache.\<close>

lemma change_fresh:
  assumes "onNgDb (poolCall stmt) s = (r, s')" "guard_fresh L s"
  shows "(r = Inl e \<longrightarrow> guard_fresh L s') \<and> guard_fresh L (s'\<lparr>ng_guard := guard_Invalidate (ng_guard s')\<rparr>)"
proof -
  obtain q w where run: "poolCall stmt (ng_db s) = (q, w)" by fastforce
  from assms(2) have tx: "db_tx (ng_db s) = None" by (simp add: guard_fresh_def)
  show ?thesis
    using assms run
    by (rule_tac poolCall_cases[OF run tx]; auto simp: onNgDb_def guard_fresh_def guard_Invalidate_def)
qed

lemma run_ng_op_fresh:
  assumes "lib_ok L" "guard_fresh L s" "run_ng_op L C op s = (r, s')"
  shows "guard_fresh L s'"
proof (cases op)
  case (NgCreate ctx pattern matchType)
  have now: "onNgDb nowP s = (Ok (db_now (ng_db s)), s)" by (simp add: onNgDb_def nowP_def)
  show ?thesis
  proof (cases "RequireAdmin ctx")
    case (Inl e)
    with assms(2,3) show ?thesis by (simp add: NgCreate run_ng_op_def AdminCreate_def bindP_def liftR_def)
  next
    case admin: (Inr claims)
    show ?thesis
    proof (cases "NewNGWord L pattern matchType (db_now (ng_db s))")
      case (Inl e)
      with admin now assms(2,3) show ?thesis by (simp add: NgCreate run_ng_op_def AdminCreate_def bindP_def liftR_def)
    next
      case (Inr w)
      obtain q v where run: "onNgDb (CreateNGWord C w MaxNGWords) s = (q, v)" by fastforce
      note ch = change_fresh[OF this[unfolded CreateNGWord_def] assms(2)]
      show ?thesis
      proof (cases q)
        case (Inl e)
        with admin Inr now run ch assms(3) show ?thesis
          by (auto simp: NgCreate run_ng_op_def AdminCreate_def bindP_def liftR_def tryP_def throw_def split: if_splits)
      next
        case ok: (Inr i)
        with admin Inr now run ch assms(3) show ?thesis
          by (auto simp: NgCreate run_ng_op_def AdminCreate_def bindP_def liftR_def tryP_def Invalidate_def ret_def)
      qed
    qed
  qed
next
  case (NgDelete ctx i)
  obtain q v where run: "onNgDb (DeleteNGWord i) s = (q, v)" by fastforce
  from change_fresh[OF this[unfolded DeleteNGWord_def] assms(2)] assms(2,3) run show ?thesis
    by (cases q; cases "RequireAdmin ctx")
       (auto simp: NgDelete run_ng_op_def AdminDelete_def bindP_def Invalidate_def ret_def liftR_def)
next
  case (NgScreen claims roomID source texts)
  show ?thesis
  proof (cases "exempt claims")
    case True
    with assms(2,3) show ?thesis
      by (auto simp: NgScreen run_ng_op_def ng_ScreenFor_def exempt_def ret_def bindP_def split: option.splits)
  next
    case False
    then obtain c where c: "claims = Some c" "\<not> IsAdminRole (cl_Role c)" by (auto simp: exempt_def split: option.splits)
    obtain q v where run: "Screen L (cl_ID c) roomID source texts s = (q, v)" by fastforce
    from Screen_run[OF run assms(1,2)] run assms(3) c show ?thesis
      by (cases q) (auto simp: NgScreen run_ng_op_def ng_ScreenFor_def ret_def bindP_def)
  qed
qed

lemma run_ng_fresh:
  assumes "lib_ok L" "guard_fresh L s"
  shows "guard_fresh L (run_ng L C ops s)"
  using assms(2)
proof (induction ops arbitrary: s)
  case (Cons q ops)
  obtain op now where q: "q = (op, now)" by (cases q) auto
  obtain r v where run: "run_ng_op L C op (at_time now s) = (r, v)" by fastforce
  from run_ng_op_fresh[OF assms(1) _ run] Cons.prems have "guard_fresh L v" by simp
  from Cons.IH[OF this] show ?case by (simp add: run_ng_def q run)
qed (simp add: run_ng_def)


text \<open>An administrator registers two words and takes back the first one; a student tries both.\<close>

definition ng_claims :: "int \<Rightarrow> string \<Rightarrow> claims" where
  "ng_claims i role = \<lparr>cl_ID = i, cl_Role = role, cl_TokenType = [], cl_CredentialsVersion = None, cl_ExpiresAt = 0\<rparr>"

definition ng_admin :: request_ctx where
  "ng_admin = \<lparr>ctx_claims = Some (ng_claims 1 ''admin''), ctx_token = None\<rparr>"

definition ng_world :: "(unit, unit) ng_state" where
  "ng_world = \<lparr>ng_db = \<lparr>db_now = 0, db_committed = no_tables, db_tx = None, db_faults = [], db_out = ()\<rparr>,
     ng_guard = new_guard\<rparr>"

definition ng_ops :: "(ng_op \<times> int) list" where
  "ng_ops = [(NgCreate ng_admin ''Foo'' NGWordMatchWord, 1), (NgCreate ng_admin '' bar '' NGWordMatchWord, 2),
     (NgScreen (Some (ng_claims 7 ''user'')) None ''message'' [''hello''], 3), (NgDelete ng_admin 1, 4)]"


end
