(* ===== verification/Course_Store.thy ===== *)
theory Course_Store
  imports Chat_Access Db_Logic
begin

text \<open>
  The courses and the timetables: infra/mysql/course_repository.go and timetable_repository.go with the use cases of
  usecase/timetable and the course administration of usecase/course. Every course has a chat room, which goes with
  it. A timetable has one course for each slot; writing into it takes locks on the courses, so that the
  synchronisation of Course_Sync and it come one after the other.

  \<open>D\<close> says which errors of the driver are a deadlock. Texts of courses are compared byte by byte.
\<close>

section \<open>Courses: infra/mysql/course_repository.go\<close>

text \<open>\<open>courseRow.course\<close>; \<open>NULL\<close> is read as the empty string, and \<open>nullString\<close> writes it back.\<close>

definition course_of_row :: "course_row \<Rightarrow> course" where
  "course_of_row r =
     \<lparr>c_ID = courses_id r, c_RoomID = courses_room_id r, c_DayOfWeek = courses_day_of_week r,
      c_Period = courses_period r, c_TeacherName = courses_teacher_name r, c_CourseName = courses_course_name r,
      c_Year = courses_year r, c_Semester = courses_semester r, c_DedupKey = courses_dedup_key r,
      c_Source = courses_source r,
      c_SourceRef = (case courses_source_ref r of None \<Rightarrow> [] | Some s \<Rightarrow> s),
      c_SourceName = (case courses_source_name r of None \<Rightarrow> [] | Some s \<Rightarrow> s),
      c_DiscontinuedAt = courses_discontinued_at r\<rparr>"

definition nullString :: "string \<Rightarrow> string option" where
  "nullString s = (if s = [] then None else Some s)"

definition find_course :: "tables \<Rightarrow> int \<Rightarrow> course_row option" where
  "find_course t i = List.find (\<lambda>c. courses_id c = i) (tb_courses t)"

definition GetCourseByID :: "int \<Rightarrow> ('o db, course option) proc" where
  "GetCourseByID i = dbQuery (\<lambda>t. map_option course_of_row (find_course t i))"

definition FindByDedupKey :: "string \<Rightarrow> ('o db, course option) proc" where
  "FindByDedupKey key =
     dbQuery (\<lambda>t. map_option course_of_row (List.find (\<lambda>c. courses_dedup_key c = key) (tb_courses t)))"

definition ListDistinctYears :: "('o db, int list) proc" where
  "ListDistinctYears = poolQuery (\<lambda>t. rev (sort (remdups (map courses_year (tb_courses t)))))"

definition ListDedupKeysByYear :: "int \<Rightarrow> ('o db, string set) proc" where
  "ListDedupKeysByYear year =
     poolQuery (\<lambda>t. set [courses_dedup_key c. c \<leftarrow> tb_courses t, courses_year c = year])"

record save_course_param =
  sc_DayOfWeek :: string
  sc_Period :: int
  sc_TeacherName :: string
  sc_CourseName :: string
  sc_Year :: int
  sc_Semester :: string
  sc_DedupKey :: string
  sc_Source :: string
  sc_SourceRef :: string
  sc_SourceName :: string

text \<open>\<open>dedup_key\<close> is unique; a statement that would break this is refused.\<close>

definition unique_keys :: "tables \<Rightarrow> bool" where
  "unique_keys t \<longleftrightarrow> distinct (map courses_dedup_key (tb_courses t))"

definition unique_or_refused :: "'a \<Rightarrow> tables \<Rightarrow> tables \<Rightarrow> 'a result \<times> tables" where
  "unique_or_refused x t' t = (if unique_keys t' then (Ok x, t') else (Err constraint_error, t))"

text \<open>The IDs of the rows that one statement inserts.\<close>

definition fresh_ids :: "tables \<Rightarrow> nat \<Rightarrow> int list" where
  "fresh_ids t n = map (\<lambda>i. tb_next_id t + int i) [0..<n]"

definition insert_course_rooms :: "int \<Rightarrow> string list \<Rightarrow> tables \<Rightarrow> int list result \<times> tables" where
  "insert_course_rooms now names t =
     (let ids = fresh_ids t (length names) in
      (Ok ids,
       t\<lparr>tb_next_id := tb_next_id t + int (length names),
         tb_rooms := tb_rooms t @ map (\<lambda>(i, name).
           \<lparr>rooms_id = i, rooms_name = name, rooms_type = RoomTypeCourse, rooms_created_at = now,
            rooms_updated_at = now, rooms_parent_room_id = None\<rparr>) (zip ids names)\<rparr>))"

definition course_row_of :: "int \<Rightarrow> int \<Rightarrow> int \<Rightarrow> save_course_param \<Rightarrow> course_row" where
  "course_row_of now i roomID p =
     \<lparr>courses_id = i, courses_room_id = roomID, courses_year = sc_Year p, courses_semester = sc_Semester p,
      courses_day_of_week = sc_DayOfWeek p, courses_period = sc_Period p, courses_teacher_name = sc_TeacherName p,
      courses_course_name = sc_CourseName p, courses_dedup_key = sc_DedupKey p, courses_source = sc_Source p,
      courses_source_ref = nullString (sc_SourceRef p), courses_source_name = nullString (sc_SourceName p),
      courses_discontinued_at = None, courses_created_at = now, courses_updated_at = now\<rparr>"

definition insert_courses :: "int \<Rightarrow> (int \<times> save_course_param) list \<Rightarrow> tables \<Rightarrow> int list result \<times> tables" where
  "insert_courses now rows t =
     (let ids = fresh_ids t (length rows) in
      unique_or_refused ids
        (t\<lparr>tb_next_id := tb_next_id t + int (length rows),
           tb_courses := tb_courses t @ map (\<lambda>(i, roomID, p). course_row_of now i roomID p) (zip ids rows)\<rparr>) t)"

definition courseRoomInsertColumns :: int where
  "courseRoomInsertColumns = 4"

definition courseInsertColumns :: int where
  "courseInsertColumns = 13"

text \<open>\<open>saveCoursesWithRooms\<close>: the rooms first, then the courses; the result is the IDs of the courses.\<close>

definition saveCoursesWithRooms :: "int \<Rightarrow> save_course_param list \<Rightarrow> ('o db, int list) proc" where
  "saveCoursesWithRooms now ps =
     bindP (inChunksCollect ps courseRoomInsertColumns
              (\<lambda>chunk. dbCall (insert_course_rooms now (map sc_CourseName chunk)))) (\<lambda>rooms.
     inChunksCollect (zip rooms ps) courseInsertColumns (\<lambda>chunk. dbCall (insert_courses now chunk)))"

definition SaveCoursesWithRooms :: "save_course_param list \<Rightarrow> ('o db, int list) proc" where
  "SaveCoursesWithRooms ps =
     (if ps = [] then ret [] else bindP nowP (\<lambda>now. inTx (saveCoursesWithRooms now ps)))"

definition SaveCourseWithRoom :: "save_course_param \<Rightarrow> ('o db, course) proc" where
  "SaveCourseWithRoom p =
     runInTx (bindP nowP (\<lambda>now.
       bindP (dbCall (insert_course_rooms now [sc_CourseName p])) (\<lambda>rooms.
       bindP (dbCall (insert_courses now (zip rooms [p]))) (\<lambda>ids.
       ret (course_of_row (course_row_of now (hd ids) (hd rooms) p))))))"

section \<open>Administration: usecase/course\<close>

text \<open>The days from Monday to Saturday.\<close>

definition validDaysOfWeek :: "string list" where
  "validDaysOfWeek =
     map utf8 [[0xE6, 0x9C, 0x88], [0xE7, 0x81, 0xAB], [0xE6, 0xB0, 0xB4], [0xE6, 0x9C, 0xA8], [0xE9, 0x87, 0x91],
               [0xE5, 0x9C, 0x9F]]"

definition isValidSemester :: "string \<Rightarrow> bool" where
  "isValidSemester s \<longleftrightarrow> s = SemesterFirst \<or> s = SemesterSecond \<or> s = SemesterFull"

record admin_create_course_param =
  ac_DayOfWeek :: string
  ac_Period :: int
  ac_TeacherName :: string
  ac_CourseName :: string
  ac_Year :: int
  ac_Semester :: string

definition AdminCreateCourse :: "string \<Rightarrow> request_ctx \<Rightarrow> admin_create_course_param \<Rightarrow> ('o db, course) proc" where
  "AdminCreateCourse uuid ctx p =
     bindP (liftR (RequireAdmin ctx)) (\<lambda>_.
     bindP (guardP (ac_DayOfWeek p \<in> set validDaysOfWeek) (InvalidInput ''no such day'')) (\<lambda>_.
     bindP (guardP (1 \<le> ac_Period p \<and> ac_Period p \<le> 7) (InvalidInput ''a period is between 1 and 7'')) (\<lambda>_.
     bindP (guardP (isValidSemester (ac_Semester p)) (InvalidInput ''no such semester'')) (\<lambda>_.
     bindP (guardP (ac_TeacherName p \<noteq> [] \<and> ac_CourseName p \<noteq> [])
              (InvalidInput ''a course has a teacher and a name'')) (\<lambda>_.
     SaveCourseWithRoom
       \<lparr>sc_DayOfWeek = ac_DayOfWeek p, sc_Period = ac_Period p, sc_TeacherName = ac_TeacherName p,
        sc_CourseName = ac_CourseName p, sc_Year = ac_Year p, sc_Semester = ac_Semester p,
        sc_DedupKey = ''manual:'' @ uuid, sc_Source = ''manual'', sc_SourceRef = [], sc_SourceName = []\<rparr>)))))"

text \<open>The course and its timetable entries go with the room (\<open>cascade_rooms\<close>).\<close>

definition AdminDeleteCourse :: "request_ctx \<Rightarrow> int \<Rightarrow> ('o db, bool) proc" where
  "AdminDeleteCourse ctx courseID =
     bindP (liftR (RequireAdmin ctx)) (\<lambda>_.
     bindP (GetCourseByID courseID) (\<lambda>c. case c of
       None \<Rightarrow> throw (NotFound ''no such course'')
     | Some c \<Rightarrow> DeleteRoom (c_RoomID c)))"

definition CountByCourseID :: "int \<Rightarrow> ('o db, int) proc" where
  "CountByCourseID courseID =
     poolQuery (\<lambda>t. int (length (filter (\<lambda>e. timetables_course_id e = courseID) (tb_timetables t))))"

definition GetCourseRegisteredCount :: "request_ctx \<Rightarrow> int \<Rightarrow> ('o db, int) proc" where
  "GetCourseRegisteredCount ctx courseID = bindP (liftR (RequireAdmin ctx)) (\<lambda>_. CountByCourseID courseID)"

definition GetCourse :: "request_ctx \<Rightarrow> int \<Rightarrow> ('o db, course option) proc" where
  "GetCourse ctx i = bindP (liftR (RequireAuth ctx)) (\<lambda>_. GetCourseByID i)"

section \<open>Timetables: infra/mysql/timetable_repository.go\<close>

definition ErrTimetableConflict :: go_error where
  "ErrTimetableConflict = Errorf ''timetable entries changed since baseline was loaded''"

definition ErrTimetableSlotConflict :: go_error where
  "ErrTimetableSlotConflict = Errorf ''desired courses contain a duplicate day/period slot''"

definition ErrCourseDiscontinued :: go_error where
  "ErrCourseDiscontinued = Errorf ''the course has been discontinued''"

definition TimetableEntryColorDefault :: string where
  "TimetableEntryColorDefault = ''BLUE''"

text \<open>\<open>retryOnDeadlock\<close> of infra/mysql/errors.go: at most \<open>deadlockRetries\<close> attempts.\<close>

definition deadlockRetries :: nat where
  "deadlockRetries = 3"

fun retry_attempts :: "(go_error \<Rightarrow> bool) \<Rightarrow> nat \<Rightarrow> ('s, 'a) proc \<Rightarrow> ('s, 'a) proc" where
  "retry_attempts D 0 fn = fn"
| "retry_attempts D (Suc n) fn =
     tryP fn (\<lambda>r. case r of
       Inl e \<Rightarrow> if D e then retry_attempts D n fn else throw e
     | Inr x \<Rightarrow> ret x)"

definition retryOnDeadlock :: "(go_error \<Rightarrow> bool) \<Rightarrow> ('s, 'a) proc \<Rightarrow> ('s, 'a) proc" where
  "retryOnDeadlock D fn = retry_attempts D (deadlockRetries - 1) fn"

text \<open>The same year, day and period, and semesters that overlap.\<close>

definition overlapping :: "course_row \<Rightarrow> course_row \<Rightarrow> bool" where
  "overlapping c d \<longleftrightarrow>
     courses_year d = courses_year c \<and> courses_day_of_week d = courses_day_of_week c \<and>
     courses_period d = courses_period c \<and>
     (courses_semester d = courses_semester c \<or> courses_semester d = SemesterFull \<or> courses_semester c = SemesterFull)"

definition delete_entries_where :: "(timetable_row \<Rightarrow> bool) \<Rightarrow> tables \<Rightarrow> tables" where
  "delete_entries_where P t = t\<lparr>tb_timetables := filter (\<lambda>e. \<not> P e) (tb_timetables t)\<rparr>"

text \<open>\<open>timetables t JOIN courses c ON t.course_id = c.id\<close>, the condition on the course.\<close>

definition entry_course :: "tables \<Rightarrow> (course_row \<Rightarrow> bool) \<Rightarrow> timetable_row \<Rightarrow> bool" where
  "entry_course t P e = list_ex (\<lambda>c. courses_id c = timetables_course_id e \<and> P c) (tb_courses t)"

definition new_entries :: "int \<Rightarrow> int \<Rightarrow> int list \<Rightarrow> tables \<Rightarrow> timetable_row list" where
  "new_entries now userID courseIDs t =
     map (\<lambda>(i, courseID).
       \<lparr>timetables_id = i, timetables_user_id = userID, timetables_course_id = courseID,
        timetables_color = TimetableEntryColorDefault, timetables_created_at = now, timetables_updated_at = now\<rparr>)
       (zip (fresh_ids t (length courseIDs)) courseIDs)"

text \<open>The foreign keys, and the unique key of user and course.\<close>

definition insert_entries :: "int \<Rightarrow> int \<Rightarrow> int list \<Rightarrow> tables \<Rightarrow> timetable_row list result \<times> tables" where
  "insert_entries now userID courseIDs t =
     (if has_account t userID \<and> list_all (\<lambda>i. find_course t i \<noteq> None \<and> \<not> registered t userID i) courseIDs \<and>
         distinct courseIDs
      then (let es = new_entries now userID courseIDs t in
            (Ok es, t\<lparr>tb_next_id := tb_next_id t + int (length courseIDs), tb_timetables := tb_timetables t @ es\<rparr>))
      else (Err constraint_error, t))"

definition ErrNoRows :: go_error where
  "ErrNoRows = Errorf ''sql: no rows in result set''"

definition upsert :: "int \<Rightarrow> int \<Rightarrow> ('o db, timetable_row) proc" where
  "upsert userID courseID =
     runInTx (
       bindP (dbQuery (\<lambda>t. find_course t courseID)) (\<lambda>found. case found of
         None \<Rightarrow> throw ErrNoRows
       | Some c \<Rightarrow>
           bindP (guardP (courses_discontinued_at c = None) ErrCourseDiscontinued) (\<lambda>_.
           bindP (dbExec (\<lambda>t. delete_entries_where
                    (\<lambda>e. timetables_user_id e = userID \<and> entry_course t (overlapping c) e) t)) (\<lambda>_.
           bindP nowP (\<lambda>now.
           bindP (dbCall (insert_entries now userID [courseID])) (\<lambda>es. ret (hd es)))))))"

definition Upsert :: "(go_error \<Rightarrow> bool) \<Rightarrow> int \<Rightarrow> int \<Rightarrow> ('o db, timetable_row) proc" where
  "Upsert D userID courseID = retryOnDeadlock D (upsert userID courseID)"

definition tt_Remove :: "int \<Rightarrow> int \<Rightarrow> ('o db, bool) proc" where
  "tt_Remove i userID = poolCall (\<lambda>t.
     let hit = (\<lambda>e. timetables_id e = i \<and> timetables_user_id e = userID) in
     (Ok (list_ex hit (tb_timetables t)), delete_entries_where hit t))"

text \<open>The connection does not ask for the matched rows, so the number of affected rows is the number of rows that
  have changed: an entry that has the color already, and was changed in the same second, does not count.\<close>

definition tt_SetColor :: "int \<Rightarrow> int \<Rightarrow> string \<Rightarrow> ('o db, timetable_row option) proc" where
  "tt_SetColor i userID color =
     bindP nowP (\<lambda>now.
     bindP (poolCall (\<lambda>t.
       let hit = (\<lambda>e. timetables_id e = i \<and> timetables_user_id e = userID) in
       (Ok (list_ex (\<lambda>e. hit e \<and> (timetables_color e \<noteq> color \<or> timetables_updated_at e \<noteq> now)) (tb_timetables t)),
        t\<lparr>tb_timetables := map (\<lambda>e. if hit e then e\<lparr>timetables_color := color, timetables_updated_at := now\<rparr> else e)
            (tb_timetables t)\<rparr>))) (\<lambda>changed.
     bindP (guardP changed ErrNoRows) (\<lambda>_.
     poolQuery (\<lambda>t. List.find (\<lambda>e. timetables_id e = i \<and> timetables_user_id e = userID) (tb_timetables t)))))"

text \<open>\<open>FIELD(c.day_of_week, ...)\<close>: the position in the list, 0 for what is not in it.\<close>

fun position_in :: "'a list \<Rightarrow> 'a \<Rightarrow> int" where
  "position_in [] x = 0"
| "position_in (y # ys) x = (if x = y then 1 else (let n = position_in ys x in if n = 0 then 0 else n + 1))"

definition entries_in_view :: "tables \<Rightarrow> int \<Rightarrow> int \<Rightarrow> string \<Rightarrow> (timetable_row \<times> course_row) list" where
  "entries_in_view t userID year semesterName =
     [(e, c). e \<leftarrow> tb_timetables t, timetables_user_id e = userID,
              c \<leftarrow> tb_courses t, courses_id c = timetables_course_id e, inSemester c year semesterName]"

definition ListByUser :: "int \<Rightarrow> int \<Rightarrow> string \<Rightarrow> ('o db, (timetable_row \<times> course) list) proc" where
  "ListByUser userID year semesterName = poolQuery (\<lambda>t.
     map (\<lambda>(e, c). (e, course_of_row c))
       (sort_key (\<lambda>(e, c). (position_in validDaysOfWeek (courses_day_of_week c), courses_period c))
          (entries_in_view t userID year semesterName)))"

text \<open>The slots of the listed courses, as \<open>checkNoSlotConflicts\<close> reads them: day and period of each row once.\<close>

definition slots_of :: "tables \<Rightarrow> int list \<Rightarrow> (string \<times> int) list" where
  "slots_of t ids = [(courses_day_of_week c, courses_period c). c \<leftarrow> tb_courses t, courses_id c \<in> set ids]"

definition checkNoSlotConflicts :: "int list \<Rightarrow> ('o db, unit) proc" where
  "checkNoSlotConflicts ids =
     (if ids = [] then ret ()
      else bindP (dbQuery (\<lambda>t. slots_of t ids)) (\<lambda>slots. guardP (distinct slots) ErrTimetableSlotConflict))"

definition checkNotDiscontinued :: "int list \<Rightarrow> ('o db, unit) proc" where
  "checkNotDiscontinued ids =
     bindP (inChunksCollect ids 1 (\<lambda>chunk. dbQuery (\<lambda>t.
       [courses_id c. c \<leftarrow> tb_courses t, courses_discontinued_at c \<noteq> None, courses_id c \<in> set chunk]))) (\<lambda>found.
     guardP (found = []) ErrCourseDiscontinued)"

definition timetableInsertColumns :: int where
  "timetableInsertColumns = 5"

definition LockCourses :: "int list \<Rightarrow> ('o db, unit) proc" where
  "LockCourses ids = inChunks (sort ids) 1 (\<lambda>chunk. dbQuery (\<lambda>_. ()))"

definition replaceForSemester :: "int \<Rightarrow> int \<Rightarrow> string \<Rightarrow> int list \<Rightarrow> int list \<Rightarrow> ('o db, unit) proc" where
  "replaceForSemester userID year semesterName baseline desired =
     runInTx (
       bindP (LockCourses desired) (\<lambda>_.
       bindP (dbQuery (\<lambda>t. map (\<lambda>(e, c). (timetables_id e, timetables_course_id e))
                (entries_in_view t userID year semesterName))) (\<lambda>cur.
       bindP (guardP (length cur = length baseline \<and> set baseline \<subseteq> fst ` set cur) ErrTimetableConflict) (\<lambda>_.
       bindP (checkNoSlotConflicts desired) (\<lambda>_.
       let removed = map fst (filter (\<lambda>(i, c). c \<notin> set desired) cur);
           added = filter (\<lambda>c. c \<notin> snd ` set cur) desired in
       bindP (checkNotDiscontinued added) (\<lambda>_.
       bindP (inChunks removed 1 (\<lambda>chunk. dbExec (delete_entries_where (\<lambda>e. timetables_id e \<in> set chunk)))) (\<lambda>_.
       bindP nowP (\<lambda>now.
       inChunks added timetableInsertColumns (\<lambda>chunk.
         bindP (dbCall (insert_entries now userID chunk)) (\<lambda>_. ret ()))))))))))"

definition ReplaceForSemester ::
  "(go_error \<Rightarrow> bool) \<Rightarrow> int \<Rightarrow> int \<Rightarrow> string \<Rightarrow> int list \<Rightarrow> int list
     \<Rightarrow> ('o db, (timetable_row \<times> course) list) proc" where
  "ReplaceForSemester D userID year semesterName baseline desired =
     bindP (retryOnDeadlock D (replaceForSemester userID year semesterName baseline desired)) (\<lambda>_.
     ListByUser userID year semesterName)"

definition ListRegistrantIDsByCourseRoomID :: "int \<Rightarrow> ('o db, int list) proc" where
  "ListRegistrantIDsByCourseRoomID roomID = poolQuery (\<lambda>t.
     [timetables_user_id e. e \<leftarrow> tb_timetables t, entry_course t (\<lambda>c. courses_room_id c = roomID) e])"

section \<open>Use cases: usecase/timetable\<close>

definition discontinued_message :: go_error where
  "discontinued_message = InvalidInput ''a discontinued course cannot be registered anew''"

definition register_as :: "(go_error \<Rightarrow> bool) \<Rightarrow> int \<Rightarrow> int \<Rightarrow> ('o db, timetable_row) proc" where
  "register_as D userID courseID =
     tryP (Upsert D userID courseID) (\<lambda>r. case r of
       Inl e \<Rightarrow> throw (if e = ErrCourseDiscontinued then discontinued_message else e)
     | Inr x \<Rightarrow> ret x)"

definition RegisterTimetable :: "(go_error \<Rightarrow> bool) \<Rightarrow> request_ctx \<Rightarrow> int \<Rightarrow> ('o db, timetable_row) proc" where
  "RegisterTimetable D ctx courseID =
     bindP (liftR (RequireAuth ctx)) (\<lambda>claims. register_as D (cl_ID claims) courseID)"

definition AdminRegisterTimetable ::
  "(go_error \<Rightarrow> bool) \<Rightarrow> request_ctx \<Rightarrow> int \<Rightarrow> int \<Rightarrow> ('o db, timetable_row) proc" where
  "AdminRegisterTimetable D ctx userID courseID =
     bindP (liftR (RequireAdmin ctx)) (\<lambda>_. register_as D userID courseID)"

definition RemoveTimetable :: "request_ctx \<Rightarrow> int \<Rightarrow> ('o db, bool) proc" where
  "RemoveTimetable ctx i = bindP (liftR (RequireAuth ctx)) (\<lambda>claims. tt_Remove i (cl_ID claims))"

definition AdminRemoveTimetable :: "request_ctx \<Rightarrow> int \<Rightarrow> int \<Rightarrow> ('o db, bool) proc" where
  "AdminRemoveTimetable ctx i userID = bindP (liftR (RequireAdmin ctx)) (\<lambda>_. tt_Remove i userID)"

definition SetTimetableEntryColor :: "request_ctx \<Rightarrow> int \<Rightarrow> string \<Rightarrow> ('o db, timetable_row option) proc" where
  "SetTimetableEntryColor ctx i color =
     bindP (liftR (RequireAuth ctx)) (\<lambda>claims. tt_SetColor i (cl_ID claims) color)"

definition AdminSetTimetableEntryColor ::
  "request_ctx \<Rightarrow> int \<Rightarrow> int \<Rightarrow> string \<Rightarrow> ('o db, timetable_row option) proc" where
  "AdminSetTimetableEntryColor ctx i userID color =
     bindP (liftR (RequireAdmin ctx)) (\<lambda>_. tt_SetColor i userID color)"

definition replace_error :: "go_error \<Rightarrow> go_error" where
  "replace_error e =
     (if e = ErrTimetableConflict then Conflict ''the timetable was changed elsewhere''
      else if e = ErrTimetableSlotConflict then InvalidInput ''one course for each slot''
      else if e = ErrCourseDiscontinued then discontinued_message
      else e)"

definition replace_as ::
  "(go_error \<Rightarrow> bool) \<Rightarrow> int \<Rightarrow> int \<Rightarrow> string \<Rightarrow> int list \<Rightarrow> int list
     \<Rightarrow> ('o db, (timetable_row \<times> course) list) proc" where
  "replace_as D userID year semesterName baseline desired =
     tryP (ReplaceForSemester D userID year semesterName baseline desired) (\<lambda>r. case r of
       Inl e \<Rightarrow> throw (replace_error e)
     | Inr x \<Rightarrow> ret x)"

definition ReplaceTimetable ::
  "(go_error \<Rightarrow> bool) \<Rightarrow> request_ctx \<Rightarrow> int \<Rightarrow> string \<Rightarrow> int list \<Rightarrow> int list
     \<Rightarrow> ('o db, (timetable_row \<times> course) list) proc" where
  "ReplaceTimetable D ctx year semesterName baseline desired =
     bindP (liftR (RequireAuth ctx)) (\<lambda>claims. replace_as D (cl_ID claims) year semesterName baseline desired)"

definition AdminReplaceTimetable ::
  "(go_error \<Rightarrow> bool) \<Rightarrow> request_ctx \<Rightarrow> int \<Rightarrow> int \<Rightarrow> string \<Rightarrow> int list \<Rightarrow> int list
     \<Rightarrow> ('o db, (timetable_row \<times> course) list) proc" where
  "AdminReplaceTimetable D ctx userID year semesterName baseline desired =
     bindP (liftR (RequireAdmin ctx)) (\<lambda>_. replace_as D userID year semesterName baseline desired)"

definition ListTimetable ::
  "request_ctx \<Rightarrow> int option \<Rightarrow> string option \<Rightarrow> ('o db, (timetable_row \<times> course) list) proc" where
  "ListTimetable ctx year semesterName =
     bindP (liftR (RequireAuth ctx)) (\<lambda>claims.
     case (year, semesterName) of
       (Some y, Some s) \<Rightarrow> ListByUser (cl_ID claims) y s
     | _ \<Rightarrow> bindP GetSemester (\<lambda>(y, s). ListByUser (cl_ID claims) y s))"

section \<open>Whose timetable is shown: usecase/user_settings, usecase/timetable/get_user_timetable.go\<close>

text \<open>infra/mysql/user_setting_repository.go.\<close>

definition us_Get :: "int \<Rightarrow> string \<Rightarrow> ('o db, string option) proc" where
  "us_Get userID key = poolQuery (\<lambda>t. map_of (tb_user_settings t) (userID, key))"

definition us_Set :: "int \<Rightarrow> string \<Rightarrow> string \<Rightarrow> ('o db, unit) proc" where
  "us_Set userID key val = poolCall (\<lambda>t.
     if has_account t userID then (Ok (), t\<lparr>tb_user_settings := AList.update (userID, key) val (tb_user_settings t)\<rparr>)
     else (Err constraint_error, t))"

definition GetUserSetting :: "request_ctx \<Rightarrow> string \<Rightarrow> ('o db, string option) proc" where
  "GetUserSetting ctx key = bindP (liftR (RequireAuth ctx)) (\<lambda>claims. us_Get (cl_ID claims) key)"

definition SetUserSetting :: "request_ctx \<Rightarrow> string \<Rightarrow> string \<Rightarrow> ('o db, unit) proc" where
  "SetUserSetting ctx key val = bindP (liftR (RequireAuth ctx)) (\<lambda>claims. us_Set (cl_ID claims) key val)"

definition TimetableProfileVisibilityKey :: string where
  "TimetableProfileVisibilityKey = ''timetableProfileVisibility''"

text \<open>\<open>strconv.ParseBool\<close>.\<close>

definition ParseBool :: "string \<Rightarrow> bool result" where
  "ParseBool s =
     (if s \<in> {''1'', ''t'', ''T'', ''TRUE'', ''true'', ''True''} then Ok True
      else if s \<in> {''0'', ''f'', ''F'', ''FALSE'', ''false'', ''False''} then Ok False
      else Err (Errorf ''strconv.ParseBool: invalid syntax''))"

definition isProfileVisible :: "int \<Rightarrow> int \<Rightarrow> ('o db, bool) proc" where
  "isProfileVisible viewerID userID =
     bindP (ExistsBlockRelation viewerID userID) (\<lambda>blocked.
     if blocked then ret False
     else bindP (us_Get userID TimetableProfileVisibilityKey) (\<lambda>val. case val of
            None \<Rightarrow> ret True
          | Some v \<Rightarrow> liftR (ParseBool v)))"

definition GetUserTimetable ::
  "request_ctx \<Rightarrow> int \<Rightarrow> int option \<Rightarrow> string option \<Rightarrow> ('o db, (timetable_row \<times> course) list \<times> bool) proc" where
  "GetUserTimetable ctx userID year semesterName =
     bindP (liftR (RequireAuth ctx)) (\<lambda>claims.
     bindP (if cl_ID claims \<noteq> userID \<and> \<not> IsAdminRole (cl_Role claims)
            then isProfileVisible (cl_ID claims) userID else ret True) (\<lambda>visible.
     if \<not> visible then ret ([], False)
     else bindP (case (year, semesterName) of
                   (Some y, Some s) \<Rightarrow> ret (y, s)
                 | _ \<Rightarrow> GetSemester) (\<lambda>(y, s).
          bindP (ListByUser userID y s) (\<lambda>entries. ret (entries, True)))))"

end
