(* ===== verification/Course_Sync.thy ===== *)
theory Course_Sync
  imports Course_Store
begin

text \<open>
  The synchronisation with the syllabus: usecase/course/sync_courses.go and course_sync_admin.go over
  infra/mysql/course_sync_repository.go. The plan of Course_Plan is carried out in one transaction, together with the
  record of the run; a dry run does the same and goes back to a savepoint before it writes the record.

  \<open>notify\<close> is \<open>NotificationPublisher.PublishBatch\<close>. The texts of changes and notifications keep their parts.
\<close>

section \<open>The repository: infra/mysql/course_sync_repository.go\<close>

definition CourseSourceSenshu :: string where
  "CourseSourceSenshu = ''senshu''"

definition ListSyncableCourses :: "int \<Rightarrow> ('o db, course list) proc" where
  "ListSyncableCourses year = dbQuery (\<lambda>t.
     map course_of_row (sort_key courses_id
       (filter (\<lambda>c. courses_year c = year \<and> courses_source c = CourseSourceSenshu \<and> courses_source_ref c \<noteq> None)
          (tb_courses t))))"

record course_update_param =
  cu_ID :: int
  cu_RoomID :: int
  cu_Fields :: course_fields
  cu_Restore :: bool
  cu_RenameRoom :: bool

definition updated_row :: "int \<Rightarrow> course_update_param \<Rightarrow> course_row \<Rightarrow> course_row" where
  "updated_row now p c =
     (let f = cu_Fields p in
      c\<lparr>courses_semester := f_Semester f, courses_day_of_week := f_DayOfWeek f, courses_period := f_Period f,
        courses_course_name := f_CourseName f, courses_teacher_name := f_TeacherName f,
        courses_source_ref := nullString (f_SourceRef f), courses_source_name := nullString (f_SourceName f),
        courses_dedup_key := f_DedupKey f, courses_updated_at := now,
        courses_discontinued_at := (if cu_Restore p then None else courses_discontinued_at c)\<rparr>)"

definition map_courses :: "(course_row \<Rightarrow> bool) \<Rightarrow> (course_row \<Rightarrow> course_row) \<Rightarrow> tables \<Rightarrow> tables" where
  "map_courses P f t = t\<lparr>tb_courses := map (\<lambda>c. if P c then f c else c) (tb_courses t)\<rparr>"

fun update_courses :: "int \<Rightarrow> course_update_param list \<Rightarrow> ('o db, unit) proc" where
  "update_courses now [] = ret ()"
| "update_courses now (p # ps) =
     bindP (dbCall (\<lambda>t. unique_or_refused () (map_courses (\<lambda>c. courses_id c = cu_ID p) (updated_row now p) t) t)) (\<lambda>_.
     bindP (if cu_RenameRoom p
            then dbExec (\<lambda>t. t\<lparr>tb_rooms := map (\<lambda>r. if rooms_id r = cu_RoomID p
                   then r\<lparr>rooms_name := f_CourseName (cu_Fields p), rooms_updated_at := now\<rparr> else r) (tb_rooms t)\<rparr>)
            else ret ()) (\<lambda>_.
     update_courses now ps))"

definition UpdateCourses :: "course_update_param list \<Rightarrow> ('o db, unit) proc" where
  "UpdateCourses ps = bindP nowP (\<lambda>now. update_courses now ps)"

definition DiscontinueCourses :: "int list \<Rightarrow> int \<Rightarrow> ('o db, unit) proc" where
  "DiscontinueCourses ids now = inChunks ids 1 (\<lambda>chunk. dbExec (map_courses
     (\<lambda>c. courses_discontinued_at c = None \<and> courses_id c \<in> set chunk)
     (\<lambda>c. c\<lparr>courses_discontinued_at := Some now, courses_updated_at := now\<rparr>)))"

definition retired_row :: "int \<Rightarrow> course_row \<Rightarrow> course_row" where
  "retired_row now c =
     c\<lparr>courses_discontinued_at := (case courses_discontinued_at c of None \<Rightarrow> Some now | Some at \<Rightarrow> Some at),
       courses_source_ref := None,
       courses_dedup_key := ''retired:'' @ Itoa (courses_id c) @ '':'' @ courses_dedup_key c,
       courses_updated_at := now\<rparr>"

definition RetireCourses :: "int list \<Rightarrow> int \<Rightarrow> ('o db, unit) proc" where
  "RetireCourses ids now = inChunks ids 1 (\<lambda>chunk. dbCall (\<lambda>t.
     unique_or_refused () (map_courses (\<lambda>c. courses_id c \<in> set chunk) (retired_row now) t) t))"

text \<open>The map of the counts; a course without registrations is not in it.\<close>

definition registrations :: "tables \<Rightarrow> int \<Rightarrow> int" where
  "registrations t i = int (length (filter (\<lambda>e. timetables_course_id e = i) (tb_timetables t)))"

definition CountRegistrations :: "int list \<Rightarrow> ('o db, int \<Rightarrow> int) proc" where
  "CountRegistrations ids =
     bindP (inChunksCollect ids 1 (\<lambda>chunk. dbQuery (\<lambda>t.
       map (\<lambda>i. (i, registrations t i)) (filter (\<lambda>i. registrations t i \<noteq> 0) chunk)))) (\<lambda>counts.
     ret (\<lambda>i. case map_of (rev counts) i of None \<Rightarrow> 0 | Some n \<Rightarrow> n))"

record slot_pair =
  pr_Entry :: timetable_row
  pr_Other :: timetable_row
  pr_OtherName :: string

record slot_conflict =
  sl_TimetableID :: int
  sl_UserID :: int
  sl_CourseID :: int
  sl_KeptCourseID :: int
  sl_KeptCourseName :: string

definition conflict_pairs :: "tables \<Rightarrow> int list \<Rightarrow> slot_pair list" where
  "conflict_pairs t ids =
     sort_key (\<lambda>p. (timetables_id (pr_Entry p), timetables_id (pr_Other p)))
       [\<lparr>pr_Entry = e, pr_Other = e', pr_OtherName = courses_course_name c'\<rparr>.
          e \<leftarrow> tb_timetables t, timetables_course_id e \<in> set ids,
          c \<leftarrow> tb_courses t, courses_id c = timetables_course_id e,
          e' \<leftarrow> tb_timetables t, timetables_user_id e' = timetables_user_id e, timetables_id e' \<noteq> timetables_id e,
          c' \<leftarrow> tb_courses t, courses_id c' = timetables_course_id e', overlapping c c']"

text \<open>The loop over the pairs, with the entries removed so far.\<close>

fun pick_conflicts :: "int list \<Rightarrow> int list \<Rightarrow> slot_pair list \<Rightarrow> slot_conflict list" where
  "pick_conflicts moved removed [] = []"
| "pick_conflicts moved removed (p # ps) =
     (let entry = timetables_id (pr_Entry p); other = timetables_id (pr_Other p) in
      if entry \<in> set removed \<or> other \<in> set removed then pick_conflicts moved removed ps
      else if timetables_course_id (pr_Other p) \<in> set moved \<and> other > entry then pick_conflicts moved removed ps
      else \<lparr>sl_TimetableID = entry, sl_UserID = timetables_user_id (pr_Entry p),
             sl_CourseID = timetables_course_id (pr_Entry p), sl_KeptCourseID = timetables_course_id (pr_Other p),
             sl_KeptCourseName = pr_OtherName p\<rparr> # pick_conflicts moved (entry # removed) ps)"

definition FindSlotConflicts :: "int list \<Rightarrow> ('o db, slot_conflict list) proc" where
  "FindSlotConflicts moved =
     (if moved = [] then ret []
      else bindP (inChunksCollect moved 1 (\<lambda>chunk. dbQuery (\<lambda>t. conflict_pairs t chunk))) (\<lambda>pairs.
           ret (pick_conflicts moved [] pairs)))"

definition DeleteTimetableEntries :: "int list \<Rightarrow> ('o db, unit) proc" where
  "DeleteTimetableEntries ids =
     inChunks ids 1 (\<lambda>chunk. dbExec (delete_entries_where (\<lambda>e. timetables_id e \<in> set chunk)))"

text \<open>A savepoint is what the transaction holds when it is set; going back restores it.\<close>

definition Savepoint :: "('o db, tables) proc" where
  "Savepoint = txQuery (\<lambda>t. t)"

definition RollbackToSavepoint :: "tables \<Rightarrow> ('o db, unit) proc" where
  "RollbackToSavepoint saved w =
     (if db_tx w = None then (Err (Errorf ''requires a transaction''), w) else dbExec (\<lambda>_. saved) w)"

definition review_of_row :: "course_sync_review_row \<Rightarrow> sync_review" where
  "review_of_row r =
     \<lparr>r_ID = csr_id r, r_Year = csr_year r, r_Kind = csr_kind r, r_Fingerprint = csr_fingerprint r,
      r_Status = csr_status r, r_Existing = csr_existing r, r_Proposed = csr_proposed r\<rparr>"

definition ListReviewsByYear :: "int \<Rightarrow> ('o db, sync_review list) proc" where
  "ListReviewsByYear year = dbQuery (\<lambda>t.
     map review_of_row (sort_key csr_id (filter (\<lambda>r. csr_year r = year) (tb_course_sync_reviews t))))"

text \<open>\<open>INSERT ... ON DUPLICATE KEY UPDATE\<close>; the fingerprint is the unique key.\<close>

definition upsert_review :: "course_sync_review_row \<Rightarrow> tables \<Rightarrow> int \<times> tables" where
  "upsert_review v t =
     (case List.find (\<lambda>r. csr_fingerprint r = csr_fingerprint v) (tb_course_sync_reviews t) of
        None \<Rightarrow> (tb_next_id t, t\<lparr>tb_next_id := tb_next_id t + 1,
                   tb_course_sync_reviews := tb_course_sync_reviews t @ [v\<lparr>csr_id := tb_next_id t\<rparr>]\<rparr>)
      | Some old \<Rightarrow> (csr_id old, t\<lparr>tb_course_sync_reviews :=
          map (\<lambda>r. if csr_fingerprint r = csr_fingerprint v
                   then r\<lparr>csr_status := csr_status v, csr_message := csr_message v, csr_existing := csr_existing v,
                          csr_proposed := csr_proposed v, csr_applied_run_id := None, csr_resolved_by := None,
                          csr_resolved_at := None, csr_updated_at := csr_updated_at v\<rparr> else r)
            (tb_course_sync_reviews t)\<rparr>))"

definition UpsertReview :: "course_sync_review_row \<Rightarrow> ('o db, int) proc" where
  "UpsertReview v = dbCall (\<lambda>t. case upsert_review v t of (i, t') \<Rightarrow> (Ok i, t'))"

definition map_reviews :: "(course_sync_review_row \<Rightarrow> bool) \<Rightarrow> (course_sync_review_row \<Rightarrow> course_sync_review_row)
    \<Rightarrow> tables \<Rightarrow> tables" where
  "map_reviews P f t =
     t\<lparr>tb_course_sync_reviews := map (\<lambda>r. if P r then f r else r) (tb_course_sync_reviews t)\<rparr>"

definition MarkReviewsApplied :: "int list \<Rightarrow> int \<Rightarrow> int \<Rightarrow> ('o db, unit) proc" where
  "MarkReviewsApplied ids runID now = inChunks ids 1 (\<lambda>chunk. dbExec (map_reviews
     (\<lambda>r. csr_id r \<in> set chunk)
     (\<lambda>r. r\<lparr>csr_status := Applied, csr_applied_run_id := Some runID, csr_updated_at := now\<rparr>)))"

definition GetReview :: "int \<Rightarrow> ('o db, course_sync_review_row option) proc" where
  "GetReview i = dbQuery (\<lambda>t. List.find (\<lambda>r. csr_id r = i) (tb_course_sync_reviews t))"

definition sr_ResolveReview :: "int \<Rightarrow> review_status \<Rightarrow> int \<Rightarrow> int \<Rightarrow> ('o db, bool) proc" where
  "sr_ResolveReview i status resolvedBy now = dbCall (\<lambda>t.
     let hit = (\<lambda>r. csr_id r = i \<and> csr_status r = Pending) in
     (Ok (list_ex hit (tb_course_sync_reviews t)),
      map_reviews hit (\<lambda>r. r\<lparr>csr_status := status, csr_resolved_by := Some resolvedBy, csr_resolved_at := Some now,
                             csr_updated_at := now\<rparr>) t))"

definition SaveRun :: "course_sync_run_row \<Rightarrow> ('o db, int) proc" where
  "SaveRun run = dbCall (\<lambda>t. (Ok (tb_next_id t),
     t\<lparr>tb_next_id := tb_next_id t + 1,
       tb_course_sync_runs := tb_course_sync_runs t @ [run\<lparr>run_id := tb_next_id t\<rparr>]\<rparr>))"

definition courseSyncChangeInsertColumns :: int where
  "courseSyncChangeInsertColumns = 11"

definition truncateRunes :: "string \<Rightarrow> nat \<Rightarrow> string" where
  "truncateRunes s n = (if length (runes s) \<le> n then s else bytes_of (take n (runes s)))"

definition change_rows :: "int \<Rightarrow> course_sync_change_row list \<Rightarrow> tables \<Rightarrow> course_sync_change_row list" where
  "change_rows runID cs t =
     map (\<lambda>(i, c). c\<lparr>chg_id := i, chg_run_id := runID, chg_course_name := truncateRunes (chg_course_name c) 255,
                     chg_teacher_name := truncateRunes (chg_teacher_name c) 255\<rparr>)
       (zip (fresh_ids t (length cs)) cs)"

definition SaveChanges :: "int \<Rightarrow> course_sync_change_row list \<Rightarrow> ('o db, unit) proc" where
  "SaveChanges runID changes = inChunks changes courseSyncChangeInsertColumns (\<lambda>chunk. dbExec (\<lambda>t.
     t\<lparr>tb_next_id := tb_next_id t + int (length chunk),
       tb_course_sync_changes := tb_course_sync_changes t @ change_rows runID chunk t\<rparr>))"

section \<open>Carrying out a plan: usecase/course/sync_courses.go\<close>

record sync_input =
  in_Year :: int
  in_DryRun :: bool
  in_Courses :: "scraped_course_input list"
  in_Completeness :: fetch_completeness
  in_StartedAt :: int

definition movedCourseIDs :: "sync_plan \<Rightarrow> int list" where
  "movedCourseIDs plan =
     [c_ID (u_Before u). u \<leftarrow> p_Updates plan,
        u_SlotChanged u \<or> c_Semester (u_Before u) \<noteq> f_Semester (u_After u)]"

definition changedCourseIDs :: "sync_plan \<Rightarrow> int list" where
  "changedCourseIDs plan =
     map (\<lambda>u. c_ID (u_Before u)) (p_Updates plan) @ map (\<lambda>d. c_ID (d_Course d)) (p_Discontinues plan)"

definition affectedCourseIDs :: "sync_plan \<Rightarrow> int list" where
  "affectedCourseIDs plan =
     map (\<lambda>u. c_ID (u_Before u)) (p_Updates plan) @ map (\<lambda>d. c_ID (d_Course d)) (p_Discontinues plan) @
     concat (map (\<lambda>r. map c_ID (v_Existing r)) (p_Reviews plan))"

definition saveParamOf :: "scraped_course_input \<Rightarrow> save_course_param" where
  "saveParamOf i =
     \<lparr>sc_DayOfWeek = i_DayOfWeek i, sc_Period = i_Period i, sc_TeacherName = i_TeacherName i,
      sc_CourseName = i_CourseName i, sc_Year = i_Year i, sc_Semester = i_Semester i, sc_DedupKey = i_DedupKey i,
      sc_Source = CourseSourceSenshu, sc_SourceRef = i_SourceRef i, sc_SourceName = i_SourceName i\<rparr>"

definition update_param_of :: "planned_update \<Rightarrow> course_update_param" where
  "update_param_of u =
     \<lparr>cu_ID = c_ID (u_Before u), cu_RoomID = c_RoomID (u_Before u), cu_Fields = u_After u,
      cu_Restore = u_Restore u, cu_RenameRoom = (f_CourseName (u_After u) \<noteq> c_CourseName (u_Before u))\<rparr>"

definition applyCourses :: "sync_plan \<Rightarrow> int \<Rightarrow> ('o db, int list) proc" where
  "applyCourses plan now =
     bindP (RetireCourses [c_ID (d_Course d). d \<leftarrow> p_Discontinues plan, d_Retire d] now) (\<lambda>_.
     bindP (DiscontinueCourses [c_ID (d_Course d). d \<leftarrow> p_Discontinues plan, \<not> d_Retire d] now) (\<lambda>_.
     bindP (UpdateCourses (map update_param_of (p_Updates plan))) (\<lambda>_.
     SaveCoursesWithRooms (map (\<lambda>c. saveParamOf (cr_Input c)) (p_Creates plan)))))"

definition SnapshotOf :: "course \<Rightarrow> course_snapshot" where
  "SnapshotOf c =
     \<lparr>s_CourseID = c_ID c, s_SourceRef = c_SourceRef c, s_Semester = c_Semester c, s_DayOfWeek = c_DayOfWeek c,
      s_Period = c_Period c, s_CourseName = c_CourseName c, s_TeacherName = c_TeacherName c\<rparr>"

definition snapshotOfInput :: "scraped_course_input \<Rightarrow> course_snapshot" where
  "snapshotOfInput i =
     \<lparr>s_CourseID = 0, s_SourceRef = i_SourceRef i, s_Semester = i_Semester i, s_DayOfWeek = i_DayOfWeek i,
      s_Period = i_Period i, s_CourseName = i_CourseName i, s_TeacherName = i_TeacherName i\<rparr>"

definition review_row_of :: "int \<Rightarrow> int \<Rightarrow> int \<Rightarrow> planned_review \<Rightarrow> course_sync_review_row" where
  "review_row_of year runID now v =
     \<lparr>csr_id = 0, csr_year = year, csr_kind = v_Kind v, csr_fingerprint = v_Fingerprint v, csr_status = Pending,
      csr_message = v_Message v, csr_existing = map SnapshotOf (v_Existing v),
      csr_proposed = map snapshotOfInput (v_Proposed v), csr_first_run_id = Some runID, csr_applied_run_id = None,
      csr_resolved_by = None, csr_resolved_at = None, csr_created_at = now, csr_updated_at = now\<rparr>"

fun saveReviews :: "int \<Rightarrow> int \<Rightarrow> int \<Rightarrow> planned_review list \<Rightarrow> ('o db, int list) proc" where
  "saveReviews year runID now [] = ret []"
| "saveReviews year runID now (v # vs) =
     bindP (UpsertReview (review_row_of year runID now v)) (\<lambda>i.
     bindP (saveReviews year runID now vs) (\<lambda>is. ret (i # is)))"

text \<open>\<open>buildChanges\<close>, one list after the other. The IDs are missing after a dry run.\<close>

definition change_row :: "change_kind \<Rightarrow> course_sync_change_row" where
  "change_row kind =
     \<lparr>chg_id = 0, chg_run_id = 0, chg_kind = kind, chg_course_id = None, chg_review_id = None, chg_course_name = [],
      chg_teacher_name = [], chg_detail = PlanText NoDetail, chg_before = None, chg_after = None,
      chg_registered_count = 0, chg_unregistered_count = 0\<rparr>"

definition create_change :: "int option \<Rightarrow> planned_create \<Rightarrow> course_sync_change_row" where
  "create_change courseID c =
     (let i = cr_Input c in
      (change_row ChangeCreated)\<lparr>chg_course_name := i_CourseName i, chg_teacher_name := i_TeacherName i,
        chg_detail := (if cr_Detail c = NoDetail then NewlyListed else PlanText (cr_Detail c)),
        chg_course_id := courseID,
        chg_after := Some (case courseID of None \<Rightarrow> snapshotOfInput i
                           | Some n \<Rightarrow> (snapshotOfInput i)\<lparr>s_CourseID := n\<rparr>)\<rparr>)"

definition update_change :: "(int \<Rightarrow> int) \<Rightarrow> (int \<Rightarrow> int) \<Rightarrow> planned_update \<Rightarrow> course_sync_change_row" where
  "update_change regs unregistered u =
     (let i = c_ID (u_Before u); f = u_After u in
      (change_row (if u_Restore u then ChangeRestored else ChangeUpdated))\<lparr>chg_course_id := Some i,
        chg_course_name := f_CourseName f, chg_teacher_name := f_TeacherName f, chg_detail := PlanText (u_Detail u),
        chg_before := Some (SnapshotOf (u_Before u)),
        chg_after := Some \<lparr>s_CourseID = i, s_SourceRef = f_SourceRef f, s_Semester = f_Semester f,
          s_DayOfWeek = f_DayOfWeek f, s_Period = f_Period f, s_CourseName = f_CourseName f,
          s_TeacherName = f_TeacherName f\<rparr>,
        chg_registered_count := regs i, chg_unregistered_count := unregistered i\<rparr>)"

definition discontinue_change :: "(int \<Rightarrow> int) \<Rightarrow> planned_discontinue \<Rightarrow> course_sync_change_row" where
  "discontinue_change regs d =
     (let c = d_Course d in
      (change_row ChangeDiscontinued)\<lparr>chg_course_id := Some (c_ID c), chg_course_name := c_CourseName c,
        chg_teacher_name := c_TeacherName c, chg_detail := PlanText (d_Detail d),
        chg_before := Some (SnapshotOf c), chg_registered_count := regs (c_ID c)\<rparr>)"

definition review_change :: "(int \<Rightarrow> int) \<Rightarrow> int option \<Rightarrow> planned_review \<Rightarrow> course_sync_change_row" where
  "review_change regs reviewID v =
     (let name = (case v_Existing v of c # _ \<Rightarrow> (c_CourseName c, c_TeacherName c) | [] \<Rightarrow> ([], []));
          name = (if fst name = [] then case v_Proposed v of i # _ \<Rightarrow> (i_CourseName i, i_TeacherName i) | [] \<Rightarrow> name
                  else name) in
      (change_row ChangeReview)\<lparr>chg_detail := ReviewText (v_Message v),
        chg_before := map_option SnapshotOf (case v_Existing v of c # _ \<Rightarrow> Some c | [] \<Rightarrow> None),
        chg_after := map_option snapshotOfInput (case v_Proposed v of i # _ \<Rightarrow> Some i | [] \<Rightarrow> None),
        chg_course_id := (case v_Existing v of c # _ \<Rightarrow> Some (c_ID c) | [] \<Rightarrow> None),
        chg_course_name := fst name, chg_teacher_name := snd name,
        chg_registered_count := sum_list (map (\<lambda>c. regs (c_ID c)) (v_Existing v)),
        chg_review_id := reviewID\<rparr>)"

text \<open>The IDs one by one, or none at all.\<close>

definition ids_of :: "int list option \<Rightarrow> nat \<Rightarrow> int option list" where
  "ids_of ids n = (case ids of None \<Rightarrow> replicate n None | Some is \<Rightarrow> map Some is)"

definition buildChanges ::
  "sync_plan \<Rightarrow> (int \<Rightarrow> int) \<Rightarrow> (int \<Rightarrow> int) \<Rightarrow> int list option \<Rightarrow> int list option \<Rightarrow> course_sync_change_row list" where
  "buildChanges plan regs unregistered createdIDs reviewIDs =
     map (\<lambda>(i, c). create_change i c) (zip (ids_of createdIDs (length (p_Creates plan))) (p_Creates plan)) @
     map (update_change regs unregistered) (filter (\<lambda>u. \<not> u_Silent u) (p_Updates plan)) @
     map (discontinue_change regs) (p_Discontinues plan) @
     map (\<lambda>(i, v). review_change regs i v) (zip (ids_of reviewIDs (length (p_Reviews plan))) (p_Reviews plan))"

text \<open>\<open>unregistered\<close>: how many entries of a course were taken out.\<close>

definition unregistered_of :: "slot_conflict list \<Rightarrow> int \<Rightarrow> int" where
  "unregistered_of conflicts i = int (length (filter (\<lambda>c. sl_CourseID c = i) conflicts))"

record removed_notice =
  rn_UserID :: int
  rn_CourseID :: int
  rn_CourseName :: string
  rn_From :: "string \<times> string \<times> int"
  rn_To :: "string \<times> string \<times> int"
  rn_KeptCourseName :: string

definition notices :: "sync_plan \<Rightarrow> slot_conflict list \<Rightarrow> removed_notice list" where
  "notices plan conflicts =
     [\<lparr>rn_UserID = sl_UserID c, rn_CourseID = sl_CourseID c, rn_CourseName = f_CourseName (u_After u),
       rn_From = (c_Semester (u_Before u), c_DayOfWeek (u_Before u), c_Period (u_Before u)),
       rn_To = (f_Semester (u_After u), f_DayOfWeek (u_After u), f_Period (u_After u)),
       rn_KeptCourseName = sl_KeptCourseName c\<rparr>.
        c \<leftarrow> conflicts,
        u \<leftarrow> (case map_of (rev (map (\<lambda>u. (c_ID (u_Before u), u)) (p_Updates plan))) (sl_CourseID c) of
                None \<Rightarrow> [] | Some u \<Rightarrow> [u])]"

definition notifyUnregistered ::
  "(removed_notice list \<Rightarrow> ('o db, unit) proc) \<Rightarrow> sync_plan \<Rightarrow> slot_conflict list \<Rightarrow> ('o db, unit) proc" where
  "notifyUnregistered notify plan conflicts =
     (if conflicts = [] then ret () else tryP (notify (notices plan conflicts)) (\<lambda>_. ret ()))"

definition new_run :: "sync_input \<Rightarrow> int \<Rightarrow> sync_plan \<Rightarrow> course_sync_run_row" where
  "new_run i triggeredBy plan =
     (let loud = filter (\<lambda>u. \<not> u_Silent u) (p_Updates plan) in
      \<lparr>run_id = 0, run_year = in_Year i, run_dry_run = in_DryRun i, run_triggered_by = Some triggeredBy,
       run_site_total = SiteTotal (in_Completeness i), run_listed_rows = ListedRows (in_Completeness i),
       run_unidentified_rows = UnidentifiedRows (in_Completeness i),
       run_created = length (p_Creates plan), run_updated = length (filter (\<lambda>u. \<not> u_Restore u) loud),
       run_discontinued = length (p_Discontinues plan), run_restored = length (filter u_Restore loud),
       run_reviews = length (p_Reviews plan), run_unchanged = p_Unchanged plan, run_unregistered = 0,
       run_skipped_reason = p_DiscontinueSkippedReason plan, run_started_at = in_StartedAt i, run_finished_at = 0\<rparr>)"

definition sync_body ::
  "sync_input \<Rightarrow> sync_plan \<Rightarrow> course_sync_run_row \<Rightarrow> ('o db, course_sync_run_row \<times> slot_conflict list) proc" where
  "sync_body i plan run =
     bindP nowP (\<lambda>now.
     bindP (CountRegistrations (affectedCourseIDs plan)) (\<lambda>regs.
     bindP (LockCourses (changedCourseIDs plan)) (\<lambda>_.
     bindP (if in_DryRun i then bindP Savepoint (\<lambda>t. ret (Some t)) else ret None) (\<lambda>saved.
     bindP (applyCourses plan now) (\<lambda>createdIDs.
     bindP (FindSlotConflicts (movedCourseIDs plan)) (\<lambda>conflicts.
     bindP (DeleteTimetableEntries (map sl_TimetableID conflicts)) (\<lambda>_.
     bindP (case saved of None \<Rightarrow> ret (Some createdIDs)
            | Some t \<Rightarrow> bindP (RollbackToSavepoint t) (\<lambda>_. ret None)) (\<lambda>createdIDs.
     bindP nowP (\<lambda>finished.
     let run = run\<lparr>run_unregistered := length conflicts, run_finished_at := finished\<rparr> in
     bindP (SaveRun run) (\<lambda>runID.
     bindP (if in_DryRun i then ret None
            else bindP (saveReviews (in_Year i) runID now (p_Reviews plan)) (\<lambda>ids.
                 bindP (MarkReviewsApplied (p_AppliedReviewIDs plan) runID now) (\<lambda>_. ret (Some ids)))) (\<lambda>reviewIDs.
     bindP (SaveChanges runID (buildChanges plan regs (unregistered_of conflicts) createdIDs reviewIDs)) (\<lambda>_.
     ret (run\<lparr>run_id := runID\<rparr>, conflicts)))))))))))))"

definition SyncCourses ::
  "(string \<Rightarrow> string) \<Rightarrow> (removed_notice list \<Rightarrow> ('o db, unit) proc) \<Rightarrow> request_ctx \<Rightarrow> sync_input
     \<Rightarrow> ('o db, course_sync_run_row) proc" where
  "SyncCourses h notify ctx i =
     bindP (liftR (RequireAdmin ctx)) (\<lambda>claims.
     bindP (ListSyncableCourses (in_Year i)) (\<lambda>existing.
     bindP (ListReviewsByYear (in_Year i)) (\<lambda>reviews.
     tryP GetSemester (\<lambda>r. case r of
       Inl e \<Rightarrow> throw (PlainError ''reading the current semester'' (Some e))
     | Inr (year, semesterName) \<Rightarrow>
         (let plan = PlanCourseSync h (in_Year i) existing (in_Courses i) reviews (in_Completeness i)
                       \<lparr>t_Year = year, t_Semester = semesterName\<rparr> in
          bindP (runInTx (sync_body i plan (new_run i (cl_ID claims) plan))) (\<lambda>(run, conflicts).
          bindP (if in_DryRun i then ret () else notifyUnregistered notify plan conflicts) (\<lambda>_.
          ret run)))))))"

section \<open>The administrators' page: usecase/course/course_sync_admin.go\<close>

definition window :: "int \<Rightarrow> int \<Rightarrow> 'a list \<Rightarrow> 'a list" where
  "window limit offset xs = take (nat limit) (drop (nat offset) xs)"

definition ListRuns :: "request_ctx \<Rightarrow> int option \<Rightarrow> int \<Rightarrow> int \<Rightarrow> ('o db, course_sync_run_row list) proc" where
  "ListRuns ctx year limit offset =
     bindP (liftR (RequireAdmin ctx)) (\<lambda>_.
     dbQuery (\<lambda>t. window limit offset (rev (sort_key run_id
       (filter (\<lambda>r. year = None \<or> year = Some (run_year r)) (tb_course_sync_runs t))))))"

definition GetRun :: "request_ctx \<Rightarrow> int \<Rightarrow> ('o db, course_sync_run_row option) proc" where
  "GetRun ctx i =
     bindP (liftR (RequireAdmin ctx)) (\<lambda>_. dbQuery (\<lambda>t. List.find (\<lambda>r. run_id r = i) (tb_course_sync_runs t)))"

definition ListChanges ::
  "request_ctx \<Rightarrow> int \<Rightarrow> change_kind option \<Rightarrow> int \<Rightarrow> int \<Rightarrow> ('o db, course_sync_change_row list) proc" where
  "ListChanges ctx runID kind limit offset =
     bindP (liftR (RequireAdmin ctx)) (\<lambda>_.
     dbQuery (\<lambda>t. window limit offset (sort_key (\<lambda>c. (- chg_registered_count c, chg_id c))
       (filter (\<lambda>c. chg_run_id c = runID \<and> (kind = None \<or> kind = Some (chg_kind c))) (tb_course_sync_changes t)))))"

definition ListReviews ::
  "request_ctx \<Rightarrow> int option \<Rightarrow> review_status option \<Rightarrow> int \<Rightarrow> int \<Rightarrow> ('o db, course_sync_review_row list) proc" where
  "ListReviews ctx year status limit offset =
     bindP (liftR (RequireAdmin ctx)) (\<lambda>_.
     dbQuery (\<lambda>t. window limit offset (rev (sort_key csr_id
       (filter (\<lambda>r. (year = None \<or> year = Some (csr_year r)) \<and> (status = None \<or> status = Some (csr_status r)))
          (tb_course_sync_reviews t))))))"

definition ResolveReview :: "request_ctx \<Rightarrow> int \<Rightarrow> review_status \<Rightarrow> ('o db, course_sync_review_row option) proc" where
  "ResolveReview ctx i decision =
     bindP (liftR (RequireAdmin ctx)) (\<lambda>claims.
     bindP (guardP (decision \<in> {Same, Different, Ignored}) (InvalidInput ''no such decision'')) (\<lambda>_.
     bindP (GetReview i) (\<lambda>found. case found of
       None \<Rightarrow> throw (NotFound ''no such review'')
     | Some review \<Rightarrow>
         bindP (guardP (\<not> (csr_kind review = SlotAmbiguous \<and> decision = Same))
                  (InvalidInput ''which slot becomes which is not decided'')) (\<lambda>_.
         bindP nowP (\<lambda>now.
         bindP (sr_ResolveReview i decision (cl_ID claims) now) (\<lambda>ok.
         bindP (guardP ok (Conflict ''decided already'')) (\<lambda>_.
         GetReview i)))))))"

end
