(* ===== verification/Timetable_Slots.thy ===== *)
theory Timetable_Slots
  imports Course_Sync
begin

text \<open>
  One course for each slot: the invariant of the timetables, and why taking out what \<open>pick_conflicts\<close> picks
  restores it after courses have moved.
\<close>

section \<open>The invariant\<close>

type_synonym slot = "int \<times> string \<times> string \<times> int"

definition slot_of :: "course_row \<Rightarrow> slot" where
  "slot_of c = (courses_year c, courses_semester c, courses_day_of_week c, courses_period c)"

definition slots_overlap :: "slot \<Rightarrow> slot \<Rightarrow> bool" where
  "slots_overlap a b \<longleftrightarrow>
     (case (a, b) of ((y, s, d, p), (y', s', d', p')) \<Rightarrow>
        y' = y \<and> d' = d \<and> p' = p \<and> (s' = s \<or> s' = SemesterFull \<or> s = SemesterFull))"

lemma overlapping_slots: "overlapping c d = slots_overlap (slot_of c) (slot_of d)"
  by (simp add: overlapping_def slots_overlap_def slot_of_def)

lemma slots_overlap_sym: "slots_overlap a b = slots_overlap b a"
  by (auto simp: slots_overlap_def split: prod.splits)

text \<open>Two entries whose courses are in the same slot.\<close>

definition clash :: "tables \<Rightarrow> timetable_row \<Rightarrow> timetable_row \<Rightarrow> bool" where
  "clash t e e' \<longleftrightarrow>
     (\<exists>c\<in>set (tb_courses t). \<exists>c'\<in>set (tb_courses t). courses_id c = timetables_course_id e \<and>
        courses_id c' = timetables_course_id e' \<and> overlapping c c')"

lemma clash_sym: "clash t e e' = clash t e' e"
  unfolding clash_def overlapping_slots by (metis slots_overlap_sym)

definition one_per_slot :: "tables \<Rightarrow> bool" where
  "one_per_slot t \<longleftrightarrow>
     (\<forall>e\<in>set (tb_timetables t). \<forall>e'\<in>set (tb_timetables t).
        timetables_user_id e' = timetables_user_id e \<longrightarrow> timetables_id e' \<noteq> timetables_id e \<longrightarrow> \<not> clash t e e')"

text \<open>The IDs are unique, and no entry waits for a course that is still to come.\<close>

definition ids_ok :: "tables \<Rightarrow> bool" where
  "ids_ok t \<longleftrightarrow>
     distinct (map courses_id (tb_courses t)) \<and> distinct (map timetables_id (tb_timetables t)) \<and>
     (\<forall>c\<in>set (tb_courses t). courses_id c < tb_next_id t) \<and>
     (\<forall>e\<in>set (tb_timetables t). timetables_id e < tb_next_id t \<and> timetables_course_id e < tb_next_id t)"

definition timetables_ok :: "tables \<Rightarrow> bool" where
  "timetables_ok t \<longleftrightarrow> ids_ok t \<and> one_per_slot t"

lemma course_unique:
  "ids_ok t \<Longrightarrow> c \<in> set (tb_courses t) \<Longrightarrow> d \<in> set (tb_courses t) \<Longrightarrow> courses_id c = courses_id d \<Longrightarrow> c = d"
  unfolding ids_ok_def by (metis distinct_map inj_onD)

lemma entry_unique:
  "ids_ok t \<Longrightarrow> e \<in> set (tb_timetables t) \<Longrightarrow> e' \<in> set (tb_timetables t) \<Longrightarrow> timetables_id e = timetables_id e' \<Longrightarrow> e = e'"
  unfolding ids_ok_def by (metis distinct_map inj_onD)

text \<open>Fewer entries, fewer courses, higher numbers.\<close>

lemma timetables_ok_subset:
  assumes "timetables_ok t" "set (tb_timetables t') \<subseteq> set (tb_timetables t)"
    "set (tb_courses t') \<subseteq> set (tb_courses t)" "distinct (map timetables_id (tb_timetables t'))"
    "distinct (map courses_id (tb_courses t'))" "tb_next_id t \<le> tb_next_id t'"
  shows "timetables_ok t'"
proof -
  from assms(1) have t: "ids_ok t" "one_per_slot t" by (simp_all add: timetables_ok_def)
  have "ids_ok t'"
    using t(1) assms(2-6) unfolding ids_ok_def by (metis order_less_le_trans subsetD)
  moreover have "clash t' e e' \<Longrightarrow> clash t e e'" for e e'
    using assms(3) unfolding clash_def by blast
  with t(2) assms(2) have "one_per_slot t'" unfolding one_per_slot_def by (meson subsetD)
  ultimately show ?thesis by (simp add: timetables_ok_def)
qed

section \<open>What is picked\<close>

abbreviation picked :: "int list \<Rightarrow> int list \<Rightarrow> slot_pair list \<Rightarrow> int set" where
  "picked moved removed ps \<equiv> sl_TimetableID ` set (pick_conflicts moved removed ps)"

definition skips :: "int list \<Rightarrow> int list \<Rightarrow> slot_pair \<Rightarrow> bool" where
  "skips moved removed p \<longleftrightarrow>
     timetables_id (pr_Entry p) \<in> set removed \<or> timetables_id (pr_Other p) \<in> set removed \<or>
     timetables_course_id (pr_Other p) \<in> set moved \<and> timetables_id (pr_Entry p) < timetables_id (pr_Other p)"

lemma pick_step:
  "skips moved removed p \<Longrightarrow> pick_conflicts moved removed (p # ps) = pick_conflicts moved removed ps"
  "\<not> skips moved removed p \<Longrightarrow> \<exists>c. sl_TimetableID c = timetables_id (pr_Entry p) \<and>
     sl_CourseID c = timetables_course_id (pr_Entry p) \<and>
     pick_conflicts moved removed (p # ps) = c # pick_conflicts moved (timetables_id (pr_Entry p) # removed) ps"
  by (auto simp: skips_def Let_def)

declare pick_conflicts.simps(2) [simp del]

text \<open>Of every pair one is out in the end, or the other one is a moved course that comes later.\<close>

lemma picked_covers:
  "p \<in> set ps \<Longrightarrow>
     timetables_id (pr_Entry p) \<in> set removed \<union> picked moved removed ps \<or>
     timetables_id (pr_Other p) \<in> set removed \<union> picked moved removed ps \<or>
     timetables_course_id (pr_Other p) \<in> set moved \<and> timetables_id (pr_Entry p) < timetables_id (pr_Other p)"
proof (induction ps arbitrary: removed)
  case (Cons q ps)
  show ?case
  proof (cases "skips moved removed q")
    case True
    with Cons show ?thesis by (auto simp: pick_step(1) skips_def)
  next
    case False
    from pick_step(2)[OF this, of ps] obtain c where c: "sl_TimetableID c = timetables_id (pr_Entry q)"
      "pick_conflicts moved removed (q # ps) = c # pick_conflicts moved (timetables_id (pr_Entry q) # removed) ps"
      by blast
    show ?thesis
    proof (cases "p = q")
      case True
      with c show ?thesis by simp
    next
      case other: False
      with Cons.prems Cons.IH[of "timetables_id (pr_Entry q) # removed"] c show ?thesis by auto
    qed
  qed
qed simp

lemma picked_pairs:
  "c \<in> set (pick_conflicts moved removed ps) \<Longrightarrow>
     \<exists>p\<in>set ps. sl_TimetableID c = timetables_id (pr_Entry p) \<and> sl_CourseID c = timetables_course_id (pr_Entry p) \<and>
       timetables_id (pr_Entry p) \<notin> set removed"
proof (induction ps arbitrary: removed)
  case (Cons q ps)
  show ?case
  proof (cases "skips moved removed q")
    case True
    with Cons show ?thesis by (auto simp: pick_step(1))
  next
    case False
    from pick_step(2)[OF this, of ps] Cons.prems Cons.IH[of "timetables_id (pr_Entry q) # removed"] False
    show ?thesis by (auto simp: skips_def)
  qed
qed simp

lemma picked_distinct: "distinct (map sl_TimetableID (pick_conflicts moved removed ps))"
proof (induction ps arbitrary: removed)
  case (Cons q ps)
  show ?case
  proof (cases "skips moved removed q")
    case False
    have "timetables_id (pr_Entry q) \<notin> picked moved (timetables_id (pr_Entry q) # removed) ps"
      using picked_pairs by fastforce
    with pick_step(2)[OF False, of ps] Cons.IH show ?thesis by auto
  qed (simp add: pick_step(1) Cons.IH)
qed simp

text \<open>When the pairs come in order, the entry for which another one is taken out stays.\<close>

lemma picked_kept:
  assumes "c \<in> set (pick_conflicts moved removed ps)"
    and "sorted (map (\<lambda>p. timetables_id (pr_Entry p)) ps)"
    and "\<forall>p\<in>set ps. timetables_id (pr_Other p) \<noteq> timetables_id (pr_Entry p)"
    and "\<forall>p\<in>set ps. \<forall>q\<in>set ps. timetables_id (pr_Other p) = timetables_id (pr_Entry q) \<longrightarrow>
      timetables_course_id (pr_Other p) \<in> set moved"
  shows "\<exists>p\<in>set ps. sl_TimetableID c = timetables_id (pr_Entry p) \<and>
    timetables_id (pr_Other p) \<notin> set removed \<union> picked moved removed ps"
  using assms
proof (induction ps arbitrary: removed)
  case (Cons q ps)
  let ?e = "timetables_id (pr_Entry q)" and ?o = "timetables_id (pr_Other q)"
  have tail: "sorted (map (\<lambda>p. timetables_id (pr_Entry p)) ps)"
    "\<forall>p\<in>set ps. timetables_id (pr_Other p) \<noteq> timetables_id (pr_Entry p)"
    "\<forall>p\<in>set ps. \<forall>q\<in>set ps. timetables_id (pr_Other p) = timetables_id (pr_Entry q) \<longrightarrow>
      timetables_course_id (pr_Other p) \<in> set moved" using Cons.prems by auto
  show ?case
  proof (cases "skips moved removed q")
    case True
    note same = pick_step(1)[OF this, of ps]
    from Cons.IH[OF Cons.prems(1)[unfolded same] tail] show ?thesis unfolding same by auto
  next
    case False
    from pick_step(2)[OF this, of ps] obtain d where d: "sl_TimetableID d = ?e"
      "pick_conflicts moved removed (q # ps) = d # pick_conflicts moved (?e # removed) ps" by blast
    show ?thesis
    proof (cases "c = d")
      case True
      have "?o \<notin> picked moved (?e # removed) ps"
      proof
        assume "?o \<in> picked moved (?e # removed) ps"
        then obtain p where p: "p \<in> set ps" "?o = timetables_id (pr_Entry p)" using picked_pairs by fastforce
        with Cons.prems(2) have "?e \<le> ?o" by auto
        moreover have "?o \<noteq> ?e" "timetables_course_id (pr_Other q) \<in> set moved" using p Cons.prems(3,4) by auto
        ultimately show False using False by (simp add: skips_def)
      qed
      with False Cons.prems(3) d True show ?thesis by (auto simp: skips_def)
    next
      case other: False
      with d Cons.prems(1) have "c \<in> set (pick_conflicts moved (?e # removed) ps)" by simp
      from Cons.IH[OF this tail] d show ?thesis by auto
    qed
  qed
qed simp

section \<open>The pairs of the database\<close>

lemma conflict_pairs_iff:
  "p \<in> set (conflict_pairs t ids) \<longleftrightarrow>
     pr_Entry p \<in> set (tb_timetables t) \<and> pr_Other p \<in> set (tb_timetables t) \<and>
     timetables_course_id (pr_Entry p) \<in> set ids \<and> timetables_user_id (pr_Other p) = timetables_user_id (pr_Entry p) \<and>
     timetables_id (pr_Other p) \<noteq> timetables_id (pr_Entry p) \<and>
     (\<exists>c\<in>set (tb_courses t). \<exists>c'\<in>set (tb_courses t). courses_id c = timetables_course_id (pr_Entry p) \<and>
        courses_id c' = timetables_course_id (pr_Other p) \<and> overlapping c c' \<and> pr_OtherName p = courses_course_name c')"
  by (cases p) (auto simp: conflict_pairs_def)

lemma conflict_pairs_sorted: "sorted (map (\<lambda>p. timetables_id (pr_Entry p)) (conflict_pairs t ids))"
proof -
  have "sorted (map (\<lambda>p. (timetables_id (pr_Entry p), timetables_id (pr_Other p))) (conflict_pairs t ids))"
    unfolding conflict_pairs_def by (rule sorted_sort_key)
  then have "sorted (map fst (map (\<lambda>p. (timetables_id (pr_Entry p), timetables_id (pr_Other p))) (conflict_pairs t ids)))"
    by (rule sorted_map_mono) (auto simp: mono_on_def less_eq_prod_def)
  then show ?thesis by (simp add: comp_def)
qed

text \<open>A list that has every pair of the moved courses, in whatever order.\<close>

definition all_pairs :: "tables \<Rightarrow> int list \<Rightarrow> slot_pair list \<Rightarrow> bool" where
  "all_pairs t moved ps \<longleftrightarrow> set ps = set (conflict_pairs t moved)"

definition without :: "int set \<Rightarrow> tables \<Rightarrow> tables" where
  "without out t = delete_entries_where (\<lambda>e. timetables_id e \<in> out) t"

lemma clash_pair:
  assumes "e \<in> set (tb_timetables t)" "e' \<in> set (tb_timetables t)" "timetables_course_id e \<in> set moved"
    "timetables_user_id e' = timetables_user_id e" "timetables_id e' \<noteq> timetables_id e" "clash t e e'"
  obtains p where "p \<in> set (conflict_pairs t moved)" "pr_Entry p = e" "pr_Other p = e'"
proof -
  from assms(6) obtain c' where "\<exists>c\<in>set (tb_courses t). courses_id c = timetables_course_id e \<and> overlapping c c'"
    "c' \<in> set (tb_courses t)" "courses_id c' = timetables_course_id e'" unfolding clash_def by blast
  with assms show thesis
    by (intro that[of "\<lparr>pr_Entry = e, pr_Other = e', pr_OtherName = courses_course_name c'\<rparr>"])
       (auto simp: conflict_pairs_iff)
qed

text \<open>Where only moved courses can clash, nothing clashes when what is picked is gone.\<close>

lemma picking_settles:
  assumes ps: "all_pairs t moved ps"
    and only: "\<And>e e'. e \<in> set (tb_timetables t) \<Longrightarrow> e' \<in> set (tb_timetables t) \<Longrightarrow> clash t e e' \<Longrightarrow>
      timetables_user_id e' = timetables_user_id e \<Longrightarrow> timetables_id e' \<noteq> timetables_id e \<Longrightarrow>
      timetables_course_id e \<in> set moved \<or> timetables_course_id e' \<in> set moved"
  shows "one_per_slot (without (picked moved [] ps) t)"
proof -
  let ?out = "picked moved [] ps"
  have covers: "timetables_id e \<in> ?out \<or> timetables_id e' \<in> ?out \<or>
      timetables_course_id e' \<in> set moved \<and> timetables_id e < timetables_id e'"
    if "e \<in> set (tb_timetables t)" "e' \<in> set (tb_timetables t)" "timetables_course_id e \<in> set moved"
      "timetables_user_id e' = timetables_user_id e" "timetables_id e' \<noteq> timetables_id e" "clash t e e'" for e e'
  proof -
    from clash_pair[OF that] obtain p where p: "p \<in> set (conflict_pairs t moved)" "pr_Entry p = e" "pr_Other p = e'"
      by metis
    with picked_covers[of p ps "[]" moved] ps show ?thesis by (simp add: all_pairs_def)
  qed
  have "timetables_id e \<in> ?out \<or> timetables_id e' \<in> ?out"
    if "e \<in> set (tb_timetables t)" "e' \<in> set (tb_timetables t)" "timetables_course_id e \<in> set moved"
      "timetables_user_id e' = timetables_user_id e" "timetables_id e' \<noteq> timetables_id e" "clash t e e'" for e e'
  proof (rule ccontr)
    assume not: "\<not> ?thesis"
    with covers[OF that] have "timetables_course_id e' \<in> set moved" "timetables_id e < timetables_id e'" by simp_all
    with covers[OF that(2,1) _ that(4)[symmetric] that(5)[symmetric]] that(6) clash_sym not show False by fastforce
  qed
  note half = this
  have "timetables_id e \<in> ?out \<or> timetables_id e' \<in> ?out"
    if *: "e \<in> set (tb_timetables t)" "e' \<in> set (tb_timetables t)"
      "timetables_user_id e' = timetables_user_id e" "timetables_id e' \<noteq> timetables_id e" "clash t e e'" for e e'
  proof (cases "timetables_course_id e \<in> set moved")
    case True
    from half[OF *(1,2) this *(3-5)] show ?thesis .
  next
    case False
    with only[OF *(1,2,5,3,4)] have "timetables_course_id e' \<in> set moved" by simp
    from half[OF *(2,1) this *(3)[symmetric] *(4)[symmetric]] *(5) clash_sym show ?thesis by blast
  qed
  note settled = this
  show ?thesis
    unfolding one_per_slot_def
  proof (intro ballI impI notI)
    fix e e' assume "e \<in> set (tb_timetables (without ?out t))" "e' \<in> set (tb_timetables (without ?out t))"
      and *: "timetables_user_id e' = timetables_user_id e" "timetables_id e' \<noteq> timetables_id e"
        "clash (without ?out t) e e'"
    then have "e \<in> set (tb_timetables t)" "timetables_id e \<notin> ?out" "e' \<in> set (tb_timetables t)"
      "timetables_id e' \<notin> ?out" "clash t e e'" by (auto simp: without_def delete_entries_where_def clash_def)
    with settled * show False by blast
  qed
qed

text \<open>An entry that is taken out clashes with one that stays.\<close>

lemma picking_is_fair:
  assumes "ids_ok t" and e: "e \<in> set (tb_timetables t)"
    and out: "timetables_id e \<in> picked moved [] (conflict_pairs t moved)"
  shows "timetables_course_id e \<in> set moved \<and>
    (\<exists>e'\<in>set (tb_timetables (without (picked moved [] (conflict_pairs t moved)) t)).
       timetables_user_id e' = timetables_user_id e \<and> clash t e e')"
proof -
  let ?ps = "conflict_pairs t moved"
  from out obtain c where c: "c \<in> set (pick_conflicts moved [] ?ps)" "sl_TimetableID c = timetables_id e" by auto
  have "\<forall>p\<in>set ?ps. \<forall>q\<in>set ?ps. timetables_id (pr_Other p) = timetables_id (pr_Entry q) \<longrightarrow>
      timetables_course_id (pr_Other p) \<in> set moved"
  proof (intro ballI impI)
    fix p q assume "p \<in> set ?ps" "q \<in> set ?ps" "timetables_id (pr_Other p) = timetables_id (pr_Entry q)"
    then have "pr_Other p = pr_Entry q" "timetables_course_id (pr_Entry q) \<in> set moved"
      using entry_unique[OF assms(1)] unfolding conflict_pairs_iff by blast+
    then show "timetables_course_id (pr_Other p) \<in> set moved" by simp
  qed
  with picked_kept[OF c(1) conflict_pairs_sorted] obtain p where p: "p \<in> set ?ps"
    "sl_TimetableID c = timetables_id (pr_Entry p)" "timetables_id (pr_Other p) \<notin> picked moved [] ?ps"
    by (auto simp: conflict_pairs_iff)
  from p(1)[unfolded conflict_pairs_iff] entry_unique[OF assms(1) _ e] c(2) p(2) have "pr_Entry p = e" by auto
  with p show ?thesis
    by (auto simp: conflict_pairs_iff without_def delete_entries_where_def clash_def intro!: bexI[of _ "pr_Other p"])
qed

text \<open>As many entries go as are picked.\<close>

lemma picked_count:
  assumes "ids_ok t" "all_pairs t moved ps"
  shows "length (tb_timetables (without (picked moved [] ps) t)) + length (pick_conflicts moved [] ps) =
    length (tb_timetables t)"
proof -
  let ?out = "picked moved [] ps"
  have "?out \<subseteq> timetables_id ` set (tb_timetables t)"
    using picked_pairs[of _ moved "[]" ps] assms(2) by (fastforce simp: all_pairs_def conflict_pairs_iff)
  moreover have d: "distinct (map timetables_id (tb_timetables t))" using assms(1) by (simp add: ids_ok_def)
  ultimately have "length (filter (\<lambda>e. timetables_id e \<in> ?out) (tb_timetables t)) = card ?out"
  proof -
    have "length (filter (\<lambda>e. timetables_id e \<in> ?out) (tb_timetables t)) =
        length (filter (\<lambda>i. i \<in> ?out) (map timetables_id (tb_timetables t)))"
      by (simp add: filter_map comp_def)
    also have "\<dots> = card (set (filter (\<lambda>i. i \<in> ?out) (map timetables_id (tb_timetables t))))"
      using d by (metis distinct_card distinct_filter)
    also have "set (filter (\<lambda>i. i \<in> ?out) (map timetables_id (tb_timetables t))) = ?out"
      using \<open>?out \<subseteq> _\<close> by auto
    finally show ?thesis .
  qed
  also have "\<dots> = length (pick_conflicts moved [] ps)"
    using distinct_card[OF picked_distinct] by simp
  finally show ?thesis
    using sum_length_filter_compl[of "\<lambda>e. timetables_id e \<in> ?out" "tb_timetables t"]
    by (simp add: without_def delete_entries_where_def)
qed

end
