(* ===== verification/Spec2Isabelle.thy ===== *)
theory Spec2Isabelle
  imports Authz Course_Plan_Props Import_Tracker Login_Guard Sse_Stream Chat_Content Chat_Read_Props Community_Props Account_Leave_Props Account_Props Ng_Guard_Props Timetable_Slots
begin

text \<open>
  SPACE-server is the server of a university community: chats in communities, direct messages and
  course rooms, posts, timetables, the import of the syllabus, moderation, and the accounts behind
  all of it. It is written in Go: usecase/ decides, infra/mysql and infra/redis store, internal/
  holds what the use cases share, graph/ translates requests. This development translates the
  parts that decide into functions and states what makes them correct.

  \<^bold>\<open>How Go becomes Isabelle.\<close> A struct is a \<open>record\<close>, an enumeration a \<open>datatype\<close>. A function that
  returns a value and an error is a function into \<open>go_error + 'a\<close> (\<open>result\<close>); one that also changes
  state is a \<open>proc\<close>, a function from a state to a result and a state, put together with \<open>bindP\<close>
  (stop at an error), \<open>tryP\<close> (look at it) and \<open>guardP\<close> (an early return). Strings are lists of
  bytes, as in Go. Integers are \<open>int\<close>; where the width matters (the numbers of events, the version
  of the word cache, years in a setting) the bound or the wrap-around is written out. Times are
  numbers, the clock is part of the state, and random values and fresh UUIDs are arguments. Messages
  of errors are English glosses of the Japanese originals; the codes are those of internal/apperr.

  \<^bold>\<open>Foundations.\<close>
  \<^item> Prelude: errors (internal/apperr), results and procedures, Go's conversions of numbers, grouping
    of lists. Go_Text: UTF-8 as \<open>utf8.DecodeRune\<close> reads it, trimming, searching.
  \<^item> Redis: the commands the stores use, as a record of functions with a locale \<open>redis_server\<close> of
    their documented behaviour (expiry, \<open>SET NX\<close>, scripts that run in one piece), replies that get
    lost before or after the server has acted, and an interpretation on a map with expiry times.
  \<^item> Db: the MySQL tables with their keys and foreign keys (db/migrations), the transaction carried by
    the context (infra/mysql/tx.go, tx_manager.go), statements on the pool beside it, and a list that
    says which of the coming statements fail. Db_Logic and Db_Chunks: rules for invariants inside
    and outside transactions, and for statements run in slices (\<open>inChunks\<close>).

  \<^bold>\<open>Who is calling.\<close> Authz (internal/authz, internal/auth/context.go): claims and roles. Tokens
  (internal/auth): issuing, verifying and revalidating tokens over a locale of the JWT library.
  Auth_Store, Auth_Store_Props (infra/redis): revoked tokens, login attempts, registration and reset
  codes. User_Session (usecase/user, usecase/administrator): login, refresh, logout, codes, passwords.
  Login_Guard (usecase/loginguard): the limit on failed logins. Shown: a token that verifies is signed,
  unexpired, not revoked and of the current credentials; a refresh token works once; after a logout
  neither token works; guesses of codes and passwords are bounded, on however many servers.

  \<^bold>\<open>The syllabus.\<close> Course_Plan with Course_Plan_Facts, Course_Plan_Rows and Course_Plan_Props
  (usecase/course/sync_plan.go): the planner as the sequence of elementary steps it is, and the
  accounting of courses and rows it keeps. Course_Store and Course_Sync (infra/mysql/course_repository.go,
  timetable_repository.go, course_sync_repository.go; usecase/timetable, usecase/course): courses with
  their rooms, timetables, and carrying out a plan in one transaction, for real or as a dry run.
  Timetable_Slots: why the entries \<open>FindSlotConflicts\<close> picks leave one course in each slot, and that
  each goes for one that stays. Import_Store, Import_Store_Props and Import_Tracker
  (internal/courseimport): one import at a time over all servers, with a lease and a fencing token.

  \<^bold>\<open>Events.\<close> Sse_Store, Sse_Store_Props (internal/sse/store.go, infra/redis/sse_store.go): numbering,
  history and replay; the locales \<open>event_store\<close> and \<open>durable_event_store\<close> are the contract both stores
  keep. Sse_Broker (internal/sse/broker.go, fanout.go): connections, full queues, the channel between
  servers. Sse_Stream (internal/transport/ssehttp, one-time tickets): opening a stream.

  \<^bold>\<open>Chats.\<close> Room_Store and Message_Store (infra/mysql): rooms, members, threads, messages, mentions,
  reactions, attachments, unread counts. Course_Access (usecase/semester, usecase/course): the current
  semester and who writes in a course room. Chat_Access (usecase/chat/access.go): the policy.
  Chat_Mention, Chat_Command, Chat_Stamp, Chat_Threads, Chat_Read (usecase/chat, usecase/room,
  usecase/chatstamp, usecase/message): sending, editing, deleting, reacting, stamps, threads, read
  positions. Chat_Command_Props, Chat_Props, Chat_Content, Chat_Read_Props: nobody writes, edits or
  deletes beyond the policy, the policy is the table of rules it should be, a failed operation leaves
  neither rows nor events, no message is empty, and read positions only move forward. Community,
  Community_Members, Community_Props (usecase/community, usecase/room): creating, joining, leaving,
  handing over; every community keeps an owner, and a change of members is a change of the map of roles.

  \<^bold>\<open>Posts and accounts.\<close> Post_Store, Post_Tree, Post_Props (infra/mysql/post_repository.go): the numbers of
  replies along the ancestors. User_Store, Account_Service, Account_Deletion (infra/mysql/user_repository.go,
  usecase/user, usecase/profile): accounts, profiles, leaving and the daily removal. Account_Settle,
  Post_Cascade, Account_Deletion_Props, Account_Leave_Props, Account_Props: whom the daily run takes, what is left
  of whom it takes, what it does to communities and posts, and what every stored account is.

  \<^bold>\<open>Forbidden words.\<close> Ng_Word, Ng_Guard, Ng_Word_Props, Ng_Guard_Props (model/ng_word.go, usecase/ngword):
  matching after normalisation, masking in the original text, and the cache of the guard under any
  interleaving of requests and changes.

  \<^bold>\<open>How the parts meet.\<close> The chat asks Chat_Access, which asks Course_Access and the rooms; what a
  command publishes goes to the broker, which numbers it in the event store. The planner's plan is
  carried out by Course_Sync over the tables that Course_Access and the timetables read. The deletion of
  an account uses the hand-over of Community and the recount of Post_Store in its one transaction. The
  stores on Redis rest on the one locale of Redis, and the clients of a store on the locale of its contract.

  \<^bold>\<open>Bounds and fuel.\<close> Three functions take fuel. \<open>purge_loop\<close> (the daily removal) is given more rounds than
  there are accounts that leave: every round but the last removes one or adds one to those that failed
  (clean_run_removes_all). \<open>with_threads\<close> and \<open>with_replies\<close> (what a foreign key takes along) are
  given as many rounds as there are rows, and every round but the last adds one. \<open>retry_attempts\<close> counts the
  attempts the code allows. The walks along posts and text are recursive functions with a measure
  (post_walks_end for the posts: a reply is younger than what it replies to). Numbers of events are below
  2 ^ 63 for fewer than 2 ^ 62 operations, and the version of the word cache does not return before
  2 ^ 64 changes; the theorems say so.

  \<^bold>\<open>Parameters.\<close> Code that is not in the repository: the JWT library, bcrypt, the cipher of messages, SHA-256,
  regular expressions and Unicode normalisation, the mailer, the object store, the Redis server. What a
  theorem needs of them is a hypothesis or the locale's assumption, with an instance that satisfies it.

  \<^bold>\<open>Not modelled.\<close> The generated GraphQL code and the resolvers, which call one use case each; start-up,
  configuration, logging and metrics; HTTP, WebSocket and storage input and output; the scraper's
  HTML; aggregate and paged queries that only feed lists and dashboards; polls, questions, answers,
  announcements, terms and reports, whose rights rest on the checks modelled here. Locks of rows are
  modelled as far as transactions go one after the other; isolation between two open transactions is not.
\<close>

end
